(* ===== verification/Prelude.thy ===== *)
theory Prelude
  imports Complex_Main "HOL-Library.List_Lexorder" "HOL-Library.Char_ord" "HOL-Library.Multiset"
begin

text \<open>
  What every component shares: the names of the model's basic types, dynamic values
  (\<open>any\<close> of the Go source), the list operations that SQL statements and Go loops come down
  to, and the simplification collections the component proofs use.

  Conventions of the whole development:
  \<^item> a Go \<open>string\<close> is a \<open>string\<close>, its bytes as characters;
  \<^item> a \<open>time.Time\<close> and a \<open>time.Duration\<close> are an \<open>int\<close> number of nanoseconds; an instant
    counts from Go's zero time, so \<open>t.IsZero()\<close> is \<open>t = 0\<close>;
  \<^item> a fallible function returns \<open>goerr + 'a\<close>, \<open>Inl\<close> the error;
  \<^item> a function that changes state takes the state and returns it changed.
\<close>

named_theorems row_simps \<open>what single statements do to single tables\<close>
named_theorems inv_intros \<open>operations that preserve an invariant\<close>
named_theorems branch_simps \<open>results of an operation on its branches\<close>

type_synonym time = int
type_synonym duration = int

abbreviation second :: duration where "second \<equiv> 1000000000"
abbreviation minute :: duration where "minute \<equiv> 60 * 1000000000"
abbreviation hour :: duration where "hour \<equiv> 3600 * 1000000000"
abbreviation day :: duration where "day \<equiv> 24 * (3600 * 1000000000)"

abbreviation isZero :: "time \<Rightarrow> bool" where "isZero t \<equiv> t = 0"

subsection \<open>Dynamic values\<close>

text \<open>
  The dynamic types of the \<open>any\<close> values the source inspects. \<open>VNilSlice\<close> is a nil slice of
  one of the slice types, which \<open>len\<close> treats as empty and a nil test tells apart. A Go map
  with string keys is an association list with distinct keys.
\<close>

datatype any =
    VNil
  | VNilSlice
  | VStr string
  | VInt int
  | VFloat rat
  | VBool bool
  | VSlice "any list"
  | VMaps "(string \<times> any) list list"
  | VStrs "string list"
  | VInts "int list"
  | VMap "(string \<times> any) list"

type_synonym object = "(string \<times> any) list"

definition lookupAny :: "object \<Rightarrow> string \<Rightarrow> any" where
  "lookupAny m k = (case map_of m k of None \<Rightarrow> VNil | Some v \<Rightarrow> v)"

lemma lookupAny_Nil [simp]: "lookupAny [] k = VNil"
  by (simp add: lookupAny_def)

lemma lookupAny_Cons [simp]:
  "lookupAny ((k', v) # m) k = (if k = k' then v else lookupAny m k)"
  by (simp add: lookupAny_def)

subsection \<open>Byte strings\<close>

definition hexDigit :: "nat \<Rightarrow> char" where
  "hexDigit n = ''0123456789abcdef'' ! n"

definition hexEncode :: "string \<Rightarrow> string" where
  \<comment> \<open>\<open>hex.EncodeToString\<close>\<close>
  "hexEncode bs = concat (map (\<lambda>c. [hexDigit (of_char c div 16), hexDigit (of_char c mod 16)]) bs)"

lemma length_hexEncode: "length (hexEncode bs) = 2 * length bs"
  by (induction bs) (auto simp: hexEncode_def)

definition hasPrefix :: "string \<Rightarrow> string \<Rightarrow> bool" where
  "hasPrefix s p = (take (length p) s = p)"

fun strContains :: "string \<Rightarrow> string \<Rightarrow> bool" where
  \<comment> \<open>\<open>strings.Contains\<close>\<close>
  "strContains [] sub = (sub = [])"
| "strContains (c # s) sub = (hasPrefix (c # s) sub \<or> strContains s sub)"

fun trimRight :: "char \<Rightarrow> string \<Rightarrow> string" where
  \<comment> \<open>\<open>strings.TrimRight\<close> for a cut set of one character\<close>
  "trimRight c s = rev (dropWhile (\<lambda>x. x = c) (rev s))"

definition digitChar :: "nat \<Rightarrow> char" where
  "digitChar n = ''0123456789'' ! n"

fun showNat :: "nat \<Rightarrow> string" where
  "showNat n = (if n < 10 then [digitChar n] else showNat (n div 10) @ [digitChar (n mod 10)])"

declare showNat.simps [simp del]

definition itoa :: "int \<Rightarrow> string" where
  \<comment> \<open>\<open>strconv.Itoa\<close> and \<open>strconv.FormatInt\<close> in base 10\<close>
  "itoa i = (if i < 0 then CHR ''-'' # showNat (nat (- i)) else showNat (nat i))"

definition joinStr :: "string \<Rightarrow> string list \<Rightarrow> string" where
  \<comment> \<open>\<open>strings.Join\<close>\<close>
  "joinStr sep xs = (case xs of [] \<Rightarrow> [] | y # ys \<Rightarrow> y @ concat (map (\<lambda>z. sep @ z) ys))"

subsection \<open>Lists as tables\<close>

definition removeWhere :: "('a \<Rightarrow> bool) \<Rightarrow> 'a list \<Rightarrow> 'a list" where
  \<comment> \<open>\<open>DELETE FROM t WHERE p\<close>\<close>
  "removeWhere p xs = filter (\<lambda>x. \<not> p x) xs"

definition updateWhere :: "('a \<Rightarrow> bool) \<Rightarrow> ('a \<Rightarrow> 'a) \<Rightarrow> 'a list \<Rightarrow> 'a list" where
  \<comment> \<open>\<open>UPDATE t SET f WHERE p\<close>\<close>
  "updateWhere p f xs = map (\<lambda>x. if p x then f x else x) xs"

definition countWhere :: "('a \<Rightarrow> bool) \<Rightarrow> 'a list \<Rightarrow> nat" where
  \<comment> \<open>\<open>SELECT COUNT(*) FROM t WHERE p\<close>\<close>
  "countWhere p xs = length (filter p xs)"

lemma set_removeWhere [simp]: "set (removeWhere p xs) = {x \<in> set xs. \<not> p x}"
  by (auto simp: removeWhere_def)

lemma set_updateWhere [simp]:
  "set (updateWhere p f xs) = (\<lambda>x. if p x then f x else x) ` set xs"
  by (simp add: updateWhere_def)

lemma length_updateWhere [simp]: "length (updateWhere p f xs) = length xs"
  by (simp add: updateWhere_def)

lemma removeWhere_Nil [simp]: "removeWhere p [] = []"
  by (simp add: removeWhere_def)

lemma removeWhere_Cons [simp]:
  "removeWhere p (x # xs) = (if p x then removeWhere p xs else x # removeWhere p xs)"
  by (simp add: removeWhere_def)

lemma removeWhere_append [simp]: "removeWhere p (xs @ ys) = removeWhere p xs @ removeWhere p ys"
  by (simp add: removeWhere_def)

lemma updateWhere_Nil [simp]: "updateWhere p f [] = []"
  by (simp add: updateWhere_def)

lemma updateWhere_Cons [simp]:
  "updateWhere p f (x # xs) = (if p x then f x else x) # updateWhere p f xs"
  by (simp add: updateWhere_def)

lemma countWhere_Nil [simp]: "countWhere p [] = 0"
  by (simp add: countWhere_def)

lemma countWhere_Cons [simp]:
  "countWhere p (x # xs) = (if p x then Suc (countWhere p xs) else countWhere p xs)"
  by (simp add: countWhere_def)

lemma countWhere_append [simp]: "countWhere p (xs @ ys) = countWhere p xs + countWhere p ys"
  by (simp add: countWhere_def)

lemma distinct_map_removeWhere: "distinct (map f xs) \<Longrightarrow> distinct (map f (removeWhere p xs))"
  by (induction xs) auto

lemma map_updateWhere_key:
  "(\<And>x. p x \<Longrightarrow> k (f x) = k x) \<Longrightarrow> map k (updateWhere p f xs) = map k xs"
  by (induction xs) auto

lemma updateWhere_none: "\<forall>x \<in> set xs. \<not> p x \<Longrightarrow> updateWhere p f xs = xs"
  by (induction xs) auto

lemma removeWhere_none: "\<forall>x \<in> set xs. \<not> p x \<Longrightarrow> removeWhere p xs = xs"
  by (induction xs) auto

lemma find_Some_iff_distinct:
  "distinct (map k xs) \<Longrightarrow> x \<in> set xs \<Longrightarrow> find (\<lambda>y. k y = k x) xs = Some x"
  by (induction xs) (auto simp: image_iff)

lemma find_SomeD: "find p xs = Some x \<Longrightarrow> x \<in> set xs \<and> p x"
  by (induction xs) (auto split: if_splits)

lemma find_NoneD: "find p xs = None \<Longrightarrow> x \<in> set xs \<Longrightarrow> \<not> p x"
  by (induction xs) (auto split: if_splits)

lemma find_removeWhere_same [simp]: "find p (removeWhere p xs) = None"
  by (induction xs) auto

lemma find_removeWhere_other:
  "(\<And>x. p x \<Longrightarrow> \<not> q x) \<Longrightarrow> find p (removeWhere q xs) = find p xs"
  by (induction xs) auto

lemma find_key_None: "find (\<lambda>x. k x = v) xs = None \<longleftrightarrow> v \<notin> k ` set xs"
  by (induction xs) auto

lemma find_append: "find p (xs @ ys) = (case find p xs of None \<Rightarrow> find p ys | Some x \<Rightarrow> Some x)"
  by (induction xs) auto

end
