(* ===== verification/GoErrors.thy ===== *)
theory GoErrors
  imports Prelude
begin

text \<open>
  The errors of the program. A Go error value is a tree: a sentinel (\<open>errors.New\<close>), one of
  the program's error types, or a wrapper (\<open>fmt.Errorf\<close> with \<open>%w\<close>, \<open>errors.Join\<close>)
  around one or two others. \<open>errors_is\<close> and \<open>errors_as\<close> walk it as \<open>errors.Is\<close>
  and \<open>errors.As\<close> do, depth first and left to right.

  On top of the tree stand the three places where an error becomes a response:
  \<open>MapError\<close> (usecase/session/errors.go) with its kinds, \<open>toolSentence\<close>
  (usecase/eve/errors.go) with its sentences, and \<open>page_lookup\<close> (service/http/errors.go)
  with the human pages. Texts of wrappers are kept only where a decision reads them.
\<close>

datatype sentinel =
    ErrMailCap | ErrConfirmUnknown | ErrConfirmArgs | ErrConfirmTool | ErrUnknownCapability
  | ErrMissingWriteScope | ErrConfirmNotFound | errMailHoldAbandoned | errHoldRequired
  | ErrAllowanceSpent | ErrBudgetSpent
  | ErrInvalidGrant
  | ErrNoSession | ErrDeadSession | ErrMissingScope | ErrNPCCorp | ErrMissingCorpRole
  | ErrNoCorporation
  | ErrUnknownLogin | ErrClientMismatch | ErrLoginRefused | ErrUnavailable | errShortGrant
  | errBadAlg | errInvalidToken | errNotRefresh | errNoSub | errBadCharacter | errNoSID
  | ErrCSPAUnpriced
  | confirm_ErrNotFound | session_ErrNotFound | ErrNeedTx | character_ErrNotFound
  | authcode_ErrNotFound | loginstate_ErrNotFound | oauthclient_ErrNotFound
  | errNoTokenSource

datatype goerr =
    Sentinel sentinel
  | External string
  | Wrap string goerr
  | Wrap2 goerr goerr
  | Join goerr goerr
  | BlockedError string goerr
  | UserLimitedError time int goerr
  | RateLimitedError int time int "int option" "int option"
  | EsiError string int
  | SsoError string
  | ShortGrantError "string list"
  | ValidationError string string
  | UnresolvedError "string list"
  | CSPAExceedsError rat int
  | PreviewReadError string goerr

text \<open>
  \<open>External\<close> is an error of a library or service (Postgres, the network, JSON), of which
  the program inspects nothing. \<open>wrap\<close> of each package is \<open>Wrap\<close> on a non-nil error.
\<close>

subsection \<open>errors.Is and errors.As\<close>

primrec errors_is :: "goerr \<Rightarrow> sentinel \<Rightarrow> bool" where
  "errors_is (Sentinel x) s = (x = s)"
| "errors_is (External _) s = False"
| "errors_is (Wrap _ e) s = errors_is e s"
| "errors_is (Wrap2 d e) s = (errors_is d s \<or> errors_is e s)"
| "errors_is (Join d e) s = (errors_is d s \<or> errors_is e s)"
| "errors_is (BlockedError _ e) s = errors_is e s"
| "errors_is (UserLimitedError _ _ e) s = errors_is e s"
| "errors_is (RateLimitedError _ _ _ _ _) s = False"
| "errors_is (EsiError _ _) s = False"
| "errors_is (SsoError _) s = False"
| "errors_is (ShortGrantError _) s = (s = errShortGrant)"
| "errors_is (ValidationError _ _) s = False"
| "errors_is (UnresolvedError _) s = False"
| "errors_is (CSPAExceedsError _ _) s = False"
| "errors_is (PreviewReadError _ e) s = errors_is e s"

text \<open>The nodes of the tree in the order \<open>errors.As\<close> visits them.\<close>

primrec errors_chain :: "goerr \<Rightarrow> goerr list" where
  "errors_chain (Sentinel x) = [Sentinel x]"
| "errors_chain (External x) = [External x]"
| "errors_chain (Wrap op e) = Wrap op e # errors_chain e"
| "errors_chain (Wrap2 d e) = Wrap2 d e # errors_chain d @ errors_chain e"
| "errors_chain (Join d e) = Join d e # errors_chain d @ errors_chain e"
| "errors_chain (BlockedError m e) = BlockedError m e # errors_chain e"
| "errors_chain (UserLimitedError a b e) = UserLimitedError a b e # errors_chain e"
| "errors_chain (RateLimitedError a b c d e) = [RateLimitedError a b c d e]"
| "errors_chain (EsiError m n) = [EsiError m n]"
| "errors_chain (SsoError m) = [SsoError m]"
| "errors_chain (ShortGrantError m) = [ShortGrantError m, Sentinel errShortGrant]"
| "errors_chain (ValidationError f i) = [ValidationError f i]"
| "errors_chain (UnresolvedError ns) = [UnresolvedError ns]"
| "errors_chain (CSPAExceedsError c a) = [CSPAExceedsError c a]"
| "errors_chain (PreviewReadError r e) = PreviewReadError r e # errors_chain e"

fun firstSome :: "('a \<Rightarrow> 'b option) \<Rightarrow> 'a list \<Rightarrow> 'b option" where
  "firstSome f [] = None"
| "firstSome f (x # xs) = (case f x of None \<Rightarrow> firstSome f xs | Some y \<Rightarrow> Some y)"

definition errors_as :: "(goerr \<Rightarrow> 'a option) \<Rightarrow> goerr \<Rightarrow> 'a option" where
  "errors_as f e = firstSome f (errors_chain e)"

text \<open>The target types the program asks for, each with the fields read from it.\<close>

definition asBlocked :: "goerr \<Rightarrow> (string) option" where
  "asBlocked e = (case e of BlockedError m _ \<Rightarrow> Some m | _ \<Rightarrow> None)"
definition asUserLimited :: "goerr \<Rightarrow> (time \<times> int) option" where
  "asUserLimited e = (case e of UserLimitedError retryAt retrySec _ \<Rightarrow> Some (retryAt, retrySec) | _ \<Rightarrow> None)"
definition asRateLimited :: "goerr \<Rightarrow> (int \<times> time \<times> int \<times> int option \<times> int option) option" where
  "asRateLimited e = (case e of RateLimitedError st ra sec rem res \<Rightarrow> Some (st, ra, sec, rem, res) | _ \<Rightarrow> None)"
definition asEsiError :: "goerr \<Rightarrow> (string \<times> int) option" where
  "asEsiError e = (case e of EsiError m s \<Rightarrow> Some (m, s) | _ \<Rightarrow> None)"
definition asSsoError :: "goerr \<Rightarrow> (string) option" where
  "asSsoError e = (case e of SsoError m \<Rightarrow> Some m | _ \<Rightarrow> None)"
definition asValidation :: "goerr \<Rightarrow> (string \<times> string) option" where
  "asValidation e = (case e of ValidationError f i \<Rightarrow> Some (f, i) | _ \<Rightarrow> None)"
definition asUnresolved :: "goerr \<Rightarrow> (string list) option" where
  "asUnresolved e = (case e of UnresolvedError ns \<Rightarrow> Some ns | _ \<Rightarrow> None)"
definition asCSPAExceeds :: "goerr \<Rightarrow> (rat \<times> int) option" where
  "asCSPAExceeds e = (case e of CSPAExceedsError c a \<Rightarrow> Some (c, a) | _ \<Rightarrow> None)"
definition asPreviewRead :: "goerr \<Rightarrow> (string) option" where
  "asPreviewRead e = (case e of PreviewReadError r _ \<Rightarrow> Some r | _ \<Rightarrow> None)"
definition asShortGrant :: "goerr \<Rightarrow> (string list) option" where
  "asShortGrant e = (case e of ShortGrantError ms \<Rightarrow> Some ms | _ \<Rightarrow> None)"

lemmas as_kind_defs =
  asBlocked_def asUserLimited_def asRateLimited_def asEsiError_def asSsoError_def asValidation_def asUnresolved_def asCSPAExceeds_def asPreviewRead_def asShortGrant_def

text \<open>\<open>wrap(op, err)\<close> is nil for a nil error: on results it maps over the error side.\<close>

definition wrapR :: "string \<Rightarrow> goerr + 'a \<Rightarrow> goerr + 'a" where
  "wrapR op r = (case r of Inl e \<Rightarrow> Inl (Wrap op e) | Inr x \<Rightarrow> Inr x)"

lemma wrapR_simps [simp]: "wrapR op (Inl e) = Inl (Wrap op e)" "wrapR op (Inr x) = Inr x"
  by (simp_all add: wrapR_def)

lemma wrapR_eq_Inr [simp]: "wrapR op r = Inr x \<longleftrightarrow> r = Inr x"
  by (simp add: wrapR_def split: sum.splits)

lemma errors_as_Wrap [simp]: "f (Wrap op e) = None \<Longrightarrow> errors_as f (Wrap op e) = errors_as f e"
  by (simp add: errors_as_def)

lemma as_kind_Wrap [simp]:
  "asBlocked (Wrap op e) = None" "asUserLimited (Wrap op e) = None"
  "asRateLimited (Wrap op e) = None" "asEsiError (Wrap op e) = None"
  "asSsoError (Wrap op e) = None" "asValidation (Wrap op e) = None"
  "asUnresolved (Wrap op e) = None" "asCSPAExceeds (Wrap op e) = None"
  "asPreviewRead (Wrap op e) = None" "asShortGrant (Wrap op e) = None"
  by (simp_all add: as_kind_defs)

lemma errors_is_iff_chain: "errors_is e s \<longleftrightarrow> Sentinel s \<in> set (errors_chain e)"
  by (induction e) auto

end
