(* ===== verification/Store.thy ===== *)
theory Store
  imports GoErrors
begin

text \<open>
  The database as the statements of the repositories see it: a row record per table of sql/,
  the tables as lists, the identity sequences, and the two ways the program runs SQL.
  \<open>runStmt\<close> runs one statement; \<open>WithinTx\<close> (internal/postgres/tx.go) runs a function in a
  transaction and gives its changes up on an error. A statement either takes effect whole or
  fails: with the constraint violation the schema prescribes, or because the oracle
  \<open>w_faults\<close> says the call fails (connection lost, server down). One entry is used up per
  call; an empty list means no further fault.

  \<open>w_now\<close> is read both by SQL's \<open>now()\<close> and by \<open>time.Now()\<close>: one operation of the model
  runs at one instant. \<open>w_rand\<close> holds the results of \<open>crypto/rand.Read\<close>, and \<open>w_ccp\<close>
  logs the refresh tokens sent to CCP's revocation endpoint, in order. \<open>w_capRejections\<close> is
  the process's counter \<open>MailCapRejections\<close>.
\<close>

subsection \<open>Rows\<close>

record character_row =
  ch_id :: int
  ch_name :: string
  ch_owner_hash :: string
  ch_added_at :: time
  ch_deleted_at :: "time option"

record session_row =
  se_id :: int
  se_character_id :: int
  se_refresh_token :: "string option"
  se_scopes :: "string list"
  se_mcp_client_id :: string
  se_client_name :: string
  se_ip :: string
  se_created_at :: time
  se_valid_til :: time
  se_revoked_at :: "time option"

record confirm_row =
  ct_token :: string
  ct_session_id :: int
  ct_tool :: string
  ct_args_digest :: string
  ct_created_at :: time
  ct_expires_at :: time

record mutation_row =
  mu_id :: int
  mu_character_id :: int
  mu_session_id :: "int option"
  mu_tool :: string
  mu_capability :: string
  mu_args_digest :: string
  mu_summary :: string
  mu_outcome :: string
  mu_esi_status :: "int option"
  mu_error :: "string option"
  mu_created_at :: time

record login_row =
  ls_state :: string
  ls_pkce_verifier :: string
  ls_scopes :: "string list"
  ls_mcp_client_id :: string
  ls_redirect_uri :: string
  ls_mcp_state :: string
  ls_code_challenge :: string
  ls_created_at :: time

record code_row =
  ac_code :: string
  ac_character_id :: int
  ac_refresh_token :: string
  ac_scopes :: "string list"
  ac_mcp_client_id :: string
  ac_redirect_uri :: string
  ac_code_challenge :: string
  ac_expires_at :: time

record client_row =
  oc_client_id :: string
  oc_client_name :: string
  oc_redirect_uris :: "string list"
  oc_created_at :: time
  oc_deleted_at :: "time option"

record db =
  t_characters :: "character_row list"
  t_sessions :: "session_row list"
  t_confirms :: "confirm_row list"
  t_mutations :: "mutation_row list"
  t_logins :: "login_row list"
  t_codes :: "code_row list"
  t_clients :: "client_row list"
  seq_sessions :: int
  seq_mutations :: int

text \<open>
  \<open>grantState\<close> (usecase/session/grant.go) is what the process remembers of a character's grant:
  the refresh token it last saw and the access token with its expiry. \<open>w_grants\<close> holds it per
  character, as the server keeps one session object per character.
\<close>

record grantState =
  gs_refresh :: string
  gs_access :: string
  gs_expiry :: time

record world =
  w_db :: db
  w_now :: time
  w_faults :: "bool list"
  w_tx :: bool
  w_rand :: "string option list"
  w_ccp :: "string list"
  w_capRejections :: nat
  w_grants :: "int \<Rightarrow> grantState"

definition noGrant :: grantState where
  "noGrant = \<lparr>gs_refresh = [], gs_access = [], gs_expiry = 0\<rparr>"

definition empty_db :: db where
  "empty_db = \<lparr>t_characters = [], t_sessions = [], t_confirms = [], t_mutations = [],
     t_logins = [], t_codes = [], t_clients = [], seq_sessions = 1, seq_mutations = 1\<rparr>"

definition world0 :: "time \<Rightarrow> world" where
  "world0 t = \<lparr>w_db = empty_db, w_now = t, w_faults = [], w_tx = False, w_rand = [], w_ccp = [], w_capRejections = 0,
     w_grants = (\<lambda>_. noGrant)\<rparr>"

type_synonym 'a action = "world \<Rightarrow> (goerr + 'a) \<times> world"

subsection \<open>Statements and transactions\<close>

definition dbFault :: goerr where "dbFault = External ''postgres''"

definition popFault :: "world \<Rightarrow> bool \<times> world" where
  "popFault w = (case w_faults w of [] \<Rightarrow> (False, w) | f # fs \<Rightarrow> (f, w\<lparr>w_faults := fs\<rparr>))"

definition runStmt :: "(db \<Rightarrow> goerr + ('a \<times> db)) \<Rightarrow> 'a action" where
  "runStmt f w =
    (let (fault, w1) = popFault w in
     if fault then (Inl dbFault, w1)
     else case f (w_db w1) of
        Inl e \<Rightarrow> (Inl e, w1)
      | Inr (x, d) \<Rightarrow> (Inr x, w1\<lparr>w_db := d\<rparr>))"

text \<open>A rollback restores the tables; an identity sequence keeps the values it gave out.\<close>

definition rollbackTo :: "db \<Rightarrow> db \<Rightarrow> db" where
  "rollbackTo d0 d1 = d0\<lparr>seq_sessions := seq_sessions d1, seq_mutations := seq_mutations d1\<rparr>"

definition WithinTx :: "'a action \<Rightarrow> 'a action" where
  "WithinTx fn w =
    (if w_tx w then fn w
     else let (beginFault, w0) = popFault w in
       if beginFault then (Inl (Wrap ''postgres: begin'' dbFault), w0)
       else let (r, w1) = fn (w0\<lparr>w_tx := True\<rparr>) in
         case r of
           Inl e \<Rightarrow>
             (let (rbFault, w2) = popFault w1;
                  w3 = w2\<lparr>w_db := rollbackTo (w_db w0) (w_db w1), w_tx := False\<rparr> in
              if rbFault then (Inl (Wrap ''postgres: rollback'' (Join e dbFault)), w3)
              else (Inl e, w3))
         | Inr x \<Rightarrow>
             (let (coFault, w2) = popFault w1 in
              if coFault
              then (Inl (Wrap ''postgres: commit'' dbFault),
                    w2\<lparr>w_db := rollbackTo (w_db w0) (w_db w1), w_tx := False\<rparr>)
              else (Inr x, w2\<lparr>w_tx := False\<rparr>)))"

definition randRead :: "world \<Rightarrow> string option \<times> world" where
  "randRead w = (case w_rand w of [] \<Rightarrow> (None, w) | b # bs \<Rightarrow> (b, w\<lparr>w_rand := bs\<rparr>))"

text \<open>A result with the state passed on: the shape of \<open>if err != nil { return err }\<close>.\<close>

definition andThen :: "'a action \<Rightarrow> ('a \<Rightarrow> 'b action) \<Rightarrow> 'b action" where
  "andThen m k w = (case m w of (Inl e, w1) \<Rightarrow> (Inl e, w1) | (Inr x, w1) \<Rightarrow> k x w1)"

definition wrapA :: "string \<Rightarrow> 'a action \<Rightarrow> 'a action" where
  "wrapA op m w = (case m w of (r, w1) \<Rightarrow> (wrapR op r, w1))"


lemma andThen_Inl [simp]: "m w = (Inl e, w1) \<Longrightarrow> andThen m k w = (Inl e, w1)"
  by (simp add: andThen_def)

lemma andThen_Inr [simp]: "m w = (Inr x, w1) \<Longrightarrow> andThen m k w = k x w1"
  by (simp add: andThen_def)

lemma wrapA_simp [simp]: "m w = (r, w1) \<Longrightarrow> wrapA op m w = (wrapR op r, w1)"
  by (simp add: wrapA_def)

lemma andThen_InrE:
  assumes "andThen m k w = (Inr x, w')"
  obtains y w1 where "m w = (Inr y, w1)" "k y w1 = (Inr x, w')"
  using assms by (auto simp: andThen_def split: prod.splits sum.splits)

lemma wrapA_Inr_iff [simp]: "wrapA op m w = (Inr x, w') \<longleftrightarrow> m w = (Inr x, w')"
  by (auto simp: wrapA_def wrapR_def split: prod.splits sum.splits)

lemma wrapA_InlE:
  assumes "wrapA op m w = (Inl e, w')" obtains e' where "m w = (Inl e', w')" "e = Wrap op e'"
  using assms by (auto simp: wrapA_def wrapR_def split: prod.splits sum.splits)

lemma popFault_keeps [simp]:
  "w_db (snd (popFault w)) = w_db w" "w_now (snd (popFault w)) = w_now w"
  "w_tx (snd (popFault w)) = w_tx w" "w_ccp (snd (popFault w)) = w_ccp w"
  "w_rand (snd (popFault w)) = w_rand w"
  by (auto simp: popFault_def split: list.split)

lemma popFault_none [simp]: "w_faults w = [] \<Longrightarrow> popFault w = (False, w)"
  by (simp add: popFault_def)

lemma randRead_keeps [simp]:
  "w_db (snd (randRead w)) = w_db w" "w_now (snd (randRead w)) = w_now w"
  "w_tx (snd (randRead w)) = w_tx w" "w_ccp (snd (randRead w)) = w_ccp w"
  "w_faults (snd (randRead w)) = w_faults w"
  by (auto simp: randRead_def split: list.split)

lemma runStmt_ok:
  "w_faults w = [] \<Longrightarrow> runStmt f w = (case f (w_db w) of Inl e \<Rightarrow> (Inl e, w)
     | Inr (x, d) \<Rightarrow> (Inr x, w\<lparr>w_db := d\<rparr>))"
  by (simp add: runStmt_def)

text \<open>What a statement that reports success did, and that a failing one did nothing.\<close>

lemma runStmt_Inr:
  assumes "runStmt f w = (Inr x, w')"
  shows "f (w_db w) = Inr (x, w_db w')" "w_now w' = w_now w" "w_tx w' = w_tx w"
    "w_ccp w' = w_ccp w" "w_rand w' = w_rand w"
proof -
  obtain b w1 where p: "popFault w = (b, w1)" by force
  then have "w_db w1 = w_db w" "w_now w1 = w_now w" "w_tx w1 = w_tx w" "w_ccp w1 = w_ccp w"
    "w_rand w1 = w_rand w"
    using popFault_keeps[of w] by simp_all
  then show "f (w_db w) = Inr (x, w_db w')" "w_now w' = w_now w" "w_tx w' = w_tx w"
    "w_ccp w' = w_ccp w" "w_rand w' = w_rand w"
    using assms p by (auto simp: runStmt_def split: if_splits sum.splits)
qed

lemma runStmt_Inl:
  assumes "runStmt f w = (Inl e, w')"
  shows "w_db w' = w_db w" "w_now w' = w_now w" "w_tx w' = w_tx w" "w_ccp w' = w_ccp w"
    "w_rand w' = w_rand w"
proof -
  obtain b w1 where p: "popFault w = (b, w1)" by force
  then have "w_db w1 = w_db w" "w_now w1 = w_now w" "w_tx w1 = w_tx w" "w_ccp w1 = w_ccp w"
    "w_rand w1 = w_rand w"
    using popFault_keeps[of w] by simp_all
  then show "w_db w' = w_db w" "w_now w' = w_now w" "w_tx w' = w_tx w" "w_ccp w' = w_ccp w"
    "w_rand w' = w_rand w"
    using assms p by (auto simp: runStmt_def split: if_splits sum.splits)
qed

lemma runStmt_read:
  assumes "\<And>d x d'. f d = Inr (x, d') \<Longrightarrow> d' = d"
  shows "w_db (snd (runStmt f w)) = w_db w"
proof (cases "runStmt f w")
  case (Pair r w')
  then show ?thesis
    using runStmt_Inl(1)[of f w _ w'] runStmt_Inr(1)[of f w _ w'] assms by (cases r) force+
qed

subsection \<open>Atomicity\<close>

text \<open>The tables without the identity sequences, which no rollback takes back.\<close>

definition tables :: "db \<Rightarrow> db" where
  "tables d = d\<lparr>seq_sessions := 0, seq_mutations := 0\<rparr>"

lemma tables_rollbackTo [simp]: "tables (rollbackTo d0 d1) = tables d0"
  by (simp add: tables_def rollbackTo_def)

lemma tables_eqD:
  "tables d = tables d' \<Longrightarrow> t_characters d = t_characters d' \<and> t_sessions d = t_sessions d' \<and>
     t_confirms d = t_confirms d' \<and> t_mutations d = t_mutations d' \<and> t_logins d = t_logins d' \<and>
     t_codes d = t_codes d' \<and> t_clients d = t_clients d'"
  by (cases d; cases d') (simp add: tables_def)

lemma WithinTx_nested [simp]: "w_tx w \<Longrightarrow> WithinTx fn w = fn w"
  by (simp add: WithinTx_def)

text \<open>Outside a transaction, an error means no table changed; success is the function's own.\<close>

lemma WithinTx_Inl:
  assumes "WithinTx fn w = (Inl e, w')" "\<not> w_tx w"
  shows "tables (w_db w') = tables (w_db w)"
proof -
  obtain b w0 where p: "popFault w = (b, w0)" by force
  then have d: "w_db w0 = w_db w" using popFault_keeps(1)[of w] by simp
  show ?thesis
  proof (cases b)
    case True
    then show ?thesis using assms p d by (simp add: WithinTx_def)
  next
    case False
    obtain r w1 where f: "fn (w0\<lparr>w_tx := True\<rparr>) = (r, w1)" by force
    obtain c w2 where q: "popFault w1 = (c, w2)" by force
    show ?thesis
      using assms p d False f q by (auto simp: WithinTx_def Let_def split: sum.splits if_splits)
  qed
qed

lemma WithinTx_Inr:
  assumes "WithinTx fn w = (Inr x, w')" "\<not> w_tx w"
  obtains w0 w1 where "popFault w = (False, w0)" "fn (w0\<lparr>w_tx := True\<rparr>) = (Inr x, w1)"
    "popFault w1 = (False, w'\<lparr>w_tx := w_tx w1\<rparr>)" "w_db w' = w_db w1" "w_now w' = w_now w1"
    "w_ccp w' = w_ccp w1" "w_rand w' = w_rand w1" "\<not> w_tx w'"
proof -
  obtain b w0 where p: "popFault w = (b, w0)" by force
  have b: "\<not> b" using assms p by (auto simp: WithinTx_def)
  obtain r w1 where f: "fn (w0\<lparr>w_tx := True\<rparr>) = (r, w1)" by force
  obtain c w2 where q: "popFault w1 = (c, w2)" by force
  have r: "r = Inr x" and c: "\<not> c" and w': "w' = w2\<lparr>w_tx := False\<rparr>"
    using assms p f q b by (auto simp: WithinTx_def Let_def split: sum.splits if_splits)
  have k: "w_db w2 = w_db w1" "w_now w2 = w_now w1" "w_tx w2 = w_tx w1" "w_ccp w2 = w_ccp w1"
    "w_rand w2 = w_rand w1"
    using q popFault_keeps[of w1] by simp_all
  show thesis
    by (rule that[of w0 w1]) (use p b f q r c w' k in auto)
qed

lemma rollbackTo_self [simp]: "rollbackTo d d = d"
  by (simp add: rollbackTo_def)

text \<open>A function that only reads leaves tables and clock alone inside a transaction too.\<close>

lemma WithinTx_read:
  assumes "\<And>v. w_db (snd (fn v)) = w_db v \<and> w_now (snd (fn v)) = w_now v"
  shows "w_db (snd (WithinTx fn w)) = w_db w \<and> w_now (snd (WithinTx fn w)) = w_now w"
proof -
  obtain b w0 where p: "popFault w = (b, w0)" by force
  obtain r w1 where f: "fn (w0\<lparr>w_tx := True\<rparr>) = (r, w1)" by force
  obtain c w2 where q: "popFault w1 = (c, w2)" by force
  have k: "w_db w0 = w_db w" "w_now w0 = w_now w" "w_db w1 = w_db w0" "w_now w1 = w_now w0"
    "w_db w2 = w_db w1" "w_now w2 = w_now w1"
    using p q f popFault_keeps[of w] popFault_keeps[of w1] assms[of "w0\<lparr>w_tx := True\<rparr>"] by simp_all
  show ?thesis
    using assms[of w] p f q k by (cases "w_tx w"; cases b; cases r; cases c) (simp_all add: WithinTx_def)
qed

lemma wrapA_world [simp]: "snd (wrapA op m w) = snd (m w)"
  by (simp add: wrapA_def split_beta)

text \<open>
  Parts of the world that statements and transactions do not touch: the clock, the random
  source, the calls to CCP, the grants in memory. A function that leaves such a part alone still
  does so when it is run in a transaction or put after another.
\<close>

definition keeps :: "(world \<Rightarrow> 'b) \<Rightarrow> 'a action \<Rightarrow> bool" where
  "keeps f m = (\<forall>w. f (snd (m w)) = f w)"

lemma keepsD: "keeps f m \<Longrightarrow> f (snd (m w)) = f w"
  by (simp add: keeps_def)

locale world_field =
  fixes f :: "world \<Rightarrow> 'b"
  assumes f_faults: "f (w\<lparr>w_faults := x\<rparr>) = f w"
    and f_tx: "f (w\<lparr>w_tx := b\<rparr>) = f w"
    and f_db: "f (w\<lparr>w_db := d\<rparr>) = f w"
begin

lemma popFault_field: "f (snd (popFault w)) = f w"
  by (auto simp: popFault_def f_faults split: list.split)

lemma keeps_runStmt: "keeps f (runStmt g)"
  unfolding keeps_def
proof
  fix w
  obtain b w1 where p: "popFault w = (b, w1)" by force
  then have "f w1 = f w" using popFault_field[of w] by simp
  then show "f (snd (runStmt g w)) = f w"
    using p by (auto simp: runStmt_def f_db split: sum.split)
qed

lemma keeps_wrapA: "keeps f m \<Longrightarrow> keeps f (wrapA op m)"
  by (simp add: keeps_def)

lemma keeps_andThen:
  assumes "keeps f m" "\<And>x. keeps f (k x)" shows "keeps f (andThen m k)"
  unfolding keeps_def
proof
  fix w
  obtain r w1 where m: "m w = (r, w1)" by force
  then have "f w1 = f w" using assms(1) unfolding keeps_def by (metis snd_conv)
  then show "f (snd (andThen m k w)) = f w"
    using m assms(2) by (cases r) (auto simp: keeps_def)
qed

lemma keeps_WithinTx:
  assumes "keeps f m" shows "keeps f (WithinTx m)"
  unfolding keeps_def
proof
  fix w
  obtain b w0 where p: "popFault w = (b, w0)" by force
  obtain r w1 where m: "m (w0\<lparr>w_tx := True\<rparr>) = (r, w1)" by force
  obtain c w2 where q: "popFault w1 = (c, w2)" by force
  have "f w0 = f w" using popFault_field[of w] p by simp
  moreover have "f w1 = f w0"
    using assms m f_tx unfolding keeps_def by (metis snd_conv)
  moreover have "f w2 = f w1" using popFault_field[of w1] q by simp
  ultimately show "f (snd (WithinTx m w)) = f w"
    using assms p m q
    by (cases "w_tx w"; cases b; cases r; cases c) (simp_all add: WithinTx_def keeps_def f_tx f_db)
qed

lemma keeps_stmt: "(\<And>w. snd (n w) = snd (runStmt (g w) w)) \<Longrightarrow> keeps f n"
  by (simp add: keeps_def keepsD[OF keeps_runStmt])

lemmas keeps_rules = keeps_runStmt keeps_wrapA keeps_andThen keeps_WithinTx

end

interpretation fld_now: world_field w_now by unfold_locales simp_all
interpretation fld_rand: world_field w_rand by unfold_locales simp_all
interpretation fld_ccp: world_field w_ccp by unfold_locales simp_all
interpretation fld_grants: world_field w_grants by unfold_locales simp_all

lemma runStmt_now [simp]: "w_now (snd (runStmt f w)) = w_now w"
  by (rule keepsD[OF fld_now.keeps_runStmt])

text \<open>Once the fault oracle is used up it stays so.\<close>

definition calm :: "'a action \<Rightarrow> bool" where
  "calm m = (\<forall>w :: world. w_faults w = [] \<longrightarrow> w_faults (snd (m w)) = [])"

lemma calmD: "calm m \<Longrightarrow> w_faults w = [] \<Longrightarrow> m w = (r, w') \<Longrightarrow> w_faults w' = []"
  unfolding calm_def by (metis snd_conv)

lemma calm_runStmt: "calm (runStmt g)"
  by (auto simp: calm_def runStmt_ok split: sum.split)

lemma calm_wrapA: "calm m \<Longrightarrow> calm (wrapA op m)"
  by (simp add: calm_def)

lemma calm_WithinTx:
  assumes "calm m" shows "calm (WithinTx m)"
  unfolding calm_def
proof (intro allI impI)
  fix w :: world assume w: "w_faults w = []"
  obtain r w1 where m: "m (w\<lparr>w_tx := True\<rparr>) = (r, w1)" by force
  then have "w_faults w1 = []" using calmD[OF assms _ m] w by simp
  then show "w_faults (snd (WithinTx m w)) = []"
    using assms w m by (cases "w_tx w"; cases r) (simp_all add: WithinTx_def calm_def)
qed

subsection \<open>Invariants of the tables\<close>

text \<open>
  An action \<^emph>\<open>preserves\<close> \<open>I\<close> along \<open>R\<close> when it takes tables with \<open>I\<close> to tables with \<open>I\<close> that
  \<open>R\<close> relates to the old ones. \<open>R\<close> is what a rollback may rely on of the aborted changes.
\<close>

definition preserves :: "(db \<Rightarrow> bool) \<Rightarrow> (db \<Rightarrow> db \<Rightarrow> bool) \<Rightarrow> 'a action \<Rightarrow> bool" where
  "preserves I R m = (\<forall>w :: world. I (w_db w) \<longrightarrow> I (w_db (snd (m w))) \<and> R (w_db w) (w_db (snd (m w))))"

locale table_invariant =
  fixes I :: "db \<Rightarrow> bool" and R :: "db \<Rightarrow> db \<Rightarrow> bool"
  assumes R_refl: "R d d"
    and R_trans: "R d d1 \<Longrightarrow> R d1 d2 \<Longrightarrow> R d d2"
    and I_rollback: "I d \<Longrightarrow> R d d1 \<Longrightarrow> I (rollbackTo d d1)"
    and R_rollback: "R d d1 \<Longrightarrow> R d (rollbackTo d d1)"
begin

lemma preserves_const: "(\<And>w. w_db (snd (m w)) = w_db w) \<Longrightarrow> preserves I R m"
  by (simp add: preserves_def R_refl)

lemma preserves_stmt:
  assumes "\<And>d x d'. I d \<Longrightarrow> f d = Inr (x, d') \<Longrightarrow> I d' \<and> R d d'"
  shows "preserves I R (runStmt f)"
  unfolding preserves_def
proof (intro allI impI)
  fix w :: world assume i: "I (w_db w)"
  show "I (w_db (snd (runStmt f w))) \<and> R (w_db w) (w_db (snd (runStmt f w)))"
  proof (cases "runStmt f w")
    case (Pair r w')
    show ?thesis
    proof (cases r)
      case (Inl e)
      then show ?thesis using Pair i runStmt_Inl(1)[of f w e w'] R_refl by simp
    next
      case (Inr x)
      then show ?thesis using Pair i assms[OF i runStmt_Inr(1)[of f w x w']] by simp
    qed
  qed
qed

lemma preservesD:
  "preserves I R m \<Longrightarrow> I (w_db w) \<Longrightarrow> m w = (r, w1) \<Longrightarrow> I (w_db w1) \<and> R (w_db w) (w_db w1)"
  unfolding preserves_def by (metis snd_conv)

lemma preserves_andThen:
  assumes "preserves I R m" "\<And>x. preserves I R (k x)"
  shows "preserves I R (andThen m k)"
  unfolding preserves_def
proof (intro allI impI)
  fix w :: world assume i: "I (w_db w)"
  obtain r w1 where m: "m w = (r, w1)" by force
  have w1: "I (w_db w1) \<and> R (w_db w) (w_db w1)"
    by (rule preservesD[OF assms(1) i m])
  show "I (w_db (snd (andThen m k w))) \<and> R (w_db w) (w_db (snd (andThen m k w)))"
  proof (cases r)
    case (Inl e) then show ?thesis using m w1 by simp
  next
    case (Inr x)
    obtain r2 w2 where k: "k x w1 = (r2, w2)" by force
    then show ?thesis using m Inr w1 preservesD[OF assms(2) _ k] R_trans by auto
  qed
qed

lemma preserves_wrapA: "preserves I R m \<Longrightarrow> preserves I R (wrapA op m)"
  by (simp add: preserves_def wrapA_def split_beta)

lemma preserves_WithinTx:
  assumes "preserves I R m"
  shows "preserves I R (WithinTx m)"
  unfolding preserves_def
proof (intro allI impI)
  fix w :: world assume i: "I (w_db w)"
  show "I (w_db (snd (WithinTx m w))) \<and> R (w_db w) (w_db (snd (WithinTx m w)))"
  proof (cases "w_tx w")
    case True then show ?thesis using i assms by (simp add: preserves_def)
  next
    case False
    obtain b w0 where p: "popFault w = (b, w0)" by force
    then have d: "w_db w0 = w_db w" using popFault_keeps(1)[of w] by simp
    obtain r w1 where f: "m (w0\<lparr>w_tx := True\<rparr>) = (r, w1)" by force
    have k: "I (w_db w1) \<and> R (w_db w) (w_db w1)"
      using preservesD[OF assms _ f] i d by simp
    obtain c w2 where q: "popFault w1 = (c, w2)" by force
    then have d2: "w_db w2 = w_db w1" using popFault_keeps(1)[of w1] by simp
    show ?thesis
      using False p d f q d2 k i I_rollback R_rollback R_refl
      by (cases b; cases r; cases c) (auto simp: WithinTx_def)
  qed
qed

end

end
