(* ===== verification/SsoApi.thy ===== *)
theory SsoApi
  imports Store
begin

text \<open>
  The sign-in service as the rest of the program sees it (internal/adapter/sso/sso.go): the
  token of a character and the client interface. The client is a record of operations, an
  argument of everything that uses it. Its answers depend on the request and the instant;
  \<open>Revoke\<close> has no result, so the model only logs the refresh token in \<open>w_ccp\<close>.
\<close>

record CharacterToken =
  tk_CharacterID :: int
  tk_CharacterName :: string
  tk_RefreshToken :: string
  tk_Scopes :: "string list"
  tk_OwnerHash :: string
  tk_AddedAt :: int
  tk_AccessToken :: string
  tk_AccessExpiresAt :: time

record PreparedLogin =
  pl_URL :: string
  pl_State :: string
  pl_Verifier :: string
  pl_Scopes :: "string list"

record SSO =
  PrepareLogin :: "string list \<Rightarrow> time \<Rightarrow> goerr + PreparedLogin"
  ExchangeCode :: "string \<Rightarrow> string \<Rightarrow> time \<Rightarrow> goerr + CharacterToken"
  AccessToken :: "string \<Rightarrow> time \<Rightarrow> goerr + CharacterToken"

definition unixOf :: "time \<Rightarrow> int" where
  \<comment> \<open>\<open>t.Unix()\<close>; Go's zero time is 62135596800 seconds before 1970\<close>
  "unixOf t = t div second - 62135596800"

definition revokeAtCCP :: "string list \<Rightarrow> world \<Rightarrow> world" where
  "revokeAtCCP tokens w = w\<lparr>w_ccp := w_ccp w @ tokens\<rparr>"

lemma revokeAtCCP_simps [simp]:
  "w_db (revokeAtCCP ts w) = w_db w" "w_now (revokeAtCCP ts w) = w_now w"
  "w_ccp (revokeAtCCP ts w) = w_ccp w @ ts" "w_tx (revokeAtCCP ts w) = w_tx w"
  "w_grants (revokeAtCCP ts w) = w_grants w" "w_faults (revokeAtCCP ts w) = w_faults w"
  by (simp_all add: revokeAtCCP_def)

end
