(* ===== verification/Policy.thy ===== *)
theory Policy
  imports GoErrors
begin

text \<open>
  The write policy (domain/write/policy.go): the write capabilities with the EVE scopes they
  need, the scopes a sign-in requests, and the scopes a grant is missing. A Go map that is only
  ranged over is the list of its entries in some order; where the order could show, the code
  sorts, and \<open>CapabilityNames_perm\<close> shows that the order then does not matter.
\<close>

definition CapMailSend :: string where "CapMailSend = ''mail_send''"
definition CapWaypoint :: string where "CapWaypoint = ''waypoint''"
definition CapOpenWindow :: string where "CapOpenWindow = ''openwindow''"
definition CapFittings :: string where "CapFittings = ''fittings''"
definition CapCalendar :: string where "CapCalendar = ''calendar''"
definition CapMailOrganize :: string where "CapMailOrganize = ''mail_organize''"
definition CapContacts :: string where "CapContacts = ''contacts''"

lemmas Cap_defs = CapMailSend_def CapWaypoint_def CapOpenWindow_def CapFittings_def CapCalendar_def CapMailOrganize_def CapContacts_def

definition MailCap :: int where "MailCap = 5"
definition ConfirmTTL :: duration where "ConfirmTTL = 300 * second"

record Capability =
  cap_Name :: string
  cap_Scopes :: "string list"
  cap_Summary :: string
  cap_OutwardFacing :: bool

definition Capabilities :: "(string \<times> Capability) list" where
  "Capabilities =
    [(CapWaypoint, \<lparr>cap_Name = CapWaypoint, cap_Scopes = [''esi-ui.write_waypoint.v1''],
        cap_Summary = ''Set autopilot waypoints in the running game client.'', cap_OutwardFacing = False\<rparr>),
     (CapOpenWindow, \<lparr>cap_Name = CapOpenWindow, cap_Scopes = [''esi-ui.open_window.v1''],
        cap_Summary = ''Open market / info / contract / new-mail windows in the client.'', cap_OutwardFacing = False\<rparr>),
     (CapFittings, \<lparr>cap_Name = CapFittings, cap_Scopes = [''esi-fittings.write_fittings.v1''],
        cap_Summary = ''Save and delete saved ship fittings.'', cap_OutwardFacing = False\<rparr>),
     (CapCalendar, \<lparr>cap_Name = CapCalendar, cap_Scopes = [''esi-calendar.respond_calendar_events.v1''],
        cap_Summary = ''Respond to calendar events (accept / decline / tentative).'', cap_OutwardFacing = True\<rparr>),
     (CapMailOrganize, \<lparr>cap_Name = CapMailOrganize, cap_Scopes = [''esi-mail.organize_mail.v1''],
        cap_Summary = ''Mark mail read, manage labels, delete mail.'', cap_OutwardFacing = False\<rparr>),
     (CapMailSend, \<lparr>cap_Name = CapMailSend, cap_Scopes = [''esi-mail.send_mail.v1''],
        cap_Summary = ''Send in-game EVE mail to other players.'', cap_OutwardFacing = True\<rparr>),
     (CapContacts, \<lparr>cap_Name = CapContacts, cap_Scopes = [''esi-characters.write_contacts.v1''],
        cap_Summary = ''Add, edit and delete character contacts and standings.'', cap_OutwardFacing = True\<rparr>)]"

definition ReadScopes :: "string list" where
  "ReadScopes =
    [''esi-assets.read_assets.v1'',
     ''esi-calendar.read_calendar_events.v1'',
     ''esi-characters.read_agents_research.v1'',
     ''esi-characters.read_blueprints.v1'',
     ''esi-characters.read_contacts.v1'',
     ''esi-characters.read_corporation_roles.v1'',
     ''esi-characters.read_fatigue.v1'',
     ''esi-characters.read_fw_stats.v1'',
     ''esi-characters.read_loyalty.v1'',
     ''esi-characters.read_medals.v1'',
     ''esi-characters.read_notifications.v1'',
     ''esi-characters.read_standings.v1'',
     ''esi-characters.read_titles.v1'',
     ''esi-clones.read_clones.v1'',
     ''esi-clones.read_implants.v1'',
     ''esi-contracts.read_character_contracts.v1'',
     ''esi-fittings.read_fittings.v1'',
     ''esi-fleets.read_fleet.v1'',
     ''esi-industry.read_character_jobs.v1'',
     ''esi-industry.read_character_mining.v1'',
     ''esi-killmails.read_killmails.v1'',
     ''esi-location.read_location.v1'',
     ''esi-location.read_online.v1'',
     ''esi-location.read_ship_type.v1'',
     ''esi-mail.read_mail.v1'',
     ''esi-markets.read_character_orders.v1'',
     ''esi-markets.structure_markets.v1'',
     ''esi-planets.manage_planets.v1'',
     ''esi-search.search_structures.v1'',
     ''esi-skills.read_skillqueue.v1'',
     ''esi-skills.read_skills.v1'',
     ''esi-universe.read_structures.v1'',
     ''esi-wallet.read_character_wallet.v1'']"

definition CorpReadScopes :: "string list" where
  "CorpReadScopes =
    [''esi-assets.read_corporation_assets.v1'',
     ''esi-contracts.read_corporation_contracts.v1'',
     ''esi-corporations.read_blueprints.v1'',
     ''esi-corporations.read_corporation_membership.v1'',
     ''esi-corporations.read_divisions.v1'',
     ''esi-corporations.read_structures.v1'',
     ''esi-industry.read_corporation_jobs.v1'',
     ''esi-industry.read_corporation_mining.v1'',
     ''esi-killmails.read_corporation_killmails.v1'',
     ''esi-markets.read_corporation_orders.v1'',
     ''esi-wallet.read_corporation_wallets.v1'']"

definition AllWriteScopeSet :: "string set" where
  "AllWriteScopeSet = (\<Union>(_, c) \<in> set Capabilities. set (cap_Scopes c))"

definition CorpScopeSet :: "string set" where
  "CorpScopeSet = set CorpReadScopes"

definition CapabilityNames :: "string list" where
  "CapabilityNames = sort (map fst Capabilities)"

text \<open>
  \<open>Capabilities()[name]\<close> is the zero \<open>Capability\<close> for an unknown name: no scopes.
\<close>

definition capScopes :: "string \<Rightarrow> string list" where
  "capScopes name = (case map_of Capabilities name of None \<Rightarrow> [] | Some c \<Rightarrow> cap_Scopes c)"

text \<open>The closure \<open>add\<close> of \<open>RequestedScopes\<close>: append what was not seen.\<close>

fun addScopes :: "string list \<Rightarrow> string list \<Rightarrow> string list" where
  "addScopes out [] = out"
| "addScopes out (sc # scopes) =
    (if List.member out sc then addScopes out scopes else addScopes (out @ [sc]) scopes)"

definition RequestedScopes :: "string list" where
  "RequestedScopes =
    fold (\<lambda>name out. addScopes out (capScopes name)) CapabilityNames
      (addScopes (addScopes [] ReadScopes) CorpReadScopes)"

definition MissingScopes :: "string list \<Rightarrow> string list" where
  "MissingScopes granted = sort (filter (\<lambda>s. \<not> List.member granted s) RequestedScopes)"

subsection \<open>Facts\<close>

lemma set_addScopes [simp]: "set (addScopes out scopes) = set out \<union> set scopes"
  by (induction out scopes rule: addScopes.induct) auto

lemma distinct_addScopes: "distinct out \<Longrightarrow> distinct (addScopes out scopes)"
  by (induction out scopes rule: addScopes.induct) auto

lemma CapabilityNames_perm:
  "mset order = mset (map fst Capabilities) \<Longrightarrow> sort order = CapabilityNames"
  unfolding CapabilityNames_def by (rule properties_for_sort) simp_all

lemma set_CapabilityNames: "set CapabilityNames = fst ` set Capabilities"
  by (simp add: CapabilityNames_def)

lemma Capabilities_distinct: "distinct (map fst Capabilities)"
  by (simp add: Capabilities_def Cap_defs)

lemma capScopes_entry: "(n, c) \<in> set Capabilities \<Longrightarrow> capScopes n = cap_Scopes c"
  using map_of_is_SomeI [OF Capabilities_distinct] by (simp add: capScopes_def)

lemma capScopes_union: "(\<Union>n \<in> set CapabilityNames. set (capScopes n)) = AllWriteScopeSet"
  unfolding AllWriteScopeSet_def set_CapabilityNames
  by (auto simp: capScopes_entry)

lemma set_fold_addScopes:
  "set (fold (\<lambda>n out. addScopes out (capScopes n)) ns out)
    = set out \<union> (\<Union>n \<in> set ns. set (capScopes n))"
  by (induction ns arbitrary: out) auto

lemma distinct_fold_addScopes:
  "distinct out \<Longrightarrow> distinct (fold (\<lambda>n out. addScopes out (capScopes n)) ns out)"
  by (induction ns arbitrary: out) (auto simp: distinct_addScopes)

lemma set_RequestedScopes:
  "set RequestedScopes = set ReadScopes \<union> CorpScopeSet \<union> AllWriteScopeSet"
  by (simp add: RequestedScopes_def set_fold_addScopes capScopes_union CorpScopeSet_def)

lemma distinct_RequestedScopes: "distinct RequestedScopes"
  by (simp add: RequestedScopes_def distinct_fold_addScopes distinct_addScopes)

lemma set_MissingScopes: "set (MissingScopes granted) = set RequestedScopes - set granted"
  by (auto simp: MissingScopes_def)

lemma MissingScopes_Nil_iff [simp]:
  "MissingScopes granted = [] \<longleftrightarrow> set RequestedScopes \<subseteq> set granted"
  using set_MissingScopes [of granted] by (auto simp flip: set_empty)

lemma MissingScopes_mono: "set g \<subseteq> set h \<Longrightarrow> set (MissingScopes h) \<subseteq> set (MissingScopes g)"
  by (auto simp: set_MissingScopes)

lemma RequestedScopes_not_empty: "RequestedScopes \<noteq> []"
proof -
  have "''esi-assets.read_assets.v1'' \<in> set RequestedScopes"
    by (simp add: set_RequestedScopes ReadScopes_def)
  then show ?thesis by force
qed

end
