(* ===== verification/Utf8.thy ===== *)
theory Utf8
  imports Prelude
begin

text \<open>
  Go's view of a string as runes, on byte values: \<open>decodeRune\<close> is \<open>utf8.DecodeRune\<close>
  with its accept ranges (an invalid or short sequence is \<open>RuneError\<close> of width one),
  \<open>encodeRune\<close> is \<open>utf8.AppendRune\<close>, and \<open>runes\<close>, \<open>fromRunes\<close> are the conversions
  \<open>[]rune(s)\<close> and \<open>string(rs)\<close>. \<open>runes_fromRunes\<close> is the round trip the audit log's
  truncation rests on.
\<close>

definition RuneError :: nat where "RuneError = 65533"

definition validRune :: "nat \<Rightarrow> bool" where
  "validRune r \<longleftrightarrow> r < 55296 \<or> (57344 \<le> r \<and> r < 1114112)"

definition cont :: "nat \<Rightarrow> bool" where
  "cont b \<longleftrightarrow> 128 \<le> b \<and> b < 192"

text \<open>The range of the second byte depends on the first (overlong forms, surrogates).\<close>

definition second3 :: "nat \<Rightarrow> nat \<Rightarrow> bool" where
  "second3 b0 b1 \<longleftrightarrow>
    (if b0 = 224 then 160 \<le> b1 \<and> b1 < 192 else if b0 = 237 then 128 \<le> b1 \<and> b1 < 160 else cont b1)"

definition second4 :: "nat \<Rightarrow> nat \<Rightarrow> bool" where
  "second4 b0 b1 \<longleftrightarrow>
    (if b0 = 240 then 144 \<le> b1 \<and> b1 < 192 else if b0 = 244 then 128 \<le> b1 \<and> b1 < 144 else cont b1)"

definition decode2 :: "nat \<Rightarrow> nat list \<Rightarrow> nat \<times> nat" where
  "decode2 b0 bs = (case bs of
      b1 # _ \<Rightarrow> if cont b1 then ((b0 mod 32) * 64 + b1 mod 64, 2) else (RuneError, 1)
    | [] \<Rightarrow> (RuneError, 1))"

definition decode3 :: "nat \<Rightarrow> nat list \<Rightarrow> nat \<times> nat" where
  "decode3 b0 bs = (case bs of
      b1 # b2 # _ \<Rightarrow>
        if second3 b0 b1 \<and> cont b2
        then ((b0 mod 16) * 4096 + (b1 mod 64) * 64 + b2 mod 64, 3) else (RuneError, 1)
    | _ \<Rightarrow> (RuneError, 1))"

definition decode4 :: "nat \<Rightarrow> nat list \<Rightarrow> nat \<times> nat" where
  "decode4 b0 bs = (case bs of
      b1 # b2 # b3 # _ \<Rightarrow>
        if second4 b0 b1 \<and> cont b2 \<and> cont b3
        then ((b0 mod 8) * 262144 + (b1 mod 64) * 4096 + (b2 mod 64) * 64 + b3 mod 64, 4)
        else (RuneError, 1)
    | _ \<Rightarrow> (RuneError, 1))"

definition decodeRune :: "nat \<Rightarrow> nat list \<Rightarrow> nat \<times> nat" where
  "decodeRune b0 bs =
    (if b0 < 128 then (b0, 1)
     else if 194 \<le> b0 \<and> b0 < 224 then decode2 b0 bs
     else if 224 \<le> b0 \<and> b0 < 240 then decode3 b0 bs
     else if 240 \<le> b0 \<and> b0 < 245 then decode4 b0 bs
     else (RuneError, 1))"

definition encodeRune :: "nat \<Rightarrow> nat list" where
  "encodeRune r =
    (if r < 128 then [r]
     else if r < 2048 then [192 + r div 64, 128 + r mod 64]
     else if \<not> validRune r then [239, 191, 189]
     else if r < 65536 then [224 + r div 4096, 128 + r div 64 mod 64, 128 + r mod 64]
     else [240 + r div 262144, 128 + r div 4096 mod 64, 128 + r div 64 mod 64, 128 + r mod 64])"

fun runeList :: "nat list \<Rightarrow> nat list" where
  "runeList [] = []"
| "runeList (b # bs) = fst (decodeRune b bs) # runeList (drop (snd (decodeRune b bs) - 1) bs)"

definition runes :: "string \<Rightarrow> nat list" where
  "runes s = runeList (map of_char s)"

definition fromRunes :: "nat list \<Rightarrow> string" where
  "fromRunes rs = map char_of (concat (map encodeRune rs))"

subsection \<open>Decoding yields valid runes, and undoes encoding\<close>

lemma mod_range: "q * m \<le> b \<Longrightarrow> b < q * m + m \<Longrightarrow> b mod m = b - q * m" for b :: nat
  by (metis le_add_diff_inverse mod_less mod_mult_self3 less_diff_conv2 add.commute)

lemma validRune_RuneError [simp]: "validRune RuneError"
  by (simp add: validRune_def RuneError_def)

lemma decode2_valid: "194 \<le> b0 \<Longrightarrow> b0 < 224 \<Longrightarrow> validRune (fst (decode2 b0 bs))"
  unfolding decode2_def validRune_def RuneError_def cont_def
  by (cases bs) auto

lemma decode3_valid: "224 \<le> b0 \<Longrightarrow> b0 < 240 \<Longrightarrow> validRune (fst (decode3 b0 bs))"
proof -
  assume b: "224 \<le> b0" "b0 < 240"
  have arith: "(b0 mod 16) * 4096 + (b1 mod 64) * 64 + b2 mod 64 < 55296
      \<or> (57344 \<le> (b0 mod 16) * 4096 + (b1 mod 64) * 64 + b2 mod 64
         \<and> (b0 mod 16) * 4096 + (b1 mod 64) * 64 + b2 mod 64 < 1114112)"
    if "second3 b0 b1" for b1 b2
  proof (cases "b0 = 237")
    case True
    with that have "128 \<le> b1" "b1 < 160" by (auto simp: second3_def)
    then have "b1 mod 64 < 32" using mod_range [of 2 64 b1] by simp
    moreover have "b2 mod 64 < 64" by simp
    moreover have "b0 mod 16 = 13" using True by simp
    ultimately show ?thesis by linarith
  next
    case False
    have "b1 mod 64 < 64" "b2 mod 64 < 64" by simp_all
    moreover from b False have "b0 mod 16 < 13 \<or> (14 \<le> b0 mod 16 \<and> b0 mod 16 < 16)"
      using mod_range [of 14 16 b0] by simp linarith
    ultimately show ?thesis by linarith
  qed
  show ?thesis
    unfolding decode3_def
    by (auto simp: validRune_def RuneError_def dest!: arith split: list.split)
qed

lemma decode4_valid: "240 \<le> b0 \<Longrightarrow> b0 < 245 \<Longrightarrow> validRune (fst (decode4 b0 bs))"
proof -
  assume b: "240 \<le> b0" "b0 < 245"
  have arith: "57344 \<le> (b0 mod 8) * 262144 + (b1 mod 64) * 4096 + (b2 mod 64) * 64 + b3 mod 64
      \<and> (b0 mod 8) * 262144 + (b1 mod 64) * 4096 + (b2 mod 64) * 64 + b3 mod 64 < 1114112"
    if "second4 b0 b1" for b1 b2 b3
  proof -
    have m: "b2 mod 64 < 64" "b3 mod 64 < 64" "b1 mod 64 < 64" by simp_all
    consider "b0 = 240" | "b0 = 244" | "b0 \<in> {241, 242, 243}" using b by force
    then show ?thesis
    proof cases
      case 1
      with that have "144 \<le> b1" "b1 < 192" by (auto simp: second4_def)
      then have "16 \<le> b1 mod 64" using mod_range [of 2 64 b1] by simp
      moreover have "b0 mod 8 = 0" using 1 by simp
      ultimately show ?thesis using m by linarith
    next
      case 2
      with that have "128 \<le> b1" "b1 < 144" by (auto simp: second4_def)
      then have "b1 mod 64 < 16" using mod_range [of 2 64 b1] by simp
      moreover have "b0 mod 8 = 4" using 2 by simp
      ultimately show ?thesis using m by linarith
    next
      case 3
      then have "1 \<le> b0 mod 8" "b0 mod 8 \<le> 3" by auto
      with m show ?thesis by linarith
    qed
  qed
  show ?thesis
    unfolding decode4_def
    by (auto simp: validRune_def RuneError_def dest!: arith split: list.split)
qed

lemma decodeRune_valid: "validRune (fst (decodeRune b bs))"
  by (auto simp: decodeRune_def decode2_valid decode3_valid decode4_valid)
     (simp add: validRune_def)

lemma runeList_valid: "r \<in> set (runeList bs) \<Longrightarrow> validRune r"
  by (induction bs rule: runeList.induct) (auto simp: decodeRune_valid)

lemma runes_valid: "r \<in> set (runes s) \<Longrightarrow> validRune r"
  unfolding runes_def by (rule runeList_valid)

lemma split64: "r div 4096 * 4096 + (r div 64 mod 64) * 64 + r mod 64 = r" for r :: nat
proof -
  have "r div 4096 = r div 64 div 64" by (simp flip: div_mult2_eq)
  then show ?thesis using div_mult_mod_eq [of "r div 64" 64] div_mult_mod_eq [of r 64] by linarith
qed

lemma split262144:
  "r div 262144 * 262144 + (r div 4096 mod 64) * 4096 + (r div 64 mod 64) * 64 + r mod 64 = r"
  for r :: nat
proof -
  have "r div 262144 = r div 4096 div 64" by (simp flip: div_mult2_eq)
  then have "r div 262144 * 262144 + (r div 4096 mod 64) * 4096 = r div 4096 * 4096"
    using div_mult_mod_eq [of "r div 4096" 64] by linarith
  then show ?thesis using split64 [of r] by linarith
qed

lemma mod64_cont [simp]: "(128 + x) mod 64 = x mod (64::nat)" "cont (128 + x mod 64)"
proof -
  have "128 + x = x + 2 * 64" by simp
  then show "(128 + x) mod 64 = x mod 64" by (metis mod_mult_self1)
qed (simp add: cont_def)

lemma decode2_encode:
  assumes "128 \<le> r" "r < 2048"
  shows "decodeRune (192 + r div 64) ((128 + r mod 64) # rest) = (r, 2)"
proof -
  have q: "2 \<le> r div 64" "r div 64 < 32" using assms by auto
  then have "(192 + r div 64) mod 32 = r div 64" using mod_range [of 6 32 "192 + r div 64"] by simp
  with q show ?thesis by (simp add: decodeRune_def decode2_def)
qed

lemma decode3_encode:
  assumes "2048 \<le> r" "r < 65536" "validRune r"
  shows "decodeRune (224 + r div 4096) ((128 + r div 64 mod 64) # (128 + r mod 64) # rest) = (r, 3)"
proof -
  have q: "r div 4096 < 16" using assms by auto
  then have m: "(224 + r div 4096) mod 16 = r div 4096"
    using mod_range [of 14 16 "224 + r div 4096"] by simp
  have s: "second3 (224 + r div 4096) (128 + r div 64 mod 64)"
  proof -
    have lo: "32 \<le> r div 64 mod 64" if "r div 4096 = 0"
      using that assms(1) split64 [of r] by linarith
    have hi: "r div 64 mod 64 < 32" if "r div 4096 = 13"
      using that assms(2,3) split64 [of r] unfolding validRune_def by linarith
    show ?thesis using lo hi by (auto simp: second3_def)
  qed
  show ?thesis using q m s split64 [of r] by (simp add: decodeRune_def decode3_def)
qed

lemma decode4_encode:
  assumes "65536 \<le> r" "validRune r"
  shows "decodeRune (240 + r div 262144)
    ((128 + r div 4096 mod 64) # (128 + r div 64 mod 64) # (128 + r mod 64) # rest) = (r, 4)"
proof -
  have r: "r < 1114112" using assms by (auto simp: validRune_def)
  then have q: "r div 262144 < 5" by auto
  then have m: "(240 + r div 262144) mod 8 = r div 262144"
    using mod_range [of 30 8 "240 + r div 262144"] by simp
  have s: "second4 (240 + r div 262144) (128 + r div 4096 mod 64)"
  proof -
    have lo: "16 \<le> r div 4096 mod 64" if "r div 262144 = 0"
    proof -
      have "r div 4096 = r div 262144 * 64 + r div 4096 mod 64"
        using div_mult_mod_eq [of "r div 4096" 64] by (simp flip: div_mult2_eq)
      with that assms(1) show ?thesis by linarith
    qed
    have hi: "r div 4096 mod 64 < 16" if "r div 262144 = 4"
      using that r split262144 [of r] by linarith
    show ?thesis using lo hi by (auto simp: second4_def)
  qed
  show ?thesis using q m s split262144 [of r] by (simp add: decodeRune_def decode4_def)
qed

lemma decode_encode:
  assumes "validRune r"
  shows "\<exists>b bs. encodeRune r = b # bs \<and> (\<forall>rest. decodeRune b (bs @ rest) = (r, Suc (length bs)))"
proof -
  consider "r < 128" | "128 \<le> r" "r < 2048" | "2048 \<le> r" "r < 65536" | "65536 \<le> r"
    by linarith
  then show ?thesis
  proof cases
    case 1
    then show ?thesis by (simp add: encodeRune_def decodeRune_def)
  next
    case 2
    then show ?thesis by (simp add: encodeRune_def decode2_encode)
  next
    case 3
    then show ?thesis using assms by (simp add: encodeRune_def decode3_encode)
  next
    case 4
    then show ?thesis using assms by (simp add: encodeRune_def decode4_encode)
  qed
qed

lemma runeList_encode: "validRune r \<Longrightarrow> runeList (encodeRune r @ rest) = r # runeList rest"
  using decode_encode [of r] by auto

lemma runeList_concat_encode:
  "\<forall>r \<in> set rs. validRune r \<Longrightarrow> runeList (concat (map encodeRune rs)) = rs"
  by (induction rs) (auto simp: runeList_encode)

lemma encodeRune_bytes: "b \<in> set (encodeRune r) \<Longrightarrow> b < 256"
  by (auto simp: encodeRune_def validRune_def split: if_splits)

lemma map_of_char_bytes: "\<forall>b \<in> set bs. b < 256 \<Longrightarrow> map of_char (map char_of bs) = (bs :: nat list)"
  by (induction bs) auto

theorem runes_fromRunes: "\<forall>r \<in> set rs. validRune r \<Longrightarrow> runes (fromRunes rs) = rs"
  unfolding runes_def fromRunes_def
  by (subst map_of_char_bytes) (auto dest: encodeRune_bytes simp: runeList_concat_encode)

lemma length_runeList_le: "length (runeList bs) \<le> length bs"
proof (induction bs rule: runeList.induct)
  case (2 b bs)
  then show ?case by simp
qed simp

lemma length_runes_le: "length (runes s) \<le> length s"
  using length_runeList_le [of "map of_char s"] by (simp add: runes_def)

end
