(* ===== verification/Summary.thy ===== *)
theory Summary
  imports Utf8
begin

text \<open>
  The one-line summaries of the audit log (domain/write/summary.go). \<open>fmtV\<close> stands for
  \<open>fmt.Sprintf("%v", v)\<close> on the dynamic types \<open>argString\<close> does not treat itself.
\<close>

definition auditFieldMax :: nat where "auditFieldMax = 200"

definition ToolMailSend :: string where "ToolMailSend = ''eve_mail_send''"
definition ToolMailMark :: string where "ToolMailMark = ''eve_mail_mark''"
definition ToolMailDelete :: string where "ToolMailDelete = ''eve_mail_delete''"
definition ToolMailCompose :: string where "ToolMailCompose = ''eve_mail_compose''"
definition ToolCalendarRespond :: string where "ToolCalendarRespond = ''eve_calendar_respond''"
definition ToolContactsSet :: string where "ToolContactsSet = ''eve_contacts_set''"
definition ToolContactsDelete :: string where "ToolContactsDelete = ''eve_contacts_delete''"
definition ToolFittingSave :: string where "ToolFittingSave = ''eve_fitting_save''"
definition ToolFittingDelete :: string where "ToolFittingDelete = ''eve_fitting_delete''"
definition ToolUISetWaypoint :: string where "ToolUISetWaypoint = ''eve_ui_set_waypoint''"
definition ToolUIOpenWindow :: string where "ToolUIOpenWindow = ''eve_ui_open_window''"

lemmas Tool_defs = ToolMailSend_def ToolMailMark_def ToolMailDelete_def ToolMailCompose_def
  ToolCalendarRespond_def ToolContactsSet_def ToolContactsDelete_def ToolFittingSave_def
  ToolFittingDelete_def ToolUISetWaypoint_def ToolUIOpenWindow_def

text \<open>\<open>int64(f)\<close> of a float drops the fraction.\<close>

definition truncInt :: "rat \<Rightarrow> int" where
  "truncInt f = (if 0 \<le> f then \<lfloor>f\<rfloor> else \<lceil>f\<rceil>)"

definition argString :: "(any \<Rightarrow> string) \<Rightarrow> object \<Rightarrow> string \<Rightarrow> string" where
  "argString fmtV args key =
    (case map_of args key of
       None \<Rightarrow> ''''
     | Some v \<Rightarrow> (case v of
         VStr t \<Rightarrow> t
       | VInt t \<Rightarrow> itoa t
       | VFloat t \<Rightarrow> itoa (truncInt t)
       | t \<Rightarrow> fmtV t))"

fun lenAny :: "any list \<Rightarrow> nat" where
  "lenAny [] = 0"
| "lenAny (v # vs) = (case v of
      VSlice t \<Rightarrow> length t
    | VMaps t \<Rightarrow> length t
    | VStrs t \<Rightarrow> length t
    | VInts t \<Rightarrow> length t
    | _ \<Rightarrow> lenAny vs)"

definition summarize :: "(any \<Rightarrow> string) \<Rightarrow> string \<Rightarrow> object \<Rightarrow> string" where
  "summarize fmtV tool args =
    (if tool = ToolMailSend then
       ''mail to '' @ itoa (int (lenAny [lookupAny args ''recipients'', lookupAny args ''to'']))
       @ '' recipients, subject '' @ [CHR 0x27] @ argString fmtV args ''subject'' @ [CHR 0x27]
     else if tool = ToolFittingSave then
       ''save fitting '' @ [CHR 0x27] @ argString fmtV args ''name'' @ [CHR 0x27]
     else if tool = ToolFittingDelete then
       ''delete fitting '' @ argString fmtV args ''fitting_id''
     else if tool = ToolContactsSet then
       ''set standing on '' @ itoa (int (lenAny [lookupAny args ''contact_ids'', lookupAny args ''ids'']))
       @ '' contacts''
     else if tool = ToolContactsDelete then
       ''delete '' @ itoa (int (lenAny [lookupAny args ''contact_ids'', lookupAny args ''ids'']))
       @ '' contacts''
     else if tool = ToolUISetWaypoint then
       ''set waypoint '' @ argString fmtV args ''destination_id''
     else if tool = ToolUIOpenWindow then
       ''open '' @ argString fmtV args ''window'' @ '' window''
     else if tool = ToolMailMark then ''mark mail '' @ argString fmtV args ''mail_id''
     else if tool = ToolMailDelete then ''delete mail '' @ argString fmtV args ''mail_id''
     else if tool = ToolCalendarRespond then
       ''respond '' @ argString fmtV args ''response'' @ '' to event '' @ argString fmtV args ''event_id''
     else if tool = ToolMailCompose then
       ''open compose to ''
       @ itoa (int (lenAny [lookupAny args ''recipients'', lookupAny args ''to'']))
       @ '' recipients, subject '' @ [CHR 0x27] @ argString fmtV args ''subject'' @ [CHR 0x27]
     else tool)"

text \<open>\<open>truncate\<close> cuts by runes, so it re-encodes what it keeps.\<close>

definition truncateRunes :: "string \<Rightarrow> nat \<Rightarrow> string" where
  "truncateRunes s n = (if length (runes s) \<le> n then s else fromRunes (take n (runes s)))"

subsection \<open>Facts\<close>

lemma runes_truncateRunes: "runes (truncateRunes s n) = take n (runes s)"
proof (cases "length (runes s) \<le> n")
  case False
  have "\<forall>r \<in> set (take n (runes s)). validRune r"
    by (meson in_set_takeD runes_valid)
  with False show ?thesis by (simp add: truncateRunes_def runes_fromRunes)
qed (simp add: truncateRunes_def)

lemma length_truncateRunes: "length (runes (truncateRunes s n)) \<le> n"
  by (simp add: runes_truncateRunes)

lemma truncateRunes_short [simp]: "length (runes s) \<le> n \<Longrightarrow> truncateRunes s n = s"
  by (simp add: truncateRunes_def)

lemma truncateRunes_idem: "truncateRunes (truncateRunes s n) n = truncateRunes s n"
  by (simp add: length_truncateRunes)

text \<open>
  The summary of a mail quotes its subject and counts its recipients, and depends on nothing
  else of the arguments: no body text can reach the audit log.
\<close>

lemma summarize_mail_frame:
  assumes "map_of args ''subject'' = map_of args' ''subject''"
    and "lookupAny args ''recipients'' = lookupAny args' ''recipients''"
    and "lookupAny args ''to'' = lookupAny args' ''to''"
  shows "summarize f ToolMailSend args = summarize f ToolMailSend args'"
  using assms by (simp add: summarize_def argString_def)

end
