(* ===== verification/Json.thy ===== *)
theory Json
  imports Utf8
begin

text \<open>
  \<open>json.Marshal\<close> (encoding/json) on the dynamic values the program passes to it: object keys
  sorted by bytes, strings escaped with HTML escaping on, invalid UTF-8 as the replacement
  escape. The texts of floating-point numbers and of the \<open>fmt\<close> verbs \<open>%v\<close> and \<open>%q\<close> are the
  functions of the record \<open>fmtlib\<close>: \<open>fm_float\<close> is None for a value JSON has no number for.
\<close>

record fmtlib =
  fm_float :: "rat \<Rightarrow> string option"
  fm_v :: "any \<Rightarrow> string"
  fm_q :: "string \<Rightarrow> string"

definition hexNat :: "nat \<Rightarrow> char" where "hexNat n = hexDigit n"

definition escapeByte :: "nat \<Rightarrow> string" where
  "escapeByte b =
    (if b = 92 \<or> b = 34 then [CHR 0x5C, char_of b]
     else if b = 8 then [CHR 0x5C, CHR ''b''] else if b = 12 then [CHR 0x5C, CHR ''f'']
     else if b = 10 then [CHR 0x5C, CHR ''n''] else if b = 13 then [CHR 0x5C, CHR ''r'']
     else if b = 9 then [CHR 0x5C, CHR ''t'']
     else if b < 32 \<or> b = 60 \<or> b = 62 \<or> b = 38
     then [CHR 0x5C, CHR ''u'', CHR ''0'', CHR ''0'', hexNat (b div 16), hexNat (b mod 16)]
     else [char_of b])"

fun escapeFrom :: "nat list \<Rightarrow> string" where
  "escapeFrom [] = []"
| "escapeFrom (b # bs) =
    (if b < 128 then escapeByte b @ escapeFrom bs
     else let (r, n) = decodeRune b bs in
       (if n = 1 then [CHR 0x5C] @ ''ufffd''
        else if r = 8232 \<or> r = 8233 then [CHR 0x5C] @ ''u202'' @ [hexNat (r mod 16)]
        else map char_of (b # take (n - 1) bs))
       @ escapeFrom (drop (n - 1) bs))"

definition jsonString :: "string \<Rightarrow> string" where
  "jsonString s = [CHR 0x22] @ escapeFrom (map of_char s) @ [CHR 0x22]"

fun allSome :: "'a option list \<Rightarrow> 'a list option" where
  "allSome [] = Some []"
| "allSome (x # xs) = (case (x, allSome xs) of (Some y, Some ys) \<Rightarrow> Some (y # ys) | _ \<Rightarrow> None)"

definition jsonArray :: "string option list \<Rightarrow> string option" where
  "jsonArray xs = map_option (\<lambda>ys. ''['' @ joinStr '','' ys @ '']'') (allSome xs)"

definition jsonObject :: "(string \<times> string option) list \<Rightarrow> string option" where
  "jsonObject kvs = map_option (\<lambda>ys. CHR 0x7B # joinStr '','' ys @ [CHR 0x7D])
     (allSome (map (\<lambda>(k, v). map_option (\<lambda>t. jsonString k @ '':'' @ t) v) (sort_key fst kvs)))"

fun marshal :: "fmtlib \<Rightarrow> any \<Rightarrow> string option" where
  "marshal F VNil = Some ''null''"
| "marshal F VNilSlice = Some ''null''"
| "marshal F (VStr s) = Some (jsonString s)"
| "marshal F (VInt n) = Some (itoa n)"
| "marshal F (VFloat q) = fm_float F q"
| "marshal F (VBool b) = Some (if b then ''true'' else ''false'')"
| "marshal F (VSlice xs) = jsonArray (map (marshal F) xs)"
| "marshal F (VMaps ms) = jsonArray (map (\<lambda>m. jsonObject (map (\<lambda>(k, v). (k, marshal F v)) m)) ms)"
| "marshal F (VStrs xs) = jsonArray (map (\<lambda>s. Some (jsonString s)) xs)"
| "marshal F (VInts xs) = jsonArray (map (\<lambda>n. Some (itoa n)) xs)"
| "marshal F (VMap m) = jsonObject (map (\<lambda>(k, v). (k, marshal F v)) m)"

subsection \<open>Facts\<close>

lemma sort_key_eqI:
  "mset xs = mset ys \<Longrightarrow> distinct (map k xs) \<Longrightarrow> sort_key k xs = sort_key k ys"
  for k :: "'a \<Rightarrow> 'b :: linorder"
proof -
  assume m: "mset xs = mset ys" and d: "distinct (map k xs)"
  show "sort_key k xs = sort_key k ys"
  proof (rule properties_for_sort_key)
    show "mset (sort_key k ys) = mset xs" by (simp add: m)
  next
    fix x assume x: "x \<in> set (sort_key k ys)"
    have "filter (\<lambda>z. k z = k x) zs = [x]" if "mset zs = mset xs" for zs
    proof -
      have "x \<in> set zs" "distinct (map k zs)"
        using x m d that by (metis set_mset_mset set_sort, metis mset_map mset_eq_imp_distinct_iff)
      then show ?thesis by (induction zs) (auto simp: filter_empty_conv image_iff)
    qed
    then show "filter (\<lambda>y. k x = k y) (sort_key k ys) = filter (\<lambda>y. k x = k y) xs"
      using m by (simp add: eq_commute[of "k x"])
  next
    show "sorted (map k (sort_key k ys))" by simp
  qed
qed

text \<open>The text of an object does not depend on the order its entries were inserted in.\<close>

lemma marshal_perm:
  assumes "mset m = mset m'" "distinct (map fst m)"
  shows "marshal F (VMap m) = marshal F (VMap m')"
proof -
  let ?f = "\<lambda>(k, v). (k, marshal F v)"
  have "mset (map ?f m) = mset (map ?f m')" using assms(1) by simp
  moreover have "distinct (map fst (map ?f m))" using assms(2) by (simp add: comp_def split_beta)
  ultimately have "sort_key fst (map ?f m) = sort_key fst (map ?f m')" by (rule sort_key_eqI)
  then show ?thesis by (simp add: jsonObject_def)
qed

end
