(* ===== verification/Sha256.thy ===== *)
theory Sha256
  imports Prelude "HOL-Library.Word"
begin

unbundle bit_operations_syntax

text \<open>
  The two encodings of Go's standard library that bind values in the program: \<open>sha256.Sum256\<close>
  (FIPS 180-4), used by the argument digest of the write guard and by PKCE, and
  \<open>base64.RawURLEncoding\<close>. Both are executable on byte strings.
\<close>

subsection \<open>SHA-256\<close>

definition sha256_K :: "32 word list" where
  "sha256_K =
    [0x428a2f98, 0x71374491, 0xb5c0fbcf, 0xe9b5dba5, 0x3956c25b, 0x59f111f1, 0x923f82a4, 0xab1c5ed5,
     0xd807aa98, 0x12835b01, 0x243185be, 0x550c7dc3, 0x72be5d74, 0x80deb1fe, 0x9bdc06a7, 0xc19bf174,
     0xe49b69c1, 0xefbe4786, 0x0fc19dc6, 0x240ca1cc, 0x2de92c6f, 0x4a7484aa, 0x5cb0a9dc, 0x76f988da,
     0x983e5152, 0xa831c66d, 0xb00327c8, 0xbf597fc7, 0xc6e00bf3, 0xd5a79147, 0x06ca6351, 0x14292967,
     0x27b70a85, 0x2e1b2138, 0x4d2c6dfc, 0x53380d13, 0x650a7354, 0x766a0abb, 0x81c2c92e, 0x92722c85,
     0xa2bfe8a1, 0xa81a664b, 0xc24b8b70, 0xc76c51a3, 0xd192e819, 0xd6990624, 0xf40e3585, 0x106aa070,
     0x19a4c116, 0x1e376c08, 0x2748774c, 0x34b0bcb5, 0x391c0cb3, 0x4ed8aa4a, 0x5b9cca4f, 0x682e6ff3,
     0x748f82ee, 0x78a5636f, 0x84c87814, 0x8cc70208, 0x90befffa, 0xa4506ceb, 0xbef9a3f7, 0xc67178f2]"

definition sha256_H0 :: "32 word list" where
  "sha256_H0 =
    [0x6a09e667, 0xbb67ae85, 0x3c6ef372, 0xa54ff53a, 0x510e527f, 0x9b05688c, 0x1f83d9ab, 0x5be0cd19]"

definition rotr32 :: "nat \<Rightarrow> 32 word \<Rightarrow> 32 word" where
  "rotr32 n x = or (drop_bit n x) (push_bit (32 - n) x)"

fun packWords :: "string \<Rightarrow> 32 word list" where
  "packWords (a # b # c # d # cs) =
     (word_of_nat (((of_char a * 256 + of_char b) * 256 + of_char c) * 256 + of_char d)) # packWords cs"
| "packWords _ = []"

definition beBytes :: "nat \<Rightarrow> nat \<Rightarrow> string" where
  \<comment> \<open>the last \<open>k\<close> bytes of \<open>n\<close>, big endian\<close>
  "beBytes k n = map (\<lambda>i. char_of (n div 256 ^ i mod 256 :: nat)) (rev [0..<k])"

definition padMessage :: "string \<Rightarrow> string" where
  "padMessage m = (let n = length m in
     m @ [char_of (128 :: nat)] @ replicate ((119 - n mod 64) mod 64) (char_of (0 :: nat)) @ beBytes 8 (8 * n))"

fun schedule :: "nat \<Rightarrow> 32 word list \<Rightarrow> 32 word list" where
  \<comment> \<open>the schedule, newest word first\<close>
  "schedule 0 ws = ws"
| "schedule (Suc n) ws =
    (let w2 = ws ! 1; w7 = ws ! 6; w15 = ws ! 14; w16 = ws ! 15;
         s0 = xor (xor (rotr32 7 w15) (rotr32 18 w15)) (drop_bit 3 w15);
         s1 = xor (xor (rotr32 17 w2) (rotr32 19 w2)) (drop_bit 10 w2)
     in schedule n ((w16 + s0 + w7 + s1) # ws))"

fun sha256_round :: "32 word \<times> 32 word \<Rightarrow> 32 word list \<Rightarrow> 32 word list" where
  "sha256_round (k, w) [a, b, c, d, e, f, g, h] =
    (let s1 = xor (xor (rotr32 6 e) (rotr32 11 e)) (rotr32 25 e);
         ch = xor (and e f) (and (not e) g);
         t1 = h + s1 + ch + k + w;
         s0 = xor (xor (rotr32 2 a) (rotr32 13 a)) (rotr32 22 a);
         maj = xor (xor (and a b) (and a c)) (and b c);
         t2 = s0 + maj
     in [t1 + t2, a, b, c, d + t1, e, f, g])"
| "sha256_round _ st = st"

definition sha256_block :: "32 word list \<Rightarrow> 32 word list \<Rightarrow> 32 word list" where
  "sha256_block st block =
    map2 (+) st (fold sha256_round (zip sha256_K (rev (schedule 48 (rev block)))) st)"

fun sha256_blocks :: "nat \<Rightarrow> 32 word list \<Rightarrow> 32 word list \<Rightarrow> 32 word list" where
  "sha256_blocks 0 st ws = st"
| "sha256_blocks (Suc n) st ws = sha256_blocks n (sha256_block st (take 16 ws)) (drop 16 ws)"

definition sha256 :: "string \<Rightarrow> string" where
  "sha256 m = (let ws = packWords (padMessage m) in
     concat (map (\<lambda>w. beBytes 4 (unat w)) (sha256_blocks (length ws div 16) sha256_H0 ws)))"

subsection \<open>Base64, URL alphabet, no padding\<close>

definition b64Digit :: "nat \<Rightarrow> char" where
  "b64Digit n = ''ABCDEFGHIJKLMNOPQRSTUVWXYZabcdefghijklmnopqrstuvwxyz0123456789-_'' ! n"

fun rawURLEncode :: "string \<Rightarrow> string" where
  "rawURLEncode (a # b # c # cs) =
    (let n = (of_char a * 256 + of_char b) * 256 + of_char c :: nat in
     b64Digit (n div 262144) # b64Digit (n div 4096 mod 64) # b64Digit (n div 64 mod 64) #
       b64Digit (n mod 64) # rawURLEncode cs)"
| "rawURLEncode [a, b] =
    (let n = (of_char a * 256 + of_char b) * 4 :: nat in
     [b64Digit (n div 4096), b64Digit (n div 64 mod 64), b64Digit (n mod 64)])"
| "rawURLEncode [a] =
    (let n = of_char a * 16 :: nat in [b64Digit (n div 64), b64Digit (n mod 64)])"
| "rawURLEncode [] = []"

subsection \<open>Facts\<close>

lemma length_beBytes [simp]: "length (beBytes k n) = k"
  by (simp add: beBytes_def)

lemma sha256_round_length: "length st = 8 \<Longrightarrow> length (sha256_round kw st) = 8"
  by (cases "(kw, st)" rule: sha256_round.cases) (auto simp: Let_def)

lemma sha256_fold_length: "length st = 8 \<Longrightarrow> length (fold sha256_round kws st) = 8"
  by (induction kws arbitrary: st) (simp_all add: sha256_round_length)

lemma sha256_blocks_length: "length st = 8 \<Longrightarrow> length (sha256_blocks n st ws) = 8"
  by (induction n arbitrary: st ws) (simp_all add: sha256_block_def sha256_fold_length)

lemma length_sha256 [simp]: "length (sha256 m) = 32"
proof -
  have "sum_list (map (\<lambda>w. length (beBytes 4 (unat w))) ws) = 4 * length ws" for ws :: "32 word list"
    by (induction ws) simp_all
  then show ?thesis
    by (simp add: sha256_def Let_def length_concat comp_def sha256_blocks_length sha256_H0_def)
qed

end
