(* ===== verification/Schema.thy ===== *)
theory Schema
  imports Store
begin

text \<open>
  What the schema (sql/) and the code together keep of the tables: keys are unique, at most one
  session of a character is unrevoked (the partial index \<open>sessions_one_live\<close>), foreign keys
  refer to rows that exist, identities are fresh, and a revoked session holds no refresh token.
  \<open>wf_db\<close> is the conjunction; the locale \<open>table_invariant\<close> is interpreted on it, so that an
  operation preserves it as soon as its statements do.
\<close>

definition unrevoked :: "session_row \<Rightarrow> bool" where
  "unrevoked s = (se_revoked_at s = None)"

definition liveAt :: "time \<Rightarrow> session_row \<Rightarrow> bool" where
  "liveAt now s = (unrevoked s \<and> now < se_valid_til s)"

definition keys_ok :: "db \<Rightarrow> bool" where
  "keys_ok d = (distinct (map ch_id (t_characters d)) \<and> distinct (map se_id (t_sessions d)) \<and>
     distinct (map ct_token (t_confirms d)) \<and> distinct (map mu_id (t_mutations d)) \<and>
     distinct (map ls_state (t_logins d)) \<and> distinct (map ac_code (t_codes d)) \<and>
     distinct (map oc_client_id (t_clients d)))"

definition one_live :: "db \<Rightarrow> bool" where
  "one_live d = distinct (map se_character_id (filter unrevoked (t_sessions d)))"

definition refs_ok :: "db \<Rightarrow> bool" where
  "refs_ok d = (se_character_id ` set (t_sessions d) \<subseteq> ch_id ` set (t_characters d) \<and>
     ct_session_id ` set (t_confirms d) \<subseteq> se_id ` set (t_sessions d) \<and>
     mu_character_id ` set (t_mutations d) \<subseteq> ch_id ` set (t_characters d) \<and>
     (\<forall>m \<in> set (t_mutations d). \<forall>s. mu_session_id m = Some s \<longrightarrow> s \<in> se_id ` set (t_sessions d)))"

definition ids_fresh :: "db \<Rightarrow> bool" where
  "ids_fresh d = ((\<forall>s \<in> set (t_sessions d). se_id s < seq_sessions d) \<and>
     (\<forall>m \<in> set (t_mutations d). mu_id m < seq_mutations d))"

definition grants_cleared :: "db \<Rightarrow> bool" where
  "grants_cleared d = (\<forall>s \<in> set (t_sessions d). \<not> unrevoked s \<longrightarrow> se_refresh_token s = None)"

definition wf_db :: "db \<Rightarrow> bool" where
  "wf_db d = (keys_ok d \<and> one_live d \<and> refs_ok d \<and> ids_fresh d \<and> grants_cleared d)"

definition seq_le :: "db \<Rightarrow> db \<Rightarrow> bool" where
  "seq_le d d' = (seq_sessions d \<le> seq_sessions d' \<and> seq_mutations d \<le> seq_mutations d')"

lemmas wf_defs = wf_db_def keys_ok_def one_live_def refs_ok_def ids_fresh_def grants_cleared_def

interpretation wf: table_invariant wf_db seq_le
proof unfold_locales
  show "seq_le d d" for d by (simp add: seq_le_def)
  show "seq_le d d1 \<Longrightarrow> seq_le d1 d2 \<Longrightarrow> seq_le d d2" for d d1 d2 by (auto simp: seq_le_def)
  show "wf_db d \<Longrightarrow> seq_le d d1 \<Longrightarrow> wf_db (rollbackTo d d1)" for d d1
    by (fastforce simp: wf_defs rollbackTo_def seq_le_def)
  show "seq_le d d1 \<Longrightarrow> seq_le d (rollbackTo d d1)" for d d1
    by (simp add: seq_le_def rollbackTo_def)
qed

lemma wf_empty: "wf_db empty_db"
  by (simp add: wf_defs empty_db_def)

subsection \<open>One session per character\<close>

lemma distinct_map_filter_unique:
  "distinct (map k (filter p xs)) \<Longrightarrow> x \<in> set xs \<Longrightarrow> y \<in> set xs \<Longrightarrow> p x \<Longrightarrow> p y \<Longrightarrow> k x = k y \<Longrightarrow> x = y"
  by (induction xs) (auto split: if_splits simp: image_iff)

lemma one_live_unique:
  "wf_db d \<Longrightarrow> s \<in> set (t_sessions d) \<Longrightarrow> s' \<in> set (t_sessions d) \<Longrightarrow> unrevoked s \<Longrightarrow> unrevoked s' \<Longrightarrow>
   se_character_id s = se_character_id s' \<Longrightarrow> s = s'"
  by (auto simp: wf_db_def one_live_def intro: distinct_map_filter_unique)

lemma session_unique:
  "wf_db d \<Longrightarrow> s \<in> set (t_sessions d) \<Longrightarrow> s' \<in> set (t_sessions d) \<Longrightarrow> se_id s = se_id s' \<Longrightarrow> s = s'"
  by (auto simp: wf_db_def keys_ok_def distinct_map inj_on_def)

lemma filter_updateWhere_off:
  "(\<And>x. p x \<Longrightarrow> \<not> q (f x)) \<Longrightarrow> filter q (updateWhere p f xs) = filter (\<lambda>x. q x \<and> \<not> p x) xs"
  by (induction xs) auto

lemma distinct_map_filter_weaken:
  "distinct (map k (filter q xs)) \<Longrightarrow> distinct (map k (filter (\<lambda>x. q x \<and> r x) xs))"
  by (induction xs) (auto split: if_splits)

lemma find_id_in:
  assumes "wf_db d" "s \<in> set (t_sessions d)"
  shows "find (\<lambda>x. se_id x = se_id s) (t_sessions d) = Some s"
  using assms by (intro find_Some_iff_distinct) (auto simp: wf_db_def keys_ok_def)

subsection \<open>Statements that touch one table\<close>

text \<open>Each table can be thinned, and rows without references replaced, within \<open>wf_db\<close>.\<close>

lemma wf_drop_confirms: "wf_db d \<Longrightarrow> wf_db (d\<lparr>t_confirms := removeWhere p (t_confirms d)\<rparr>)"
  by (auto simp: wf_defs intro: distinct_map_removeWhere)

lemma wf_drop_mutations: "wf_db d \<Longrightarrow> wf_db (d\<lparr>t_mutations := removeWhere p (t_mutations d)\<rparr>)"
  by (auto simp: wf_defs intro: distinct_map_removeWhere)

lemma wf_drop_logins: "wf_db d \<Longrightarrow> wf_db (d\<lparr>t_logins := removeWhere p (t_logins d)\<rparr>)"
  by (auto simp: wf_defs intro: distinct_map_removeWhere)

lemma wf_drop_codes: "wf_db d \<Longrightarrow> wf_db (d\<lparr>t_codes := removeWhere p (t_codes d)\<rparr>)"
  by (auto simp: wf_defs intro: distinct_map_removeWhere)

lemma wf_drop_clients: "wf_db d \<Longrightarrow> wf_db (d\<lparr>t_clients := removeWhere p (t_clients d)\<rparr>)"
  by (auto simp: wf_defs intro: distinct_map_removeWhere)

lemma wf_add_confirm:
  "wf_db d \<Longrightarrow> ct_token c \<notin> ct_token ` set (t_confirms d) \<Longrightarrow> ct_session_id c \<in> se_id ` set (t_sessions d) \<Longrightarrow>
   wf_db (d\<lparr>t_confirms := t_confirms d @ [c]\<rparr>)"
  by (auto simp: wf_defs)

lemma wf_add_login:
  "wf_db d \<Longrightarrow> ls_state c \<notin> ls_state ` set (t_logins d) \<Longrightarrow> wf_db (d\<lparr>t_logins := t_logins d @ [c]\<rparr>)"
  by (auto simp: wf_defs)

lemma wf_add_code:
  "wf_db d \<Longrightarrow> ac_code c \<notin> ac_code ` set (t_codes d) \<Longrightarrow> wf_db (d\<lparr>t_codes := t_codes d @ [c]\<rparr>)"
  by (auto simp: wf_defs)

lemma wf_add_client:
  "wf_db d \<Longrightarrow> oc_client_id c \<notin> oc_client_id ` set (t_clients d) \<Longrightarrow>
   wf_db (d\<lparr>t_clients := t_clients d @ [c]\<rparr>)"
  by (auto simp: wf_defs)

lemma wf_add_character:
  "wf_db d \<Longrightarrow> ch_id c \<notin> ch_id ` set (t_characters d) \<Longrightarrow>
   wf_db (d\<lparr>t_characters := t_characters d @ [c]\<rparr>)"
  by (auto simp: wf_defs)

lemma wf_add_mutation:
  "wf_db d \<Longrightarrow> mu_id m = seq_mutations d \<Longrightarrow> mu_character_id m \<in> ch_id ` set (t_characters d) \<Longrightarrow>
   (\<And>s. mu_session_id m = Some s \<Longrightarrow> s \<in> se_id ` set (t_sessions d)) \<Longrightarrow>
   wf_db (d\<lparr>t_mutations := t_mutations d @ [m], seq_mutations := seq_mutations d + 1\<rparr>)"
  by (fastforce simp: wf_defs)

lemma wf_add_session:
  "wf_db d \<Longrightarrow> se_id s = seq_sessions d \<Longrightarrow> se_character_id s \<in> ch_id ` set (t_characters d) \<Longrightarrow>
   unrevoked s \<Longrightarrow>
   (\<And>x. x \<in> set (t_sessions d) \<Longrightarrow> unrevoked x \<Longrightarrow> se_character_id x \<noteq> se_character_id s) \<Longrightarrow>
   wf_db (d\<lparr>t_sessions := t_sessions d @ [s], seq_sessions := seq_sessions d + 1\<rparr>)"
  unfolding wf_db_def
proof (intro conjI, goal_cases)
  case 1 then show ?case by (force simp: keys_ok_def ids_fresh_def)
next
  case 2 then show ?case by (auto simp: one_live_def)
next
  case 3 then show ?case by (auto simp: refs_ok_def)
next
  case 4 then show ?case by (force simp: ids_fresh_def)
next
  case 5 then show ?case by (auto simp: grants_cleared_def)
qed

lemma image_updateWhere_key:
  "(\<And>x. p x \<Longrightarrow> k (f x) = k x) \<Longrightarrow> k ` set (updateWhere p f xs) = k ` set xs"
  unfolding set_map [symmetric] by (simp add: map_updateWhere_key del: set_map set_updateWhere)

lemma wf_update_confirms:
  assumes "wf_db d" "\<And>c. p c \<Longrightarrow> ct_token (f c) = ct_token c"
    "\<And>c. p c \<Longrightarrow> ct_session_id (f c) \<in> se_id ` set (t_sessions d)"
  shows "wf_db (d\<lparr>t_confirms := updateWhere p f (t_confirms d)\<rparr>)"
  using assms by (auto simp: wf_defs map_updateWhere_key[of p ct_token f])

lemma wf_update_characters:
  assumes "wf_db d" "\<And>c. p c \<Longrightarrow> ch_id (f c) = ch_id c"
  shows "wf_db (d\<lparr>t_characters := updateWhere p f (t_characters d)\<rparr>)"
  using assms(1) image_updateWhere_key[of p ch_id f "t_characters d"] assms(2)
  by (simp add: wf_defs map_updateWhere_key[of p ch_id f] del: set_updateWhere)

lemma wf_update_logins:
  assumes "wf_db d" "\<And>c. p c \<Longrightarrow> ls_state (f c) = ls_state c"
  shows "wf_db (d\<lparr>t_logins := updateWhere p f (t_logins d)\<rparr>)"
  using assms by (simp add: wf_defs map_updateWhere_key[of p ls_state f])

lemma wf_update_clients:
  assumes "wf_db d" "\<And>c. p c \<Longrightarrow> oc_client_id (f c) = oc_client_id c"
  shows "wf_db (d\<lparr>t_clients := updateWhere p f (t_clients d)\<rparr>)"
  using assms by (simp add: wf_defs map_updateWhere_key[of p oc_client_id f])

text \<open>Revoking sessions clears their tokens.\<close>

lemma wf_revoke_sessions:
  assumes "wf_db d"
  shows "wf_db (d\<lparr>t_sessions := updateWhere p (\<lambda>s. s\<lparr>se_revoked_at := Some t, se_refresh_token := None\<rparr>)
    (t_sessions d)\<rparr>)" (is "wf_db (d\<lparr>t_sessions := updateWhere p ?f _\<rparr>)")
proof -
  have f: "filter unrevoked (updateWhere p ?f (t_sessions d)) = filter (\<lambda>x. unrevoked x \<and> \<not> p x) (t_sessions d)"
    by (rule filter_updateWhere_off) (simp add: unrevoked_def)
  have k: "map se_id (updateWhere p ?f (t_sessions d)) = map se_id (t_sessions d)"
    by (rule map_updateWhere_key) simp
  have i: "se_id ` set (updateWhere p ?f (t_sessions d)) = se_id ` set (t_sessions d)"
    "se_character_id ` set (updateWhere p ?f (t_sessions d)) = se_character_id ` set (t_sessions d)"
    by (rule image_updateWhere_key, simp)+
  have g: "s \<in> set (updateWhere p ?f (t_sessions d)) \<Longrightarrow> \<not> unrevoked s \<Longrightarrow> se_refresh_token s = None" for s
    using assms by (auto simp: wf_db_def grants_cleared_def)
  have fr: "s \<in> set (updateWhere p ?f (t_sessions d)) \<Longrightarrow> se_id s < seq_sessions d" for s
    using assms by (auto simp: wf_db_def ids_fresh_def)
  show ?thesis
    using assms g fr
    by (simp add: wf_defs f k i distinct_map_filter_weaken del: set_updateWhere)
qed

text \<open>A token written to an unrevoked session leaves the invariant alone.\<close>

lemma wf_write_token:
  assumes "wf_db d" "\<And>s. s \<in> set (t_sessions d) \<Longrightarrow> se_id s = i \<Longrightarrow> unrevoked s"
  shows "wf_db (d\<lparr>t_sessions := updateWhere (\<lambda>s. se_id s = i) (\<lambda>s. s\<lparr>se_refresh_token := tok\<rparr>)
    (t_sessions d)\<rparr>)" (is "wf_db (d\<lparr>t_sessions := updateWhere ?p ?f _\<rparr>)")
proof -
  have f: "map se_character_id (filter unrevoked (updateWhere ?p ?f xs)) =
      map se_character_id (filter unrevoked xs)" for xs
    by (induction xs) (auto simp: unrevoked_def)
  have k: "map se_id (updateWhere ?p ?f (t_sessions d)) = map se_id (t_sessions d)"
    by (rule map_updateWhere_key) simp
  have i: "se_id ` set (updateWhere ?p ?f (t_sessions d)) = se_id ` set (t_sessions d)"
    "se_character_id ` set (updateWhere ?p ?f (t_sessions d)) = se_character_id ` set (t_sessions d)"
    by (rule image_updateWhere_key, simp)+
  have g: "s \<in> set (updateWhere ?p ?f (t_sessions d)) \<Longrightarrow> \<not> unrevoked s \<Longrightarrow> se_refresh_token s = None" for s
    using assms by (auto simp: wf_db_def grants_cleared_def unrevoked_def split: if_splits)
  have fr: "s \<in> set (updateWhere ?p ?f (t_sessions d)) \<Longrightarrow> se_id s < seq_sessions d" for s
    using assms by (auto simp: wf_db_def ids_fresh_def)
  show ?thesis
    using assms g fr by (simp add: wf_defs f k i del: set_updateWhere)
qed

text \<open>Deleting sessions takes their confirm tokens along and clears the audit rows' reference.\<close>

definition deleteSessions :: "(session_row \<Rightarrow> bool) \<Rightarrow> db \<Rightarrow> db" where
  "deleteSessions p d =
    (let gone = map se_id (filter p (t_sessions d)) in
     d\<lparr>t_sessions := removeWhere p (t_sessions d),
       t_confirms := removeWhere (\<lambda>c. ct_session_id c \<in> set gone) (t_confirms d),
       t_mutations := updateWhere (\<lambda>m. \<exists>s \<in> set gone. mu_session_id m = Some s)
         (\<lambda>m. m\<lparr>mu_session_id := None\<rparr>) (t_mutations d)\<rparr>)"

lemma image_split_out: "i \<in> f ` S \<Longrightarrow> i \<notin> f ` {x \<in> S. p x} \<Longrightarrow> i \<in> f ` {x \<in> S. \<not> p x}"
  by blast

lemma wf_deleteSessions: assumes "wf_db d" shows "wf_db (deleteSessions p d)"
proof -
  have o: "distinct (map se_character_id (filter unrevoked (removeWhere p xs)))"
    if "distinct (map se_character_id (filter unrevoked xs))" for xs
    using that by (induction xs) auto
  have m: "map mu_id (updateWhere q (\<lambda>m. m\<lparr>mu_session_id := None\<rparr>) xs) = map mu_id xs" for q and xs :: "mutation_row list"
    by (rule map_updateWhere_key) simp
  have k: "keys_ok (deleteSessions p d)" "one_live (deleteSessions p d)" "ids_fresh (deleteSessions p d)"
    "grants_cleared (deleteSessions p d)"
    using assms by (auto simp: wf_defs deleteSessions_def Let_def m o distinct_map_removeWhere)
  have r: "refs_ok (deleteSessions p d)"
  proof -
    have a: "refs_ok d" "distinct (map se_id (t_sessions d))"
      using assms by (simp_all add: wf_db_def keys_ok_def)
    have c: "ct_session_id c \<in> se_id ` {s \<in> set (t_sessions d). \<not> p s}"
      if "c \<in> set (t_confirms d)" "ct_session_id c \<notin> se_id ` {s \<in> set (t_sessions d). p s}" for c
      by (rule image_split_out[OF _ that(2)]) (use that(1) a(1) in \<open>auto simp: refs_ok_def\<close>)
    have m: "i \<in> se_id ` {s \<in> set (t_sessions d). \<not> p s}"
      if "m \<in> set (t_mutations d)" "mu_session_id m = Some i"
        "i \<notin> se_id ` {s \<in> set (t_sessions d). p s}" for m i
      by (rule image_split_out[OF _ that(3)]) (use that(1,2) a(1) in \<open>simp add: refs_ok_def\<close>)
    have u: "mu_character_id ` set (updateWhere q (\<lambda>m. m\<lparr>mu_session_id := None\<rparr>) xs) = mu_character_id ` set xs"
      for q and xs :: "mutation_row list" by (rule image_updateWhere_key) simp
    have s: "se_character_id ` {s \<in> set (t_sessions d). \<not> p s} \<subseteq> ch_id ` set (t_characters d)"
      using a(1) by (auto simp: refs_ok_def)
    have u': "mu_character_id ` set (t_mutations d) \<subseteq> ch_id ` set (t_characters d)"
      using a(1) by (simp add: refs_ok_def)
    have cs: "ct_session_id ` {c \<in> set (t_confirms d). ct_session_id c \<notin> se_id ` {s \<in> set (t_sessions d). p s}}
      \<subseteq> se_id ` {s \<in> set (t_sessions d). \<not> p s}"
      using c by blast
    have ms: "i \<in> se_id ` {s \<in> set (t_sessions d). \<not> p s}"
      if "m \<in> set (updateWhere (\<lambda>m. \<exists>s \<in> set (map se_id (filter p (t_sessions d))). mu_session_id m = Some s)
         (\<lambda>m. m\<lparr>mu_session_id := None\<rparr>) (t_mutations d))" "mu_session_id m = Some i" for m i
      using that m by (auto split: if_splits)
    show ?thesis
      unfolding refs_ok_def deleteSessions_def Let_def
      using s u u' cs ms by (simp del: set_updateWhere)
  qed
  show ?thesis using k r by (simp add: wf_db_def)
qed

end
