(* ===== verification/OneShot.thy ===== *)
theory OneShot
  imports Schema
begin

text \<open>
  The three tables of one-shot values and their repositories: authorization codes
  (internal/domain/authcode), login states (internal/domain/loginstate) and confirm tokens
  (internal/domain/confirm). \<open>Take\<close> is one \<open>DELETE ... RETURNING\<close>; the locale
  \<open>take_store\<close> says what that promises, and is interpreted on all three.

  The login-state repository runs its statements on the pool even inside a transaction; no
  caller has one open, and the model's \<open>runStmt\<close> is that case.
\<close>

definition confirm_TTL :: duration where "confirm_TTL = 300 * second"
definition loginstate_TTL :: duration where "loginstate_TTL = 15 * minute"

definition authcode_revokeCeiling :: nat where "authcode_revokeCeiling = 100"

subsection \<open>Taking a row\<close>

definition takeStmt :: "('r \<Rightarrow> bool) \<Rightarrow> (db \<Rightarrow> 'r list) \<Rightarrow> ('r list \<Rightarrow> db \<Rightarrow> db) \<Rightarrow>
    db \<Rightarrow> goerr + ('r option \<times> db)" where
  \<comment> \<open>\<open>DELETE FROM t WHERE key = $1 RETURNING ...\<close>\<close>
  "takeStmt p tab put d = (case find p (tab d) of
     None \<Rightarrow> Inr (None, d) | Some r \<Rightarrow> Inr (Some r, put (removeWhere p (tab d)) d))"

locale take_store =
  fixes row :: "db \<Rightarrow> 'k \<Rightarrow> 'r option" and taking :: "'k \<Rightarrow> 'r action"
    and expired :: "time \<Rightarrow> 'r \<Rightarrow> bool"
  assumes take_ok: "taking k w = (Inr r, w') \<Longrightarrow>
      row (w_db w) k = Some r \<and> \<not> expired (w_now w) r \<and> row (w_db w') k = None"
    and take_err: "taking k w = (Inl e, w') \<Longrightarrow>
      row (w_db w') k = None \<or> row (w_db w') k = row (w_db w) k"
begin

lemma take_absent: "row (w_db w) k = None \<Longrightarrow> \<exists>e. fst (taking k w) = Inl e"
  using take_ok[of k w] by (cases "taking k w"; cases "fst (taking k w)") auto

lemma take_stays_absent: "row (w_db w) k = None \<Longrightarrow> row (w_db (snd (taking k w))) k = None"
  using take_ok[of k w] take_err[of k w] by (cases "taking k w"; cases "fst (taking k w)") auto

text \<open>Any number of takes of one key, at any times, hand the row out at most once.\<close>

fun takes :: "'k \<Rightarrow> time list \<Rightarrow> world \<Rightarrow> 'r list" where
  "takes k [] w = []"
| "takes k (t # ts) w = (case taking k (w\<lparr>w_now := t\<rparr>) of
     (Inl e, w1) \<Rightarrow> takes k ts w1 | (Inr r, w1) \<Rightarrow> r # takes k ts w1)"

lemma takes_absent: "row (w_db w) k = None \<Longrightarrow> takes k ts w = []"
proof (induction ts arbitrary: w)
  case (Cons t ts)
  let ?w = "w\<lparr>w_now := t\<rparr>"
  obtain e w1 where e: "taking k ?w = (Inl e, w1)"
    using take_absent[of ?w k] Cons.prems by (cases "taking k ?w") auto
  then have "row (w_db w1) k = None" using take_stays_absent[of ?w k] Cons.prems by simp
  then show ?case using e Cons.IH by simp
qed simp

lemma takes_once: "length (takes k ts w) \<le> 1"
proof (induction ts arbitrary: w)
  case (Cons t ts)
  show ?case
  proof (cases "taking k (w\<lparr>w_now := t\<rparr>)")
    case (Pair x w1)
    then show ?thesis
      using Cons.IH[of w1] take_ok[of k "w\<lparr>w_now := t\<rparr>" _ w1] takes_absent[of w1 k ts]
      by (cases x) auto
  qed
qed simp

end

lemma takeStmt_run:
  assumes "runStmt (takeStmt p tab put) w = (x, w')" "\<And>xs d. tab (put xs d) = xs"
  shows "find p (tab (w_db w')) = None \<or> find p (tab (w_db w')) = find p (tab (w_db w))"
proof (cases x)
  case (Inl e)
  then show ?thesis using assms(1) runStmt_Inl(1)[of "takeStmt p tab put" w e w'] by simp
next
  case (Inr q)
  then have "takeStmt p tab put (w_db w) = Inr (q, w_db w')"
    using assms(1) runStmt_Inr(1)[of "takeStmt p tab put" w q w'] by simp
  then show ?thesis
  proof (cases "find p (tab (w_db w))")
    case (Some r)
    then have "w_db w' = put (removeWhere p (tab (w_db w))) (w_db w)"
      using \<open>takeStmt p tab put (w_db w) = Inr (q, w_db w')\<close> by (simp add: takeStmt_def)
    then show ?thesis by (simp add: assms(2))
  qed (simp add: takeStmt_def)
qed

subsection \<open>Authorization codes\<close>

definition authOp :: "string \<Rightarrow> string" where "authOp op = ''authcode: '' @ op"

definition codeRow :: "db \<Rightarrow> string \<Rightarrow> code_row option" where
  "codeRow d v = find (\<lambda>c. ac_code c = v) (t_codes d)"

definition putCodeStmt :: "code_row \<Rightarrow> db \<Rightarrow> goerr + (unit \<times> db)" where
  "putCodeStmt c d = (if ac_code c \<in> ac_code ` set (t_codes d) then Inl (External ''auth_codes_pkey'')
     else Inr ((), d\<lparr>t_codes := t_codes d @ [c]\<rparr>))"

definition Codes_Put :: "code_row \<Rightarrow> unit action" where
  "Codes_Put c = wrapA (authOp ''Put'') (runStmt (putCodeStmt c))"

definition Codes_Get :: "string \<Rightarrow> code_row action" where
  "Codes_Get v w = (case runStmt (\<lambda>d. Inr (codeRow d v, d)) w of
      (Inl e, w1) \<Rightarrow> (Inl (Wrap (authOp ''scan'') e), w1)
    | (Inr None, w1) \<Rightarrow> (Inl (Sentinel authcode_ErrNotFound), w1)
    | (Inr (Some c), w1) \<Rightarrow>
        (if w_now w > ac_expires_at c then (Inl (Sentinel authcode_ErrNotFound), w1) else (Inr c, w1)))"

definition Codes_Take :: "string \<Rightarrow> code_row action" where
  "Codes_Take v w = (case runStmt (takeStmt (\<lambda>c. ac_code c = v) t_codes (\<lambda>xs d. d\<lparr>t_codes := xs\<rparr>)) w of
      (Inl e, w1) \<Rightarrow> (Inl (Wrap (authOp ''scan'') e), w1)
    | (Inr None, w1) \<Rightarrow> (Inl (Sentinel authcode_ErrNotFound), w1)
    | (Inr (Some c), w1) \<Rightarrow>
        (if w_now w > ac_expires_at c then (Inl (Sentinel authcode_ErrNotFound), w1) else (Inr c, w1)))"

record Swept =
  sw_Count :: nat
  sw_Tokens :: "string list"

definition sweepExpiredStmt :: "time \<Rightarrow> nat \<Rightarrow> db \<Rightarrow> goerr + (string list \<times> db)" where
  "sweepExpiredStmt now n d =
    (let gone = take n (sort_key ac_expires_at (filter (\<lambda>c. ac_expires_at c < now) (t_codes d))) in
     Inr (map ac_refresh_token gone,
       d\<lparr>t_codes := removeWhere (\<lambda>c. ac_code c \<in> set (map ac_code gone)) (t_codes d)\<rparr>))"

definition collectSwept :: "string list \<Rightarrow> Swept" where
  "collectSwept toks = \<lparr>sw_Count = length toks, sw_Tokens = filter (\<lambda>t. t \<noteq> []) toks\<rparr>"

definition Codes_SweepExpired :: "Swept action" where
  "Codes_SweepExpired w =
    (case runStmt (sweepExpiredStmt (w_now w) authcode_revokeCeiling) w of
      (Inl e, w1) \<Rightarrow> (Inl (Wrap (authOp ''SweepExpired'') e), w1)
    | (Inr toks, w1) \<Rightarrow> (Inr (collectSwept toks), w1))"

lemma Codes_Take_ok:
  assumes "Codes_Take v w = (Inr c, w')"
  shows "codeRow (w_db w) v = Some c" "w_now w \<le> ac_expires_at c"
    "w_db w' = (w_db w)\<lparr>t_codes := removeWhere (\<lambda>c. ac_code c = v) (t_codes (w_db w))\<rparr>"
    "w_now w' = w_now w" "w_ccp w' = w_ccp w" "w_tx w' = w_tx w" "codeRow (w_db w') v = None"
proof -
  have r: "runStmt (takeStmt (\<lambda>c. ac_code c = v) t_codes (\<lambda>xs d. d\<lparr>t_codes := xs\<rparr>)) w = (Inr (Some c), w')"
    and t: "w_now w \<le> ac_expires_at c"
    using assms by (auto simp: Codes_Take_def split: prod.splits sum.splits option.splits if_splits)
  note f = runStmt_Inr[OF r]
  show "codeRow (w_db w) v = Some c"
    "w_db w' = (w_db w)\<lparr>t_codes := removeWhere (\<lambda>c. ac_code c = v) (t_codes (w_db w))\<rparr>"
    using f(1) by (auto simp: takeStmt_def codeRow_def split: option.splits)
  then show "codeRow (w_db w') v = None" by (simp add: codeRow_def)
  show "w_now w \<le> ac_expires_at c" by (fact t)
  show "w_now w' = w_now w" "w_ccp w' = w_ccp w" "w_tx w' = w_tx w" by (fact f)+
qed

interpretation codes: take_store codeRow Codes_Take "\<lambda>now c. now > ac_expires_at c"
proof unfold_locales
  fix k w r w' assume t: "Codes_Take k w = (Inr r, w')"
  then show "codeRow (w_db w) k = Some r \<and> \<not> w_now w > ac_expires_at r \<and> codeRow (w_db w') k = None"
    using Codes_Take_ok[OF t] by simp
next
  fix k w e w' assume t: "Codes_Take k w = (Inl e, w')"
  show "codeRow (w_db w') k = None \<or> codeRow (w_db w') k = codeRow (w_db w) k"
  proof (cases "runStmt (takeStmt (\<lambda>c. ac_code c = k) t_codes (\<lambda>xs d. d\<lparr>t_codes := xs\<rparr>)) w")
    case (Pair x w1)
    then have "w1 = w'" using t by (auto simp: Codes_Take_def split: sum.splits option.splits if_splits)
    then show ?thesis
      using Pair takeStmt_run[of "\<lambda>c. ac_code c = k" t_codes "\<lambda>xs d. d\<lparr>t_codes := xs\<rparr>" w x w']
      by (simp add: codeRow_def)
  qed
qed

subsection \<open>Login states\<close>

definition loginOp :: "string \<Rightarrow> string" where "loginOp op = ''loginstate: '' @ op"

definition loginRow :: "db \<Rightarrow> string \<Rightarrow> login_row option" where
  "loginRow d v = find (\<lambda>l. ls_state l = v) (t_logins d)"

definition putLoginStmt :: "login_row \<Rightarrow> db \<Rightarrow> goerr + (unit \<times> db)" where
  "putLoginStmt l d = Inr ((),
     if ls_state l \<in> ls_state ` set (t_logins d)
     then d\<lparr>t_logins := updateWhere (\<lambda>x. ls_state x = ls_state l) (\<lambda>_. l) (t_logins d)\<rparr>
     else d\<lparr>t_logins := t_logins d @ [l]\<rparr>)"

definition Logins_Put :: "login_row \<Rightarrow> unit action" where
  "Logins_Put l w =
    (let l' = (if isZero (ls_created_at l) then l\<lparr>ls_created_at := w_now w\<rparr> else l) in
     wrapA (loginOp ''Put'') (runStmt (putLoginStmt l')) w)"

definition Logins_Get :: "string \<Rightarrow> login_row action" where
  "Logins_Get v w = (case runStmt (\<lambda>d. Inr (loginRow d v, d)) w of
      (Inl e, w1) \<Rightarrow> (Inl (Wrap (loginOp ''scan'') e), w1)
    | (Inr None, w1) \<Rightarrow> (Inl (Sentinel loginstate_ErrNotFound), w1)
    | (Inr (Some l), w1) \<Rightarrow>
        (if w_now w - ls_created_at l > loginstate_TTL
         then (case wrapA (loginOp ''Get'')
                 (runStmt (\<lambda>d. Inr ((), d\<lparr>t_logins := removeWhere (\<lambda>x. ls_state x = v) (t_logins d)\<rparr>))) w1 of
                 (Inl e, w2) \<Rightarrow> (Inl e, w2)
               | (Inr _, w2) \<Rightarrow> (Inl (Sentinel loginstate_ErrNotFound), w2))
         else (Inr l, w1)))"

definition Logins_Take :: "string \<Rightarrow> login_row action" where
  "Logins_Take v w = (case runStmt (takeStmt (\<lambda>l. ls_state l = v) t_logins (\<lambda>xs d. d\<lparr>t_logins := xs\<rparr>)) w of
      (Inl e, w1) \<Rightarrow> (Inl (Wrap (loginOp ''scan'') e), w1)
    | (Inr None, w1) \<Rightarrow> (Inl (Sentinel loginstate_ErrNotFound), w1)
    | (Inr (Some l), w1) \<Rightarrow>
        (if w_now w - ls_created_at l > loginstate_TTL
         then (Inl (Sentinel loginstate_ErrNotFound), w1) else (Inr l, w1)))"

definition Logins_DeleteExpired :: "nat action" where
  "Logins_DeleteExpired w = wrapA (loginOp ''DeleteExpired'') (runStmt (\<lambda>d.
     let old = (\<lambda>l. ls_created_at l < w_now w - 15 * minute) in
     Inr (countWhere old (t_logins d), d\<lparr>t_logins := removeWhere old (t_logins d)\<rparr>))) w"

lemma Logins_Take_ok:
  assumes "Logins_Take v w = (Inr l, w')"
  shows "loginRow (w_db w) v = Some l" "w_now w - ls_created_at l \<le> loginstate_TTL"
    "w_db w' = (w_db w)\<lparr>t_logins := removeWhere (\<lambda>l. ls_state l = v) (t_logins (w_db w))\<rparr>"
    "w_now w' = w_now w" "w_ccp w' = w_ccp w" "w_tx w' = w_tx w" "loginRow (w_db w') v = None"
proof -
  have r: "runStmt (takeStmt (\<lambda>l. ls_state l = v) t_logins (\<lambda>xs d. d\<lparr>t_logins := xs\<rparr>)) w = (Inr (Some l), w')"
    and t: "w_now w - ls_created_at l \<le> loginstate_TTL"
    using assms by (auto simp: Logins_Take_def split: prod.splits sum.splits option.splits if_splits)
  note f = runStmt_Inr[OF r]
  show "loginRow (w_db w) v = Some l"
    "w_db w' = (w_db w)\<lparr>t_logins := removeWhere (\<lambda>l. ls_state l = v) (t_logins (w_db w))\<rparr>"
    using f(1) by (auto simp: takeStmt_def loginRow_def split: option.splits)
  then show "loginRow (w_db w') v = None" by (simp add: loginRow_def)
  show "w_now w - ls_created_at l \<le> loginstate_TTL" by (fact t)
  show "w_now w' = w_now w" "w_ccp w' = w_ccp w" "w_tx w' = w_tx w" by (fact f)+
qed

interpretation logins: take_store loginRow Logins_Take "\<lambda>now l. now - ls_created_at l > loginstate_TTL"
proof unfold_locales
  fix k w r w' assume t: "Logins_Take k w = (Inr r, w')"
  then show "loginRow (w_db w) k = Some r \<and> \<not> w_now w - ls_created_at r > loginstate_TTL \<and>
      loginRow (w_db w') k = None"
    using Logins_Take_ok[OF t] by simp
next
  fix k w e w' assume t: "Logins_Take k w = (Inl e, w')"
  show "loginRow (w_db w') k = None \<or> loginRow (w_db w') k = loginRow (w_db w) k"
  proof (cases "runStmt (takeStmt (\<lambda>l. ls_state l = k) t_logins (\<lambda>xs d. d\<lparr>t_logins := xs\<rparr>)) w")
    case (Pair x w1)
    then have "w1 = w'" using t by (auto simp: Logins_Take_def split: sum.splits option.splits if_splits)
    then show ?thesis
      using Pair takeStmt_run[of "\<lambda>l. ls_state l = k" t_logins "\<lambda>xs d. d\<lparr>t_logins := xs\<rparr>" w x w']
      by (simp add: loginRow_def)
  qed
qed

subsection \<open>The invariant\<close>

lemma preserves_run_at:
  assumes "\<And>t d x d'. wf_db d \<Longrightarrow> f t d = Inr (x, d') \<Longrightarrow> wf_db d' \<and> seq_le d d'"
    "\<And>w. w_db (snd (n w)) = w_db (snd (runStmt (f (w_now w)) w))"
  shows "preserves wf_db seq_le n"
  using wf.preserves_stmt[of "f _"] assms unfolding preserves_def by metis

lemma wf_putCodeStmt: "wf_db d \<Longrightarrow> putCodeStmt c d = Inr (x, d') \<Longrightarrow> wf_db d' \<and> seq_le d d'"
  by (auto simp: putCodeStmt_def seq_le_def split: if_splits intro!: wf_add_code)

lemma wf_takeCodeStmt:
  "wf_db d \<Longrightarrow> takeStmt p t_codes (\<lambda>xs d. d\<lparr>t_codes := xs\<rparr>) d = Inr (x, d') \<Longrightarrow> wf_db d' \<and> seq_le d d'"
  by (auto simp: takeStmt_def seq_le_def wf_drop_codes split: option.splits)

lemma wf_sweepStmt: "wf_db d \<Longrightarrow> sweepExpiredStmt now n d = Inr (x, d') \<Longrightarrow> wf_db d' \<and> seq_le d d'"
  by (auto simp: sweepExpiredStmt_def Let_def seq_le_def wf_drop_codes)

lemma wf_putLoginStmt: "wf_db d \<Longrightarrow> putLoginStmt l d = Inr (x, d') \<Longrightarrow> wf_db d' \<and> seq_le d d'"
  by (auto simp: putLoginStmt_def seq_le_def split: if_splits intro!: wf_add_login wf_update_logins)

lemma wf_takeLoginStmt:
  "wf_db d \<Longrightarrow> takeStmt p t_logins (\<lambda>xs d. d\<lparr>t_logins := xs\<rparr>) d = Inr (x, d') \<Longrightarrow> wf_db d' \<and> seq_le d d'"
  by (auto simp: takeStmt_def seq_le_def wf_drop_logins split: option.splits)

lemma wf_Codes_Put [inv_intros]: "preserves wf_db seq_le (Codes_Put c)"
  unfolding Codes_Put_def by (intro wf.preserves_wrapA wf.preserves_stmt wf_putCodeStmt)

lemma wf_Codes_Take [inv_intros]: "preserves wf_db seq_le (Codes_Take v)"
  by (rule preserves_run_at[where f = "\<lambda>_. takeStmt (\<lambda>c. ac_code c = v) t_codes (\<lambda>xs d. d\<lparr>t_codes := xs\<rparr>)"])
     (auto simp: Codes_Take_def wf_takeCodeStmt split: prod.split sum.split option.split)

lemma wf_Codes_SweepExpired [inv_intros]: "preserves wf_db seq_le Codes_SweepExpired"
  by (rule preserves_run_at[where f = "\<lambda>t. sweepExpiredStmt t authcode_revokeCeiling"])
     (auto simp: Codes_SweepExpired_def wf_sweepStmt split: prod.split sum.split)

lemma wf_Logins_Put [inv_intros]: "preserves wf_db seq_le (Logins_Put l)"
  by (rule preserves_run_at[where f = "\<lambda>t. putLoginStmt (if isZero (ls_created_at l) then l\<lparr>ls_created_at := t\<rparr> else l)"])
     (auto simp: Logins_Put_def wrapA_def Let_def wf_putLoginStmt split: prod.split sum.split)

lemma wf_Logins_Take [inv_intros]: "preserves wf_db seq_le (Logins_Take v)"
  by (rule preserves_run_at[where f = "\<lambda>_. takeStmt (\<lambda>c. ls_state c = v) t_logins (\<lambda>xs d. d\<lparr>t_logins := xs\<rparr>)"])
     (auto simp: Logins_Take_def wf_takeLoginStmt split: prod.split sum.split option.split)

lemma Codes_Put_ok:
  assumes "Codes_Put c w = (Inr u, w')"
  shows "w_db w' = (w_db w)\<lparr>t_codes := t_codes (w_db w) @ [c]\<rparr>" "w_now w' = w_now w"
    "w_ccp w' = w_ccp w" "codeRow (w_db w') (ac_code c) = Some c"
proof -
  have r: "runStmt (putCodeStmt c) w = (Inr u, w')"
    using assms by (auto simp: Codes_Put_def wrapA_def wrapR_def split: prod.splits sum.splits)
  note f = runStmt_Inr[OF r]
  have n: "ac_code c \<notin> ac_code ` set (t_codes (w_db w))"
    using f(1) by (auto simp: putCodeStmt_def split: if_splits)
  show d: "w_db w' = (w_db w)\<lparr>t_codes := t_codes (w_db w) @ [c]\<rparr>"
    using f(1) n by (auto simp: putCodeStmt_def)
  have "find (\<lambda>x. ac_code x = ac_code c) (t_codes (w_db w)) = None"
    using n by (simp add: find_key_None)
  then show "codeRow (w_db w') (ac_code c) = Some c" by (simp add: d codeRow_def find_append)
  show "w_now w' = w_now w" "w_ccp w' = w_ccp w" by (fact f)+
qed

end
