(* ===== verification/SessionRepo.thy ===== *)
theory SessionRepo
  imports Schema
begin

text \<open>
  The sessions repository (internal/domain/session/session.go, internal/domain/session/pgx):
  creating a session, the three revoking statements, the live lookup, the refresh under a row
  lock and the purge. Where SQL leaves the order of returned rows open the model takes the
  table's; \<open>ORDER BY\<close> is a stable sort.
\<close>

definition Lifetime :: duration where "Lifetime = 30 * 24 * hour"

record Session =
  sn_ID :: int
  sn_CharacterID :: int
  sn_RefreshToken :: string
  sn_Scopes :: "string list"
  sn_MCPClientID :: string
  sn_ClientName :: string
  sn_IP :: string
  sn_CreatedAt :: time
  sn_ValidTil :: time
  sn_RevokedAt :: "time option"

record Revoked =
  rv_IDs :: "int list"
  rv_Tokens :: "string list"

definition revokeCeiling :: nat where "revokeCeiling = 100"

definition sessOp :: "string \<Rightarrow> string" where "sessOp op = ''session: '' @ op"

definition nullIfEmpty :: "string \<Rightarrow> string option" where
  "nullIfEmpty s = (if s = [] then None else Some s)"

definition deref :: "string option \<Rightarrow> string" where
  "deref s = (case s of None \<Rightarrow> [] | Some t \<Rightarrow> t)"

definition scanSession :: "session_row \<Rightarrow> Session" where
  "scanSession r = \<lparr>sn_ID = se_id r, sn_CharacterID = se_character_id r,
     sn_RefreshToken = deref (se_refresh_token r), sn_Scopes = se_scopes r,
     sn_MCPClientID = se_mcp_client_id r, sn_ClientName = se_client_name r, sn_IP = se_ip r,
     sn_CreatedAt = se_created_at r, sn_ValidTil = se_valid_til r, sn_RevokedAt = se_revoked_at r\<rparr>"

lemma deref_nullIfEmpty [simp]: "deref (nullIfEmpty s) = s"
  by (simp add: deref_def nullIfEmpty_def)

subsection \<open>Statements\<close>

definition createRow :: "Session \<Rightarrow> time \<Rightarrow> db \<Rightarrow> session_row" where
  "createRow s now d = \<lparr>se_id = seq_sessions d, se_character_id = sn_CharacterID s,
     se_refresh_token = nullIfEmpty (sn_RefreshToken s), se_scopes = sn_Scopes s,
     se_mcp_client_id = sn_MCPClientID s, se_client_name = sn_ClientName s, se_ip = sn_IP s,
     se_created_at = now, se_valid_til = now + 30 * day, se_revoked_at = None\<rparr>"

definition createStmt :: "Session \<Rightarrow> time \<Rightarrow> db \<Rightarrow> goerr + (session_row \<times> db)" where
  "createStmt s now d =
    (if sn_CharacterID s \<notin> ch_id ` set (t_characters d)
     then Inl (External ''sessions_character_id_fkey'')
     else if \<exists>x \<in> set (t_sessions d). unrevoked x \<and> se_character_id x = sn_CharacterID s
     then Inl (External ''sessions_one_live'')
     else let r = createRow s now d in
       Inr (r, d\<lparr>t_sessions := t_sessions d @ [r], seq_sessions := seq_sessions d + 1\<rparr>))"

definition revokeStmt ::
  "(session_row list \<Rightarrow> session_row list) \<Rightarrow> time \<Rightarrow> db \<Rightarrow> goerr + ((int \<times> string option) list \<times> db)" where
  "revokeStmt doomed now d =
    (let gone = doomed (t_sessions d) in
     Inr (map (\<lambda>s. (se_id s, se_refresh_token s)) gone,
       d\<lparr>t_sessions := updateWhere (\<lambda>s. se_id s \<in> set (map se_id gone))
         (\<lambda>s. s\<lparr>se_revoked_at := Some now, se_refresh_token := None\<rparr>) (t_sessions d)\<rparr>))"

definition doomedOfCharacter :: "int \<Rightarrow> session_row list \<Rightarrow> session_row list" where
  "doomedOfCharacter c = filter (\<lambda>s. se_character_id s = c \<and> unrevoked s)"

definition doomedOne :: "int \<Rightarrow> session_row list \<Rightarrow> session_row list" where
  "doomedOne i = filter (\<lambda>s. se_id s = i \<and> unrevoked s)"

definition doomedExpired :: "time \<Rightarrow> nat \<Rightarrow> session_row list \<Rightarrow> session_row list" where
  "doomedExpired now n xs =
     take n (sort_key se_valid_til (filter (\<lambda>s. unrevoked s \<and> se_valid_til s < now) xs))"

definition rereadStmt :: "int \<Rightarrow> db \<Rightarrow> goerr + (string option \<times> db)" where
  "rereadStmt i d = (case find (\<lambda>s. se_id s = i) (t_sessions d) of
     None \<Rightarrow> Inl (External ''no rows'') | Some s \<Rightarrow> Inr (se_refresh_token s, d))"

definition writeRefreshStmt :: "int \<Rightarrow> string \<Rightarrow> db \<Rightarrow> goerr + (unit \<times> db)" where
  "writeRefreshStmt i next d =
     Inr ((), d\<lparr>t_sessions := updateWhere (\<lambda>s. se_id s = i)
       (\<lambda>s. s\<lparr>se_refresh_token := nullIfEmpty next\<rparr>) (t_sessions d)\<rparr>)"

definition liveStmt :: "int \<Rightarrow> time \<Rightarrow> db \<Rightarrow> goerr + (session_row option \<times> db)" where
  "liveStmt i now d = Inr (find (\<lambda>s. se_id s = i \<and> liveAt now s) (t_sessions d), d)"

definition purgeStmt :: "time \<Rightarrow> db \<Rightarrow> goerr + (nat \<times> db)" where
  "purgeStmt now d =
    (let old = (\<lambda>s. case se_revoked_at s of None \<Rightarrow> False | Some t \<Rightarrow> t < now - 90 * day) in
     Inr (countWhere old (t_sessions d), deleteSessions old d))"

subsection \<open>Operations\<close>

definition collectRevoked :: "(int \<times> string option) list \<Rightarrow> Revoked" where
  "collectRevoked rows = \<lparr>rv_IDs = map fst rows,
     rv_Tokens = map deref (filter (\<lambda>t. deref t \<noteq> []) (map snd rows))\<rparr>"

definition Create :: "Session \<Rightarrow> Session action" where
  "Create s w = (case runStmt (createStmt s (w_now w)) w of
      (Inl e, w1) \<Rightarrow> (Inl (Wrap (sessOp ''Create'') (Wrap (sessOp ''scan'') e)), w1)
    | (Inr r, w1) \<Rightarrow> (Inr (scanSession r), w1))"

definition revokeWith ::
  "string \<Rightarrow> (time \<Rightarrow> session_row list \<Rightarrow> session_row list) \<Rightarrow> Revoked action" where
  "revokeWith op doomed w = (case runStmt (revokeStmt (doomed (w_now w)) (w_now w)) w of
      (Inl e, w1) \<Rightarrow> (Inl (Wrap (sessOp op) e), w1)
    | (Inr rows, w1) \<Rightarrow> (Inr (collectRevoked rows), w1))"

definition RevokeAllForCharacter :: "int \<Rightarrow> Revoked action" where
  "RevokeAllForCharacter c = revokeWith ''RevokeAllForCharacter'' (\<lambda>now. doomedOfCharacter c)"

definition Revoke :: "int \<Rightarrow> Revoked action" where
  "Revoke i = revokeWith ''Revoke'' (\<lambda>now. doomedOne i)"

definition ExpireValidTil :: "Revoked action" where
  "ExpireValidTil = revokeWith ''ExpireValidTil'' (\<lambda>now. doomedExpired now revokeCeiling)"

definition PurgeRevoked :: "nat action" where
  "PurgeRevoked w = wrapA (sessOp ''PurgeRevoked'') (runStmt (purgeStmt (w_now w))) w"

definition LiveByID :: "int \<Rightarrow> Session action" where
  "LiveByID i w = (case runStmt (liveStmt i (w_now w)) w of
      (Inl e, w1) \<Rightarrow> (Inl (Wrap (sessOp ''LiveByID'') (Wrap (sessOp ''scan'') e)), w1)
    | (Inr None, w1) \<Rightarrow> (Inl (Sentinel session_ErrNotFound), w1)
    | (Inr (Some r), w1) \<Rightarrow> (Inr (scanSession r), w1))"

text \<open>
  \<open>LockForRefresh\<close>: the row lock makes the reread and the write see no other writer, which
  one transaction of the model does by running alone. The session's new token is whatever the
  callback returns; the write does not test \<open>revoked_at\<close> again.
\<close>

definition lockRun :: "int \<Rightarrow> (string \<Rightarrow> string action) \<Rightarrow> unit action" where
  "lockRun i fn w = (case runStmt (liveStmt i (w_now w)) w of
      (Inl e, w1) \<Rightarrow> (Inl (Wrap (sessOp ''LockForRefresh'') e), w1)
    | (Inr None, w1) \<Rightarrow> (Inl (Sentinel session_ErrNotFound), w1)
    | (Inr (Some _), w1) \<Rightarrow>
        (case wrapA (sessOp ''LockForRefresh'') (runStmt (rereadStmt i)) w1 of
           (Inl e, w2) \<Rightarrow> (Inl e, w2)
         | (Inr refresh, w2) \<Rightarrow>
             (case fn (deref refresh) w2 of
                (Inl e, w3) \<Rightarrow> (Inl e, w3)
              | (Inr next, w3) \<Rightarrow>
                  wrapA (sessOp ''LockForRefresh'') (runStmt (writeRefreshStmt i next)) w3)))"

definition LockForRefresh :: "int \<Rightarrow> (string \<Rightarrow> string action) \<Rightarrow> unit action" where
  "LockForRefresh i fn w =
    (if w_tx w then lockRun i fn w
     else wrapA (sessOp ''LockForRefresh'') (WithinTx (lockRun i fn)) w)"

definition LockCharacter :: "int \<Rightarrow> unit action" where
  "LockCharacter c w =
    (if \<not> w_tx w then (Inl (Sentinel ErrNeedTx), w)
     else wrapA (sessOp ''LockCharacter'') (runStmt (\<lambda>d. Inr ((), d))) w)"

subsection \<open>The invariant\<close>

lemma preserves_at:
  "(\<And>t. preserves I R (\<lambda>w. m t w)) \<Longrightarrow> preserves I R (\<lambda>w. m (w_now w) w)"
  by (auto simp: preserves_def)

lemma preserves_case2:
  assumes "preserves I R m" "\<And>w e w1. m w = (Inl e, w1) \<Longrightarrow> n w = (Inl (f e), w1)"
    "\<And>w x w1. m w = (Inr x, w1) \<Longrightarrow> snd (n w) = w1"
  shows "preserves I R n"
  unfolding preserves_def
proof (intro allI impI)
  fix w :: world assume i: "I (w_db w)"
  obtain r w1 where m: "m w = (r, w1)" by force
  then have "I (w_db w1) \<and> R (w_db w) (w_db w1)"
    using assms(1) i unfolding preserves_def by (metis snd_conv)
  moreover have "snd (n w) = w1"
    using assms(2,3)[of w] m by (cases r) simp_all
  ultimately show "I (w_db (snd (n w))) \<and> R (w_db w) (w_db (snd (n w)))"
    by simp
qed

lemma wf_createStmt:
  "wf_db d \<Longrightarrow> createStmt s now d = Inr (x, d') \<Longrightarrow> wf_db d' \<and> seq_le d d'"
  unfolding createStmt_def Let_def
  by (auto simp: seq_le_def createRow_def unrevoked_def split: if_splits intro!: wf_add_session)

lemma wf_revokeStmt:
  "wf_db d \<Longrightarrow> revokeStmt g now d = Inr (x, d') \<Longrightarrow> wf_db d' \<and> seq_le d d'"
  using wf_revoke_sessions by (auto simp: revokeStmt_def Let_def seq_le_def)

lemma wf_purgeStmt:
  "wf_db d \<Longrightarrow> purgeStmt now d = Inr (x, d') \<Longrightarrow> wf_db d' \<and> seq_le d d'"
  using wf_deleteSessions by (auto simp: purgeStmt_def seq_le_def deleteSessions_def Let_def)

lemma wf_Create [inv_intros]: "preserves wf_db seq_le (Create s)"
proof -
  have "preserves wf_db seq_le (\<lambda>w. runStmt (createStmt s (w_now w)) w)"
    by (rule preserves_at) (use wf.preserves_stmt[of "createStmt s _"] wf_createStmt in blast)
  then show ?thesis
    by (rule preserves_case2) (simp_all add: Create_def)
qed

lemma wf_revokeWith [inv_intros]: "preserves wf_db seq_le (revokeWith op doomed)"
proof -
  have "preserves wf_db seq_le (\<lambda>w. runStmt (revokeStmt (doomed (w_now w)) (w_now w)) w)"
    by (rule preserves_at) (use wf.preserves_stmt[of "revokeStmt _ _"] wf_revokeStmt in blast)
  then show ?thesis
    by (rule preserves_case2) (simp_all add: revokeWith_def)
qed

lemma wf_RevokeAll [inv_intros]: "preserves wf_db seq_le (RevokeAllForCharacter c)"
  and wf_Revoke [inv_intros]: "preserves wf_db seq_le (Revoke i)"
  and wf_ExpireValidTil [inv_intros]: "preserves wf_db seq_le ExpireValidTil"
  by (simp_all add: RevokeAllForCharacter_def Revoke_def ExpireValidTil_def wf_revokeWith)

lemma wf_PurgeRevoked [inv_intros]: "preserves wf_db seq_le PurgeRevoked"
proof -
  have "preserves wf_db seq_le (\<lambda>w. wrapA (sessOp ''PurgeRevoked'') (runStmt (purgeStmt (w_now w))) w)"
    by (rule preserves_at, rule wf.preserves_wrapA)
       (use wf.preserves_stmt[of "purgeStmt _"] wf_purgeStmt in blast)
  then show ?thesis by (simp add: PurgeRevoked_def[abs_def])
qed

lemma LiveByID_db [simp]: "w_db (snd (LiveByID i w)) = w_db w"
proof -
  have "w_db (snd (runStmt (liveStmt i (w_now w)) w)) = w_db w"
    by (rule runStmt_read) (simp add: liveStmt_def)
  then show ?thesis by (auto simp: LiveByID_def split: prod.split sum.split option.split)
qed

lemma LockCharacter_db [simp]: "w_db (snd (LockCharacter c w)) = w_db w"
proof -
  have "w_db (snd (runStmt (\<lambda>d. Inr ((), d)) w)) = w_db w"
    by (rule runStmt_read) simp
  then show ?thesis by (auto simp: LockCharacter_def wrapA_def split: prod.split)
qed

lemma wf_LiveByID [inv_intros]: "preserves wf_db seq_le (LiveByID i)"
  and wf_LockCharacter [inv_intros]: "preserves wf_db seq_le (LockCharacter c)"
  by (simp_all add: wf.preserves_const)

text \<open>
  A refresh preserves the invariant when its callback leaves the tables alone, as the only
  callback of the program does (it talks to the sign-in service).
\<close>

lemma wf_writeRefresh:
  assumes "wf_db d" "find (\<lambda>s. se_id s = i \<and> liveAt now s) (t_sessions d) = Some r"
    "writeRefreshStmt i next d = Inr (x, d')"
  shows "wf_db d' \<and> seq_le d d'"
proof -
  have r: "r \<in> set (t_sessions d)" "se_id r = i" "unrevoked r"
    using find_SomeD[OF assms(2)] by (simp_all add: liveAt_def)
  have "\<And>s. s \<in> set (t_sessions d) \<Longrightarrow> se_id s = i \<Longrightarrow> unrevoked s"
    using session_unique[OF assms(1) r(1)] r(2,3) by auto
  then show ?thesis
    using assms(1,3) wf_write_token[of d i "nullIfEmpty next"]
    by (auto simp: writeRefreshStmt_def seq_le_def)
qed

text \<open>
  A property of the tables that revoking sessions and writing a live session's token preserve is
  preserved by a refresh and by everything else a session does with its grant.
\<close>

locale session_invariant = table_invariant I R for I R +
  assumes writeRefresh_ok: "I d \<Longrightarrow> find (\<lambda>s. se_id s = i \<and> liveAt now s) (t_sessions d) = Some r \<Longrightarrow>
      writeRefreshStmt i next d = Inr (x, d') \<Longrightarrow> I d' \<and> R d d'"
    and revoke_ok: "preserves I R (revokeWith op doomed)"
begin

lemma preserves_lockRun:
  assumes fn: "\<And>t w. w_db (snd (fn t w)) = w_db w"
  shows "preserves I R (lockRun i fn)"
  unfolding preserves_def
proof (intro allI impI)
  fix w :: world assume i: "I (w_db w)"
  note refl = R_refl
  obtain a w1 where a: "runStmt (liveStmt i (w_now w)) w = (a, w1)" by force
  have d1: "w_db w1 = w_db w"
    using runStmt_read[of "liveStmt i (w_now w)" w] a by (simp add: liveStmt_def)
  obtain b w2 where b: "runStmt (rereadStmt i) w1 = (b, w2)" by force
  have d2: "w_db w2 = w_db w"
  proof -
    have "w_db (snd (runStmt (rereadStmt i) w1)) = w_db w1"
      by (rule runStmt_read) (auto simp: rereadStmt_def split: option.splits)
    then show ?thesis using b d1 by simp
  qed
  show "I (w_db (snd (lockRun i fn w))) \<and> R (w_db w) (w_db (snd (lockRun i fn w)))"
  proof (cases "\<exists>r t. a = Inr (Some r) \<and> b = Inr t")
    case False
    then show ?thesis using a b d1 d2 i refl
      by (auto simp: lockRun_def wrapR_def split: sum.splits option.splits)
  next
    case True
    then obtain r t where ab: "a = Inr (Some r)" "b = Inr t" by blast
    have f: "find (\<lambda>s. se_id s = i \<and> liveAt (w_now w) s) (t_sessions (w_db w)) = Some r"
      using runStmt_Inr(1)[of "liveStmt i (w_now w)" w "Some r" w1] a ab d1 by (auto simp: liveStmt_def)
    obtain c w3 where c: "fn (deref t) w2 = (c, w3)" by force
    have d3: "w_db w3 = w_db w" using fn[of "deref t" w2] c d2 by simp
    show ?thesis
    proof (cases c)
      case (Inl e) then show ?thesis using a b ab c d3 i refl by (simp add: lockRun_def wrapR_def)
    next
      case (Inr nxt)
      obtain q w4 where q: "runStmt (writeRefreshStmt i nxt) w3 = (q, w4)" by force
      have "I (w_db w4) \<and> R (w_db w) (w_db w4)"
      proof (cases q)
        case (Inl e)
        then show ?thesis using runStmt_Inl(1)[of "writeRefreshStmt i nxt" w3 e w4] q d3 i refl by simp
      next
        case (Inr u)
        then show ?thesis
          using runStmt_Inr(1)[of "writeRefreshStmt i nxt" w3 u w4] q d3 writeRefresh_ok[OF i f, of nxt u]
          by simp
      qed
      then show ?thesis using a b ab c Inr q by (simp add: lockRun_def wrapR_def)
    qed
  qed
qed

lemma preserves_LockForRefresh:
  assumes "\<And>t w. w_db (snd (fn t w)) = w_db w"
  shows "preserves I R (LockForRefresh i fn)"
proof -
  have "preserves I R (wrapA (sessOp ''LockForRefresh'') (WithinTx (lockRun i fn)))"
    by (intro preserves_wrapA preserves_WithinTx preserves_lockRun assms)
  then show ?thesis
    using preserves_lockRun[OF assms, of i] by (simp add: preserves_def LockForRefresh_def)
qed

end

interpretation wfs: session_invariant wf_db seq_le
  by unfold_locales (use wf_writeRefresh wf_revokeWith in \<open>auto simp del: split_paired_All\<close>)

subsection \<open>What the operations do\<close>

lemma revoke_clears:
  "s \<in> set (updateWhere (\<lambda>s. se_id s \<in> S) (\<lambda>s. s\<lparr>se_revoked_at := Some t, se_refresh_token := None\<rparr>) xs) \<Longrightarrow>
   se_id s \<in> S \<Longrightarrow> se_revoked_at s = Some t \<and> se_refresh_token s = None"
  by (auto split: if_splits)

lemma Create_ok:
  assumes "Create s w = (Inr r, w')"
  shows "r = scanSession (createRow s (w_now w) (w_db w))"
    "w_db w' = (w_db w)\<lparr>t_sessions := t_sessions (w_db w) @ [createRow s (w_now w) (w_db w)],
       seq_sessions := seq_sessions (w_db w) + 1\<rparr>"
    "\<forall>x \<in> set (t_sessions (w_db w)). unrevoked x \<longrightarrow> se_character_id x \<noteq> sn_CharacterID s"
    "sn_CharacterID s \<in> ch_id ` set (t_characters (w_db w))"
    "w_now w' = w_now w" "w_ccp w' = w_ccp w" "w_tx w' = w_tx w"
proof -
  obtain row where row: "runStmt (createStmt s (w_now w)) w = (Inr row, w')" "r = scanSession row"
    using assms by (auto simp: Create_def split: prod.splits sum.splits)
  note f = runStmt_Inr[OF row(1)]
  show "r = scanSession (createRow s (w_now w) (w_db w))"
    "w_db w' = (w_db w)\<lparr>t_sessions := t_sessions (w_db w) @ [createRow s (w_now w) (w_db w)],
       seq_sessions := seq_sessions (w_db w) + 1\<rparr>"
    "\<forall>x \<in> set (t_sessions (w_db w)). unrevoked x \<longrightarrow> se_character_id x \<noteq> sn_CharacterID s"
    "sn_CharacterID s \<in> ch_id ` set (t_characters (w_db w))"
    using f(1) row(2) by (auto simp: createStmt_def Let_def split: if_splits)
  show "w_now w' = w_now w" "w_ccp w' = w_ccp w" "w_tx w' = w_tx w" by (fact f)+
qed

lemma revokeWith_ok:
  assumes "revokeWith op doomed w = (Inr r, w')"
  defines "gone \<equiv> doomed (w_now w) (t_sessions (w_db w))"
  shows "r = collectRevoked (map (\<lambda>s. (se_id s, se_refresh_token s)) gone)"
    "w_db w' = (w_db w)\<lparr>t_sessions := updateWhere (\<lambda>s. se_id s \<in> set (map se_id gone))
         (\<lambda>s. s\<lparr>se_revoked_at := Some (w_now w), se_refresh_token := None\<rparr>) (t_sessions (w_db w))\<rparr>"
    "w_now w' = w_now w" "w_ccp w' = w_ccp w" "w_tx w' = w_tx w"
proof -
  obtain rows where rows: "runStmt (revokeStmt (doomed (w_now w)) (w_now w)) w = (Inr rows, w')"
    "r = collectRevoked rows"
    using assms(1) by (auto simp: revokeWith_def split: prod.splits sum.splits)
  note f = runStmt_Inr[OF rows(1)]
  show "r = collectRevoked (map (\<lambda>s. (se_id s, se_refresh_token s)) gone)"
    "w_db w' = (w_db w)\<lparr>t_sessions := updateWhere (\<lambda>s. se_id s \<in> set (map se_id gone))
         (\<lambda>s. s\<lparr>se_revoked_at := Some (w_now w), se_refresh_token := None\<rparr>) (t_sessions (w_db w))\<rparr>"
    using f(1) rows(2) by (auto simp: revokeStmt_def Let_def gone_def)
  show "w_now w' = w_now w" "w_ccp w' = w_ccp w" "w_tx w' = w_tx w" by (fact f)+
qed

lemma revokeWith_err:
  assumes "revokeWith op doomed w = (Inl e, w')"
  shows "w_db w' = w_db w" "w_ccp w' = w_ccp w" "w_now w' = w_now w"
proof -
  obtain e' where e': "runStmt (revokeStmt (doomed (w_now w)) (w_now w)) w = (Inl e', w')"
    using assms(1) by (auto simp: revokeWith_def split: prod.splits sum.splits)
  show "w_db w' = w_db w" "w_ccp w' = w_ccp w" "w_now w' = w_now w" by (fact runStmt_Inl[OF e'])+
qed

lemma LockCharacter_ok:
  assumes "LockCharacter c w = (Inr u, w')"
  shows "w_db w' = w_db w" "w_now w' = w_now w" "w_ccp w' = w_ccp w" "w_tx w' = w_tx w" "w_tx w"
proof -
  have t: "w_tx w" and r: "runStmt (\<lambda>d. Inr (u, d)) w = (Inr u, w')"
    using assms by (auto simp: LockCharacter_def wrapA_def wrapR_def split: if_splits prod.splits sum.splits)
  then show "w_db w' = w_db w" "w_now w' = w_now w" "w_ccp w' = w_ccp w" "w_tx w' = w_tx w" "w_tx w"
    using runStmt_Inr[OF r] by simp_all
qed

lemma LiveByID_ok:
  assumes "LiveByID i w = (Inr s, w')"
  obtains r where "find (\<lambda>s. se_id s = i \<and> liveAt (w_now w) s) (t_sessions (w_db w)) = Some r"
    "s = scanSession r" "w_db w' = w_db w" "w_now w' = w_now w" "w_ccp w' = w_ccp w" "w_tx w' = w_tx w"
proof -
  obtain r where r: "runStmt (liveStmt i (w_now w)) w = (Inr (Some r), w')" "s = scanSession r"
    using assms by (auto simp: LiveByID_def split: prod.splits sum.splits option.splits)
  note f = runStmt_Inr[OF r(1)]
  show thesis by (rule that[of r]) (use f r(2) in \<open>auto simp: liveStmt_def\<close>)
qed

lemma collectRevoked_tokens:
  "set (rv_Tokens (collectRevoked rows)) = {t. t \<noteq> [] \<and> Some t \<in> snd ` set rows}"
  by (force simp: collectRevoked_def deref_def split: option.splits)

lemma doomedExpired_facts:
  "length (doomedExpired now n xs) \<le> n"
  "set (doomedExpired now n xs) \<subseteq> {s \<in> set xs. unrevoked s \<and> se_valid_til s < now}"
  by (auto simp: doomedExpired_def dest!: in_set_takeD)

subsection \<open>A refresh, step by step\<close>

lemma calm_lockRun: "(\<And>t. calm (fn t)) \<Longrightarrow> calm (lockRun i fn)"
  unfolding calm_def
proof (intro allI impI)
  fix w :: world assume fn: "\<And>t. \<forall>w. w_faults w = [] \<longrightarrow> w_faults (snd (fn t w)) = []" and w: "w_faults w = []"
  obtain a w1 where a: "runStmt (liveStmt i (w_now w)) w = (a, w1)" by force
  obtain b w2 where b: "runStmt (rereadStmt i) w1 = (b, w2)" by force
  obtain c w3 where c: "fn (case b of Inr t \<Rightarrow> deref t | Inl _ \<Rightarrow> []) w2 = (c, w3)" by force
  obtain d w4 where d: "runStmt (writeRefreshStmt i (case c of Inr t \<Rightarrow> t | Inl _ \<Rightarrow> [])) w3 = (d, w4)" by force
  have f: "w_faults w1 = []" "w_faults w2 = []" "w_faults w3 = []" "w_faults w4 = []"
  proof -
    show "w_faults w1 = []" using calmD[OF calm_runStmt w a] .
    then show "w_faults w2 = []" using calmD[OF calm_runStmt _ b] by simp
    then show "w_faults w3 = []" using fn c by (metis snd_conv)
    then show "w_faults w4 = []" using calmD[OF calm_runStmt _ d] by simp
  qed
  show "w_faults (snd (lockRun i fn w)) = []"
    using a b c d f
    by (cases a; cases b; cases c) (auto simp: lockRun_def wrapA_def wrapR_def split: option.split)
qed

lemma calm_LockForRefresh:
  assumes "\<And>t. calm (fn t)" shows "calm (LockForRefresh i fn)"
proof -
  have l: "calm (lockRun i fn)" by (rule calm_lockRun) (rule assms)
  then have "calm (wrapA (sessOp ''LockForRefresh'') (WithinTx (lockRun i fn)))"
    by (intro calm_wrapA calm_WithinTx)
  with l show ?thesis by (simp add: calm_def LockForRefresh_def)
qed

lemma lockRun_ok:
  assumes "lockRun i fn w = (Inr u, w')"
  obtains r t nxt wa wb where "find (\<lambda>s. se_id s = i \<and> liveAt (w_now w) s) (t_sessions (w_db w)) = Some r"
    "rereadStmt i (w_db w) = Inr (t, w_db w)" "fn (deref t) wa = (Inr nxt, wb)" "w_db wa = w_db w"
    "w_now wa = w_now w" "w_grants wa = w_grants w" "writeRefreshStmt i nxt (w_db wb) = Inr ((), w_db w')"
    "w_grants w' = w_grants wb" "w_now w' = w_now wb"
proof -
  obtain r w1 where a: "runStmt (liveStmt i (w_now w)) w = (Inr (Some r), w1)"
    using assms by (auto simp: lockRun_def split: prod.splits sum.splits option.splits)
  obtain t w2 where b: "runStmt (rereadStmt i) w1 = (Inr t, w2)"
    using assms a by (auto simp: lockRun_def wrapA_def wrapR_def split: prod.splits sum.splits option.splits)
  obtain nxt w3 where c: "fn (deref t) w2 = (Inr nxt, w3)"
    using assms a b by (auto simp: lockRun_def wrapA_def wrapR_def split: prod.splits sum.splits option.splits)
  have d: "runStmt (writeRefreshStmt i nxt) w3 = (Inr u, w')"
    using assms a b c by (auto simp: lockRun_def wrapA_def wrapR_def split: prod.splits sum.splits option.splits)
  note A = runStmt_Inr(1)[OF a] and B = runStmt_Inr(1)[OF b] and D = runStmt_Inr(1)[OF d]
  have g: "w_grants w1 = w_grants w" "w_grants w2 = w_grants w1" "w_grants w' = w_grants w3"
    "w_now w1 = w_now w" "w_now w2 = w_now w1" "w_now w' = w_now w3"
    using keepsD[OF fld_grants.keeps_runStmt, of "liveStmt i (w_now w)" w] a
      keepsD[OF fld_grants.keeps_runStmt, of "rereadStmt i" w1] b
      keepsD[OF fld_grants.keeps_runStmt, of "writeRefreshStmt i nxt" w3] d
      runStmt_now[of "liveStmt i (w_now w)" w] runStmt_now[of "rereadStmt i" w1]
      runStmt_now[of "writeRefreshStmt i nxt" w3] by simp_all
  have db: "w_db w1 = w_db w" "w_db w2 = w_db w1"
    using A B by (auto simp: liveStmt_def rereadStmt_def split: option.splits)
  show thesis
    by (rule that[of r t w2 nxt w3])
       (use A B D c db g in \<open>auto simp: liveStmt_def\<close>)
qed

lemma LockForRefresh_ok:
  assumes "LockForRefresh i fn w = (Inr u, w')"
  obtains r t nxt wa wb where "find (\<lambda>s. se_id s = i \<and> liveAt (w_now w) s) (t_sessions (w_db w)) = Some r"
    "rereadStmt i (w_db w) = Inr (t, w_db w)" "fn (deref t) wa = (Inr nxt, wb)" "w_db wa = w_db w"
    "w_now wa = w_now w" "w_grants wa = w_grants w" "writeRefreshStmt i nxt (w_db wb) = Inr ((), w_db w')"
    "w_grants w' = w_grants wb"
proof (cases "w_tx w")
  case True
  then have "lockRun i fn w = (Inr u, w')" using assms by (simp add: LockForRefresh_def)
  then show thesis using that by (elim lockRun_ok) blast
next
  case False
  then have "WithinTx (lockRun i fn) w = (Inr u, w')" using assms by (simp add: LockForRefresh_def)
  from WithinTx_Inr[OF this False] obtain v v' where v: "popFault w = (False, v)"
    "lockRun i fn (v\<lparr>w_tx := True\<rparr>) = (Inr u, v')" "popFault v' = (False, w'\<lparr>w_tx := w_tx v'\<rparr>)" "w_db w' = w_db v'"
    by metis
  have k: "w_db v = w_db w" "w_now v = w_now w" "w_grants v = w_grants w" "w_grants w' = w_grants v'"
    using v(1,3) popFault_keeps[of w] fld_grants.popFault_field[of w] fld_grants.popFault_field[of v'] by simp_all
  from v(2) show thesis
    by (rule lockRun_ok) (use k v(4) that in \<open>auto simp: liveAt_def\<close>)
qed

end
