(* ===== verification/MutationRepo.thy ===== *)
theory MutationRepo
  imports OneShot SessionRepo "HOL-Library.Word"
begin

unbundle bit_operations_syntax

text \<open>
  The audit log and the mail cap on top of it (internal/domain/mutation,
  internal/domain/mutation/pgx). A write that counts against the cap, and every count, runs in
  a transaction under an advisory lock on \<open>mailCapLockKey\<close>. A hold is such a transaction left
  open between the count and the insert: the rows it inserted are seen by itself only until
  \<open>Release\<close> commits or drops them.
\<close>

definition OutcomeOK :: string where "OutcomeOK = ''ok''"
definition OutcomeError :: string where "OutcomeError = ''error''"
definition mutation_ToolMailSend :: string where "mutation_ToolMailSend = ''eve_mail_send''"

record Mutation =
  mn_CharacterID :: int
  mn_SessionID :: int
  mn_Tool :: string
  mn_Capability :: string
  mn_ArgsDigest :: string
  mn_Summary :: string
  mn_Outcome :: string
  mn_ESIStatus :: int
  mn_Error :: string

definition mutOp :: "string \<Rightarrow> string" where "mutOp op = ''mutation: '' @ op"

subsection \<open>The advisory lock\<close>

definition mailCapLockSalt :: "64 word" where "mailCapLockSalt = 0x6d61696c5f636170"

definition mailCapLockKey :: "64 word \<Rightarrow> 64 word" where
  "mailCapLockKey c = xor c mailCapLockSalt"

subsection \<open>Statements\<close>

definition nullIfZero :: "int \<Rightarrow> int option" where
  "nullIfZero n = (if n = 0 then None else Some n)"

definition mutationRow :: "Mutation \<Rightarrow> time \<Rightarrow> int \<Rightarrow> mutation_row" where
  "mutationRow m now i = \<lparr>mu_id = i, mu_character_id = mn_CharacterID m,
     mu_session_id = nullIfZero (mn_SessionID m), mu_tool = mn_Tool m, mu_capability = mn_Capability m,
     mu_args_digest = mn_ArgsDigest m, mu_summary = mn_Summary m, mu_outcome = mn_Outcome m,
     mu_esi_status = nullIfZero (mn_ESIStatus m), mu_error = nullIfEmpty (mn_Error m),
     mu_created_at = now\<rparr>"

definition appendStmt :: "Mutation \<Rightarrow> time \<Rightarrow> db \<Rightarrow> goerr + (unit \<times> db)" where
  "appendStmt m now d =
    (if mn_CharacterID m \<notin> ch_id ` set (t_characters d)
     then Inl (External ''mutations_character_id_fkey'')
     else if mn_SessionID m \<noteq> 0 \<and> mn_SessionID m \<notin> se_id ` set (t_sessions d)
     then Inl (External ''mutations_session_id_fkey'')
     else Inr ((), d\<lparr>t_mutations := t_mutations d @ [mutationRow m now (seq_mutations d)],
                     seq_mutations := seq_mutations d + 1\<rparr>))"

definition countsForCap :: "int \<Rightarrow> time \<Rightarrow> mutation_row \<Rightarrow> bool" where
  "countsForCap c now m = (mu_character_id m = c \<and> mu_tool m = ''eve_mail_send'' \<and>
     mu_outcome m = ''ok'' \<and> mu_created_at m \<ge> now - 1 * hour)"

definition mailsLastHour :: "int \<Rightarrow> time \<Rightarrow> db \<Rightarrow> nat" where
  "mailsLastHour c now d = countWhere (countsForCap c now) (t_mutations d)"

subsection \<open>Operations\<close>

definition lockStmt :: "unit action" where "lockStmt = runStmt (\<lambda>d. Inr ((), d))"

definition withMailCap :: "int \<Rightarrow> 'a action \<Rightarrow> 'a action" where
  "withMailCap c fn w =
    (let run = andThen (wrapA (mutOp ''lockMailCap'') lockStmt) (\<lambda>_. fn) in
     if w_tx w then run w
     else wrapA (mutOp ''withMailCap'') (WithinTx run) w)"

definition appendWrite :: "Mutation \<Rightarrow> unit action" where
  "appendWrite m w = wrapA (mutOp ''Append'') (runStmt (appendStmt m (w_now w))) w"

definition Append :: "Mutation \<Rightarrow> unit action" where
  "Append m w =
    (if mn_Tool m = mutation_ToolMailSend \<and> mn_Outcome m = OutcomeOK
     then withMailCap (mn_CharacterID m) (appendWrite m) w
     else appendWrite m w)"

definition CountMailCap :: "int \<Rightarrow> nat action" where
  "CountMailCap c = withMailCap c (\<lambda>w. wrapA (mutOp ''CountMailCap'')
     (runStmt (\<lambda>d. Inr (mailsLastHour c (w_now w) d, d))) w)"

definition DeleteOld :: "nat action" where
  "DeleteOld w = wrapA (mutOp ''DeleteOld'') (runStmt (\<lambda>d.
     let old = (\<lambda>m. mu_created_at m < w_now w - 90 * day) in
     Inr (countWhere old (t_mutations d), d\<lparr>t_mutations := removeWhere old (t_mutations d)\<rparr>))) w"

record Hold =
  hd_Count :: nat
  hd_nested :: bool
  hd_pending :: "mutation_row list"

definition HoldMailCap :: "int \<Rightarrow> Hold action" where
  "HoldMailCap c w =
    (if w_tx w then
       (case CountMailCap c w of
          (Inl e, w1) \<Rightarrow> (Inl e, w1)
        | (Inr n, w1) \<Rightarrow> (Inr \<lparr>hd_Count = n, hd_nested = True, hd_pending = []\<rparr>, w1))
     else let (beginFault, w0) = popFault w in
       if beginFault then (Inl (Wrap (mutOp ''HoldMailCap'') dbFault), w0)
       else (case CountMailCap c (w0\<lparr>w_tx := True\<rparr>) of
          (Inl e, w1) \<Rightarrow>
            (let (rbFault, w2) = popFault w1; w3 = w2\<lparr>w_tx := False\<rparr> in
             if rbFault then (Inl (Wrap (mutOp ''HoldMailCap'') (Join e dbFault)), w3)
             else (Inl e, w3))
        | (Inr n, w1) \<Rightarrow>
            (Inr \<lparr>hd_Count = n, hd_nested = False, hd_pending = []\<rparr>, w1\<lparr>w_tx := False\<rparr>)))"

text \<open>
  \<open>Do\<close> runs the insert in the held transaction, which sees its own pending rows; what it
  appends to the audit table is pending. Nothing but \<open>Append\<close> is run under a hold.
\<close>

definition Hold_Do :: "Hold \<Rightarrow> unit action \<Rightarrow> world \<Rightarrow> ((goerr + unit) \<times> Hold) \<times> world" where
  "Hold_Do h fn w =
    (if hd_nested h then (case fn w of (r, w1) \<Rightarrow> ((r, h), w1))
     else let committed = t_mutations (w_db w);
              (r, w1) = fn (w\<lparr>w_tx := True, w_db := (w_db w)\<lparr>t_mutations := committed @ hd_pending h\<rparr>\<rparr>);
              rows = t_mutations (w_db w1) in
       ((r, h\<lparr>hd_pending := drop (length committed) rows\<rparr>),
        w1\<lparr>w_tx := w_tx w, w_db := (w_db w1)\<lparr>t_mutations := take (length committed) rows\<rparr>\<rparr>))"

definition Hold_Release :: "Hold \<Rightarrow> goerr option \<Rightarrow> unit action" where
  "Hold_Release h execErr w =
    (if hd_nested h then (Inr (), w)
     else let (fault, w1) = popFault w in
       if fault then (Inl (Wrap (mutOp ''HoldMailCap'') dbFault), w1)
       else (case execErr of
          Some _ \<Rightarrow> (Inr (), w1)
        | None \<Rightarrow> (Inr (), w1\<lparr>w_db := (w_db w1)\<lparr>t_mutations := t_mutations (w_db w1) @ hd_pending h\<rparr>\<rparr>)))"

subsection \<open>Lock keys\<close>

lemma mailCapLockKey_involutive [simp]: "mailCapLockKey (mailCapLockKey c) = c"
  by (simp add: mailCapLockKey_def xor.assoc)

lemma mailCapLockKey_inj: "mailCapLockKey a = mailCapLockKey b \<longleftrightarrow> a = b"
  by (metis mailCapLockKey_involutive)

text \<open>Below \<open>2 ^ 32\<close> the salt's upper half survives, so the key is no character id.\<close>

lemma drop_bit_below: "a < 2 ^ 32 \<Longrightarrow> drop_bit 32 (a :: 64 word) = 0"
  by (simp add: drop_bit_eq_div word_less_nat_alt word_arith_nat_div unat_word_ariths)

lemma mailCapLockKey_high:
  assumes "c < 2 ^ 32" shows "drop_bit 32 (mailCapLockKey c) = 0x6d61696c"
proof -
  have "drop_bit 32 (mailCapLockKey c) = xor (drop_bit 32 c) (drop_bit 32 mailCapLockSalt)"
    by (simp add: mailCapLockKey_def drop_bit_xor)
  also have "\<dots> = drop_bit 32 mailCapLockSalt" using drop_bit_below[OF assms] by simp
  also have "\<dots> = 0x6d61696c" by (simp add: mailCapLockSalt_def drop_bit_eq_div)
  finally show ?thesis .
qed

subsection \<open>What the operations do\<close>

lemma lockStmt_cases:
  "lockStmt w = (r, w1) \<Longrightarrow> w_db w1 = w_db w \<and> w_now w1 = w_now w \<and> w_tx w1 = w_tx w \<and> w_ccp w1 = w_ccp w"
  using runStmt_Inl[of "\<lambda>d. Inr ((), d)" w _ w1] runStmt_Inr[of "\<lambda>d. Inr ((), d)" w _ w1]
  by (cases r) (simp_all add: lockStmt_def)

lemma withMailCap_Inr:
  assumes "withMailCap c fn w = (Inr x, w')"
  obtains w0 w1 where "fn w0 = (Inr x, w1)" "w_db w0 = w_db w" "w_now w0 = w_now w" "w_tx w0"
    "w_db w' = w_db w1" "w_now w' = w_now w1" "w_tx w' = (w_tx w \<and> w_tx w1)" "w_ccp w0 = w_ccp w"
    "w_ccp w' = w_ccp w1"
proof -
  define run where "run = andThen (wrapA (mutOp ''lockMailCap'') lockStmt) (\<lambda>_. fn)"
  have run: "\<exists>w0. fn w0 = (Inr x, v') \<and> w_db w0 = w_db v \<and> w_now w0 = w_now v \<and> w_tx w0 = w_tx v \<and>
      w_ccp w0 = w_ccp v" if "run v = (Inr x, v')" for v v'
  proof -
    obtain r v1 where l: "lockStmt v = (r, v1)" by force
    then show ?thesis using that lockStmt_cases[OF l]
      by (cases r) (auto simp: run_def andThen_def wrapA_def wrapR_def)
  qed
  show thesis
  proof (cases "w_tx w")
    case True
    then have "run w = (Inr x, w')" using assms by (simp add: withMailCap_def run_def Let_def)
    then show thesis using run that True by metis
  next
    case False
    then have "WithinTx run w = (Inr x, w')"
      using assms by (auto simp: withMailCap_def run_def Let_def wrapA_def wrapR_def split: prod.splits sum.splits)
    from WithinTx_Inr[OF this False] obtain w0 w1 where
      a: "popFault w = (False, w0)" "run (w0\<lparr>w_tx := True\<rparr>) = (Inr x, w1)" "w_db w' = w_db w1"
        "w_now w' = w_now w1" "w_ccp w' = w_ccp w1" "\<not> w_tx w'"
      by metis
    have "w_db w0 = w_db w" "w_now w0 = w_now w" "w_ccp w0 = w_ccp w"
      using popFault_keeps[of w] a(1) by simp_all
    then show thesis using run[OF a(2)] a(3-6) that False by auto
  qed
qed

lemma withMailCap_tx:
  assumes "w_tx w" "withMailCap c fn w = (Inl e, w')"
  shows "(w_db w' = w_db w \<and> w_now w' = w_now w) \<or>
    (\<exists>w0. fn w0 = (Inl e, w') \<and> w_db w0 = w_db w \<and> w_now w0 = w_now w)"
proof -
  obtain r v1 where l: "lockStmt w = (r, v1)" by force
  then show ?thesis using assms lockStmt_cases[OF l]
    by (cases r) (auto simp: withMailCap_def Let_def andThen_def wrapA_def wrapR_def)
qed

lemma appendWrite_ok:
  assumes "appendWrite m w = (Inr u, w')"
  shows "appendStmt m (w_now w) (w_db w) = Inr ((), w_db w')" "w_now w' = w_now w" "w_tx w' = w_tx w"
    "w_ccp w' = w_ccp w"
proof -
  have r: "runStmt (appendStmt m (w_now w)) w = (Inr (), w')"
    using assms by (auto simp: appendWrite_def wrapA_def wrapR_def split: prod.splits sum.splits)
  show "appendStmt m (w_now w) (w_db w) = Inr ((), w_db w')" "w_now w' = w_now w" "w_tx w' = w_tx w"
    "w_ccp w' = w_ccp w"
    by (fact runStmt_Inr[OF r])+
qed

lemma appendWrite_err:
  assumes "appendWrite m w = (Inl e, w')" shows "w_db w' = w_db w" "w_now w' = w_now w"
proof -
  obtain e' where r: "runStmt (appendStmt m (w_now w)) w = (Inl e', w')"
    using assms by (auto simp: appendWrite_def wrapA_def wrapR_def split: prod.splits sum.splits)
  show "w_db w' = w_db w" "w_now w' = w_now w" by (fact runStmt_Inl[OF r])+
qed

lemma appendStmt_ok:
  assumes "appendStmt m now d = Inr (u, d')"
  shows "d' = d\<lparr>t_mutations := t_mutations d @ [mutationRow m now (seq_mutations d)],
      seq_mutations := seq_mutations d + 1\<rparr>"
    "mn_CharacterID m \<in> ch_id ` set (t_characters d)"
    "mn_SessionID m = 0 \<or> mn_SessionID m \<in> se_id ` set (t_sessions d)"
  using assms by (auto simp: appendStmt_def split: if_splits)

lemma wf_appendStmt:
  assumes "wf_db d" "appendStmt m now d = Inr (x, d')" shows "wf_db d' \<and> seq_le d d'"
proof -
  note a = appendStmt_ok[OF assms(2)]
  have "wf_db d'"
    unfolding a(1)
    by (rule wf_add_mutation) (use assms(1) a(2,3) in \<open>auto simp: mutationRow_def nullIfZero_def split: if_splits\<close>)
  then show ?thesis by (simp add: a(1) seq_le_def)
qed

lemma Append_ok:
  assumes "Append m w = (Inr u, w')"
  shows "appendStmt m (w_now w) (w_db w) = Inr ((), w_db w')" "w_now w' = w_now w" "w_ccp w' = w_ccp w"
proof -
  have "appendStmt m (w_now w) (w_db w) = Inr ((), w_db w') \<and> w_now w' = w_now w \<and> w_ccp w' = w_ccp w"
  proof (cases "mn_Tool m = mutation_ToolMailSend \<and> mn_Outcome m = OutcomeOK")
    case True
    then have "withMailCap (mn_CharacterID m) (appendWrite m) w = (Inr u, w')"
      using assms by (simp add: Append_def)
    then obtain w0 w1 where a: "appendWrite m w0 = (Inr u, w1)" "w_db w0 = w_db w" "w_now w0 = w_now w"
        "w_db w' = w_db w1" "w_now w' = w_now w1" "w_ccp w0 = w_ccp w" "w_ccp w' = w_ccp w1"
      by (rule withMailCap_Inr)
    show ?thesis using appendWrite_ok[OF a(1)] a by simp
  next
    case False
    then show ?thesis using assms appendWrite_ok[of m w u w'] by (auto simp: Append_def)
  qed
  then show "appendStmt m (w_now w) (w_db w) = Inr ((), w_db w')" "w_now w' = w_now w" "w_ccp w' = w_ccp w"
    by simp_all
qed

lemma Append_err:
  assumes "Append m w = (Inl e, w')"
  shows "tables (w_db w') = tables (w_db w)"
proof (cases "mn_Tool m = mutation_ToolMailSend \<and> mn_Outcome m = OutcomeOK")
  case True
  show ?thesis
  proof (cases "w_tx w")
    case tx: True
    then have "withMailCap (mn_CharacterID m) (appendWrite m) w = (Inl e, w')"
      using assms True by (simp add: Append_def)
    from withMailCap_tx[OF tx this] show ?thesis using appendWrite_err by force
  next
    case False
    then obtain e' where
      "WithinTx (andThen (wrapA (mutOp ''lockMailCap'') lockStmt) (\<lambda>_. appendWrite m)) w = (Inl e', w')"
      using assms True
      by (auto simp: Append_def withMailCap_def Let_def wrapA_def wrapR_def split: prod.splits sum.splits)
    then show ?thesis using False by (rule WithinTx_Inl)
  qed
next
  case False
  then show ?thesis using assms appendWrite_err(1)[of m w e w'] by (auto simp: Append_def)
qed

lemma count_run:
  assumes "wrapA op (runStmt (\<lambda>d. Inr (g d, d))) w = (x, w')"
  shows "w_db w' = w_db w \<and> w_now w' = w_now w \<and> w_tx w' = w_tx w \<and> w_ccp w' = w_ccp w \<and>
    (\<forall>n. x = Inr n \<longrightarrow> n = g (w_db w))"
proof -
  obtain y where y: "runStmt (\<lambda>d. Inr (g d, d)) w = (y, w')" "x = wrapR op y"
    using assms by (auto simp: wrapA_def split: prod.splits)
  show ?thesis
  proof (cases y)
    case (Inl e)
    then show ?thesis using y runStmt_Inl[of "\<lambda>d. Inr (g d, d)" w e w'] by (simp add: wrapR_def)
  next
    case (Inr n)
    then show ?thesis using y runStmt_Inr[of "\<lambda>d. Inr (g d, d)" w n w'] by (auto simp: wrapR_def)
  qed
qed

lemma CountMailCap_ok:
  assumes "CountMailCap c w = (Inr n, w')"
  shows "n = mailsLastHour c (w_now w) (w_db w)" "w_db w' = w_db w" "w_now w' = w_now w"
    "w_tx w' = w_tx w" "w_ccp w' = w_ccp w"
proof -
  obtain w0 w1 where a: "wrapA (mutOp ''CountMailCap'')
      (runStmt (\<lambda>d. Inr (mailsLastHour c (w_now w0) d, d))) w0 = (Inr n, w1)" "w_db w0 = w_db w"
      "w_now w0 = w_now w" "w_tx w0" "w_db w' = w_db w1" "w_now w' = w_now w1"
      "w_tx w' = (w_tx w \<and> w_tx w1)" "w_ccp w0 = w_ccp w" "w_ccp w' = w_ccp w1"
    by (rule withMailCap_Inr[OF assms[unfolded CountMailCap_def]])
  then show "n = mailsLastHour c (w_now w) (w_db w)" "w_db w' = w_db w" "w_now w' = w_now w"
    "w_tx w' = w_tx w" "w_ccp w' = w_ccp w"
    using count_run[OF a(1)] by simp_all
qed

lemma CountMailCap_frame:
  "w_db (snd (CountMailCap c w)) = w_db w \<and> w_now (snd (CountMailCap c w)) = w_now w"
proof -
  define fn where "fn = (\<lambda>w. wrapA (mutOp ''CountMailCap'')
     (runStmt (\<lambda>d. Inr (mailsLastHour c (w_now w) d, d))) w)"
  define run where "run = andThen (wrapA (mutOp ''lockMailCap'') lockStmt) (\<lambda>_. fn)"
  have fn: "w_db (snd (fn v)) = w_db v \<and> w_now (snd (fn v)) = w_now v" for v
  proof -
    have "w_db (snd (runStmt (\<lambda>d. Inr (mailsLastHour c (w_now v) d, d)) v)) = w_db v"
      by (rule runStmt_read) auto
    then show ?thesis by (simp add: fn_def)
  qed
  have run: "w_db (snd (run v)) = w_db v \<and> w_now (snd (run v)) = w_now v" for v
  proof -
    obtain r v1 where l: "lockStmt v = (r, v1)" by force
    show ?thesis using lockStmt_cases[OF l] l fn[of v1]
      by (cases r) (simp_all add: run_def andThen_def wrapA_def wrapR_def)
  qed
  have "CountMailCap c w = (if w_tx w then run w else wrapA (mutOp ''withMailCap'') (WithinTx run) w)"
    unfolding CountMailCap_def withMailCap_def fn_def [symmetric] run_def [symmetric] Let_def ..
  then show ?thesis
    using run[of w] WithinTx_read[of run w] run by (cases "WithinTx run w") simp
qed

lemma HoldMailCap_frame:
  assumes "HoldMailCap c w = (r, w')" shows "w_db w' = w_db w \<and> w_now w' = w_now w"
proof (cases "w_tx w")
  case True
  then show ?thesis using assms CountMailCap_frame[of c w]
    by (auto simp: HoldMailCap_def split: prod.splits sum.splits)
next
  case False
  obtain b w0 where p: "popFault w = (b, w0)" by force
  obtain x w1 where x: "CountMailCap c (w0\<lparr>w_tx := True\<rparr>) = (x, w1)" by force
  obtain b2 w2 where q: "popFault w1 = (b2, w2)" by force
  have k: "w_db w0 = w_db w" "w_now w0 = w_now w" "w_db w1 = w_db w0" "w_now w1 = w_now w0"
    "w_db w2 = w_db w1" "w_now w2 = w_now w1"
    using p q x popFault_keeps[of w] popFault_keeps[of w1] CountMailCap_frame[of c "w0\<lparr>w_tx := True\<rparr>"]
    by simp_all
  show ?thesis using assms False p x q k
    by (cases b; cases x; cases b2) (auto simp: HoldMailCap_def)
qed

text \<open>A hold is granted with the number of mails the database counts at that instant.\<close>

lemma HoldMailCap_count:
  assumes "HoldMailCap c w = (Inr h, w')"
  shows "hd_Count h = mailsLastHour c (w_now w) (w_db w)" "hd_pending h = []" "hd_nested h = w_tx w"
proof -
  have "hd_Count h = mailsLastHour c (w_now w) (w_db w) \<and> hd_pending h = [] \<and> hd_nested h = w_tx w"
  proof (cases "w_tx w")
    case True
    then show ?thesis using assms CountMailCap_ok(1)[of c w]
      by (auto simp: HoldMailCap_def split: prod.splits sum.splits)
  next
    case False
    obtain b w0 where p: "popFault w = (b, w0)" by force
    have k: "w_db w0 = w_db w" "w_now w0 = w_now w" using p popFault_keeps[of w] by simp_all
    obtain x w1 where x: "CountMailCap c (w0\<lparr>w_tx := True\<rparr>) = (x, w1)" by force
    show ?thesis using assms False p x k CountMailCap_ok(1)[of c "w0\<lparr>w_tx := True\<rparr>" _ w1]
      by (cases b; cases x) (auto simp: HoldMailCap_def Let_def split: prod.splits if_splits)
  qed
  then show "hd_Count h = mailsLastHour c (w_now w) (w_db w)" "hd_pending h = []" "hd_nested h = w_tx w"
    by simp_all
qed

lemma Hold_Release_frame:
  assumes "Hold_Release h e w = (r, w')"
  shows "w_now w' = w_now w" "w_tx w' = w_tx w"
    "w_db w' = w_db w \<or> (e = None \<and> r = Inr () \<and>
       w_db w' = (w_db w)\<lparr>t_mutations := t_mutations (w_db w) @ hd_pending h\<rparr>)"
proof -
  obtain b w0 where p: "popFault w = (b, w0)" by force
  have k: "w_db w0 = w_db w" "w_now w0 = w_now w" "w_tx w0 = w_tx w"
    using p popFault_keeps[of w] by simp_all
  show "w_now w' = w_now w" "w_tx w' = w_tx w"
    "w_db w' = w_db w \<or> (e = None \<and> r = Inr () \<and>
       w_db w' = (w_db w)\<lparr>t_mutations := t_mutations (w_db w) @ hd_pending h\<rparr>)"
    using assms p k by (auto simp: Hold_Release_def split: if_splits option.splits)
qed

text \<open>Without faults every count and every hold succeeds and changes nothing.\<close>

lemma WithinTx_nofault:
  "w_faults w = [] \<Longrightarrow> \<not> w_tx w \<Longrightarrow> fn (w\<lparr>w_tx := True\<rparr>) = (Inr x, w\<lparr>w_tx := True\<rparr>) \<Longrightarrow>
   WithinTx fn w = (Inr x, w)"
  by (simp add: WithinTx_def)

lemma CountMailCap_nofault:
  assumes "w_faults w = []"
  shows "CountMailCap c w = (Inr (mailsLastHour c (w_now w) (w_db w)), w)"
proof -
  define run where "run = andThen (wrapA (mutOp ''lockMailCap'') lockStmt) (\<lambda>_ w. wrapA (mutOp ''CountMailCap'')
     (runStmt (\<lambda>d. Inr (mailsLastHour c (w_now w) d, d))) w)"
  have run: "run v = (Inr (mailsLastHour c (w_now v) (w_db v)), v)" if "w_faults v = []" for v
    using that by (simp add: run_def andThen_def lockStmt_def runStmt_ok wrapA_def)
  have "CountMailCap c w = (if w_tx w then run w else wrapA (mutOp ''withMailCap'') (WithinTx run) w)"
    unfolding CountMailCap_def withMailCap_def run_def [symmetric] Let_def ..
  then show ?thesis
    using run[of w] run[of "w\<lparr>w_tx := True\<rparr>"] WithinTx_nofault[of w run] assms
    by (cases "w_tx w") (simp_all add: wrapA_def)
qed

lemma HoldMailCap_nofault:
  "w_faults w = [] \<Longrightarrow> \<not> w_tx w \<Longrightarrow>
   HoldMailCap c w = (Inr \<lparr>hd_Count = mailsLastHour c (w_now w) (w_db w), hd_nested = False, hd_pending = []\<rparr>, w)"
  by (simp add: HoldMailCap_def CountMailCap_nofault)

lemma Append_now [simp]: "w_now (snd (Append m w)) = w_now w"
proof -
  have a: "keeps w_now (appendWrite m)"
    unfolding keeps_def appendWrite_def by simp
  then have "keeps w_now (andThen (wrapA (mutOp ''lockMailCap'') lockStmt) (\<lambda>_. appendWrite m))"
    unfolding lockStmt_def by (intro fld_now.keeps_rules)
  from this fld_now.keeps_WithinTx[OF this] show ?thesis
    using a by (simp add: Append_def withMailCap_def Let_def keeps_def)
qed

end
