(* ===== verification/ConfirmRepo.thy ===== *)
theory ConfirmRepo
  imports OneShot
begin

text \<open>
  The confirm-token repository (internal/domain/confirm, internal/domain/confirm/pgx): upsert
  by token, lookup without an expiry test, the atomic take, deletion and the count of live
  tokens of a session.
\<close>

definition confOp :: "string \<Rightarrow> string" where "confOp op = ''confirm: '' @ op"

definition confirmRow :: "db \<Rightarrow> string \<Rightarrow> confirm_row option" where
  "confirmRow d v = find (\<lambda>c. ct_token c = v) (t_confirms d)"

definition putConfirmStmt :: "confirm_row \<Rightarrow> db \<Rightarrow> goerr + (unit \<times> db)" where
  "putConfirmStmt c d =
    (if ct_session_id c \<notin> se_id ` set (t_sessions d)
     then Inl (External ''confirm_tokens_session_id_fkey'')
     else Inr ((),
       if ct_token c \<in> ct_token ` set (t_confirms d)
       then d\<lparr>t_confirms := updateWhere (\<lambda>x. ct_token x = ct_token c) (\<lambda>_. c) (t_confirms d)\<rparr>
       else d\<lparr>t_confirms := t_confirms d @ [c]\<rparr>))"

definition fillConfirm :: "confirm_row \<Rightarrow> time \<Rightarrow> confirm_row" where
  "fillConfirm c now =
    (let c1 = (if isZero (ct_created_at c) then c\<lparr>ct_created_at := now\<rparr> else c) in
     if isZero (ct_expires_at c1) then c1\<lparr>ct_expires_at := ct_created_at c1 + confirm_TTL\<rparr> else c1)"

definition Confirms_Put :: "confirm_row \<Rightarrow> unit action" where
  "Confirms_Put c w = wrapA (confOp ''Put'') (runStmt (putConfirmStmt (fillConfirm c (w_now w)))) w"

definition Confirms_Get :: "string \<Rightarrow> confirm_row action" where
  "Confirms_Get v w = (case runStmt (\<lambda>d. Inr (confirmRow d v, d)) w of
      (Inl e, w1) \<Rightarrow> (Inl (Wrap (confOp ''scan'') e), w1)
    | (Inr None, w1) \<Rightarrow> (Inl (Sentinel confirm_ErrNotFound), w1)
    | (Inr (Some c), w1) \<Rightarrow> (Inr c, w1))"

definition Confirms_Take :: "string \<Rightarrow> confirm_row action" where
  "Confirms_Take v w = (case runStmt (takeStmt (\<lambda>c. ct_token c = v) t_confirms (\<lambda>xs d. d\<lparr>t_confirms := xs\<rparr>)) w of
      (Inl e, w1) \<Rightarrow> (Inl (Wrap (confOp ''scan'') e), w1)
    | (Inr None, w1) \<Rightarrow> (Inl (Sentinel confirm_ErrNotFound), w1)
    | (Inr (Some c), w1) \<Rightarrow>
        (if \<not> isZero (ct_expires_at c) \<and> w_now w > ct_expires_at c
         then (Inl (Sentinel confirm_ErrNotFound), w1) else (Inr c, w1)))"

definition deleteConfirmStmt :: "string \<Rightarrow> db \<Rightarrow> goerr + (unit \<times> db)" where
  "deleteConfirmStmt v d = Inr ((), d\<lparr>t_confirms := removeWhere (\<lambda>c. ct_token c = v) (t_confirms d)\<rparr>)"

definition Confirms_Delete :: "string \<Rightarrow> unit action" where
  "Confirms_Delete v = wrapA (confOp ''Delete'') (runStmt (deleteConfirmStmt v))"

definition Confirms_Count :: "int \<Rightarrow> nat action" where
  "Confirms_Count i w = wrapA (confOp ''Count'') (runStmt (\<lambda>d.
     Inr (countWhere (\<lambda>c. ct_session_id c = i \<and> ct_expires_at c > w_now w) (t_confirms d), d))) w"

definition Confirms_DeleteExpired :: "nat action" where
  "Confirms_DeleteExpired w = wrapA (confOp ''DeleteExpired'') (runStmt (\<lambda>d.
     let old = (\<lambda>c. ct_expires_at c < w_now w) in
     Inr (countWhere old (t_confirms d), d\<lparr>t_confirms := removeWhere old (t_confirms d)\<rparr>))) w"

interpretation confirms: take_store confirmRow Confirms_Take
  "\<lambda>now c. \<not> isZero (ct_expires_at c) \<and> now > ct_expires_at c"
proof unfold_locales
  fix k w r w' assume t: "Confirms_Take k w = (Inr r, w')"
  then have q: "runStmt (takeStmt (\<lambda>c. ct_token c = k) t_confirms (\<lambda>xs d. d\<lparr>t_confirms := xs\<rparr>)) w = (Inr (Some r), w')"
    and e: "\<not> (\<not> isZero (ct_expires_at r) \<and> w_now w > ct_expires_at r)"
    by (auto simp: Confirms_Take_def split: prod.splits sum.splits option.splits if_splits)
  have d: "confirmRow (w_db w) k = Some r"
    "w_db w' = (w_db w)\<lparr>t_confirms := removeWhere (\<lambda>c. ct_token c = k) (t_confirms (w_db w))\<rparr>"
    using runStmt_Inr(1)[OF q] by (auto simp: takeStmt_def confirmRow_def split: option.splits)
  then show "confirmRow (w_db w) k = Some r \<and>
      \<not> (\<not> isZero (ct_expires_at r) \<and> w_now w > ct_expires_at r) \<and> confirmRow (w_db w') k = None"
    using e by (simp add: confirmRow_def)
next
  fix k w e w' assume t: "Confirms_Take k w = (Inl e, w')"
  show "confirmRow (w_db w') k = None \<or> confirmRow (w_db w') k = confirmRow (w_db w) k"
  proof (cases "runStmt (takeStmt (\<lambda>c. ct_token c = k) t_confirms (\<lambda>xs d. d\<lparr>t_confirms := xs\<rparr>)) w")
    case (Pair x w1)
    then have "w1 = w'" using t by (auto simp: Confirms_Take_def split: sum.splits option.splits if_splits)
    then show ?thesis
      using Pair takeStmt_run[of "\<lambda>c. ct_token c = k" t_confirms "\<lambda>xs d. d\<lparr>t_confirms := xs\<rparr>" w x w']
      by (simp add: confirmRow_def)
  qed
qed

subsection \<open>What the operations do\<close>

lemma fillConfirm_facts [simp]:
  "ct_token (fillConfirm c now) = ct_token c" "ct_session_id (fillConfirm c now) = ct_session_id c"
  "ct_tool (fillConfirm c now) = ct_tool c" "ct_args_digest (fillConfirm c now) = ct_args_digest c"
  by (simp_all add: fillConfirm_def Let_def)

lemma find_updateWhere_const:
  "k c = v \<Longrightarrow> v \<in> k ` set xs \<Longrightarrow> find (\<lambda>x. k x = v) (updateWhere (\<lambda>x. k x = v) (\<lambda>_. c) xs) = Some c"
  by (induction xs) auto

lemma find_updateWhere_other:
  "v' \<noteq> v \<Longrightarrow> k c = v \<Longrightarrow>
   find (\<lambda>x. k x = v') (updateWhere (\<lambda>x. k x = v) (\<lambda>_. c) xs) = find (\<lambda>x. k x = v') xs"
  by (induction xs) auto

lemma putConfirmStmt_row:
  assumes "putConfirmStmt c d = Inr (u, d')"
  shows "confirmRow d' v = (if v = ct_token c then Some c else confirmRow d v)"
    "ct_session_id c \<in> se_id ` set (t_sessions d)"
    "d' = d\<lparr>t_confirms := t_confirms d'\<rparr>"
proof -
  have n: "find (\<lambda>x. ct_token x = ct_token c) (t_confirms d) = None"
    if "ct_token c \<notin> ct_token ` set (t_confirms d)"
    using that by (simp add: find_key_None)
  show "confirmRow d' v = (if v = ct_token c then Some c else confirmRow d v)"
    using assms n find_updateWhere_const[of ct_token c "ct_token c" "t_confirms d"]
      find_updateWhere_other[of v "ct_token c" ct_token c "t_confirms d"]
    by (auto simp: putConfirmStmt_def confirmRow_def find_append split: if_splits option.splits)
  show "ct_session_id c \<in> se_id ` set (t_sessions d)" "d' = d\<lparr>t_confirms := t_confirms d'\<rparr>"
    using assms by (auto simp: putConfirmStmt_def split: if_splits)
qed

lemma Confirms_Put_ok:
  assumes "Confirms_Put c w = (Inr u, w')"
  shows "confirmRow (w_db w') v = (if v = ct_token c then Some (fillConfirm c (w_now w)) else confirmRow (w_db w) v)"
    "ct_session_id c \<in> se_id ` set (t_sessions (w_db w))"
    "w_db w' = (w_db w)\<lparr>t_confirms := t_confirms (w_db w')\<rparr>" "w_now w' = w_now w"
    "w_tx w' = w_tx w" "w_rand w' = w_rand w"
proof -
  have r: "runStmt (putConfirmStmt (fillConfirm c (w_now w))) w = (Inr u, w')"
    using assms by (auto simp: Confirms_Put_def wrapA_def wrapR_def split: prod.splits sum.splits)
  note f = runStmt_Inr[OF r]
  show "confirmRow (w_db w') v = (if v = ct_token c then Some (fillConfirm c (w_now w)) else confirmRow (w_db w) v)"
    "ct_session_id c \<in> se_id ` set (t_sessions (w_db w))"
    "w_db w' = (w_db w)\<lparr>t_confirms := t_confirms (w_db w')\<rparr>"
    using putConfirmStmt_row[OF f(1)] by simp_all
  show "w_now w' = w_now w" "w_tx w' = w_tx w" "w_rand w' = w_rand w" by (fact f)+
qed

lemma Confirms_Get_db [simp]:
  "w_db (snd (Confirms_Get v w)) = w_db w"
proof -
  have "w_db (snd (runStmt (\<lambda>d. Inr (confirmRow d v, d)) w)) = w_db w"
    by (rule runStmt_read) simp
  then show ?thesis by (auto simp: Confirms_Get_def split: prod.split sum.split option.split)
qed

lemma Confirms_Get_ok:
  assumes "Confirms_Get v w = (Inr c, w')"
  shows "confirmRow (w_db w) v = Some c" "w_now w' = w_now w" "w_tx w' = w_tx w" "w_rand w' = w_rand w"
proof -
  have r: "runStmt (\<lambda>d. Inr (confirmRow d v, d)) w = (Inr (Some c), w')"
    using assms by (auto simp: Confirms_Get_def split: prod.splits sum.splits option.splits)
  note f = runStmt_Inr[OF r]
  show "confirmRow (w_db w) v = Some c" using f(1) by auto
  show "w_now w' = w_now w" "w_tx w' = w_tx w" "w_rand w' = w_rand w" by (fact f)+
qed

lemma Confirms_Delete_ok:
  assumes "Confirms_Delete v w = (Inr u, w')"
  shows "w_db w' = (w_db w)\<lparr>t_confirms := removeWhere (\<lambda>c. ct_token c = v) (t_confirms (w_db w))\<rparr>"
    "confirmRow (w_db w') v' = (if v' = v then None else confirmRow (w_db w) v')" "w_now w' = w_now w"
proof -
  have r: "runStmt (deleteConfirmStmt v) w = (Inr u, w')"
    using assms by (auto simp: Confirms_Delete_def wrapA_def wrapR_def split: prod.splits sum.splits)
  note f = runStmt_Inr[OF r]
  show d: "w_db w' = (w_db w)\<lparr>t_confirms := removeWhere (\<lambda>c. ct_token c = v) (t_confirms (w_db w))\<rparr>"
    using f(1) by (simp add: deleteConfirmStmt_def)
  show "confirmRow (w_db w') v' = (if v' = v then None else confirmRow (w_db w) v')"
    using find_removeWhere_other[of "\<lambda>c. ct_token c = v'" "\<lambda>c. ct_token c = v"]
    by (auto simp: d confirmRow_def)
  show "w_now w' = w_now w" by (fact f)
qed

lemma Confirms_Delete_err:
  assumes "Confirms_Delete v w = (Inl e, w')"
  shows "w_db w' = w_db w"
proof -
  obtain e' where "runStmt (deleteConfirmStmt v) w = (Inl e', w')"
    using assms by (auto simp: Confirms_Delete_def wrapA_def wrapR_def split: prod.splits sum.splits)
  then show ?thesis by (rule runStmt_Inl(1))
qed

subsection \<open>The invariant\<close>

lemma wf_putConfirmStmt: "wf_db d \<Longrightarrow> putConfirmStmt c d = Inr (x, d') \<Longrightarrow> wf_db d' \<and> seq_le d d'"
  unfolding putConfirmStmt_def
  by (auto simp: seq_le_def split: if_splits intro!: wf_add_confirm wf_update_confirms)

lemma wf_deleteConfirmStmt: "wf_db d \<Longrightarrow> deleteConfirmStmt v d = Inr (x, d') \<Longrightarrow> wf_db d' \<and> seq_le d d'"
  by (auto simp: deleteConfirmStmt_def seq_le_def wf_drop_confirms)

lemma wf_Confirms_Put [inv_intros]: "preserves wf_db seq_le (Confirms_Put c)"
  by (rule preserves_run_at[where f = "\<lambda>t. putConfirmStmt (fillConfirm c t)"])
     (auto simp: Confirms_Put_def wrapA_def wf_putConfirmStmt split: prod.split)

lemma wf_Confirms_Get [inv_intros]: "preserves wf_db seq_le (Confirms_Get v)"
  by (rule wf.preserves_const) simp

lemma wf_Confirms_Delete [inv_intros]: "preserves wf_db seq_le (Confirms_Delete v)"
  unfolding Confirms_Delete_def by (intro wf.preserves_wrapA wf.preserves_stmt wf_deleteConfirmStmt)

lemma wf_Confirms_DeleteExpired [inv_intros]: "preserves wf_db seq_le Confirms_DeleteExpired"
  by (rule preserves_run_at[where f = "\<lambda>t d. Inr (countWhere (\<lambda>c. ct_expires_at c < t) (t_confirms d),
        d\<lparr>t_confirms := removeWhere (\<lambda>c. ct_expires_at c < t) (t_confirms d)\<rparr>)"])
     (auto simp: Confirms_DeleteExpired_def Let_def wrapA_def seq_le_def wf_drop_confirms split: prod.split)

end
