(* ===== verification/Guard.thy ===== *)
theory Guard
  imports Policy Summary Json Sha256 MutationRepo ConfirmRepo
begin

text \<open>
  The write guard (internal/domain/write/guard.go, persist.go): every mutating tool first asks
  \<open>Authorize\<close>, which answers with a preview and a confirm token or consumes the token, and then
  reports to \<open>Record\<close>, the audit log. A guard belongs to one session. The repositories reach it
  through the interface \<open>Persist\<close>, a record of operations here; \<open>guardPersist\<close>
  (internal/usecase/session/persist.go) is the implementation over the database.

  The state of a call is the guard (its open mail-cap hold) and the world. Log lines are not
  modelled, so an error that is only logged disappears.
\<close>

record Confirm =
  cf_Token :: string
  cf_SessionID :: int
  cf_Tool :: string
  cf_ArgsDigest :: string
  cf_CreatedAt :: time

text \<open>
  \<open>GetConfirm\<close> returns a pointer and an error, and the guard tests the pointer first: both are
  kept. The hold's closures \<open>do\<close> and \<open>end\<close> are the operations \<open>HoldDo\<close> and \<open>HoldRelease\<close>.
\<close>

record Persist =
  PutConfirm :: "Confirm \<Rightarrow> unit action"
  GetConfirm :: "string \<Rightarrow> world \<Rightarrow> (Confirm option \<times> goerr option) \<times> world"
  DeleteConfirm :: "string \<Rightarrow> unit action"
  CountConfirm :: "int \<Rightarrow> nat action"
  CountMails :: "int \<Rightarrow> nat action"
  AppendMutation :: "Mutation \<Rightarrow> unit action"
  HoldMails :: "int \<Rightarrow> Hold action"
  HoldDo :: "Hold \<Rightarrow> unit action \<Rightarrow> world \<Rightarrow> ((goerr + unit) \<times> Hold) \<times> world"
  HoldRelease :: "Hold \<Rightarrow> goerr option \<Rightarrow> unit action"

record Guard =
  g_characterID :: int
  g_sessionID :: int
  g_mailHold :: "Hold option"

record Authz =
  az_Tool :: string
  az_Capability :: string
  az_Args :: object
  az_Preview :: object
  az_Token :: string
  az_Scopes :: "string list"

record Record =
  rec_Tool :: string
  rec_Capability :: string
  rec_Args :: object
  rec_Outcome :: string
  rec_ESIStatus :: int
  rec_Error :: string

type_synonym Decision = "object option"

definition NewGuard :: "int \<Rightarrow> int \<Rightarrow> Guard" where
  "NewGuard characterID sessionID =
     \<lparr>g_characterID = characterID, g_sessionID = sessionID, g_mailHold = None\<rparr>"

definition writeOp :: "string \<Rightarrow> string" where "writeOp op = ''write: '' @ op"

definition errConfirmUnknown :: string where
  "errConfirmUnknown = ''That confirm_token is unknown or has expired. Call the tool again without a token to get a fresh preview.''"

definition blocked :: "sentinel \<Rightarrow> string \<Rightarrow> goerr" where
  "blocked why msg = BlockedError msg (Sentinel why)"

definition mailCapBlocked :: goerr where
  "mailCapBlocked = blocked ErrMailCap (''Mail budget exhausted: '' @ itoa MailCap @
     '' mails in the last hour. Wait until an earlier send drops out of the rolling hour, then try again.'')"

subsection \<open>Pure checks\<close>

definition CheckCapability :: "fmtlib \<Rightarrow> string \<Rightarrow> goerr + unit" where
  "CheckCapability F capability =
    (case map_of Capabilities capability of
       None \<Rightarrow> Inl (blocked ErrUnknownCapability (''Unknown write capability '' @ fm_q F capability @ ''.''))
     | Some _ \<Rightarrow> Inr ())"

definition CheckScope :: "string \<Rightarrow> string list \<Rightarrow> goerr + unit" where
  "CheckScope capability granted =
    (let missing = filter (\<lambda>s. \<not> List.member granted s) (capScopes capability) in
     if missing \<noteq> []
     then Inl (blocked ErrMissingWriteScope (''This character was not authorized with '' @
       joinStr '', '' missing @
       ''. Re-authenticate the MCP server (Authentication required) and approve the full scope set.''))
     else Inr ())"

definition digestArgs :: "fmtlib \<Rightarrow> object \<Rightarrow> goerr + string" where
  "digestArgs F payload = (case marshal F (VMap payload) of
     None \<Rightarrow> Inl (Wrap (writeOp ''digestArgs'') (External ''json''))
   | Some raw \<Rightarrow> Inr (take 16 (hexEncode (sha256 raw))))"

definition randomToken :: "string action" where
  "randomToken w = (case randRead w of
     (None, w1) \<Rightarrow> (Inl (Wrap (writeOp ''randomToken'') (External ''rand'')), w1)
   | (Some b, w1) \<Rightarrow> (Inr (trimRight (CHR ''='') (hexEncode b)), w1))"

subsection \<open>The mail-cap hold\<close>

definition releaseMailHold :: "Persist \<Rightarrow> Guard \<Rightarrow> goerr option \<Rightarrow> world \<Rightarrow> (goerr + unit) \<times> Guard \<times> world" where
  "releaseMailHold P g err w = (case g_mailHold g of
     None \<Rightarrow> (Inr (), g, w)
   | Some h \<Rightarrow> (case HoldRelease P h err w of (r, w1) \<Rightarrow> (r, g\<lparr>g_mailHold := None\<rparr>, w1)))"

definition checkMailCap :: "Persist \<Rightarrow> Guard \<Rightarrow> unit action" where
  "checkMailCap P g w = (case CountMails P (g_characterID g) w of
     (Inl e, w1) \<Rightarrow> (Inl (Wrap (writeOp ''checkMailCap'') e), w1)
   | (Inr n, w1) \<Rightarrow>
       (if int n \<ge> MailCap
        then (Inl mailCapBlocked, w1\<lparr>w_capRejections := w_capRejections w1 + 1\<rparr>)
        else (Inr (), w1)))"

definition holdMailCap :: "Persist \<Rightarrow> Guard \<Rightarrow> world \<Rightarrow> (goerr + unit) \<times> Guard \<times> world" where
  "holdMailCap P g w = (case HoldMails P (g_characterID g) w of
     (Inl e, w1) \<Rightarrow> (Inl (Wrap (writeOp ''holdMailCap'') e), g, w1)
   | (Inr h, w1) \<Rightarrow>
       (if int (hd_Count h) \<ge> MailCap
        then (case HoldRelease P h (Some (Sentinel ErrMailCap)) w1 of
           (_, w2) \<Rightarrow> (Inl mailCapBlocked, g, w2\<lparr>w_capRejections := w_capRejections w2 + 1\<rparr>))
        else (Inr (), g\<lparr>g_mailHold := Some h\<rparr>, w1)))"

definition gateMailCap :: "Persist \<Rightarrow> Guard \<Rightarrow> Authz \<Rightarrow> world \<Rightarrow> (goerr + unit) \<times> Guard \<times> world" where
  "gateMailCap P g ain w =
    (if az_Capability ain \<noteq> CapMailSend then (Inr (), g, w)
     else if az_Token ain \<noteq> [] then holdMailCap P g w
     else (case checkMailCap P g w of (r, w1) \<Rightarrow> (r, g, w1)))"

subsection \<open>Tokens\<close>

text \<open>
  \<open>consumeConfirm\<close> is two database calls with the decision in between. \<open>consumeGot\<close> is the part
  after \<open>GetConfirm\<close> returned, which another request may run before.
\<close>

definition consumeGot ::
  "fmtlib \<Rightarrow> Persist \<Rightarrow> Guard \<Rightarrow> string \<Rightarrow> string \<Rightarrow> string \<Rightarrow> Confirm option \<times> goerr option \<Rightarrow> unit action" where
  "consumeGot F P g tool digest confirmToken got w1 =
    (case got of (pending, err) \<Rightarrow>
     (case pending of
        None \<Rightarrow> (Inl (blocked ErrConfirmUnknown errConfirmUnknown), w1)
      | Some p \<Rightarrow>
         (case err of
            Some e \<Rightarrow>
              (if errors_is e ErrConfirmNotFound
               then (Inl (blocked ErrConfirmUnknown errConfirmUnknown), w1)
               else (Inl (Wrap (writeOp ''consumeConfirm'') e), w1))
          | None \<Rightarrow>
             if cf_SessionID p \<noteq> g_sessionID g
             then (Inl (blocked ErrConfirmUnknown errConfirmUnknown), w1)
             else if w_now w1 - cf_CreatedAt p > ConfirmTTL
             then (case DeleteConfirm P confirmToken w1 of
                (Inl e, w2) \<Rightarrow> (Inl (Wrap (writeOp ''consumeConfirm'') e), w2)
              | (Inr _, w2) \<Rightarrow> (Inl (blocked ErrConfirmUnknown errConfirmUnknown), w2))
             else if cf_Tool p \<noteq> tool
             then (Inl (blocked ErrConfirmTool (''confirm_token was issued for '' @ fm_q F (cf_Tool p) @
                '', not '' @ fm_q F tool @ ''.'')), w1)
             else if cf_ArgsDigest p \<noteq> digest
             then (case DeleteConfirm P confirmToken w1 of
                (Inl e, w2) \<Rightarrow> (Inl (Wrap (writeOp ''consumeConfirm'') e), w2)
              | (Inr _, w2) \<Rightarrow> (Inl (blocked ErrConfirmArgs ''The arguments changed since the preview was generated, so the token was discarded. Request a new preview and confirm that one.''), w2))
             else (case DeleteConfirm P confirmToken w1 of
                (Inl e, w2) \<Rightarrow> (Inl (Wrap (writeOp ''consumeConfirm'') e), w2)
              | (Inr _, w2) \<Rightarrow> (Inr (), w2)))))"

definition consumeConfirm ::
  "fmtlib \<Rightarrow> Persist \<Rightarrow> Guard \<Rightarrow> string \<Rightarrow> string \<Rightarrow> string \<Rightarrow> unit action" where
  "consumeConfirm F P g tool digest confirmToken w =
    (case GetConfirm P confirmToken w of (got, w1) \<Rightarrow>
       consumeGot F P g tool digest confirmToken got w1)"

definition confirmWrite ::
  "fmtlib \<Rightarrow> Persist \<Rightarrow> Guard \<Rightarrow> Authz \<Rightarrow> string \<Rightarrow> world \<Rightarrow> (goerr + Decision) \<times> Guard \<times> world" where
  "confirmWrite F P g ain digest w =
    (case consumeConfirm F P g (az_Tool ain) digest (az_Token ain) w of
       (Inl e, w1) \<Rightarrow> (case releaseMailHold P g (Some e) w1 of (_, g2, w2) \<Rightarrow> (Inl e, g2, w2))
     | (Inr _, w1) \<Rightarrow> (Inr None, g, w1))"

definition previewRequired :: "Authz \<Rightarrow> string \<Rightarrow> object" where
  "previewRequired ain token =
    [(''status'', VStr ''confirmation_required''), (''tool'', VStr (az_Tool ain)),
     (''capability'', VStr (az_Capability ain)), (''will_do'', VMap (az_Preview ain)),
     (''confirm_token'', VStr token), (''expires_in_seconds'', VInt (ConfirmTTL div second)),
     (''next_step'', VStr (''Show '' @ [CHR 0x27] @ ''will_do'' @ [CHR 0x27] @
        '' to the user and get their explicit go-ahead, then call '' @ az_Tool ain @
        '' again with identical arguments plus confirm_token='' @ [CHR 0x27] @ token @ [CHR 0x27] @ ''.''))]"

definition previewWrite ::
  "Persist \<Rightarrow> Guard \<Rightarrow> Authz \<Rightarrow> string \<Rightarrow> world \<Rightarrow> (goerr + Decision) \<times> Guard \<times> world" where
  "previewWrite P g ain digest w =
    (case randomToken w of
       (Inl e, w1) \<Rightarrow> (Inl e, g, w1)
     | (Inr token, w1) \<Rightarrow>
        (case PutConfirm P \<lparr>cf_Token = token, cf_SessionID = g_sessionID g, cf_Tool = az_Tool ain,
                cf_ArgsDigest = digest, cf_CreatedAt = w_now w1\<rparr> w1 of
           (Inl e, w2) \<Rightarrow> (Inl (Wrap (writeOp ''Authorize'') e), g, w2)
         | (Inr _, w2) \<Rightarrow> (Inr (Some (previewRequired ain token)), g, w2)))"

subsection \<open>Authorize, Record, Status\<close>

definition Authorize ::
  "fmtlib \<Rightarrow> Persist \<Rightarrow> Guard \<Rightarrow> Authz \<Rightarrow> world \<Rightarrow> (goerr + Decision) \<times> Guard \<times> world" where
  "Authorize F P g ain w =
    (case releaseMailHold P g (Some (Sentinel errMailHoldAbandoned)) w of (_, g1, w1) \<Rightarrow>
     (case CheckCapability F (az_Capability ain) of
        Inl e \<Rightarrow> (Inl e, g1, w1)
      | Inr _ \<Rightarrow>
       (case CheckScope (az_Capability ain) (az_Scopes ain) of
          Inl e \<Rightarrow> (Inl e, g1, w1)
        | Inr _ \<Rightarrow>
         (case gateMailCap P g1 ain w1 of
            (Inl e, g2, w2) \<Rightarrow> (Inl e, g2, w2)
          | (Inr _, g2, w2) \<Rightarrow>
           (case digestArgs F (az_Args ain) of
              Inl e \<Rightarrow> (case releaseMailHold P g2 (Some e) w2 of (_, g3, w3) \<Rightarrow> (Inl e, g3, w3))
            | Inr digest \<Rightarrow>
                if az_Token ain \<noteq> [] then confirmWrite F P g2 ain digest w2
                else previewWrite P g2 ain digest w2)))))"

definition auditRow :: "fmtlib \<Rightarrow> Guard \<Rightarrow> Record \<Rightarrow> string \<Rightarrow> Mutation" where
  "auditRow F g rec digest = \<lparr>mn_CharacterID = g_characterID g, mn_SessionID = g_sessionID g,
     mn_Tool = rec_Tool rec, mn_Capability = rec_Capability rec, mn_ArgsDigest = digest,
     mn_Summary = truncateRunes (summarize (fm_v F) (rec_Tool rec) (rec_Args rec)) auditFieldMax,
     mn_Outcome = (if rec_Outcome rec = [] then OutcomeOK else rec_Outcome rec),
     mn_ESIStatus = rec_ESIStatus rec, mn_Error = truncateRunes (rec_Error rec) auditFieldMax\<rparr>"

definition appendRecord :: "fmtlib \<Rightarrow> Persist \<Rightarrow> Guard \<Rightarrow> Record \<Rightarrow> unit action" where
  "appendRecord F P g rec w = (case digestArgs F (rec_Args rec) of
     Inl e \<Rightarrow> (Inl e, w)
   | Inr digest \<Rightarrow> wrapA (writeOp ''Record'') (AppendMutation P (auditRow F g rec digest)) w)"

definition errOf :: "goerr + 'a \<Rightarrow> goerr option" where
  "errOf r = (case r of Inl e \<Rightarrow> Some e | Inr _ \<Rightarrow> None)"

definition RecordWrite ::
  "fmtlib \<Rightarrow> Persist \<Rightarrow> Guard \<Rightarrow> Record \<Rightarrow> world \<Rightarrow> (goerr + unit) \<times> Guard \<times> world" where
  "RecordWrite F P g rec w =
    (let (r, g1, w1) = (case g_mailHold g of
           Some h \<Rightarrow> (case HoldDo P h (appendRecord F P g rec) w of
                      ((r, h1), w1) \<Rightarrow> (r, g\<lparr>g_mailHold := Some h1\<rparr>, w1))
         | None \<Rightarrow> (case appendRecord F P g rec w of (r, w1) \<Rightarrow> (r, g, w1)));
         (rel, g2, w2) = releaseMailHold P g1 (errOf r) w1 in
     (case r of Inl e \<Rightarrow> (Inl e, g2, w2) | Inr _ \<Rightarrow> (rel, g2, w2)))"

definition GuardStatus :: "Persist \<Rightarrow> Guard \<Rightarrow> world \<Rightarrow> object \<times> world" where
  "GuardStatus P g w =
    (let (m, w1) = CountMails P (g_characterID g) w;
         mails = (case m of Inr n \<Rightarrow> int n | Inl _ \<Rightarrow> 0);
         (c, w2) = CountConfirm P (g_sessionID g) w1;
         pending = (case c of Inr n \<Rightarrow> int n | Inl _ \<Rightarrow> 0) in
     ([(''capabilities'', VStrs CapabilityNames),
       (''capability_reference'', VMap (map (\<lambda>(n, c). (n, VStr (cap_Summary c))) Capabilities)),
       (''mails_last_hour'', VInt mails),
       (''mails_remaining_this_hour'', VInt (max (MailCap - mails) 0)),
       (''mail_cap_per_hour'', VInt MailCap),
       (''pending_confirmations'', VInt pending),
       (''confirm_ttl_seconds'', VInt (ConfirmTTL div second)),
       (''confirm'', VStr ''Each mutating tool returns a preview and confirm_token on the first call; a second call with identical arguments plus the token executes it. Mail is capped at 5 per rolling hour.'')],
      w2))"

subsection \<open>The implementation of Persist\<close>

definition sessUse :: "string \<Rightarrow> string" where "sessUse op = ''session: '' @ op"

definition gp_PutConfirm :: "Confirm \<Rightarrow> unit action" where
  "gp_PutConfirm c = wrapA (sessUse ''PutConfirm'') (Confirms_Put
     \<lparr>ct_token = cf_Token c, ct_session_id = cf_SessionID c, ct_tool = cf_Tool c,
      ct_args_digest = cf_ArgsDigest c, ct_created_at = cf_CreatedAt c, ct_expires_at = 0\<rparr>)"

definition toConfirm :: "confirm_row \<Rightarrow> Confirm" where
  "toConfirm row = \<lparr>cf_Token = ct_token row, cf_SessionID = ct_session_id row, cf_Tool = ct_tool row,
     cf_ArgsDigest = ct_args_digest row, cf_CreatedAt = ct_created_at row\<rparr>"

definition gp_GetConfirm :: "string \<Rightarrow> world \<Rightarrow> (Confirm option \<times> goerr option) \<times> world" where
  "gp_GetConfirm token w = (case Confirms_Get token w of
     (Inl e, w1) \<Rightarrow>
       (if errors_is e confirm_ErrNotFound then ((None, Some (Sentinel ErrConfirmNotFound)), w1)
        else ((None, Some (Wrap (sessUse ''GetConfirm'') e)), w1))
   | (Inr row, w1) \<Rightarrow> ((Some (toConfirm row), None), w1))"

definition gp_HoldMailCap :: "int \<Rightarrow> Hold action" where
  "gp_HoldMailCap c = wrapA (sessUse ''HoldMailCap'') (HoldMailCap c)"

definition guardPersist :: Persist where
  "guardPersist = \<lparr>PutConfirm = gp_PutConfirm, GetConfirm = gp_GetConfirm,
     DeleteConfirm = (\<lambda>t. wrapA (sessUse ''DeleteConfirm'') (Confirms_Delete t)),
     CountConfirm = (\<lambda>i. wrapA (sessUse ''CountConfirm'') (Confirms_Count i)),
     CountMails = (\<lambda>c. wrapA (sessUse ''CountMailCap'') (CountMailCap c)),
     AppendMutation = (\<lambda>m. wrapA (sessUse ''AppendMutation'') (Append m)),
     HoldMails = gp_HoldMailCap, HoldDo = Hold_Do, HoldRelease = Hold_Release\<rparr>"

end
