(* ===== verification/PeopleRepo.thy ===== *)
theory PeopleRepo
  imports OneShot
begin

text \<open>
  The character and the OAuth-client repositories (internal/domain/character,
  internal/domain/oauthclient and their pgx packages). A character is soft-deleted by a logout
  and revived by the next sign-in; a client is soft-deleted when no session refers to it for
  thirty days, and deleted thirty days later.
\<close>

definition PlayerCorpIDFloor :: int where "PlayerCorpIDFloor = 98000000"

definition charOp :: "string \<Rightarrow> string" where "charOp op = ''character: '' @ op"

definition Live :: "character_row \<Rightarrow> bool" where "Live c = (ch_deleted_at c = None)"

subsection \<open>Characters\<close>

definition upsertCharacterStmt :: "character_row \<Rightarrow> db \<Rightarrow> goerr + (unit \<times> db)" where
  "upsertCharacterStmt c d = Inr ((),
     if ch_id c \<in> ch_id ` set (t_characters d)
     then d\<lparr>t_characters := updateWhere (\<lambda>x. ch_id x = ch_id c)
            (\<lambda>x. x\<lparr>ch_name := ch_name c, ch_owner_hash := ch_owner_hash c, ch_deleted_at := None\<rparr>)
            (t_characters d)\<rparr>
     else d\<lparr>t_characters := t_characters d @ [c\<lparr>ch_deleted_at := None\<rparr>]\<rparr>)"

definition Characters_Upsert :: "character_row \<Rightarrow> unit action" where
  "Characters_Upsert c w =
    (let c' = (if isZero (ch_added_at c) then c\<lparr>ch_added_at := w_now w\<rparr> else c) in
     wrapA (charOp ''Upsert'') (runStmt (upsertCharacterStmt c')) w)"

definition characterRow :: "db \<Rightarrow> int \<Rightarrow> character_row option" where
  "characterRow d i = find (\<lambda>c. ch_id c = i) (t_characters d)"

definition Characters_Get :: "int \<Rightarrow> character_row action" where
  "Characters_Get i w = (case runStmt (\<lambda>d. Inr (characterRow d i, d)) w of
      (Inl e, w1) \<Rightarrow> (Inl (Wrap (charOp ''scan'') e), w1)
    | (Inr None, w1) \<Rightarrow> (Inl (Sentinel character_ErrNotFound), w1)
    | (Inr (Some c), w1) \<Rightarrow> (Inr c, w1))"

definition deleteCharacterStmt :: "int \<Rightarrow> time \<Rightarrow> db \<Rightarrow> goerr + (nat \<times> db)" where
  "deleteCharacterStmt i now d =
    (let p = (\<lambda>c. ch_id c = i \<and> ch_deleted_at c = None) in
     Inr (countWhere p (t_characters d),
       d\<lparr>t_characters := updateWhere p (\<lambda>c. c\<lparr>ch_deleted_at := Some now\<rparr>) (t_characters d)\<rparr>))"

definition Characters_Delete :: "int \<Rightarrow> unit action" where
  "Characters_Delete i w = (case runStmt (deleteCharacterStmt i (w_now w)) w of
      (Inl e, w1) \<Rightarrow> (Inl (Wrap (charOp ''Delete'') e), w1)
    | (Inr n, w1) \<Rightarrow> (if n = 0 then (Inl (Sentinel character_ErrNotFound), w1) else (Inr (), w1)))"

subsection \<open>OAuth clients\<close>

definition clientOp :: "string \<Rightarrow> string" where "clientOp op = ''oauthclient: '' @ op"

definition upsertClientStmt :: "client_row \<Rightarrow> db \<Rightarrow> goerr + (unit \<times> db)" where
  "upsertClientStmt c d = Inr ((),
     if oc_client_id c \<in> oc_client_id ` set (t_clients d)
     then d\<lparr>t_clients := updateWhere (\<lambda>x. oc_client_id x = oc_client_id c)
            (\<lambda>x. x\<lparr>oc_client_name := oc_client_name c, oc_redirect_uris := oc_redirect_uris c,
                   oc_deleted_at := None\<rparr>) (t_clients d)\<rparr>
     else d\<lparr>t_clients := t_clients d @ [c\<lparr>oc_deleted_at := None\<rparr>]\<rparr>)"

definition Clients_Upsert :: "client_row \<Rightarrow> unit action" where
  "Clients_Upsert c w =
    (let c' = (if isZero (oc_created_at c) then c\<lparr>oc_created_at := w_now w\<rparr> else c) in
     wrapA (clientOp ''Upsert'') (runStmt (upsertClientStmt c')) w)"

definition Clients_Get :: "string \<Rightarrow> client_row action" where
  "Clients_Get i w =
    (case runStmt (\<lambda>d. Inr (find (\<lambda>c. oc_client_id c = i \<and> oc_deleted_at c = None) (t_clients d), d)) w of
      (Inl e, w1) \<Rightarrow> (Inl (Wrap (clientOp ''Get'') e), w1)
    | (Inr None, w1) \<Rightarrow> (Inl (Sentinel oauthclient_ErrNotFound), w1)
    | (Inr (Some c), w1) \<Rightarrow> (Inr c, w1))"

definition abandonedClient :: "time \<Rightarrow> db \<Rightarrow> client_row \<Rightarrow> bool" where
  "abandonedClient now d c = (oc_deleted_at c = None \<and> oc_created_at c < now - 30 * day \<and>
     oc_client_id c \<notin> se_mcp_client_id ` set (t_sessions d))"

definition Clients_SoftDeleteAbandoned :: "nat action" where
  "Clients_SoftDeleteAbandoned w = wrapA (clientOp ''SoftDeleteAbandoned'') (runStmt (\<lambda>d.
     Inr (countWhere (abandonedClient (w_now w) d) (t_clients d),
       d\<lparr>t_clients := updateWhere (abandonedClient (w_now w) d)
          (\<lambda>c. c\<lparr>oc_deleted_at := Some (w_now w)\<rparr>) (t_clients d)\<rparr>))) w"

definition longDeleted :: "time \<Rightarrow> client_row \<Rightarrow> bool" where
  "longDeleted now c = (case oc_deleted_at c of None \<Rightarrow> False | Some t \<Rightarrow> t < now - 30 * day)"

definition Clients_DeleteLongSoftDeleted :: "nat action" where
  "Clients_DeleteLongSoftDeleted w = wrapA (clientOp ''DeleteLongSoftDeleted'') (runStmt (\<lambda>d.
     Inr (countWhere (longDeleted (w_now w)) (t_clients d),
       d\<lparr>t_clients := removeWhere (longDeleted (w_now w)) (t_clients d)\<rparr>))) w"

subsection \<open>What the operations do\<close>

lemma Characters_Get_db [simp]: "w_db (snd (Characters_Get i w)) = w_db w"
proof -
  have "w_db (snd (runStmt (\<lambda>d. Inr (characterRow d i, d)) w)) = w_db w"
    by (rule runStmt_read) simp
  then show ?thesis by (auto simp: Characters_Get_def split: prod.split sum.split option.split)
qed

lemma Characters_Get_ok:
  assumes "Characters_Get i w = (Inr c, w')"
  shows "characterRow (w_db w) i = Some c" "w_db w' = w_db w" "w_now w' = w_now w"
    "w_ccp w' = w_ccp w" "w_tx w' = w_tx w"
proof -
  have r: "runStmt (\<lambda>d. Inr (characterRow d i, d)) w = (Inr (Some c), w')"
    using assms by (auto simp: Characters_Get_def split: prod.splits sum.splits option.splits)
  note f = runStmt_Inr[OF r]
  show "characterRow (w_db w) i = Some c" "w_db w' = w_db w" using f(1) by auto
  show "w_now w' = w_now w" "w_ccp w' = w_ccp w" "w_tx w' = w_tx w" by (fact f)+
qed

lemma upsertCharacterStmt_frame:
  "upsertCharacterStmt c d = Inr (u, d') \<Longrightarrow> d' = d\<lparr>t_characters := t_characters d'\<rparr>"
  by (auto simp: upsertCharacterStmt_def split: if_splits)

lemma upsertCharacterStmt_rows:
  "upsertCharacterStmt c d = Inr (u, d') \<Longrightarrow> t_characters d' =
     (if ch_id c \<in> ch_id ` set (t_characters d)
      then updateWhere (\<lambda>x. ch_id x = ch_id c)
            (\<lambda>x. x\<lparr>ch_name := ch_name c, ch_owner_hash := ch_owner_hash c, ch_deleted_at := None\<rparr>)
            (t_characters d)
      else t_characters d @ [c\<lparr>ch_deleted_at := None\<rparr>])"
  by (auto simp: upsertCharacterStmt_def split: if_splits)

lemma Characters_Upsert_ok:
  assumes "Characters_Upsert c w = (Inr u, w')"
  shows "w_db w' = (w_db w)\<lparr>t_characters := t_characters (w_db w')\<rparr>" "w_now w' = w_now w"
    "w_ccp w' = w_ccp w"
    "\<exists>r. characterRow (w_db w') (ch_id c) = Some r \<and> ch_deleted_at r = None \<and>
       ch_owner_hash r = ch_owner_hash c \<and> ch_name r = ch_name c"
proof -
  let ?c = "if isZero (ch_added_at c) then c\<lparr>ch_added_at := w_now w\<rparr> else c"
  have r: "runStmt (upsertCharacterStmt ?c) w = (Inr u, w')"
    using assms by (auto simp: Characters_Upsert_def wrapA_def wrapR_def Let_def split: prod.splits sum.splits)
  note f = runStmt_Inr[OF r]
  have fd: "find (\<lambda>x. ch_id x = i) (updateWhere (\<lambda>x. ch_id x = i) g xs) =
      map_option g (find (\<lambda>x. ch_id x = i) xs)" if "\<And>x. ch_id x = i \<Longrightarrow> ch_id (g x) = i" for i g xs
    using that by (induction xs) auto
  have un: "upsertCharacterStmt ?c (w_db w) = Inr (u, w_db w')" by (fact f(1))
  show "w_db w' = (w_db w)\<lparr>t_characters := t_characters (w_db w')\<rparr>"
    by (rule upsertCharacterStmt_frame[OF un])
  show "w_now w' = w_now w" "w_ccp w' = w_ccp w" by (fact f)+
  show "\<exists>r. characterRow (w_db w') (ch_id c) = Some r \<and> ch_deleted_at r = None \<and>
       ch_owner_hash r = ch_owner_hash c \<and> ch_name r = ch_name c"
  proof (cases "ch_id c \<in> ch_id ` set (t_characters (w_db w))")
    case True
    then obtain x where "find (\<lambda>x. ch_id x = ch_id c) (t_characters (w_db w)) = Some x"
      using find_key_None[of ch_id "ch_id c"] by fastforce
    moreover have "t_characters (w_db w') = updateWhere (\<lambda>x. ch_id x = ch_id c)
            (\<lambda>x. x\<lparr>ch_name := ch_name c, ch_owner_hash := ch_owner_hash c, ch_deleted_at := None\<rparr>)
            (t_characters (w_db w))"
      using upsertCharacterStmt_rows[OF un] True by (simp split: if_splits)
    ultimately show ?thesis by (simp add: characterRow_def fd)
  next
    case False
    then have "t_characters (w_db w') = t_characters (w_db w) @ [?c\<lparr>ch_deleted_at := None\<rparr>]"
      using upsertCharacterStmt_rows[OF un] by (simp split: if_splits)
    moreover have "find (\<lambda>x. ch_id x = ch_id c) (t_characters (w_db w)) = None"
      using False by (simp add: find_key_None)
    ultimately show ?thesis by (simp add: characterRow_def find_append)
  qed
qed

lemma Characters_Delete_ok:
  assumes "Characters_Delete i w = (Inr u, w')"
  shows "w_db w' = (w_db w)\<lparr>t_characters := updateWhere (\<lambda>c. ch_id c = i \<and> ch_deleted_at c = None)
      (\<lambda>c. c\<lparr>ch_deleted_at := Some (w_now w)\<rparr>) (t_characters (w_db w))\<rparr>"
    "\<exists>c \<in> set (t_characters (w_db w)). ch_id c = i \<and> ch_deleted_at c = None"
    "w_now w' = w_now w" "w_ccp w' = w_ccp w" "w_tx w' = w_tx w"
proof -
  obtain n where r: "runStmt (deleteCharacterStmt i (w_now w)) w = (Inr n, w')" and n: "n \<noteq> 0"
    using assms by (auto simp: Characters_Delete_def split: prod.splits sum.splits if_splits)
  note f = runStmt_Inr[OF r]
  show "w_db w' = (w_db w)\<lparr>t_characters := updateWhere (\<lambda>c. ch_id c = i \<and> ch_deleted_at c = None)
      (\<lambda>c. c\<lparr>ch_deleted_at := Some (w_now w)\<rparr>) (t_characters (w_db w))\<rparr>"
    using f(1) by (simp add: deleteCharacterStmt_def Let_def)
  show "\<exists>c \<in> set (t_characters (w_db w)). ch_id c = i \<and> ch_deleted_at c = None"
    using f(1) n by (auto simp: deleteCharacterStmt_def Let_def countWhere_def filter_empty_conv)
  show "w_now w' = w_now w" "w_ccp w' = w_ccp w" "w_tx w' = w_tx w" by (fact f)+
qed

subsection \<open>The invariant\<close>

lemma wf_upsertCharacterStmt:
  "wf_db d \<Longrightarrow> upsertCharacterStmt c d = Inr (x, d') \<Longrightarrow> wf_db d' \<and> seq_le d d'"
  by (auto simp: upsertCharacterStmt_def seq_le_def split: if_splits
      intro!: wf_add_character wf_update_characters)

lemma wf_deleteCharacterStmt:
  "wf_db d \<Longrightarrow> deleteCharacterStmt i now d = Inr (x, d') \<Longrightarrow> wf_db d' \<and> seq_le d d'"
  by (auto simp: deleteCharacterStmt_def Let_def seq_le_def intro!: wf_update_characters)

lemma wf_Characters_Upsert [inv_intros]: "preserves wf_db seq_le (Characters_Upsert c)"
  by (rule preserves_run_at[where f = "\<lambda>t. upsertCharacterStmt (if isZero (ch_added_at c) then c\<lparr>ch_added_at := t\<rparr> else c)"])
     (auto simp: Characters_Upsert_def wrapA_def Let_def wf_upsertCharacterStmt split: prod.split)

lemma wf_Characters_Get [inv_intros]: "preserves wf_db seq_le (Characters_Get i)"
  by (rule wf.preserves_const) simp

lemma wf_Characters_Delete [inv_intros]: "preserves wf_db seq_le (Characters_Delete i)"
  by (rule preserves_run_at[where f = "\<lambda>t. deleteCharacterStmt i t"])
     (auto simp: Characters_Delete_def wf_deleteCharacterStmt split: prod.split sum.split)

lemma wf_Clients_Upsert [inv_intros]: "preserves wf_db seq_le (Clients_Upsert c)"
proof -
  have "upsertClientStmt c d = Inr (x, d') \<Longrightarrow> wf_db d \<Longrightarrow> wf_db d' \<and> seq_le d d'" for c d x d'
    by (auto simp: upsertClientStmt_def seq_le_def split: if_splits intro!: wf_add_client wf_update_clients)
  then show ?thesis
    by (intro preserves_run_at[where f = "\<lambda>t. upsertClientStmt (if isZero (oc_created_at c) then c\<lparr>oc_created_at := t\<rparr> else c)"])
       (auto simp: Clients_Upsert_def wrapA_def Let_def split: prod.split)
qed

lemma wf_Clients_SoftDeleteAbandoned [inv_intros]: "preserves wf_db seq_le Clients_SoftDeleteAbandoned"
  by (rule preserves_run_at[where f = "\<lambda>t d. Inr (countWhere (abandonedClient t d) (t_clients d),
       d\<lparr>t_clients := updateWhere (abandonedClient t d) (\<lambda>c. c\<lparr>oc_deleted_at := Some t\<rparr>) (t_clients d)\<rparr>)"])
     (auto simp: Clients_SoftDeleteAbandoned_def wrapA_def seq_le_def split: prod.split intro!: wf_update_clients)

lemma wf_Clients_DeleteLongSoftDeleted [inv_intros]:
  "preserves wf_db seq_le Clients_DeleteLongSoftDeleted"
  by (rule preserves_run_at[where f = "\<lambda>t d. Inr (countWhere (longDeleted t) (t_clients d),
       d\<lparr>t_clients := removeWhere (longDeleted t) (t_clients d)\<rparr>)"])
     (auto simp: Clients_DeleteLongSoftDeleted_def wrapA_def seq_le_def wf_drop_clients split: prod.split)

end
