(* ===== verification/SessionUse.thy ===== *)
theory SessionUse
  imports SsoApi Guard PeopleRepo SessionRepo
begin

text \<open>
  The grant of a session (internal/usecase/session/grant.go, session.go): redeeming an
  authorization code into a session, logging out, refreshing the EVE access token under the row
  lock, and the checks that stand before every tool. A session object is the character, the
  session id and the guard; its \<open>grantState\<close> lives in \<open>w_grants\<close>, by character.
\<close>

definition refreshMargin :: duration where "refreshMargin = 60 * second"

definition live :: "grantState \<Rightarrow> time \<Rightarrow> string" where
  "live g now =
    (if gs_access g = [] then []
     else if now > gs_expiry g - refreshMargin then []
     else gs_access g)"

definition setGrant :: "CharacterToken \<Rightarrow> grantState \<Rightarrow> grantState" where
  "setGrant tok g = g\<lparr>gs_refresh := tk_RefreshToken tok, gs_access := tk_AccessToken tok,
     gs_expiry := tk_AccessExpiresAt tok\<rparr>"

record Sess =
  so_CharacterID :: int
  so_SessionID :: int
  so_Guard :: Guard

record ParkedGrant =
  pg_Code :: string
  pg_CharacterID :: int
  pg_RefreshToken :: string
  pg_Scopes :: "string list"
  pg_MCPClientID :: string
  pg_ClientName :: string
  pg_IP :: string

type_synonym Exchanged = "Session \<times> Revoked"

subsection \<open>Redeem\<close>

definition redeemSession :: "ParkedGrant \<Rightarrow> Session" where
  "redeemSession p = \<lparr>sn_ID = 0, sn_CharacterID = pg_CharacterID p, sn_RefreshToken = pg_RefreshToken p,
     sn_Scopes = pg_Scopes p, sn_MCPClientID = pg_MCPClientID p, sn_ClientName = pg_ClientName p,
     sn_IP = pg_IP p, sn_CreatedAt = 0, sn_ValidTil = 0, sn_RevokedAt = None\<rparr>"

definition redeemTx :: "ParkedGrant \<Rightarrow> Exchanged action" where
  "redeemTx p =
    andThen (wrapA (sessUse ''Redeem'') (LockCharacter (pg_CharacterID p))) (\<lambda>_.
    andThen (wrapA (sessUse ''Redeem'') (Codes_Take (pg_Code p))) (\<lambda>_.
    andThen (wrapA (sessUse ''Redeem'') (RevokeAllForCharacter (pg_CharacterID p))) (\<lambda>revoked.
    andThen (wrapA (sessUse ''Redeem'') (Create (redeemSession p))) (\<lambda>created w.
      (Inr (created, revoked), w)))))"

definition Redeem :: "ParkedGrant \<Rightarrow> Exchanged action" where
  "Redeem p = wrapA (sessUse ''Redeem'') (WithinTx (redeemTx p))"

subsection \<open>Logout\<close>

definition logoutTx :: "Sess \<Rightarrow> Revoked action" where
  "logoutTx s =
    andThen (wrapA (sessUse ''Logout'') (LockCharacter (so_CharacterID s))) (\<lambda>_.
    andThen (wrapA (sessUse ''Logout'') (Revoke (so_SessionID s))) (\<lambda>revoked.
    andThen (wrapA (sessUse ''Logout'') (Characters_Delete (so_CharacterID s))) (\<lambda>_ w.
      (Inr revoked, w))))"

definition Logout :: "Sess \<Rightarrow> (int \<times> string) action" where
  "Logout s w =
    (case wrapA (sessUse ''Logout'') (Characters_Get (so_CharacterID s)) w of
       (Inl e, w1) \<Rightarrow> (Inl e, w1)
     | (Inr row, w1) \<Rightarrow>
       (case wrapA (sessUse ''Logout'') (WithinTx (logoutTx s)) w1 of
          (Inl e, w2) \<Rightarrow> (Inl e, w2)
        | (Inr revoked, w2) \<Rightarrow> (Inr (ch_id row, ch_name row), revokeAtCCP (rv_Tokens revoked) w2)))"

subsection \<open>The session object\<close>

definition ForCharacter :: "int \<Rightarrow> int \<Rightarrow> world \<Rightarrow> Sess \<times> world" where
  "ForCharacter c sid w =
    (\<lparr>so_CharacterID = c, so_SessionID = sid, so_Guard = NewGuard c sid\<rparr>,
     w\<lparr>w_grants := (w_grants w)(c := noGrant)\<rparr>)"

definition RebuildGrant :: "Sess \<Rightarrow> int \<Rightarrow> world \<Rightarrow> Sess \<times> world" where
  "RebuildGrant s sid w =
    (s\<lparr>so_SessionID := sid, so_Guard := NewGuard (so_CharacterID s) sid\<rparr>,
     w\<lparr>w_grants := (w_grants w)(so_CharacterID s := noGrant)\<rparr>)"

subsection \<open>The EVE access token\<close>

text \<open>The callback that runs under the row lock: a grant another pod rotated is taken over.\<close>

definition refreshUnderLock :: "SSO \<Rightarrow> int \<Rightarrow> string \<Rightarrow> string \<Rightarrow> string action" where
  "refreshUnderLock sso c expected row w =
    (let g = w_grants w c;
         moved = expected \<noteq> [] \<and> row \<noteq> expected;
         g1 = (if moved then g\<lparr>gs_refresh := row\<rparr> else g);
         w1 = w\<lparr>w_grants := (w_grants w)(c := g1)\<rparr> in
     if moved \<and> live g1 (w_now w) \<noteq> [] then (Inr row, w1)
     else (case AccessToken sso row (w_now w) of
        Inl e \<Rightarrow> (Inl (Wrap (sessUse ''eveAccess'') e), w1)
      | Inr tok \<Rightarrow> (Inr (tk_RefreshToken tok), w1\<lparr>w_grants := (w_grants w1)(c := setGrant tok g1)\<rparr>)))"

text \<open>
  The token the closure left in \<open>access\<close> is the grant's: either \<open>live\<close> gave it or \<open>set\<close> stored it.
\<close>

definition eveAccess :: "SSO \<Rightarrow> Sess \<Rightarrow> string action" where
  "eveAccess sso s w =
    (let c = so_CharacterID s; g = w_grants w c in
     if live g (w_now w) \<noteq> [] then (Inr (live g (w_now w)), w)
     else
       let (expected, w1) =
         (if gs_refresh g \<noteq> [] then (gs_refresh g, w)
          else (case LiveByID (so_SessionID s) w of
            (Inl _, w1) \<Rightarrow> ([], w1) | (Inr row, w1) \<Rightarrow> (sn_RefreshToken row, w1))) in
       (case LockForRefresh (so_SessionID s) (refreshUnderLock sso c expected) w1 of
          (Inl e, w2) \<Rightarrow>
            (if errors_is e ErrInvalidGrant
             then (case Revoke (so_SessionID s) w2 of (_, w3) \<Rightarrow> (Inl (Wrap (sessUse ''eveAccess'') e), w3))
             else (Inl (Wrap (sessUse ''eveAccess'') e), w2))
        | (Inr _, w2) \<Rightarrow> (Inr (gs_access (w_grants w2 c)), w2)))"

subsection \<open>Checks before a tool\<close>

definition revokeIfScopesFallShort :: "Sess \<Rightarrow> string list \<Rightarrow> unit action" where
  "revokeIfScopesFallShort s granted w =
    (if MissingScopes granted = [] then (Inr (), w)
     else (case Revoke (so_SessionID s) w of
       (_, w1) \<Rightarrow> (Inl (Wrap (sessUse ''revokeIfScopesFallShort'') (Sentinel ErrMissingScope)), w1)))"

definition Character :: "Sess \<Rightarrow> CharacterToken action" where
  "Character s w =
    (if so_CharacterID s = 0 \<or> so_SessionID s = 0
     then (Inl (Wrap (sessUse ''Character'') (Sentinel ErrNoSession)), w)
     else (case LiveByID (so_SessionID s) w of
        (Inl _, w1) \<Rightarrow> (Inl (Wrap (sessUse ''Character'') (Sentinel ErrDeadSession)), w1)
      | (Inr row, w1) \<Rightarrow>
        if sn_CharacterID row \<noteq> so_CharacterID s
        then (Inl (Wrap (sessUse ''Character'') (Sentinel ErrDeadSession)), w1)
        else (case Characters_Get (so_CharacterID s) w1 of
           (Inl _, w2) \<Rightarrow> (Inl (Wrap (sessUse ''Character'') (Sentinel ErrDeadSession)), w2)
         | (Inr ident, w2) \<Rightarrow>
           if \<not> Live ident then (Inl (Wrap (sessUse ''Character'') (Sentinel ErrDeadSession)), w2)
           else (case wrapA (sessUse ''Character'') (revokeIfScopesFallShort s (sn_Scopes row)) w2 of
              (Inl e, w3) \<Rightarrow> (Inl e, w3)
            | (Inr _, w3) \<Rightarrow>
               (Inr \<lparr>tk_CharacterID = ch_id ident, tk_CharacterName = ch_name ident,
                  tk_RefreshToken = sn_RefreshToken row, tk_Scopes = sn_Scopes row,
                  tk_OwnerHash = ch_owner_hash ident, tk_AddedAt = unixOf (ch_added_at ident),
                  tk_AccessToken = [], tk_AccessExpiresAt = 0\<rparr>, w3)))))"

definition LiveSession :: "Sess \<Rightarrow> Session action" where
  "LiveSession s w =
    (if so_SessionID s = 0 then (Inl (Wrap (sessUse ''Live'') (Sentinel ErrNoSession)), w)
     else wrapA (sessUse ''Live'') (LiveByID (so_SessionID s)) w)"

definition HasGranted :: "string list \<Rightarrow> string \<Rightarrow> bool" where
  "HasGranted scopes scope = List.member scopes scope"

definition RequireGranted :: "string \<Rightarrow> string list \<Rightarrow> string \<Rightarrow> string \<Rightarrow> goerr + unit" where
  "RequireGranted name scopes scope what =
    (if HasGranted scopes scope then Inr ()
     else Inl (Wrap (sessUse ''RequireScope'')
       (Wrap (name @ '' '' @ scope @ '' '' @ what) (Sentinel ErrMissingScope))))"

subsection \<open>The invariant of the tables\<close>

lemma wf_Redeem [inv_intros]: "preserves wf_db seq_le (Redeem p)"
  unfolding Redeem_def redeemTx_def
  by (intro wf.preserves_wrapA wf.preserves_WithinTx wf.preserves_andThen wf_LockCharacter wf_Codes_Take
      wf_RevokeAll wf_Create wf.preserves_const) simp

lemma wf_Logout [inv_intros]: "preserves wf_db seq_le (Logout s)"
proof -
  have tx: "preserves wf_db seq_le (wrapA (sessUse ''Logout'') (WithinTx (logoutTx s)))"
    unfolding logoutTx_def
    by (intro wf.preserves_wrapA wf.preserves_WithinTx wf.preserves_andThen wf_LockCharacter wf_Revoke
        wf_Characters_Delete wf.preserves_const) simp
  show ?thesis
    unfolding preserves_def
  proof (intro allI impI)
    fix w :: world assume i: "wf_db (w_db w)"
    obtain x w1 where x: "Characters_Get (so_CharacterID s) w = (x, w1)" by force
    have d: "w_db w1 = w_db w" using x Characters_Get_db[of "so_CharacterID s" w] by simp
    show "wf_db (w_db (snd (Logout s w))) \<and> seq_le (w_db w) (w_db (snd (Logout s w)))"
    proof (cases x)
      case (Inl e) then show ?thesis using x d i wf.R_refl by (simp add: Logout_def)
    next
      case (Inr row)
      obtain y w2 where y: "wrapA (sessUse ''Logout'') (WithinTx (logoutTx s)) w1 = (y, w2)" by force
      have "wf_db (w_db w2) \<and> seq_le (w_db w1) (w_db w2)" using wf.preservesD[OF tx _ y] i d by simp
      then show ?thesis using x Inr y d by (cases y) (simp_all add: Logout_def)
    qed
  qed
qed

lemma refreshUnderLock_db [simp]: "w_db (snd (refreshUnderLock sso c ex row w)) = w_db w"
  by (simp add: refreshUnderLock_def Let_def split: sum.split)

context session_invariant begin

lemma Revoke_ok: "preserves I R (Revoke i)"
  by (simp add: Revoke_def revoke_ok)

lemma preserves_eveAccess: "preserves I R (eveAccess sso s)"
proof -
  let ?L = "\<lambda>ex. LockForRefresh (so_SessionID s) (refreshUnderLock sso (so_CharacterID s) ex)"
  have l: "preserves I R (?L ex)" for ex
    by (rule preserves_LockForRefresh) simp
  have body: "I (w_db (snd (n w))) \<and> R (w_db w) (w_db (snd (n w)))"
    if i: "I (w_db w)" and n: "n = (\<lambda>w. case ?L ex w of
          (Inl e, w2) \<Rightarrow>
            (if errors_is e ErrInvalidGrant
             then (case Revoke (so_SessionID s) w2 of (_, w3) \<Rightarrow> (Inl (Wrap (sessUse ''eveAccess'') e), w3))
             else (Inl (Wrap (sessUse ''eveAccess'') e), w2))
        | (Inr _, w2) \<Rightarrow> (Inr (gs_access (w_grants w2 (so_CharacterID s))), w2))" for n ex w
  proof -
    obtain x w2 where x: "?L ex w = (x, w2)" by force
    have a: "I (w_db w2) \<and> R (w_db w) (w_db w2)" by (rule preservesD[OF l i x])
    obtain y w3 where y: "Revoke (so_SessionID s) w2 = (y, w3)" by force
    have b: "I (w_db w3) \<and> R (w_db w2) (w_db w3)" by (rule preservesD[OF Revoke_ok _ y]) (use a in simp)
    show ?thesis using a b x y R_trans by (cases x) (auto simp: n)
  qed
  show ?thesis
    unfolding preserves_def
  proof (intro allI impI)
    fix w :: world assume i: "I (w_db w)"
    obtain lx w1 where lx: "LiveByID (so_SessionID s) w = (lx, w1)" by force
    have d: "w_db w1 = w_db w" using lx LiveByID_db[of "so_SessionID s" w] by simp
    show "I (w_db (snd (eveAccess sso s w))) \<and> R (w_db w) (w_db (snd (eveAccess sso s w)))"
    proof (cases "live (w_grants w (so_CharacterID s)) (w_now w) \<noteq> []")
      case True then show ?thesis using i R_refl by (simp add: eveAccess_def)
    next
      case False
      show ?thesis
      proof (cases "gs_refresh (w_grants w (so_CharacterID s)) \<noteq> []")
        case True
        then show ?thesis using body[OF i refl, of "gs_refresh (w_grants w (so_CharacterID s))"] False
          by (simp add: eveAccess_def Let_def)
      next
        case nr: False
        show ?thesis
          using body[of w1 _ "case lx of Inl _ \<Rightarrow> [] | Inr row \<Rightarrow> sn_RefreshToken row", OF _ refl] i d False nr lx
          by (cases lx) (simp_all add: eveAccess_def Let_def)
      qed
    qed
  qed
qed

end

lemma wf_eveAccess [inv_intros]: "preserves wf_db seq_le (eveAccess sso s)"
  by (rule wfs.preserves_eveAccess)

subsection \<open>What the repositories leave alone\<close>

lemma keeps_Create: "world_field f \<Longrightarrow> keeps f (Create s)"
  by (rule world_field.keeps_stmt[where g = "\<lambda>w. createStmt s (w_now w)"])
     (auto simp: Create_def split: prod.split sum.split)

lemma keeps_revokeWith: "world_field f \<Longrightarrow> keeps f (revokeWith op doomed)"
  by (rule world_field.keeps_stmt[where g = "\<lambda>w. revokeStmt (doomed (w_now w)) (w_now w)"])
     (auto simp: revokeWith_def split: prod.split sum.split)

lemma keeps_LiveByID: "world_field f \<Longrightarrow> keeps f (LiveByID i)"
  by (rule world_field.keeps_stmt[where g = "\<lambda>w. liveStmt i (w_now w)"])
     (auto simp: LiveByID_def split: prod.split sum.split option.split)

lemma keeps_Codes_Take: "world_field f \<Longrightarrow> keeps f (Codes_Take v)"
  by (rule world_field.keeps_stmt[where g = "\<lambda>w. takeStmt (\<lambda>c. ac_code c = v) t_codes (\<lambda>xs d. d\<lparr>t_codes := xs\<rparr>)"])
     (auto simp: Codes_Take_def split: prod.split sum.split option.split)

lemma keeps_Characters_Delete: "world_field f \<Longrightarrow> keeps f (Characters_Delete i)"
  by (rule world_field.keeps_stmt[where g = "\<lambda>w. deleteCharacterStmt i (w_now w)"])
     (auto simp: Characters_Delete_def split: prod.split sum.split)

lemma keeps_Characters_Get: "world_field f \<Longrightarrow> keeps f (Characters_Get i)"
  by (rule world_field.keeps_stmt[where g = "\<lambda>w d. Inr (characterRow d i, d)"])
     (auto simp: Characters_Get_def split: prod.split sum.split option.split)

lemma keeps_LockCharacter: "world_field f \<Longrightarrow> keeps f (LockCharacter c)"
  using world_field.keeps_runStmt[of f "\<lambda>d. Inr ((), d)"]
  by (auto simp: LockCharacter_def keeps_def)

lemma keeps_pure: "(\<And>w. snd (m w) = w) \<Longrightarrow> keeps f m"
  by (simp add: keeps_def)

lemmas keeps_repos = keeps_Create keeps_revokeWith keeps_LiveByID keeps_Codes_Take
  keeps_Characters_Delete keeps_Characters_Get keeps_LockCharacter

lemma keeps_redeemTx: "world_field f \<Longrightarrow> keeps f (redeemTx p)"
  unfolding redeemTx_def RevokeAllForCharacter_def
  by (intro world_field.keeps_andThen world_field.keeps_wrapA keeps_repos keeps_pure) simp_all

lemma keeps_logoutTx: "world_field f \<Longrightarrow> keeps f (logoutTx s)"
  unfolding logoutTx_def Revoke_def
  by (intro world_field.keeps_andThen world_field.keeps_wrapA keeps_repos keeps_pure) simp_all

subsection \<open>Redeem\<close>

definition otherTables :: "db \<Rightarrow> db" where
  \<comment> \<open>all tables but sessions and codes\<close>
  "otherTables d = (tables d)\<lparr>t_sessions := [], t_codes := []\<rparr>"

lemma redeemTx_ok:
  assumes "redeemTx p w = (Inr (s, rv), w')"
  defines "c \<equiv> pg_CharacterID p"
  defines "gone \<equiv> filter (\<lambda>x. se_character_id x = c \<and> unrevoked x) (t_sessions (w_db w))"
  shows "\<exists>row d. codeRow (w_db w) (pg_Code p) = Some row \<and> w_now w \<le> ac_expires_at row \<and>
    rv = collectRevoked (map (\<lambda>x. (se_id x, se_refresh_token x)) gone) \<and>
    s = scanSession (createRow (redeemSession p) (w_now w) d) \<and> seq_sessions d = seq_sessions (w_db w) \<and>
    t_sessions (w_db w') = updateWhere (\<lambda>x. se_id x \<in> set (map se_id gone))
         (\<lambda>x. x\<lparr>se_revoked_at := Some (w_now w), se_refresh_token := None\<rparr>) (t_sessions (w_db w))
       @ [createRow (redeemSession p) (w_now w) d] \<and>
    codeRow (w_db w') (pg_Code p) = None \<and> otherTables (w_db w') = otherTables (w_db w) \<and> w_now w' = w_now w"
proof -
  obtain u w1 where l: "LockCharacter c w = (Inr u, w1)"
    and m1: "andThen (wrapA (sessUse ''Redeem'') (Codes_Take (pg_Code p))) (\<lambda>_.
      andThen (wrapA (sessUse ''Redeem'') (RevokeAllForCharacter c)) (\<lambda>revoked.
      andThen (wrapA (sessUse ''Redeem'') (Create (redeemSession p))) (\<lambda>created w.
        (Inr (created, revoked), w)))) w1 = (Inr (s, rv), w')"
    using assms(1) unfolding redeemTx_def c_def by (elim andThen_InrE) auto
  obtain row w2 where t: "Codes_Take (pg_Code p) w1 = (Inr row, w2)"
    and m2: "andThen (wrapA (sessUse ''Redeem'') (RevokeAllForCharacter c)) (\<lambda>revoked.
      andThen (wrapA (sessUse ''Redeem'') (Create (redeemSession p))) (\<lambda>created w.
        (Inr (created, revoked), w))) w2 = (Inr (s, rv), w')"
    using m1 by (elim andThen_InrE) auto
  obtain w3 where r: "revokeWith ''RevokeAllForCharacter'' (\<lambda>now. doomedOfCharacter c) w2 = (Inr rv, w3)"
    and m3: "Create (redeemSession p) w3 = (Inr s, w')"
    using m2 unfolding RevokeAllForCharacter_def by (elim andThen_InrE) auto
  note L = LockCharacter_ok[OF l] and T = Codes_Take_ok[OF t] and R = revokeWith_ok[OF r] and C = Create_ok[OF m3]
  have d2: "t_sessions (w_db w2) = t_sessions (w_db w)" using L T by simp
  have g: "doomedOfCharacter c (t_sessions (w_db w2)) = gone" by (simp add: doomedOfCharacter_def gone_def d2)
  have g': "doomedOfCharacter c (t_sessions (w_db w)) = gone" by (simp add: doomedOfCharacter_def gone_def)
  have n: "w_now w2 = w_now w" "w_now w3 = w_now w" using L T R by simp_all
  show ?thesis
  proof (intro exI conjI)
    show "codeRow (w_db w) (pg_Code p) = Some row" using T(1) L(1) by simp
    show "w_now w \<le> ac_expires_at row" using T(2) L by simp
    show "rv = collectRevoked (map (\<lambda>x. (se_id x, se_refresh_token x)) gone)" using R(1) n by (simp add: g)
    show "s = scanSession (createRow (redeemSession p) (w_now w) (w_db w3))" using C(1) n by simp
    show "seq_sessions (w_db w3) = seq_sessions (w_db w)" using R(2) T(3) L(1) by simp
    show "t_sessions (w_db w') = updateWhere (\<lambda>x. se_id x \<in> set (map se_id gone))
         (\<lambda>x. x\<lparr>se_revoked_at := Some (w_now w), se_refresh_token := None\<rparr>) (t_sessions (w_db w))
       @ [createRow (redeemSession p) (w_now w) (w_db w3)]"
      using C(2) R(2) n by (simp add: g' d2)
    show "codeRow (w_db w') (pg_Code p) = None" using C(2) R(2) T(7) by (simp add: codeRow_def)
    show "otherTables (w_db w') = otherTables (w_db w)"
      using C(2) R(2) T(3) L(1) by (simp add: otherTables_def tables_def)
    show "w_now w' = w_now w" using C(5) n by simp
  qed
qed

lemma Redeem_cases:
  assumes "Redeem p w = (res, w')" "\<not> w_tx w"
  shows "w_ccp w' = w_ccp w" "\<And>e. res = Inl e \<Longrightarrow> tables (w_db w') = tables (w_db w)"
    "\<And>x. res = Inr x \<Longrightarrow> \<exists>v v'. redeemTx p v = (Inr x, v') \<and> w_db v = w_db w \<and> w_now v = w_now w \<and> w_db v' = w_db w'"
proof -
  have "keeps w_ccp (Redeem p)"
    unfolding Redeem_def
    by (intro fld_ccp.keeps_rules keeps_redeemTx fld_ccp.world_field_axioms)
  then show "w_ccp w' = w_ccp w" using assms(1) keepsD[of w_ccp "Redeem p" w] by simp
  obtain y v where y: "WithinTx (redeemTx p) w = (y, v)" by force
  then have yw: "res = wrapR (sessUse ''Redeem'') y" "w' = v" using assms(1) by (simp_all add: Redeem_def)
  show "tables (w_db w') = tables (w_db w)" if "res = Inl e" for e
  proof (cases y)
    case (Inl e') then show ?thesis using WithinTx_Inl[of "redeemTx p" w e' v] y yw assms(2) by simp
  next
    case (Inr x) then show ?thesis using yw that by simp
  qed
  show "\<exists>v v'. redeemTx p v = (Inr x, v') \<and> w_db v = w_db w \<and> w_now v = w_now w \<and> w_db v' = w_db w'"
    if "res = Inr x" for x
  proof -
    have "wrapR (sessUse ''Redeem'') y = Inr x" using yw that by simp
    then have "WithinTx (redeemTx p) w = (Inr x, v)" using y by (simp only: wrapR_eq_Inr)
    from WithinTx_Inr[OF this assms(2)] obtain w0 w1 where
      "popFault w = (False, w0)" "redeemTx p (w0\<lparr>w_tx := True\<rparr>) = (Inr x, w1)" "w_db v = w_db w1"
      by metis
    then show ?thesis using popFault_keeps(1,2)[of w] yw(2)
      by (intro exI[of _ "w0\<lparr>w_tx := True\<rparr>"] exI[of _ w1]) simp
  qed
qed

lemma redeem_effect:
  assumes "Redeem p w = (res, w')" "\<not> w_tx w"
  shows "w_ccp w' = w_ccp w \<and> (case res of
     Inl e \<Rightarrow> tables (w_db w') = tables (w_db w)
   | Inr (s, rv) \<Rightarrow>
       codeRow (w_db w) (pg_Code p) \<noteq> None \<and> codeRow (w_db w') (pg_Code p) = None \<and>
       sn_CharacterID s = pg_CharacterID p \<and> sn_RefreshToken s = pg_RefreshToken p \<and>
       sn_Scopes s = pg_Scopes p \<and> sn_ValidTil s = w_now w + 30 * day \<and>
       (\<forall>x \<in> set (t_sessions (w_db w')). se_character_id x = pg_CharacterID p \<and> unrevoked x \<longrightarrow> scanSession x = s) \<and>
       (\<exists>x \<in> set (t_sessions (w_db w')). unrevoked x \<and> scanSession x = s) \<and>
       set (rv_Tokens rv) = {t. t \<noteq> [] \<and> (\<exists>x \<in> set (t_sessions (w_db w)). se_character_id x = pg_CharacterID p \<and>
          unrevoked x \<and> se_refresh_token x = Some t)})"
proof (cases res)
  case (Inl e) then show ?thesis using Redeem_cases[OF assms] by simp
next
  case (Inr x)
  obtain s rv where x: "x = (s, rv)" by (cases x)
  obtain v v' where v: "redeemTx p v = (Inr (s, rv), v')" "w_db v = w_db w" "w_now v = w_now w" "w_db v' = w_db w'"
    using Redeem_cases(3)[OF assms] Inr x by blast
  define gone where "gone = filter (\<lambda>x. se_character_id x = pg_CharacterID p \<and> unrevoked x) (t_sessions (w_db w))"
  obtain row d where o: "codeRow (w_db w) (pg_Code p) = Some row"
    "rv = collectRevoked (map (\<lambda>x. (se_id x, se_refresh_token x)) gone)"
    "s = scanSession (createRow (redeemSession p) (w_now w) d)"
    "t_sessions (w_db w') = updateWhere (\<lambda>x. se_id x \<in> set (map se_id gone))
         (\<lambda>x. x\<lparr>se_revoked_at := Some (w_now w), se_refresh_token := None\<rparr>) (t_sessions (w_db w))
       @ [createRow (redeemSession p) (w_now w) d]"
    "codeRow (w_db w') (pg_Code p) = None"
    using redeemTx_ok[OF v(1)] v(2-4) unfolding gone_def by auto
  have f: "sn_CharacterID s = pg_CharacterID p" "sn_RefreshToken s = pg_RefreshToken p"
    "sn_Scopes s = pg_Scopes p" "sn_ValidTil s = w_now w + 30 * day"
    by (simp_all add: o(3) scanSession_def createRow_def redeemSession_def)
  have a: "\<forall>x \<in> set (t_sessions (w_db w')). se_character_id x = pg_CharacterID p \<and> unrevoked x \<longrightarrow> scanSession x = s"
    unfolding o(4) by (auto simp: o(3) gone_def unrevoked_def split: if_splits)
  have b: "\<exists>x \<in> set (t_sessions (w_db w')). unrevoked x \<and> scanSession x = s"
    unfolding o(4) by (auto simp: o(3) unrevoked_def createRow_def)
  have c: "set (rv_Tokens rv) = {t. t \<noteq> [] \<and> (\<exists>x \<in> set (t_sessions (w_db w)). se_character_id x = pg_CharacterID p \<and>
          unrevoked x \<and> se_refresh_token x = Some t)}"
    unfolding o(2) collectRevoked_tokens by (force simp: gone_def image_iff)
  show ?thesis using Redeem_cases(1)[OF assms] Inr x o(1,5) f a b c by simp
qed

end
