(* ===== verification/Tokens.thy ===== *)
theory Tokens
  imports SessionUse Sha256
begin

text \<open>
  The server's own tokens (internal/usecase/oauth/token.go) and the proof key of a sign-in
  (\<open>pkceOK\<close>, oauth.go). The JWT library is the argument \<open>J\<close>: how it signs claims and how it
  parses, verifies and validates a token against a key function, options and the clock.
  \<open>reads_back\<close> is what its documentation says of a token it signed itself.
\<close>

subsection \<open>Numbers as text\<close>

definition isDigitChar :: "char \<Rightarrow> bool" where
  "isDigitChar c = (48 \<le> (of_char c :: nat) \<and> (of_char c :: nat) \<le> 57)"

definition digitsVal :: "string \<Rightarrow> nat" where
  "digitsVal s = foldl (\<lambda>a c. a * 10 + (of_char c - 48)) 0 s"

definition parseInt64 :: "string \<Rightarrow> int option" where
  \<comment> \<open>\<open>strconv.ParseInt(s, 10, 64)\<close> and \<open>strconv.Atoi\<close>; \<open>None\<close> is an error\<close>
  "parseInt64 s =
    (let neg = (case s of c # _ \<Rightarrow> c = CHR ''-'' | [] \<Rightarrow> False);
         body = (case s of c # cs \<Rightarrow> if c = CHR ''-'' \<or> c = CHR ''+'' then cs else s | [] \<Rightarrow> []);
         n = (if neg then - int (digitsVal body) else int (digitsVal body)) in
     if body \<noteq> [] \<and> list_all isDigitChar body \<and> - (2 ^ 63) \<le> n \<and> n < 2 ^ 63 then Some n else None)"

lemma digitChar_facts:
  assumes "n < 10"
  shows "isDigitChar (digitChar n) \<and> of_char (digitChar n) - 48 = n \<and> digitChar n \<noteq> CHR ''-'' \<and> digitChar n \<noteq> CHR ''+''"
proof -
  have "n \<in> {0, 1, 2, 3, 4, 5, 6, 7, 8, 9}" using assms by auto
  then show ?thesis by (auto simp: digitChar_def isDigitChar_def)
qed

lemma showNat_facts:
  "showNat n \<noteq> [] \<and> list_all isDigitChar (showNat n) \<and> digitsVal (showNat n) = n \<and>
   hd (showNat n) \<noteq> CHR ''-'' \<and> hd (showNat n) \<noteq> CHR ''+''"
proof (induction n rule: showNat.induct)
  case (1 n)
  show ?case
  proof (cases "n < 10")
    case True
    then show ?thesis using digitChar_facts[of n] by (simp add: showNat.simps[of n] digitsVal_def)
  next
    case False
    then show ?thesis
      using 1 digitChar_facts[of "n mod 10"] by (simp add: showNat.simps[of n] digitsVal_def)
  qed
qed

lemma itoa_sign: "hd (itoa a) = CHR ''-'' \<longleftrightarrow> a < 0"
  using showNat_facts[of "nat a"] by (simp add: itoa_def)

lemma digits_itoa: "digitsVal (if a < 0 then tl (itoa a) else itoa a) = nat \<bar>a\<bar>"
  using showNat_facts[of "nat a"] showNat_facts[of "nat (- a)"] by (simp add: itoa_def)

lemma itoa_inj: assumes "itoa a = itoa b" shows "a = b"
proof -
  have s: "a < 0 \<longleftrightarrow> b < 0" using itoa_sign[of a] itoa_sign[of b] assms by simp
  have "nat \<bar>a\<bar> = digitsVal (if b < 0 then tl (itoa b) else itoa b)"
    using digits_itoa[of a] unfolding assms s by (rule sym)
  also have "\<dots> = nat \<bar>b\<bar>" by (rule digits_itoa)
  finally have "nat \<bar>a\<bar> = nat \<bar>b\<bar>" .
  then show ?thesis using s by linarith
qed

lemma parseInt64_itoa:
  assumes "- (2 ^ 63) \<le> n" "n < 2 ^ 63"
  shows "parseInt64 (itoa n) = Some n"
proof (cases "n < 0")
  case True
  then show ?thesis
    using showNat_facts[of "nat (- n)"] assms by (simp add: parseInt64_def itoa_def Let_def)
next
  case False
  obtain c cs where s: "showNat (nat n) = c # cs" "c \<noteq> CHR ''-''" "c \<noteq> CHR ''+''"
    using showNat_facts[of "nat n"] by (cases "showNat (nat n)") auto
  then show ?thesis
    using showNat_facts[of "nat n"] assms False by (simp add: parseInt64_def itoa_def Let_def)
qed

subsection \<open>The JWT library\<close>

record jwtopts =
  jo_Audience :: "string option"
  jo_Issuer :: string
  jo_Leeway :: duration

record jwttoken =
  jt_Valid :: bool
  jt_Claims :: object

record jwtlib =
  SignedString :: "object \<Rightarrow> string \<Rightarrow> goerr + string"
  jwt_Parse :: "string \<Rightarrow> (string \<Rightarrow> goerr + string) \<Rightarrow> jwtopts \<Rightarrow> time \<Rightarrow> goerr + jwttoken"

definition ofUnix :: "int \<Rightarrow> time" where
  "ofUnix s = (s + 62135596800) * second"

definition claims_valid :: "jwtopts \<Rightarrow> time \<Rightarrow> object \<Rightarrow> bool" where
  "claims_valid opts now cs =
    ((case lookupAny cs ''exp'' of VInt e \<Rightarrow> now < ofUnix e + jo_Leeway opts | _ \<Rightarrow> True) \<and>
     (case jo_Audience opts of None \<Rightarrow> True | Some a \<Rightarrow> lookupAny cs ''aud'' = VStr a) \<and>
     lookupAny cs ''iss'' = VStr (jo_Issuer opts))"

text \<open>Numbers come back from JSON as \<open>float64\<close>.\<close>

definition jsonNumbers :: "object \<Rightarrow> object" where
  "jsonNumbers = map (\<lambda>(k, v). (k, case v of VInt n \<Rightarrow> VFloat (of_int n) | _ \<Rightarrow> v))"

definition reads_back :: "jwtlib \<Rightarrow> string \<Rightarrow> object \<Rightarrow> bool" where
  "reads_back J key cs = (\<forall>raw kf opts now. SignedString J cs key = Inr raw \<and> kf ''HS256'' = Inr key \<longrightarrow>
     (if claims_valid opts now cs
      then jwt_Parse J raw kf opts now = Inr \<lparr>jt_Valid = True, jt_Claims = jsonNumbers cs\<rparr>
      else isl (jwt_Parse J raw kf opts now)))"

subsection \<open>Issuing and checking\<close>

definition accessTTL :: duration where "accessTTL = hour"
definition codeTTL :: duration where "codeTTL = 2 * minute"
definition jwtLeeway :: duration where "jwtLeeway = 30 * second"
definition scopeEve :: string where "scopeEve = ''eve''"
definition typRefresh :: string where "typRefresh = ''refresh''"

text \<open>The server: the URLs it computed at start, its key and options, and a session per character.\<close>

record Server =
  sv_Base :: string
  sv_Resource :: string
  sv_HMACKey :: string
  sv_ExtraRedirects :: "string list"
  sv_TrustIP :: bool
  sv_Sessions :: "string \<rightharpoonup> Sess"

record issued =
  is_CharacterID :: int
  is_SessionID :: int

record TokenInfo =
  ti_Scopes :: "string list"
  ti_Expiration :: time
  ti_UserID :: string
  ti_Extra :: any  \<comment> \<open>the entry \<open>sid\<close>, \<open>VNil\<close> when absent\<close>

definition accessClaims :: "Server \<Rightarrow> int \<Rightarrow> int \<Rightarrow> time \<Rightarrow> object" where
  "accessClaims s c sid now =
    [(''sub'', VStr (itoa c)), (''sid'', VInt sid), (''aud'', VStr (sv_Resource s)),
     (''iss'', VStr (sv_Base s)), (''iat'', VInt (unixOf now)),
     (''exp'', VInt (unixOf (now + accessTTL))), (''scope'', VStr scopeEve)]"

definition refreshClaims :: "Server \<Rightarrow> int \<Rightarrow> int \<Rightarrow> time \<Rightarrow> time \<Rightarrow> object" where
  "refreshClaims s c sid validTil now =
    [(''sub'', VStr (itoa c)), (''sid'', VInt sid), (''typ'', VStr typRefresh),
     (''iss'', VStr (sv_Base s)), (''iat'', VInt (unixOf now)), (''exp'', VInt (unixOf validTil))]"

definition oauthOp :: "string \<Rightarrow> string" where "oauthOp op = ''oauth: '' @ op"

definition issueAccess :: "jwtlib \<Rightarrow> Server \<Rightarrow> int \<Rightarrow> int \<Rightarrow> time \<Rightarrow> goerr + string" where
  "issueAccess J s c sid now =
    wrapR (oauthOp ''issueAccess'') (SignedString J (accessClaims s c sid now) (sv_HMACKey s))"

definition issueRefresh :: "jwtlib \<Rightarrow> Server \<Rightarrow> int \<Rightarrow> int \<Rightarrow> time \<Rightarrow> time \<Rightarrow> goerr + string" where
  "issueRefresh J s c sid validTil now =
    wrapR (oauthOp ''issueRefresh'') (SignedString J (refreshClaims s c sid validTil now) (sv_HMACKey s))"

definition keyFunc :: "Server \<Rightarrow> string \<Rightarrow> goerr + string" where
  "keyFunc s alg = (if alg \<noteq> ''HS256'' then Inl (Sentinel errBadAlg) else Inr (sv_HMACKey s))"

text \<open>
  \<open>int64(f)\<close> drops the fraction; out of range the result depends on the machine, and this is the
  one of amd64.
\<close>

definition int64OfFloat :: "rat \<Rightarrow> int" where
  "int64OfFloat f = (let n = truncInt f in if - (2 ^ 63) \<le> n \<and> n < 2 ^ 63 then n else - (2 ^ 63))"

definition claimInt64 :: "any \<Rightarrow> int option" where
  "claimInt64 v = (case v of VFloat f \<Rightarrow> Some (int64OfFloat f) | VInt n \<Rightarrow> Some n
     | VStr t \<Rightarrow> parseInt64 t | _ \<Rightarrow> None)"

definition claimsToIssued :: "object \<Rightarrow> goerr + issued" where
  "claimsToIssued cs = (case lookupAny cs ''sub'' of
     VStr sub \<Rightarrow>
       (if sub = [] then Inl (Sentinel errNoSub)
        else (case parseInt64 sub of None \<Rightarrow> Inl (Sentinel errBadCharacter)
          | Some c \<Rightarrow>
            if c = 0 then Inl (Sentinel errBadCharacter)
            else (case claimInt64 (lookupAny cs ''sid'') of None \<Rightarrow> Inl (Sentinel errNoSID)
              | Some sid \<Rightarrow>
                if sid = 0 then Inl (Sentinel errNoSID)
                else Inr \<lparr>is_CharacterID = c, is_SessionID = sid\<rparr>)))
   | _ \<Rightarrow> Inl (Sentinel errNoSub))"

definition parseRefresh :: "jwtlib \<Rightarrow> Server \<Rightarrow> string \<Rightarrow> time \<Rightarrow> goerr + issued" where
  "parseRefresh J s raw now =
    (case jwt_Parse J raw (keyFunc s) \<lparr>jo_Audience = None, jo_Issuer = sv_Base s, jo_Leeway = jwtLeeway\<rparr> now of
       Inl _ \<Rightarrow> Inl (Sentinel errInvalidToken)
     | Inr tok \<Rightarrow>
       if \<not> jt_Valid tok then Inl (Sentinel errInvalidToken)
       else if lookupAny (jt_Claims tok) ''typ'' \<noteq> VStr typRefresh then Inl (Sentinel errNotRefresh)
       else claimsToIssued (jt_Claims tok))"

definition mcpErrInvalidToken :: goerr where "mcpErrInvalidToken = External ''invalid token''"

definition verifyAccess :: "jwtlib \<Rightarrow> Server \<Rightarrow> string \<Rightarrow> time \<Rightarrow> goerr + (TokenInfo \<times> issued)" where
  "verifyAccess J s token now =
    (case jwt_Parse J token (keyFunc s)
        \<lparr>jo_Audience = Some (sv_Resource s), jo_Issuer = sv_Base s, jo_Leeway = jwtLeeway\<rparr> now of
       Inl _ \<Rightarrow> Inl mcpErrInvalidToken
     | Inr tok \<Rightarrow>
       if \<not> jt_Valid tok then Inl mcpErrInvalidToken
       else if lookupAny (jt_Claims tok) ''typ'' = VStr typRefresh then Inl mcpErrInvalidToken
       else (case claimsToIssued (jt_Claims tok) of Inl _ \<Rightarrow> Inl mcpErrInvalidToken
         | Inr ref \<Rightarrow> (case lookupAny (jt_Claims tok) ''exp'' of
             VFloat e \<Rightarrow> Inr (\<lparr>ti_Scopes = [scopeEve], ti_Expiration = ofUnix (int64OfFloat e),
                ti_UserID = itoa (is_CharacterID ref), ti_Extra = VInt (is_SessionID ref)\<rparr>, ref)
           | _ \<Rightarrow> Inl mcpErrInvalidToken)))"

subsection \<open>Proof key\<close>

definition urlEncode :: "string \<Rightarrow> string" where
  \<comment> \<open>\<open>base64.URLEncoding.EncodeToString\<close>, padded\<close>
  "urlEncode s = rawURLEncode s @ replicate ((3 - length s mod 3) mod 3) (CHR ''='')"

definition pkceOK :: "string \<Rightarrow> string \<Rightarrow> bool" where
  "pkceOK challenge verifier =
    (if challenge = [] \<or> verifier = [] then False
     else trimRight (CHR ''='') (urlEncode (sha256 verifier)) = trimRight (CHR ''='') challenge)"

subsection \<open>Facts\<close>

lemma b64Digit_not_eq: "n < 64 \<Longrightarrow> b64Digit n \<noteq> CHR ''=''"
proof -
  have "\<forall>n < 64. b64Digit n \<noteq> CHR ''=''" unfolding b64Digit_def by code_simp
  then show "n < 64 \<Longrightarrow> b64Digit n \<noteq> CHR ''=''" by blast
qed

lemma of_char_le: "(of_char c :: nat) \<le> 255"
  using nat_of_char_less_256[of c] by linarith

lemma b64_digits:
  "n < 16777216 \<Longrightarrow> CHR ''='' \<noteq> b64Digit (n div 262144)"
  "n < 262144 \<Longrightarrow> CHR ''='' \<noteq> b64Digit (n div 4096)"
  "n < 4096 \<Longrightarrow> CHR ''='' \<noteq> b64Digit (n div 64)"
  "CHR ''='' \<noteq> b64Digit (n mod 64)"
  by (rule b64Digit_not_eq[symmetric], simp add: less_mult_imp_div_less)+

lemma three_bytes:
  "(x :: nat) \<le> 255 \<Longrightarrow> y \<le> 255 \<Longrightarrow> z \<le> 255 \<Longrightarrow> (x * 256 + y) * 256 + z < 16777216"
  "(x :: nat) \<le> 255 \<Longrightarrow> y \<le> 255 \<Longrightarrow> (x * 256 + y) * 4 < 262144"
  "(x :: nat) \<le> 255 \<Longrightarrow> x * 16 < 4096"
  by simp_all

lemma rawURLEncode_no_pad: "CHR ''='' \<notin> set (rawURLEncode s)"
proof (induction s rule: rawURLEncode.induct)
  case (1 a b c cs)
  define n :: nat where "n = (of_char a * 256 + of_char b) * 256 + of_char c"
  have "n < 16777216" unfolding n_def by (intro three_bytes of_char_le)
  then show ?case using 1[OF n_def] b64_digits[of n] b64_digits(4)[of "n div 4096"] b64_digits(4)[of "n div 64"]
    by (simp only: rawURLEncode.simps n_def[symmetric] Let_def list.set insert_iff) simp
next
  case (2 a b)
  define n :: nat where "n = (of_char a * 256 + of_char b) * 4"
  have "n < 262144" unfolding n_def by (intro three_bytes of_char_le)
  then show ?case using b64_digits[of n] b64_digits(4)[of "n div 64"]
    by (simp only: rawURLEncode.simps n_def[symmetric] Let_def list.set insert_iff) simp
next
  case (3 a)
  define n :: nat where "n = of_char a * 16"
  have "n < 4096" unfolding n_def by (intro three_bytes of_char_le)
  then show ?case using b64_digits[of n]
    by (simp only: rawURLEncode.simps n_def[symmetric] Let_def list.set insert_iff) simp
qed simp

lemma trimRight_pad:
  assumes "c \<notin> set s" shows "trimRight c (s @ replicate n c) = s"
proof -
  have "dropWhile (\<lambda>x. x = c) (replicate n c @ xs) = xs" if "c \<notin> set xs" for xs
    using that by (induction n) (cases xs; auto)+
  from this[of "rev s"] show ?thesis using assms by simp
qed

declare trimRight.simps [simp del]

lemma pkceOK_iff: "pkceOK ch v \<longleftrightarrow> ch \<noteq> [] \<and> v \<noteq> [] \<and> trimRight (CHR ''='') ch = rawURLEncode (sha256 v)"
  using trimRight_pad[OF rawURLEncode_no_pad, of "sha256 v" 1] by (auto simp: pkceOK_def urlEncode_def)

lemma claimInt64_int:
  "- (2 ^ 63) \<le> n \<Longrightarrow> n < 2 ^ 63 \<Longrightarrow> claimInt64 (VFloat (of_int n)) = Some n"
  by (simp add: claimInt64_def int64OfFloat_def truncInt_def Let_def)

end
