(* ===== verification/ErrorMap.thy ===== *)
theory ErrorMap
  imports GoErrors
begin

text \<open>
  From an error to what the caller sees: the kind and the extra fields of a tool error
  (\<open>MapError\<close>, usecase/session/errors.go), its sentence (\<open>toolSentence\<close>,
  usecase/eve/errors.go), the two together (\<open>Handle\<close>, usecase/eve/common.go), and the page
  of the browser callback (\<open>page_lookup\<close>, service/http/errors.go). Timestamps are rendered
  by the parameter \<open>rfc3339\<close>, which stands for \<open>t.UTC().Format(time.RFC3339)\<close>.
\<close>

subsection \<open>Kinds\<close>

definition kindAuth :: string where "kindAuth = ''AuthError''"
definition kindWrite :: string where "kindWrite = ''WriteBlocked''"
definition kindUser :: string where "kindUser = ''UserRateLimited''"
definition kindESILim :: string where "kindESILim = ''EsiRateLimited''"
definition kindESI :: string where "kindESI = ''EsiError''"
definition kindError :: string where "kindError = ''Error''"

lemmas kind_defs = kindAuth_def kindWrite_def kindUser_def kindESILim_def kindESI_def kindError_def

definition hintUser :: string where
  "hintUser = ''Wait until retry_at, then call the same tool once. Do not retry in a loop.''"
definition hintESILim :: string where
  "hintESILim = ''CCP'' @ [CHR 0x27] @ ''s ESI error limit is shared for this server'' @ [CHR 0x27] @ ''s public IP. Wait until retry_at, then call the same tool once. Do not retry in a loop.''"

definition writeBlocked :: "goerr \<Rightarrow> bool" where
  "writeBlocked e \<longleftrightarrow> errors_is e ErrMailCap \<or> errors_is e ErrConfirmUnknown \<or>
     errors_is e ErrConfirmArgs \<or> errors_is e ErrConfirmTool \<or> errors_is e ErrUnknownCapability"

definition optInt :: "string \<Rightarrow> int option \<Rightarrow> object" where
  "optInt k v = (case v of None \<Rightarrow> [] | Some n \<Rightarrow> [(k, VInt n)])"

definition MapError :: "(time \<Rightarrow> string) \<Rightarrow> goerr \<Rightarrow> object" where
  "MapError rfc3339 err =
    (if errors_is err ErrNoSession \<or> errors_is err ErrDeadSession \<or> errors_is err ErrMissingScope
        \<or> errors_is err ErrInvalidGrant \<or> errors_is err ErrMissingWriteScope
     then [(''kind'', VStr kindAuth)]
     else if errors_is err ErrNPCCorp \<or> errors_is err ErrMissingCorpRole
        \<or> errors_is err ErrNoCorporation
     then [(''kind'', VStr kindError)]
     else if errors_as asSsoError err \<noteq> None then [(''kind'', VStr kindAuth)]
     else if errors_as asBlocked err \<noteq> None \<or> writeBlocked err
     then [(''kind'', VStr kindWrite)]
     else case errors_as asUserLimited err of
       Some (retryAt, retrySec) \<Rightarrow>
         [(''kind'', VStr kindUser), (''retry_after_seconds'', VInt retrySec),
          (''retry_at'', VStr (rfc3339 retryAt)), (''hint'', VStr hintUser)]
     | None \<Rightarrow> (case errors_as asRateLimited err of
         Some (status, retryAt, retrySec, remain, resetSec) \<Rightarrow>
           [(''kind'', VStr kindESILim), (''status'', VInt status),
            (''retry_after_seconds'', VInt retrySec), (''retry_at'', VStr (rfc3339 retryAt)),
            (''hint'', VStr hintESILim)]
           @ optInt ''error_limit_remain'' remain
           @ optInt ''error_limit_reset_seconds'' resetSec
       | None \<Rightarrow> (case errors_as asEsiError err of
           Some (_, status) \<Rightarrow> [(''kind'', VStr kindESI), (''status'', VInt status)]
         | None \<Rightarrow> [(''kind'', VStr kindError)])))"

subsection \<open>Sentences\<close>

definition sentenceAuth :: string where
  "sentenceAuth =
     ''This connection is not authorized. Re-authenticate the MCP server (Authentication required) and try again.''"

definition sentenceScope :: string where
  "sentenceScope =
     ''This character is missing a required ESI scope. Re-authenticate the MCP server (Authentication required) and approve the full scope set.''"

definition sentenceGrant :: string where
  "sentenceGrant =
     ''This connection'' @ [CHR 0x27] @ ''s EVE grant was revoked or expired. Re-authenticate the MCP server (Authentication required) and try again.''"

definition sentenceNPC :: string where
  "sentenceNPC =
     ''This character is in an NPC corporation. ESI corporation hangars, wallets and jobs only exist for player-created corporations. There is nothing for eve_corp_* to read. Call eve_corp_overview.''"

definition sentenceRole :: string where
  "sentenceRole =
     ''This character does not hold the corporation role ESI requires. Location-specific roles do not unlock these endpoints. Call eve_corp_overview.''"

definition sentenceCorp :: string where
  "sentenceCorp =
     ''ESI did not return a corporation for this character. Try again shortly.''"

definition sentenceMail :: string where
  "sentenceMail =
     ''Mail budget exhausted: 5 mails in the last hour. Wait until an earlier send drops out of the rolling hour, then try again.''"

definition sentenceConfirm :: string where
  "sentenceConfirm =
     ''That confirm_token is unknown or has expired. Call the tool again without a token to get a fresh preview.''"

definition sentenceConfirmArgs :: string where
  "sentenceConfirmArgs =
     ''The arguments changed since the preview was generated, so the token was discarded. Request a new preview and confirm that one.''"

definition sentenceConfirmTool :: string where
  "sentenceConfirmTool =
     ''This confirm_token was issued for a different tool. Call the intended tool again without a token to get a fresh preview.''"

definition sentenceCapability :: string where
  "sentenceCapability =
     ''Unknown write capability.''"

definition sentenceAllowance :: string where
  "sentenceAllowance =
     ''This character'' @ [CHR 0x27] @ ''s ESI request allowance is spent. Wait until retry_at, then call the same tool once. Do not retry in a loop.''"

definition sentenceBudget :: string where
  "sentenceBudget =
     ''This character'' @ [CHR 0x27] @ ''s ESI error budget is spent. Wait until retry_at, then call the same tool once. Do not retry in a loop.''"

definition sentenceESILimit :: string where
  "sentenceESILimit =
     ''CCP'' @ [CHR 0x27] @ ''s ESI error limit is shared for this server'' @ [CHR 0x27] @ ''s public IP. Wait until retry_at, then call the same tool once. Do not retry in a loop.''"

definition sentenceESI :: string where
  "sentenceESI =
     ''ESI rejected this request. Call eve_auth_status if this keeps happening.''"

definition sentenceUnresolved :: string where
  "sentenceUnresolved =
     ''That name could not be resolved. Names must be exact '' @ [CHR 0xE2] @ [CHR 0x80] @ [CHR 0x94] @ '' call eve_universe_search.''"

definition sentenceWrite :: string where
  "sentenceWrite =
     ''This write was blocked. Call the same tool again without a confirm_token to get a fresh preview.''"

definition sentenceCSPAUnpriced :: string where
  "sentenceCSPAUnpriced =
     ''The CSPA charge could not be priced, so nothing was attempted. Call eve_mail_send again shortly.''"

definition sentenceCSPAExceeds :: string where
  "sentenceCSPAExceeds =
     ''The priced CSPA charge exceeds approved_cost. Raise approved_cost or drop recipients.''"

definition sentenceGeneric :: string where
  "sentenceGeneric =
     ''The request failed. Call eve_auth_status, then retry the same tool.''"

definition sentenceTable :: "(sentinel \<times> string) list" where
  "sentenceTable =
    [(ErrNoSession, sentenceAuth), (ErrDeadSession, sentenceAuth),
     (ErrMissingScope, sentenceScope), (ErrMissingWriteScope, sentenceScope),
     (ErrInvalidGrant, sentenceGrant), (ErrNPCCorp, sentenceNPC),
     (ErrMissingCorpRole, sentenceRole), (ErrNoCorporation, sentenceCorp),
     (ErrMailCap, sentenceMail), (ErrConfirmUnknown, sentenceConfirm),
     (ErrConfirmArgs, sentenceConfirmArgs), (ErrConfirmTool, sentenceConfirmTool),
     (ErrUnknownCapability, sentenceCapability), (ErrAllowanceSpent, sentenceAllowance),
     (ErrBudgetSpent, sentenceBudget), (ErrCSPAUnpriced, sentenceCSPAUnpriced)]"

definition sentenceFromIs :: "goerr \<Rightarrow> string" where
  "sentenceFromIs err =
    (case find (\<lambda>(s, _). errors_is err s) sentenceTable of Some (_, t) \<Rightarrow> t | None \<Rightarrow> '''')"

definition sentenceFromAs :: "goerr \<Rightarrow> string" where
  "sentenceFromAs err =
    (if errors_as asRateLimited err \<noteq> None then sentenceESILimit
     else if errors_as asEsiError err \<noteq> None then sentenceESI
     else if errors_as asPreviewRead err \<noteq> None then sentenceCSPAUnpriced
     else if errors_as asCSPAExceeds err \<noteq> None then sentenceCSPAExceeds
     else if errors_as asUnresolved err \<noteq> None then sentenceUnresolved
     else if errors_as asSsoError err \<noteq> None then sentenceAuth
     else if errors_as asBlocked err \<noteq> None then sentenceWrite
     else sentenceGeneric)"

definition toolSentence :: "goerr \<Rightarrow> string" where
  "toolSentence err =
    (case errors_as asValidation err of
       Some (field, invariant) \<Rightarrow> field @ '' '' @ invariant
     | None \<Rightarrow> (let s = sentenceFromIs err in if s \<noteq> '''' then s else sentenceFromAs err))"

definition unresolvedNames :: "goerr \<Rightarrow> string list" where
  "unresolvedNames err =
    (case errors_as asUnresolved err of Some names \<Rightarrow> names | None \<Rightarrow> [])"

definition Handle :: "(time \<Rightarrow> string) \<Rightarrow> goerr \<Rightarrow> object" where
  "Handle rfc3339 err =
    MapError rfc3339 err @ [(''error'', VStr (toolSentence err))]
    @ (let names = unresolvedNames err in if names \<noteq> [] then [(''names'', VStrs names)] else [])
    @ (case errors_as asValidation err of
         Some (field, _) \<Rightarrow> [(''field'', VStr field)] | None \<Rightarrow> [])
    @ (case errors_as asCSPAExceeds err of
         Some (cost, approved) \<Rightarrow>
           [(''priced_cspa_cost_isk'', VFloat cost), (''approved_cost'', VInt approved),
            (''shortfall_isk'', VFloat (cost - of_int approved))]
       | None \<Rightarrow> [])"

subsection \<open>Pages of the browser callback\<close>

record pageErr =
  pe_title :: string
  pe_sentence :: string
  pe_status :: int

definition titleFailed :: string where "titleFailed = ''Login failed''"
definition titleRefused :: string where "titleRefused = ''Login refused''"

definition pageUnknownLogin :: pageErr where
  "pageUnknownLogin = \<lparr>pe_title = titleFailed,
     pe_sentence = ''Unknown or expired login state. Start the login again from the client.'',
     pe_status = 400\<rparr>"

definition pageRefused :: pageErr where
  "pageRefused = \<lparr>pe_title = titleRefused,
     pe_sentence = ''The EVE login was refused. Start the login again from the client.'',
     pe_status = 400\<rparr>"

definition pageMismatch :: pageErr where
  "pageMismatch = \<lparr>pe_title = titleFailed,
     pe_sentence = ''This login did not match the client that started it. Start the login again from the client.'',
     pe_status = 400\<rparr>"

definition pageShortGrant :: pageErr where
  "pageShortGrant = \<lparr>pe_title = titleRefused,
     pe_sentence = ''This server needs every scope listed on the instance application at developers.eveonline.com. Add the missing ones and sign in again from the client.'',
     pe_status = 400\<rparr>"

definition pageUnavailable :: pageErr where
  "pageUnavailable = \<lparr>pe_title = titleFailed,
     pe_sentence = ''This server could not finish the login. Try again in a moment.'',
     pe_status = 503\<rparr>"

definition pageGeneric :: pageErr where
  "pageGeneric = \<lparr>pe_title = titleFailed,
     pe_sentence = ''Login failed. Start the login again from the client.'',
     pe_status = 500\<rparr>"

definition pageBadCallback :: pageErr where
  "pageBadCallback = \<lparr>pe_title = ''Bad callback'',
     pe_sentence = ''Missing code or state.'',
     pe_status = 400\<rparr>"

definition page_lookup :: "goerr \<Rightarrow> pageErr" where
  "page_lookup err =
    (if errors_is err ErrUnknownLogin then pageUnknownLogin
     else if errors_is err ErrClientMismatch then pageMismatch
     else if errors_is err ErrLoginRefused then pageRefused
     else if errors_is err ErrUnavailable then pageUnavailable
     else pageGeneric)"

text \<open>\<open>unavailable\<close> and \<open>classifySSO\<close> of usecase/oauth/wrap.go, on non-nil errors.\<close>

definition unavailable :: "goerr \<Rightarrow> goerr" where
  "unavailable err = Wrap2 (Sentinel ErrUnavailable) err"

definition classifySSO :: "goerr \<Rightarrow> goerr" where
  "classifySSO err =
    (if errors_is err ErrInvalidGrant then Wrap2 (Sentinel ErrClientMismatch) err
     else Wrap2 (Sentinel ErrLoginRefused) err)"

subsection \<open>Facts\<close>

lemma MapError_Wrap [simp]: "MapError f (Wrap op e) = MapError f e"
  by (simp only: MapError_def writeBlocked_def errors_is.simps errors_as_Wrap as_kind_Wrap)

lemma toolSentence_Wrap [simp]: "toolSentence (Wrap op e) = toolSentence e"
  by (simp only: toolSentence_def sentenceFromIs_def sentenceFromAs_def errors_is.simps errors_as_Wrap as_kind_Wrap)

lemma Handle_Wrap [simp]: "Handle f (Wrap op e) = Handle f e"
  by (simp only: Handle_def unresolvedNames_def MapError_Wrap toolSentence_Wrap errors_as_Wrap as_kind_Wrap)

text \<open>A package wraps an error any number of times on its way up.\<close>

definition wraps :: "string list \<Rightarrow> goerr \<Rightarrow> goerr" where
  "wraps ops e = foldr Wrap ops e"

lemma Handle_wraps: "Handle f (wraps ops e) = Handle f e"
  by (induction ops) (auto simp: wraps_def)

definition kindOf :: "(time \<Rightarrow> string) \<Rightarrow> goerr \<Rightarrow> any" where
  "kindOf f e = lookupAny (Handle f e) ''kind''"

lemma lookupAny_append_hit:
  "lookupAny xs k \<noteq> VNil \<Longrightarrow> lookupAny (xs @ ys) k = lookupAny xs k"
  by (induction xs) auto

lemma MapError_has_kind: "\<exists>v rest. MapError f e = (''kind'', VStr v) # rest"
  by (auto simp: MapError_def split: option.split prod.split)

lemma kindOf_MapError: "kindOf f e = lookupAny (MapError f e) ''kind''"
  using MapError_has_kind [of f e] by (auto simp: kindOf_def Handle_def)

lemma authVerdict_kind:
  "errors_is e ErrNoSession \<or> errors_is e ErrDeadSession \<or> errors_is e ErrMissingScope
    \<or> errors_is e ErrInvalidGrant \<or> errors_is e ErrMissingWriteScope
   \<Longrightarrow> kindOf f e = VStr kindAuth"
  by (simp add: kindOf_MapError MapError_def)

end
