(* ===== verification/OAuth.thy ===== *)
theory OAuth
  imports Tokens OneShot ErrorMap
begin

text \<open>
  The authorization server (internal/usecase/oauth): client registration, the start of a login,
  the callback of the sign-in service, the token endpoint with its two grants, and the check in
  front of the MCP endpoint. A handler is a function of the request and the world; what it
  writes is a \<open>reply\<close>. Logging and response headers that never vary are left out.

  \<open>netlib\<close> holds what the handlers use of the standard library's URL and address parsing; no
  theorem assumes anything of it. Where JSON or form decoding can fail, its outcome is the
  argument.
\<close>

record url =
  u_Scheme :: string
  u_Hostname :: string
  u_Path :: string
  u_Text :: string  \<comment> \<open>the text it was parsed from\<close>

record netlib =
  url_Parse :: "string \<Rightarrow> url option"
  ToLower :: "string \<Rightarrow> string"
  loopbackIP :: "string \<Rightarrow> bool"  \<comment> \<open>\<open>net.ParseIP\<close> succeeds with a loopback address\<close>
  TrimSpace :: "string \<Rightarrow> string"
  SplitHost :: "string \<Rightarrow> string option"  \<comment> \<open>the host of \<open>net.SplitHostPort\<close>\<close>
  withQuery :: "url \<Rightarrow> (string \<times> string) list \<Rightarrow> string"  \<comment> \<open>\<open>q.Set\<close> in turn, then \<open>u.String()\<close>\<close>

datatype reply =
    HttpError string int  \<comment> \<open>\<open>http.Error\<close>\<close>
  | NoContent
  | LandingPage string
  | RedirectTo string
  | JsonReply int object
  | Served Sess  \<comment> \<open>the request went on to the MCP handler\<close>

definition invalidGrant :: reply where
  "invalidGrant = HttpError ''{\"error\":\"invalid_grant\"}'' 400"

definition writeOAuthError :: "goerr \<Rightarrow> reply" where
  "writeOAuthError e = HttpError ''{\"error\":\"server_error\"}'' 500"

definition randomID :: "nat \<Rightarrow> world \<Rightarrow> string \<times> world" where
  "randomID n w = (case randRead w of
     (None, w1) \<Rightarrow> (hexEncode (replicate n (CHR 0x00)), w1) | (Some b, w1) \<Rightarrow> (hexEncode b, w1))"

definition clientIDBytes :: nat where "clientIDBytes = 16"
definition authCodeBytes :: nat where "authCodeBytes = 24"

subsection \<open>Redirect addresses\<close>

definition redirectOK :: "netlib \<Rightarrow> string \<Rightarrow> bool" where
  "redirectOK N raw = (case url_Parse N raw of None \<Rightarrow> False
   | Some u \<Rightarrow>
     if u_Path u = [] then False
     else let host = ToLower N (u_Hostname u) in
       if host = ''localhost'' \<or> host = ''127.0.0.1'' \<or> host = ''::1'' then u_Scheme u = ''http''
       else if host = ''www.cursor.com'' \<and> hasPrefix (u_Path u) ''/agents/mcp/oauth/callback''
       then u_Scheme u = ''https''
       else if host = ''cursor.com'' \<and> hasPrefix (u_Path u) ''/agents/mcp/oauth/callback''
       then u_Scheme u = ''https''
       else if host = ''claude.ai'' \<and> hasPrefix (u_Path u) ''/api/mcp/auth_callback''
       then u_Scheme u = ''https''
       else if loopbackIP N host then u_Scheme u = ''http''
       else False)"

definition redirectAllowed :: "netlib \<Rightarrow> Server \<Rightarrow> string \<Rightarrow> bool" where
  "redirectAllowed N s raw = (if redirectOK N raw then True else List.member (sv_ExtraRedirects s) raw)"

definition clientRedirectOK :: "netlib \<Rightarrow> Server \<Rightarrow> string \<Rightarrow> string \<Rightarrow> world \<Rightarrow> bool \<times> world" where
  "clientRedirectOK N s clientID redirect w =
    (if \<not> redirectAllowed N s redirect then (False, w)
     else (case Clients_Get clientID w of
        (Inl _, w1) \<Rightarrow> (True, w1)
      | (Inr c, w1) \<Rightarrow> if List.member (oc_redirect_uris c) redirect then (True, w1) else (True, w1)))"

definition clientName :: "string \<Rightarrow> world \<Rightarrow> string \<times> world" where
  "clientName clientID w = (case Clients_Get clientID w of
     (Inl _, w1) \<Rightarrow> ([], w1) | (Inr c, w1) \<Rightarrow> (oc_client_name c, w1))"

definition ClientIP :: "netlib \<Rightarrow> bool \<Rightarrow> string \<Rightarrow> string \<Rightarrow> string" where
  "ClientIP N trust connecting remote =
    (let ip = TrimSpace N connecting in
     if trust \<and> ip \<noteq> [] then ip
     else (case SplitHost N remote of None \<Rightarrow> remote | Some host \<Rightarrow> host))"

subsection \<open>Registration and the start of a login\<close>

definition ServeRegister ::
  "netlib \<Rightarrow> Server \<Rightarrow> string \<Rightarrow> (string list \<times> string) option \<Rightarrow> world \<Rightarrow> reply \<times> world" where
  "ServeRegister N s verb body w =
    (if verb = ''OPTIONS'' then (NoContent, w)
     else if verb \<noteq> ''POST'' then (HttpError ''method not allowed'' 405, w)
     else (case body of
        None \<Rightarrow> (HttpError ''{\"error\":\"invalid_client_metadata\"}'' 400, w)
      | Some (uris, name) \<Rightarrow>
        if uris = [] then (HttpError ''{\"error\":\"invalid_client_metadata\"}'' 400, w)
        else let allowed = filter (redirectAllowed N s) uris in
          if allowed = [] then (HttpError ''{\"error\":\"invalid_redirect_uri\"}'' 400, w)
          else let (cid, w1) = randomID clientIDBytes w in
            (case Clients_Upsert \<lparr>oc_client_id = cid, oc_client_name = name, oc_redirect_uris = allowed,
                oc_created_at = 0, oc_deleted_at = None\<rparr> w1 of
               (Inl e, w2) \<Rightarrow> (writeOAuthError e, w2)
             | (Inr _, w2) \<Rightarrow> (JsonReply 201
                 [(''client_id'', VStr cid), (''redirect_uris'', VStrs allowed),
                  (''grant_types'', VStrs [''authorization_code'', ''refresh_token'']),
                  (''response_types'', VStrs [''code'']), (''token_endpoint_auth_method'', VStr ''none''),
                  (''client_name'', VStr name)], w2))))"

text \<open>\<open>q\<close> is \<open>r.URL.Query().Get\<close>. \<open>PrepareLogin\<close> is called with no scopes of its own.\<close>

definition ServeAuthorize ::
  "netlib \<Rightarrow> SSO \<Rightarrow> Server \<Rightarrow> (string \<Rightarrow> string) \<Rightarrow> world \<Rightarrow> reply \<times> world" where
  "ServeAuthorize N sso s q w =
    (let mcpClient = q ''client_id''; redirect = q ''redirect_uri''; state = q ''state'';
         challenge = q ''code_challenge'' in
     if mcpClient = [] \<or> redirect = [] \<or> challenge = [] then (LandingPage (sv_Resource s), w)
     else let (ok, w1) = clientRedirectOK N s mcpClient redirect w in
       if \<not> ok then (HttpError ''unknown client or redirect_uri'' 400, w1)
       else (case PrepareLogin sso [] (w_now w1) of
          Inl e \<Rightarrow> (writeOAuthError e, w1)
        | Inr prep \<Rightarrow>
          (case Logins_Put \<lparr>ls_state = pl_State prep, ls_pkce_verifier = pl_Verifier prep,
              ls_scopes = pl_Scopes prep, ls_mcp_client_id = mcpClient, ls_redirect_uri = redirect,
              ls_mcp_state = state, ls_code_challenge = challenge, ls_created_at = 0\<rparr> w1 of
             (Inl e, w2) \<Rightarrow> (writeOAuthError e, w2)
           | (Inr _, w2) \<Rightarrow> (RedirectTo (pl_URL prep), w2))))"

subsection \<open>The callback of the sign-in service\<close>

record Callback =
  cb_Redirect :: string
  cb_Token :: "CharacterToken option"

definition revokeOnOwnerHashChange :: "CharacterToken \<Rightarrow> unit action" where
  "revokeOnOwnerHashChange token w = (case Characters_Get (tk_CharacterID token) w of
     (Inl e, w1) \<Rightarrow>
       if errors_is e character_ErrNotFound then (Inr (), w1) else (Inl (unavailable e), w1)
   | (Inr existing, w1) \<Rightarrow>
       if ch_owner_hash existing = tk_OwnerHash token then (Inr (), w1)
       else (case RevokeAllForCharacter (tk_CharacterID token) w1 of
          (Inl e, w2) \<Rightarrow> (Inl (unavailable e), w2)
        | (Inr revoked, w2) \<Rightarrow> (Inr (), revokeAtCCP (rv_Tokens revoked) w2)))"

definition finishMCP :: "netlib \<Rightarrow> login_row \<Rightarrow> CharacterToken \<Rightarrow> string action" where
  "finishMCP N p token w =
    (if MissingScopes (tk_Scopes token) \<noteq> []
     then (Inl (ShortGrantError (MissingScopes (tk_Scopes token))), w)
     else (case revokeOnOwnerHashChange token w of
        (Inl e, w1) \<Rightarrow> (Inl e, w1)
      | (Inr _, w1) \<Rightarrow>
        (case Characters_Upsert \<lparr>ch_id = tk_CharacterID token, ch_name = tk_CharacterName token,
            ch_owner_hash = tk_OwnerHash token, ch_added_at = 0, ch_deleted_at = None\<rparr> w1 of
           (Inl e, w2) \<Rightarrow> (Inl (unavailable e), w2)
         | (Inr _, w2) \<Rightarrow>
           let (code, w3) = randomID authCodeBytes w2 in
           (case Codes_Put \<lparr>ac_code = code, ac_character_id = tk_CharacterID token,
               ac_refresh_token = tk_RefreshToken token, ac_scopes = tk_Scopes token,
               ac_mcp_client_id = ls_mcp_client_id p, ac_redirect_uri = ls_redirect_uri p,
               ac_code_challenge = ls_code_challenge p, ac_expires_at = w_now w3 + codeTTL\<rparr> w3 of
              (Inl e, w4) \<Rightarrow> (Inl (unavailable e), w4)
            | (Inr _, w4) \<Rightarrow>
              (case url_Parse N (ls_redirect_uri p) of
                 None \<Rightarrow> (Inl (Wrap (oauthOp ''finishMCP'') (External ''url'')), w4)
               | Some u \<Rightarrow> (Inr (withQuery N u ((''code'', code) #
                   (if ls_mcp_state p \<noteq> [] then [(''state'', ls_mcp_state p)] else []))), w4))))))"

definition CompleteCallback ::
  "netlib \<Rightarrow> SSO \<Rightarrow> string \<Rightarrow> string \<Rightarrow> world \<Rightarrow> (Callback \<times> goerr option) \<times> world" where
  "CompleteCallback N sso code eveState w =
    (case Logins_Take eveState w of
       (Inl e, w1) \<Rightarrow>
         if errors_is e loginstate_ErrNotFound
         then ((\<lparr>cb_Redirect = [], cb_Token = None\<rparr>, Some (Sentinel ErrUnknownLogin)), w1)
         else ((\<lparr>cb_Redirect = [], cb_Token = None\<rparr>, Some (unavailable e)), w1)
     | (Inr st, w1) \<Rightarrow>
       (case ExchangeCode sso code (ls_pkce_verifier st) (w_now w1) of
          Inl e \<Rightarrow> ((\<lparr>cb_Redirect = [], cb_Token = None\<rparr>, Some (classifySSO e)), w1)
        | Inr token \<Rightarrow>
          (case finishMCP N st token w1 of
             (Inl e, w2) \<Rightarrow> ((\<lparr>cb_Redirect = [], cb_Token = Some token\<rparr>, Some e), w2)
           | (Inr loc, w2) \<Rightarrow> ((\<lparr>cb_Redirect = loc, cb_Token = Some token\<rparr>, None), w2))))"

subsection \<open>The token endpoint\<close>

definition writeTokens :: "jwtlib \<Rightarrow> Server \<Rightarrow> int \<Rightarrow> int \<Rightarrow> time \<Rightarrow> time \<Rightarrow> reply" where
  "writeTokens J s c sid validTil now =
    (case issueAccess J s c sid now of
       Inl e \<Rightarrow> writeOAuthError e
     | Inr access \<Rightarrow>
       (case issueRefresh J s c sid validTil now of
          Inl e \<Rightarrow> writeOAuthError e
        | Inr refresh \<Rightarrow> JsonReply 200
            [(''access_token'', VStr access), (''refresh_token'', VStr refresh),
             (''token_type'', VStr ''Bearer''), (''expires_in'', VInt (accessTTL div second)),
             (''scope'', VStr scopeEve)]))"

definition exchangeCode ::
  "jwtlib \<Rightarrow> Server \<Rightarrow> (string \<Rightarrow> string) \<Rightarrow> string \<Rightarrow> world \<Rightarrow> reply \<times> world" where
  "exchangeCode J s form ip w =
    (let code = form ''code''; verifier = form ''code_verifier''; redirect = form ''redirect_uri'' in
     (case Codes_Get code w of
        (Inl e, w1) \<Rightarrow>
          if errors_is e authcode_ErrNotFound then (invalidGrant, w1) else (writeOAuthError e, w1)
      | (Inr ac, w1) \<Rightarrow>
        if redirect \<noteq> [] \<and> redirect \<noteq> ac_redirect_uri ac then (invalidGrant, w1)
        else if \<not> pkceOK (ac_code_challenge ac) verifier then (invalidGrant, w1)
        else let (name, w2) = clientName (ac_mcp_client_id ac) w1 in
          (case Redeem \<lparr>pg_Code = ac_code ac, pg_CharacterID = ac_character_id ac,
              pg_RefreshToken = ac_refresh_token ac, pg_Scopes = ac_scopes ac,
              pg_MCPClientID = ac_mcp_client_id ac, pg_ClientName = name, pg_IP = ip\<rparr> w2 of
             (Inl e, w3) \<Rightarrow>
               if errors_is e authcode_ErrNotFound then (invalidGrant, w3) else (writeOAuthError e, w3)
           | (Inr (session, revoked), w3) \<Rightarrow>
               (writeTokens J s (sn_CharacterID session) (sn_ID session) (sn_ValidTil session) (w_now w3),
                revokeAtCCP (rv_Tokens revoked) w3))))"

definition refreshGrant :: "jwtlib \<Rightarrow> Server \<Rightarrow> (string \<Rightarrow> string) \<Rightarrow> world \<Rightarrow> reply \<times> world" where
  "refreshGrant J s form w =
    (case parseRefresh J s (form ''refresh_token'') (w_now w) of
       Inl _ \<Rightarrow> (invalidGrant, w)
     | Inr ref \<Rightarrow>
       (case LiveByID (is_SessionID ref) w of
          (Inl _, w1) \<Rightarrow> (invalidGrant, w1)
        | (Inr row, w1) \<Rightarrow>
          if sn_CharacterID row \<noteq> is_CharacterID ref then (invalidGrant, w1)
          else (writeTokens J s (is_CharacterID ref) (is_SessionID ref) (sn_ValidTil row) (w_now w1), w1)))"

definition ServeToken ::
  "jwtlib \<Rightarrow> Server \<Rightarrow> string \<Rightarrow> (string \<Rightarrow> string) option \<Rightarrow> string \<Rightarrow> world \<Rightarrow> reply \<times> world" where
  "ServeToken J s verb form ip w =
    (if verb \<noteq> ''POST'' then (HttpError ''method not allowed'' 405, w)
     else (case form of
        None \<Rightarrow> (HttpError ''{\"error\":\"invalid_request\"}'' 400, w)
      | Some f \<Rightarrow>
        if f ''grant_type'' = ''authorization_code'' then exchangeCode J s f ip w
        else if f ''grant_type'' = ''refresh_token'' then refreshGrant J s f w
        else (HttpError ''{\"error\":\"unsupported_grant_type\"}'' 400, w)))"

subsection \<open>In front of the MCP endpoint\<close>

definition requireLive :: "issued \<Rightarrow> unit action" where
  "requireLive ref w = (case LiveByID (is_SessionID ref) w of
     (Inl _, w1) \<Rightarrow> (Inl (Sentinel session_ErrNotFound), w1)
   | (Inr row, w1) \<Rightarrow>
     if sn_CharacterID row \<noteq> is_CharacterID ref then (Inl (Sentinel session_ErrNotFound), w1)
     else if MissingScopes (sn_Scopes row) = [] then (Inr (), w1)
     else (case Revoke (is_SessionID ref) w1 of (_, w2) \<Rightarrow> (Inl (Sentinel session_ErrNotFound), w2)))"

definition VerifyAccess :: "jwtlib \<Rightarrow> Server \<Rightarrow> string \<Rightarrow> TokenInfo action" where
  "VerifyAccess J s token w = (case verifyAccess J s token (w_now w) of
     Inl e \<Rightarrow> (Inl e, w)
   | Inr (info, ref) \<Rightarrow>
     (case requireLive ref w of (Inl _, w1) \<Rightarrow> (Inl mcpErrInvalidToken, w1) | (Inr _, w1) \<Rightarrow> (Inr info, w1)))"

definition SessionFor :: "int \<Rightarrow> int \<Rightarrow> Server \<Rightarrow> world \<Rightarrow> Sess \<times> Server \<times> world" where
  "SessionFor c sid s w = (case sv_Sessions s (itoa c) of
     Some sess \<Rightarrow>
       if so_SessionID sess \<noteq> sid
       then let (sess', w1) = RebuildGrant sess sid w in
         (sess', s\<lparr>sv_Sessions := (sv_Sessions s)(itoa c \<mapsto> sess')\<rparr>, w1)
       else (sess, s, w)
   | None \<Rightarrow>
       let (sess, w1) = ForCharacter c sid w in
       (sess, s\<lparr>sv_Sessions := (sv_Sessions s)(itoa c \<mapsto> sess)\<rparr>, w1))"

text \<open>The handler inside \<open>ProtectMCP\<close>: \<open>ti\<close> is the token info the bearer middleware left.\<close>

definition ProtectMCP :: "TokenInfo option \<Rightarrow> Server \<Rightarrow> world \<Rightarrow> reply \<times> Server \<times> world" where
  "ProtectMCP ti s w = (case ti of
     None \<Rightarrow> (HttpError ''unauthorized'' 401, s, w)
   | Some t \<Rightarrow> (case parseInt64 (ti_UserID t) of
       None \<Rightarrow> (HttpError ''unknown character'' 401, s, w)
     | Some c \<Rightarrow>
       if c = 0 then (HttpError ''unknown character'' 401, s, w)
       else (case claimInt64 (ti_Extra t) of
          None \<Rightarrow> (HttpError ''unknown character'' 401, s, w)
        | Some sid \<Rightarrow>
          if sid = 0 then (HttpError ''unknown character'' 401, s, w)
          else (case requireLive \<lparr>is_CharacterID = c, is_SessionID = sid\<rparr> w of
             (Inl _, w1) \<Rightarrow> (HttpError ''unknown character'' 401, s, w1)
           | (Inr _, w1) \<Rightarrow>
             (case SessionFor c sid s w1 of (sess, s1, w2) \<Rightarrow> (Served sess, s1, w2))))))"

end
