(* ===== verification/GuardProps.thy ===== *)
theory GuardProps
  imports Guard
begin

text \<open>
  What the guard promises, proved once for every store that keeps the laws of the interface
  (locale \<open>confirm_store\<close>) and used for \<open>guardPersist\<close>: a write is executed only against a
  live token of the same session, tool and arguments, and the token is gone afterwards.
\<close>

text \<open>
  A sequence of calls, each on a guard and at an instant of its own, and the number of calls
  that executed against one token.
\<close>

fun authorizeAll ::
  "fmtlib \<Rightarrow> Persist \<Rightarrow> (Guard \<times> Authz \<times> time) list \<Rightarrow> world \<Rightarrow> (Authz \<times> (goerr + Decision)) list" where
  "authorizeAll F P [] w = []"
| "authorizeAll F P ((g, ain, t) # calls) w =
    (case Authorize F P g ain (w\<lparr>w_now := t\<rparr>) of (r, _, w1) \<Rightarrow> (ain, r) # authorizeAll F P calls w1)"

definition executions :: "string \<Rightarrow> (Authz \<times> (goerr + Decision)) list \<Rightarrow> nat" where
  "executions tok rs = countWhere (\<lambda>(ain, r). az_Token ain = tok \<and> r = Inr None) rs"

definition shows_token :: "string \<Rightarrow> (Authz \<times> (goerr + Decision)) \<Rightarrow> bool" where
  "shows_token tok x = (case snd x of Inr (Some obj) \<Rightarrow> lookupAny obj ''confirm_token'' = VStr tok | _ \<Rightarrow> False)"

lemma previewRequired_token [simp]:
  "lookupAny (previewRequired ain tok) ''confirm_token'' = VStr tok"
  by (simp add: previewRequired_def)

locale confirm_store =
  fixes P :: Persist and row :: "db \<Rightarrow> string \<Rightarrow> Confirm option"
  assumes put_ok: "PutConfirm P c w = (Inr u, w') \<Longrightarrow> cf_CreatedAt c = w_now w \<Longrightarrow>
      row (w_db w') t = (if t = cf_Token c then Some c else row (w_db w) t)"
    and put_err: "PutConfirm P c w = (Inl e, w') \<Longrightarrow> row (w_db w') t = row (w_db w) t"
    and get_row: "GetConfirm P t w = ((p, err), w') \<Longrightarrow>
      w_db w' = w_db w \<and> w_now w' = w_now w \<and> (\<forall>c. p = Some c \<longrightarrow> err = None \<and> row (w_db w) t = Some c)"
    and del_ok: "DeleteConfirm P t w = (Inr u, w') \<Longrightarrow> row (w_db w') s = (if s = t then None else row (w_db w) s)"
    and del_err: "DeleteConfirm P t w = (Inl e, w') \<Longrightarrow> row (w_db w') s = row (w_db w) s"
    and count_frame: "CountMails P i w = (n, w') \<Longrightarrow> row (w_db w') s = row (w_db w) s \<and> w_now w' = w_now w"
    and hold_frame: "HoldMails P i w = (h, w') \<Longrightarrow> row (w_db w') s = row (w_db w) s \<and> w_now w' = w_now w"
    and release_frame: "HoldRelease P hld er w = (v, w') \<Longrightarrow> row (w_db w') s = row (w_db w) s \<and> w_now w' = w_now w"
begin

lemma consume_ok:
  assumes "consumeConfirm F P g tool digest tok w = (Inr u, w')"
  shows "\<exists>c. row (w_db w) tok = Some c \<and> cf_SessionID c = g_sessionID g \<and> cf_Tool c = tool \<and>
      cf_ArgsDigest c = digest \<and> w_now w - cf_CreatedAt c \<le> ConfirmTTL"
    "row (w_db w') s = (if s = tok then None else row (w_db w) s)"
proof -
  obtain p err w1 where g: "GetConfirm P tok w = ((p, err), w1)" by (metis surj_pair)
  obtain c where c: "p = Some c" "err = None"
    using assms g get_row[OF g] by (auto simp: consumeConfirm_def consumeGot_def split: option.splits)
  note r = get_row[OF g]
  have q: "cf_SessionID c = g_sessionID g" "\<not> w_now w1 - cf_CreatedAt c > ConfirmTTL" "cf_Tool c = tool"
    "cf_ArgsDigest c = digest" "DeleteConfirm P tok w1 = (Inr (), w')"
    using assms g c by (auto simp: consumeConfirm_def consumeGot_def split: if_splits prod.splits sum.splits)
  show "\<exists>c. row (w_db w) tok = Some c \<and> cf_SessionID c = g_sessionID g \<and> cf_Tool c = tool \<and>
      cf_ArgsDigest c = digest \<and> w_now w - cf_CreatedAt c \<le> ConfirmTTL"
    using q r c by auto
  show "row (w_db w') s = (if s = tok then None else row (w_db w) s)"
    using del_ok[OF q(5), of s] r by simp
qed

lemma consume_frame:
  assumes "consumeConfirm F P g tool digest tok w = (r, w')"
  shows "row (w_db w') s = row (w_db w) s \<or> (s = tok \<and> row (w_db w') s = None)"
proof -
  obtain p err w1 where g: "GetConfirm P tok w = ((p, err), w1)" by (metis surj_pair)
  note gr = get_row[OF g]
  obtain d w2 where d: "DeleteConfirm P tok w1 = (d, w2)" by force
  have w2: "row (w_db w2) s = row (w_db w) s \<or> (s = tok \<and> row (w_db w2) s = None)"
    using gr d del_ok[of tok w1 _ w2 s] del_err[of tok w1 _ w2 s] by (cases d) (auto split: if_splits)
  have "w' = w1 \<or> w' = w2"
    using assms g d by (auto simp: consumeConfirm_def consumeGot_def split: if_splits option.splits sum.splits)
  then show ?thesis using gr w2 by auto
qed

lemma consume_absent:
  assumes "row (w_db w) tok = None"
  shows "\<exists>w'. consumeConfirm F P g tool digest tok w = (Inl (blocked ErrConfirmUnknown errConfirmUnknown), w')"
proof -
  obtain p err w1 where g: "GetConfirm P tok w = ((p, err), w1)" by (metis surj_pair)
  then show ?thesis using get_row[OF g] assms by (cases p) (auto simp: consumeConfirm_def consumeGot_def)
qed

lemma releaseMailHold_frame:
  "releaseMailHold P g e w = (r, g', w') \<Longrightarrow>
   row (w_db w') s = row (w_db w) s \<and> w_now w' = w_now w \<and> g_sessionID g' = g_sessionID g \<and> g_mailHold g' = None"
  using release_frame by (fastforce simp: releaseMailHold_def split: option.splits prod.splits)

lemma gateMailCap_frame:
  assumes "gateMailCap P g ain w = (r, g', w')"
  shows "row (w_db w') s = row (w_db w) s \<and> w_now w' = w_now w \<and> g_sessionID g' = g_sessionID g"
proof -
  have c: "row (w_db w1) s = row (w_db w) s \<and> w_now w1 = w_now w" if "checkMailCap P g w = (x, w1)" for x w1
    using that count_frame[of "g_characterID g" w _ _ s]
    by (auto simp: checkMailCap_def split: prod.splits sum.splits if_splits)
  have h: "row (w_db w1) s = row (w_db w) s \<and> w_now w1 = w_now w \<and> g_sessionID g1 = g_sessionID g"
    if hm: "holdMailCap P g w = (x, g1, w1)" for x g1 w1
  proof -
    obtain y v where y: "HoldMails P (g_characterID g) w = (y, v)" by force
    note a = hold_frame[OF y, of s]
    show ?thesis
    proof (cases y)
      case (Inl e) then show ?thesis using hm y a by (simp add: holdMailCap_def)
    next
      case (Inr hld)
      obtain z v2 where z: "HoldRelease P hld (Some (Sentinel ErrMailCap)) v = (z, v2)" by force
      show ?thesis using hm y a Inr z release_frame[OF z, of s]
        by (auto simp: holdMailCap_def split: if_splits)
    qed
  qed
  obtain x1 v1 where k: "checkMailCap P g w = (x1, v1)" by force
  show ?thesis
  proof (cases "az_Capability ain = CapMailSend")
    case False then show ?thesis using assms by (simp add: gateMailCap_def)
  next
    case True
    show ?thesis
    proof (cases "az_Token ain = []")
      case tok: True
      then show ?thesis using assms True k c[OF k] by (simp add: gateMailCap_def)
    next
      case False
      then have "holdMailCap P g w = (r, g', w')" using assms True by (simp add: gateMailCap_def)
      then show ?thesis by (rule h)
    qed
  qed
qed

text \<open>Execution (\<open>Inr None\<close>) needs a token that matches, and uses it up.\<close>

lemma authorize_execute:
  assumes "Authorize F P g ain w = (Inr None, g', w')"
  obtains digest c where "az_Token ain \<noteq> []" "CheckCapability F (az_Capability ain) = Inr ()"
    "CheckScope (az_Capability ain) (az_Scopes ain) = Inr ()" "digestArgs F (az_Args ain) = Inr digest"
    "row (w_db w) (az_Token ain) = Some c" "cf_SessionID c = g_sessionID g" "cf_Tool c = az_Tool ain"
    "cf_ArgsDigest c = digest" "w_now w - cf_CreatedAt c \<le> ConfirmTTL"
    "\<And>s. row (w_db w') s = (if s = az_Token ain then None else row (w_db w) s)"
proof -
  obtain r1 g1 w1 where 1: "releaseMailHold P g (Some (Sentinel errMailHoldAbandoned)) w = (r1, g1, w1)"
    using prod_cases3 by blast
  have cap: "CheckCapability F (az_Capability ain) = Inr ()"
    using assms 1 by (cases "CheckCapability F (az_Capability ain)") (auto simp: Authorize_def)
  have sc: "CheckScope (az_Capability ain) (az_Scopes ain) = Inr ()"
    using assms 1 cap by (cases "CheckScope (az_Capability ain) (az_Scopes ain)") (auto simp: Authorize_def)
  obtain r2 g2 w2 where 2: "gateMailCap P g1 ain w1 = (r2, g2, w2)" using prod_cases3 by blast
  have r2: "r2 = Inr ()" using assms 1 2 cap sc by (cases r2) (auto simp: Authorize_def)
  obtain digest where dg: "digestArgs F (az_Args ain) = Inr digest"
    using assms 1 2 cap sc r2
    by (cases "digestArgs F (az_Args ain)") (auto simp: Authorize_def split: prod.splits)
  have tok: "az_Token ain \<noteq> []"
    using assms 1 2 cap sc r2 dg
    by (auto simp: Authorize_def previewWrite_def split: prod.splits sum.splits if_splits)
  have "confirmWrite F P g2 ain digest w2 = (Inr None, g', w')"
    using assms 1 2 cap sc r2 dg tok by (simp add: Authorize_def)
  then have con: "consumeConfirm F P g2 (az_Tool ain) digest (az_Token ain) w2 = (Inr (), w')"
    by (auto simp: confirmWrite_def split: prod.splits sum.splits)
  have f: "row (w_db w2) s = row (w_db w) s" "w_now w2 = w_now w" "g_sessionID g2 = g_sessionID g" for s
    using releaseMailHold_frame[OF 1] gateMailCap_frame[OF 2] by simp_all
  obtain c where "row (w_db w2) (az_Token ain) = Some c \<and> cf_SessionID c = g_sessionID g2 \<and>
      cf_Tool c = az_Tool ain \<and> cf_ArgsDigest c = digest \<and> w_now w2 - cf_CreatedAt c \<le> ConfirmTTL"
    using consume_ok(1)[OF con] by blast
  then show thesis
    by (intro that[of digest c]) (use tok cap sc dg consume_ok(2)[OF con] f in simp_all)
qed

text \<open>A preview (\<open>Inr (Some obj)\<close>) stores a token for exactly this call and shows it.\<close>

lemma authorize_preview:
  assumes "Authorize F P g ain w = (Inr (Some obj), g', w')"
  obtains tok digest where "az_Token ain = []" "digestArgs F (az_Args ain) = Inr digest"
    "obj = previewRequired ain tok"
    "\<And>s. row (w_db w') s = (if s = tok then Some \<lparr>cf_Token = tok, cf_SessionID = g_sessionID g,
        cf_Tool = az_Tool ain, cf_ArgsDigest = digest, cf_CreatedAt = w_now w\<rparr> else row (w_db w) s)"
    "CheckScope (az_Capability ain) (az_Scopes ain) = Inr ()"
    "CheckCapability F (az_Capability ain) = Inr ()"
proof -
  obtain r1 g1 w1 where 1: "releaseMailHold P g (Some (Sentinel errMailHoldAbandoned)) w = (r1, g1, w1)"
    using prod_cases3 by blast
  have cap: "CheckCapability F (az_Capability ain) = Inr ()"
    using assms 1 by (cases "CheckCapability F (az_Capability ain)") (auto simp: Authorize_def)
  have sc: "CheckScope (az_Capability ain) (az_Scopes ain) = Inr ()"
    using assms 1 cap by (cases "CheckScope (az_Capability ain) (az_Scopes ain)") (auto simp: Authorize_def)
  obtain r2 g2 w2 where 2: "gateMailCap P g1 ain w1 = (r2, g2, w2)" using prod_cases3 by blast
  have r2: "r2 = Inr ()" using assms 1 2 cap sc by (cases r2) (auto simp: Authorize_def)
  obtain digest where dg: "digestArgs F (az_Args ain) = Inr digest"
    using assms 1 2 cap sc r2
    by (cases "digestArgs F (az_Args ain)") (auto simp: Authorize_def split: prod.splits)
  have tok: "az_Token ain = []"
  proof (rule ccontr)
    assume "az_Token ain \<noteq> []"
    then show False using assms 1 2 cap sc r2 dg
      by (auto simp: Authorize_def confirmWrite_def split: prod.splits sum.splits)
  qed
  have pv: "previewWrite P g2 ain digest w2 = (Inr (Some obj), g', w')"
    using assms 1 2 cap sc r2 dg tok by (simp add: Authorize_def)
  have f: "row (w_db w2) s = row (w_db w) s" "w_now w2 = w_now w" "g_sessionID g2 = g_sessionID g" for s
    using releaseMailHold_frame[OF 1] gateMailCap_frame[OF 2] by simp_all
  obtain t w3 where rt: "randomToken w2 = (Inr t, w3)"
    using pv by (auto simp: previewWrite_def split: prod.splits sum.splits)
  have w3: "w_db w3 = w_db w2" "w_now w3 = w_now w2"
  proof -
    obtain q v where q: "randRead w2 = (q, v)" by force
    then have "w_db v = w_db w2 \<and> w_now v = w_now w2" using randRead_keeps[of w2] by simp
    then show "w_db w3 = w_db w2" "w_now w3 = w_now w2"
      using rt q by (auto simp: randomToken_def split: option.splits)
  qed
  define c where "c = \<lparr>cf_Token = t, cf_SessionID = g_sessionID g2, cf_Tool = az_Tool ain,
      cf_ArgsDigest = digest, cf_CreatedAt = w_now w3\<rparr>"
  have put: "PutConfirm P c w3 = (Inr (), w')" and obj: "obj = previewRequired ain t"
    using pv rt by (auto simp: previewWrite_def c_def split: prod.splits sum.splits)
  have "row (w_db w') s = (if s = t then Some c else row (w_db w3) s)" for s
    using put_ok[OF put] by (simp add: c_def)
  then show thesis
    by (intro that[of digest t]) (use tok dg obj sc cap f w3 in \<open>simp_all add: c_def\<close>)
qed

lemma authorize_error:
  assumes "Authorize F P g ain w = (Inl e, g', w')"
  shows "row (w_db w') s = row (w_db w) s \<or> row (w_db w') s = None"
proof -
  obtain r1 g1 w1 where 1: "releaseMailHold P g (Some (Sentinel errMailHoldAbandoned)) w = (r1, g1, w1)"
    using prod_cases3 by blast
  note f1 = releaseMailHold_frame[OF 1, of s]
  show ?thesis
  proof (cases "CheckCapability F (az_Capability ain)")
    case (Inl c) then show ?thesis using assms 1 f1 by (simp add: Authorize_def)
  next
    case cap: (Inr u)
    show ?thesis
    proof (cases "CheckScope (az_Capability ain) (az_Scopes ain)")
      case (Inl c) then show ?thesis using assms 1 f1 cap by (simp add: Authorize_def)
    next
      case sc: (Inr u2)
      obtain r2 g2 w2 where 2: "gateMailCap P g1 ain w1 = (r2, g2, w2)" using prod_cases3 by blast
      note f2 = gateMailCap_frame[OF 2, of s]
      show ?thesis
      proof (cases r2)
        case (Inl c) then show ?thesis using assms 1 2 f1 f2 cap sc by (simp add: Authorize_def)
      next
        case r2: (Inr u3)
        show ?thesis
        proof (cases "digestArgs F (az_Args ain)")
          case (Inl de)
          obtain r3 g3 w3 where 3: "releaseMailHold P g2 (Some de) w2 = (r3, g3, w3)"
            using prod_cases3 by blast
          then show ?thesis using assms 1 2 f1 f2 cap sc r2 Inl releaseMailHold_frame[OF 3, of s]
            by (simp add: Authorize_def)
        next
          case (Inr digest)
          show ?thesis
          proof (cases "az_Token ain = []")
            case tok: True
            have pv: "previewWrite P g2 ain digest w2 = (Inl e, g', w')"
              using assms 1 2 cap sc r2 Inr tok by (simp add: Authorize_def)
            obtain q v where q: "randRead w2 = (q, v)" by force
            then have v: "w_db v = w_db w2" using randRead_keeps(1)[of w2] by simp
            then show ?thesis
              using pv q f1 f2 put_err[of _ v _ w' s]
              by (cases q) (auto simp: previewWrite_def randomToken_def split: prod.splits sum.splits)
          next
            case False
            have cw: "confirmWrite F P g2 ain digest w2 = (Inl e, g', w')"
              using assms 1 2 cap sc r2 Inr False by (simp add: Authorize_def)
            obtain x w3 where x: "consumeConfirm F P g2 (az_Tool ain) digest (az_Token ain) w2 = (x, w3)"
              by force
            note f3 = consume_frame[OF x, of s]
            show ?thesis
            proof (cases x)
              case (Inl ce)
              obtain r4 g4 w4 where 4: "releaseMailHold P g2 (Some ce) w3 = (r4, g4, w4)"
                using prod_cases3 by blast
              then show ?thesis using cw x Inl f1 f2 f3 releaseMailHold_frame[OF 4, of s]
                by (auto simp: confirmWrite_def)
            next
              case (Inr cu) then show ?thesis using cw x by (simp add: confirmWrite_def)
            qed
          qed
        qed
      qed
    qed
  qed
qed

text \<open>Once the row of a token is gone, only showing it in a preview brings it back.\<close>

lemma authorize_keeps_absent:
  assumes "Authorize F P g ain w = (r, g', w')" "row (w_db w) tok = None" "\<not> shows_token tok (ain, r)"
  shows "row (w_db w') tok = None" "\<not> (az_Token ain = tok \<and> r = Inr None)"
proof -
  have "row (w_db w') tok = None \<and> \<not> (az_Token ain = tok \<and> r = Inr None)"
  proof (cases r)
    case (Inl e)
    then show ?thesis using assms authorize_error[of F g ain w e g' w' tok] by auto
  next
    case (Inr d)
    show ?thesis
    proof (cases d)
      case None
      then obtain digest c where
        "row (w_db w) (az_Token ain) = Some c"
        "\<And>s. row (w_db w') s = (if s = az_Token ain then None else row (w_db w) s)"
        using authorize_execute[of F g ain w g' w'] assms(1) Inr by metis
      then show ?thesis using assms(2) by auto
    next
      case (Some obj)
      then obtain t where o: "obj = previewRequired ain t"
        "\<And>s. s \<noteq> t \<Longrightarrow> row (w_db w') s = row (w_db w) s"
        using authorize_preview[of F g ain w obj g' w'] assms(1) Inr by metis
      then have "t \<noteq> tok" using assms(3) Inr Some by (auto simp: shows_token_def)
      then show ?thesis using o(2)[of tok] assms(2) Inr Some by simp
    qed
  qed
  then show "row (w_db w') tok = None" "\<not> (az_Token ain = tok \<and> r = Inr None)" by simp_all
qed

lemma absent_never_executes:
  "row (w_db w) tok = None \<Longrightarrow> \<not> (\<exists>x \<in> set (authorizeAll F P calls w). shows_token tok x) \<Longrightarrow>
   executions tok (authorizeAll F P calls w) = 0"
proof (induction calls arbitrary: w)
  case (Cons call calls)
  obtain g ain t where c: "call = (g, ain, t)" by (cases call)
  obtain r g' w1 where a: "Authorize F P g ain (w\<lparr>w_now := t\<rparr>) = (r, g', w1)" using prod_cases3 by blast
  note k = authorize_keeps_absent[OF a]
  show ?case using Cons a c k by (auto simp: executions_def)
qed (simp add: executions_def)

lemma executes_once:
  "\<not> (\<exists>x \<in> set (authorizeAll F P calls w). shows_token tok x) \<Longrightarrow>
   executions tok (authorizeAll F P calls w) \<le> 1"
proof (induction calls arbitrary: w)
  case (Cons call calls)
  obtain g ain t where c: "call = (g, ain, t)" by (cases call)
  obtain r g' w1 where a: "Authorize F P g ain (w\<lparr>w_now := t\<rparr>) = (r, g', w1)" using prod_cases3 by blast
  show ?case
  proof (cases "az_Token ain = tok \<and> r = Inr None")
    case True
    then obtain digest q where
      "\<And>s. row (w_db w1) s = (if s = az_Token ain then None else row (w_db (w\<lparr>w_now := t\<rparr>)) s)"
      using authorize_execute[of F g ain "w\<lparr>w_now := t\<rparr>" g' w1] a by metis
    then have "row (w_db w1) tok = None" using True by simp
    then show ?thesis using absent_never_executes[of w1 tok F calls] Cons.prems a c True
      by (auto simp: executions_def)
  next
    case False
    then show ?thesis using Cons.IH[of w1] Cons.prems a c by (auto simp: executions_def)
  qed
qed (simp add: executions_def)

end

interpretation gp: confirm_store guardPersist "\<lambda>d t. map_option toConfirm (confirmRow d t)"
proof unfold_locales
  fix c w u w' t assume a: "PutConfirm guardPersist c w = (Inr u, w')" "cf_CreatedAt c = w_now w"
  let ?r = "\<lparr>ct_token = cf_Token c, ct_session_id = cf_SessionID c, ct_tool = cf_Tool c,
      ct_args_digest = cf_ArgsDigest c, ct_created_at = cf_CreatedAt c, ct_expires_at = 0\<rparr>"
  have p: "Confirms_Put ?r w = (Inr u, w')"
    using a(1) by (auto simp: guardPersist_def gp_PutConfirm_def wrapA_def wrapR_def split: prod.splits sum.splits)
  have "toConfirm (fillConfirm ?r (w_now w)) = c"
    using a(2) by (simp add: toConfirm_def fillConfirm_def)
  then show "map_option toConfirm (confirmRow (w_db w') t) =
      (if t = cf_Token c then Some c else map_option toConfirm (confirmRow (w_db w) t))"
    using Confirms_Put_ok(1)[OF p] by simp
next
  fix c w e w' t assume "PutConfirm guardPersist c w = (Inl e, w')"
  then obtain r e' where "runStmt (putConfirmStmt r) w = (Inl e', w')"
    by (auto simp: guardPersist_def gp_PutConfirm_def Confirms_Put_def wrapA_def wrapR_def split: prod.splits sum.splits)
  then show "map_option toConfirm (confirmRow (w_db w') t) = map_option toConfirm (confirmRow (w_db w) t)"
    using runStmt_Inl(1) by metis
next
  fix t w p err w' assume a: "GetConfirm guardPersist t w = ((p, err), w')"
  obtain x w1 where x: "Confirms_Get t w = (x, w1)" by force
  then have d: "w_db w1 = w_db w" using Confirms_Get_db[of t w] by simp
  have n: "w_now w1 = w_now w"
  proof (cases "runStmt (\<lambda>d. Inr (confirmRow d t, d)) w")
    case (Pair y v)
    then have "w1 = v" using x by (auto simp: Confirms_Get_def split: sum.splits option.splits)
    then show ?thesis
      using Pair runStmt_Inl(2)[of "\<lambda>d. Inr (confirmRow d t, d)" w _ v]
        runStmt_Inr(2)[of "\<lambda>d. Inr (confirmRow d t, d)" w _ v] by (cases y) auto
  qed
  show "w_db w' = w_db w \<and> w_now w' = w_now w \<and>
      (\<forall>c. p = Some c \<longrightarrow> err = None \<and> map_option toConfirm (confirmRow (w_db w) t) = Some c)"
    using a x d n Confirms_Get_ok(1)[of t w _ w1]
    by (cases x) (auto simp: guardPersist_def gp_GetConfirm_def split: if_splits)
next
  fix t w u w' s assume "DeleteConfirm guardPersist t w = (Inr u, w')"
  then have d: "Confirms_Delete t w = (Inr u, w')"
    by (auto simp: guardPersist_def wrapA_def wrapR_def split: prod.splits sum.splits)
  show "map_option toConfirm (confirmRow (w_db w') s) =
      (if s = t then None else map_option toConfirm (confirmRow (w_db w) s))"
    using Confirms_Delete_ok(2)[OF d, of s] by simp
next
  fix t w e w' s assume "DeleteConfirm guardPersist t w = (Inl e, w')"
  then obtain e' where "Confirms_Delete t w = (Inl e', w')"
    by (auto simp: guardPersist_def wrapA_def wrapR_def split: prod.splits sum.splits)
  then show "map_option toConfirm (confirmRow (w_db w') s) = map_option toConfirm (confirmRow (w_db w) s)"
    using Confirms_Delete_err by metis
next
  fix i w n w' s assume "CountMails guardPersist i w = (n, w')"
  then show "map_option toConfirm (confirmRow (w_db w') s) = map_option toConfirm (confirmRow (w_db w) s) \<and>
      w_now w' = w_now w"
    using CountMailCap_frame[of i w] by (auto simp: guardPersist_def wrapA_def split: prod.splits)
next
  fix i w h w' s assume "HoldMails guardPersist i w = (h, w')"
  then obtain r where "HoldMailCap i w = (r, w')"
    by (auto simp: guardPersist_def gp_HoldMailCap_def wrapA_def split: prod.splits)
  then show "map_option toConfirm (confirmRow (w_db w') s) = map_option toConfirm (confirmRow (w_db w) s) \<and>
      w_now w' = w_now w"
    using HoldMailCap_frame by simp
next
  fix hld er w v w' s assume "HoldRelease guardPersist hld er w = (v, w')"
  then have "Hold_Release hld er w = (v, w')" by (simp add: guardPersist_def)
  from Hold_Release_frame[OF this]
  show "map_option toConfirm (confirmRow (w_db w') s) = map_option toConfirm (confirmRow (w_db w) s) \<and>
      w_now w' = w_now w"
    by (auto simp: confirmRow_def)
qed

subsection \<open>The token contract of guardPersist\<close>

lemma CheckCapability_ok [simp]:
  "CheckCapability F cap = Inr u \<longleftrightarrow> map_of Capabilities cap \<noteq> None"
  by (auto simp: CheckCapability_def split: option.splits)

lemma CheckScope_ok [simp]:
  "CheckScope cap granted = Inr u \<longleftrightarrow> set (capScopes cap) \<subseteq> set granted"
  by (auto simp: CheckScope_def Let_def filter_empty_conv)

lemma row_confirm:
  "map_option toConfirm (confirmRow d t) = Some c \<longleftrightarrow> (\<exists>r. confirmRow d t = Some r \<and> c = toConfirm r)"
  by auto

lemma authorize_matches:
  assumes "Authorize F guardPersist g ain w = (Inr None, g', w')"
  shows "az_Token ain \<noteq> [] \<and> map_of Capabilities (az_Capability ain) \<noteq> None \<and>
    set (capScopes (az_Capability ain)) \<subseteq> set (az_Scopes ain) \<and>
    (\<exists>c. confirmRow (w_db w) (az_Token ain) = Some c \<and> ct_session_id c = g_sessionID g \<and>
       ct_tool c = az_Tool ain \<and> digestArgs F (az_Args ain) = Inr (ct_args_digest c) \<and>
       w_now w - ct_created_at c \<le> 300 * second) \<and>
    confirmRow (w_db w') (az_Token ain) = None"
proof -
  obtain digest c where a: "az_Token ain \<noteq> []" "CheckCapability F (az_Capability ain) = Inr ()"
    "CheckScope (az_Capability ain) (az_Scopes ain) = Inr ()" "digestArgs F (az_Args ain) = Inr digest"
    "map_option toConfirm (confirmRow (w_db w) (az_Token ain)) = Some c" "cf_SessionID c = g_sessionID g"
    "cf_Tool c = az_Tool ain" "cf_ArgsDigest c = digest" "w_now w - cf_CreatedAt c \<le> ConfirmTTL"
    "\<And>s. map_option toConfirm (confirmRow (w_db w') s) =
       (if s = az_Token ain then None else map_option toConfirm (confirmRow (w_db w) s))"
    using gp.authorize_execute[OF assms] by metis
  obtain r where "confirmRow (w_db w) (az_Token ain) = Some r" "c = toConfirm r"
    using a(5) by (auto simp: row_confirm)
  then show ?thesis
    using a(1-4,6-9) a(10)[of "az_Token ain"] by (auto simp: toConfirm_def ConfirmTTL_def)
qed



text \<open>
  A preview stores a token bound to this session, this tool, the digest of these arguments
  and the present instant, replaces no other token, and tells the caller exactly that token, the
  preview and a validity of 300 seconds.
\<close>

theorem preview_binds_token:
  assumes "Authorize F guardPersist g ain w = (Inr (Some obj), g', w')"
  shows "az_Token ain = [] \<and> (\<exists>tok c. confirmRow (w_db w') tok = Some c \<and> ct_session_id c = g_sessionID g \<and>
      ct_tool c = az_Tool ain \<and> digestArgs F (az_Args ain) = Inr (ct_args_digest c) \<and>
      ct_created_at c = w_now w \<and>
      lookupAny obj ''confirm_token'' = VStr tok \<and> lookupAny obj ''will_do'' = VMap (az_Preview ain) \<and>
      lookupAny obj ''expires_in_seconds'' = VInt 300 \<and>
      (\<forall>s. s \<noteq> tok \<longrightarrow> map_option toConfirm (confirmRow (w_db w') s) = map_option toConfirm (confirmRow (w_db w) s)))"
proof -
  obtain tok digest where a: "az_Token ain = []" "digestArgs F (az_Args ain) = Inr digest"
    "obj = previewRequired ain tok"
    "\<And>s. map_option toConfirm (confirmRow (w_db w') s) = (if s = tok then Some \<lparr>cf_Token = tok,
        cf_SessionID = g_sessionID g, cf_Tool = az_Tool ain, cf_ArgsDigest = digest,
        cf_CreatedAt = w_now w\<rparr> else map_option toConfirm (confirmRow (w_db w) s))"
    using gp.authorize_preview[OF assms] by metis
  obtain c where c: "confirmRow (w_db w') tok = Some c" "toConfirm c = \<lparr>cf_Token = tok,
        cf_SessionID = g_sessionID g, cf_Tool = az_Tool ain, cf_ArgsDigest = digest, cf_CreatedAt = w_now w\<rparr>"
    using a(4)[of tok] by auto
  show ?thesis
    using a(1,2) a(4) c
    by (intro conjI exI[of _ tok] exI[of _ c])
       (auto simp: a(3) previewRequired_def toConfirm_def ConfirmTTL_def)
qed

lemma preview_binds_token_raw:
  "Authorize F guardPersist g ain w = (Inr (Some obj), g', w') \<Longrightarrow> az_Token ain = []"
  using gp.authorize_preview[of F g ain w obj g' w'] by metis

lemma consume_nofault:
  assumes "w_faults w = []" "confirmRow (w_db w) tok = Some r" "ct_session_id r = g_sessionID g"
    "w_now w - ct_created_at r \<le> ConfirmTTL" "ct_tool r = tool"
  shows "\<exists>w'. consumeConfirm F guardPersist g tool digest tok w =
    (if ct_args_digest r = digest then Inr ()
     else Inl (blocked ErrConfirmArgs ''The arguments changed since the preview was generated, so the token was discarded. Request a new preview and confirm that one.''), w')
    \<and> confirmRow (w_db w') tok = None"
proof -
  have g: "GetConfirm guardPersist tok w = ((Some (toConfirm r), None), w)"
    using assms(1,2) by (simp add: guardPersist_def gp_GetConfirm_def Confirms_Get_def runStmt_ok)
  obtain x w' where d: "DeleteConfirm guardPersist tok w = (x, w')" by force
  have x: "x = Inr ()" "confirmRow (w_db w') tok = None"
    using d assms(1)
    by (auto simp: guardPersist_def Confirms_Delete_def runStmt_ok wrapA_def deleteConfirmStmt_def confirmRow_def)
  show ?thesis
    using g d x assms(3-5) by (simp add: consumeConfirm_def consumeGot_def toConfirm_def)
qed

lemma gate_nofault:
  assumes "w_faults w = []" "\<not> w_tx w" "az_Token ain \<noteq> []"
    "az_Capability ain = CapMailSend \<longrightarrow> mailsLastHour (g_characterID g) (w_now w) (w_db w) < 5"
  shows "\<exists>g2. gateMailCap guardPersist g ain w = (Inr (), g2, w) \<and> g_sessionID g2 = g_sessionID g"
  using assms
  by (cases "az_Capability ain = CapMailSend")
     (auto simp: gateMailCap_def holdMailCap_def guardPersist_def gp_HoldMailCap_def wrapA_def
        HoldMailCap_nofault MailCap_def)

definition argsChanged :: goerr where
  "argsChanged = blocked ErrConfirmArgs ''The arguments changed since the preview was generated, so the token was discarded. Request a new preview and confirm that one.''"

lemma confirm_stored:
  assumes row: "confirmRow (w_db w) (az_Token ain) = Some r" "ct_session_id r = g_sessionID g"
      "ct_tool r = az_Tool ain" "w_now w - ct_created_at r \<le> 300 * second"
    and ok: "az_Token ain \<noteq> []" "CheckCapability F (az_Capability ain) = Inr ()"
      "CheckScope (az_Capability ain) (az_Scopes ain) = Inr ()" "digestArgs F (az_Args ain) = Inr d"
    and calm: "w_faults w = []" "\<not> w_tx w" "g_mailHold g = None"
    and mail: "az_Capability ain = CapMailSend \<longrightarrow> mailsLastHour (g_characterID g) (w_now w) (w_db w) < 5"
  shows "\<exists>g' w'. Authorize F guardPersist g ain w =
      (if ct_args_digest r = d then Inr None else Inl argsChanged, g', w')
      \<and> confirmRow (w_db w') (az_Token ain) = None"
proof -
  obtain g3 where g3: "gateMailCap guardPersist g ain w = (Inr (), g3, w)"
    "g_sessionID g3 = g_sessionID g"
    using gate_nofault[of w ain g] calm ok(1) mail by auto
  obtain w3 where w3: "consumeConfirm F guardPersist g3 (az_Tool ain) d (az_Token ain) w =
    (if ct_args_digest r = d then Inr () else Inl argsChanged, w3)"
    "confirmRow (w_db w3) (az_Token ain) = None"
    using consume_nofault[of w "az_Token ain" r g3 "az_Tool ain" F d] calm row g3
    by (auto simp: ConfirmTTL_def argsChanged_def)
  have rel: "releaseMailHold guardPersist g e w = (Inr (), g, w)" for e
    using calm by (simp add: releaseMailHold_def)
  obtain x g4 w4 where rel2: "releaseMailHold guardPersist g3 (Some argsChanged) w3 = (x, g4, w4)"
    using prod_cases3 by blast
  have w4: "confirmRow (w_db w4) (az_Token ain) = None"
    using gp.releaseMailHold_frame[OF rel2, of "az_Token ain"] w3(2) by simp
  show ?thesis
    using rel ok g3 w3 rel2 w4
    by (cases "ct_args_digest r = d")
       (simp_all add: Authorize_def confirmWrite_def del: CheckCapability_ok CheckScope_ok)
qed

text \<open>
  C24. Confirming what was previewed succeeds. Calling again with the same arguments and the
  token of the preview within 300 seconds executes, whatever else happened, as long as the
  token is still stored, the database works and, for a mail, fewer than five mails count.
\<close>

theorem confirm_succeeds_after_preview:
  assumes "Authorize F guardPersist g ain w = (Inr (Some obj), g1, w1)"
    and "lookupAny obj ''confirm_token'' = VStr tok" "tok \<noteq> []"
    and "confirmRow (w_db w2) tok = confirmRow (w_db w1) tok"
    and "w_now w2 - w_now w \<le> 300 * second"
    and "w_faults w2 = []" "\<not> w_tx w2" "g_mailHold g2 = None" "g_sessionID g2 = g_sessionID g"
    and "az_Capability ain = CapMailSend \<longrightarrow> mailsLastHour (g_characterID g2) (w_now w2) (w_db w2) < 5"
  shows "\<exists>g' w'. Authorize F guardPersist g2 (ain\<lparr>az_Token := tok\<rparr>) w2 = (Inr None, g', w')"
proof -
  obtain tk digest where a: "digestArgs F (az_Args ain) = Inr digest" "obj = previewRequired ain tk"
    "\<And>s. map_option toConfirm (confirmRow (w_db w1) s) = (if s = tk then Some \<lparr>cf_Token = tk,
        cf_SessionID = g_sessionID g, cf_Tool = az_Tool ain, cf_ArgsDigest = digest,
        cf_CreatedAt = w_now w\<rparr> else map_option toConfirm (confirmRow (w_db w) s))"
    "CheckScope (az_Capability ain) (az_Scopes ain) = Inr ()"
    "CheckCapability F (az_Capability ain) = Inr ()"
    using gp.authorize_preview[OF assms(1)] by metis
  have tk: "tk = tok" using assms(2) a(2) by simp
  obtain r where r: "confirmRow (w_db w2) tok = Some r" "ct_session_id r = g_sessionID g"
    "ct_tool r = az_Tool ain" "ct_args_digest r = digest" "ct_created_at r = w_now w"
    using a(3)[of tok] assms(4) tk by (auto simp: toConfirm_def)
  show ?thesis
    using confirm_stored[of w2 "ain\<lparr>az_Token := tok\<rparr>" r g2 F digest] r a assms by auto
qed

text \<open>
  Confirming with other arguments than those shown refuses and burns the token: a call whose
  arguments have another digest than the stored one is answered \<open>ErrConfirmArgs\<close> and the token
  is deleted, so not even the original arguments can be confirmed with it any more.
\<close>

theorem changed_arguments_discard_token:
  assumes "confirmRow (w_db w) (az_Token ain) = Some c" "ct_session_id c = g_sessionID g"
    and "ct_tool c = az_Tool ain" "w_now w - ct_created_at c \<le> 300 * second"
    and "az_Token ain \<noteq> []" "map_of Capabilities (az_Capability ain) \<noteq> None"
    and "set (capScopes (az_Capability ain)) \<subseteq> set (az_Scopes ain)"
    and "digestArgs F (az_Args ain) = Inr d" "ct_args_digest c \<noteq> d"
    and "w_faults w = []" "\<not> w_tx w" "g_mailHold g = None"
    and "az_Capability ain = CapMailSend \<longrightarrow> mailsLastHour (g_characterID g) (w_now w) (w_db w) < 5"
  shows "\<exists>e g' w'. Authorize F guardPersist g ain w = (Inl e, g', w') \<and> errors_is e ErrConfirmArgs \<and>
      confirmRow (w_db w') (az_Token ain) = None"
proof -
  obtain g' w' where "Authorize F guardPersist g ain w = (Inl argsChanged, g', w')"
    "confirmRow (w_db w') (az_Token ain) = None"
    using confirm_stored[of w ain c g F d] assms by auto
  then show ?thesis by (auto simp: argsChanged_def blocked_def)
qed

subsection \<open>A concrete session\<close>

text \<open>
  Character 7 with the session 1, a waypoint call without arguments, its preview and the
  confirmation four minutes later. The digest is left as the hash of the text \<open>{}\<close>.
\<close>

definition sampleF :: fmtlib where
  "sampleF = \<lparr>fm_float = (\<lambda>_. None), fm_v = (\<lambda>_. []), fm_q = (\<lambda>s. s)\<rparr>"

definition sampleDb :: db where
  "sampleDb = empty_db\<lparr>
     t_characters := [\<lparr>ch_id = 7, ch_name = ''Pilot'', ch_owner_hash = ''h'', ch_added_at = 1, ch_deleted_at = None\<rparr>],
     t_sessions := [\<lparr>se_id = 1, se_character_id = 7, se_refresh_token = Some ''r'', se_scopes = [],
        se_mcp_client_id = ''c'', se_client_name = [], se_ip = [], se_created_at = 1,
        se_valid_til = 30 * day, se_revoked_at = None\<rparr>],
     seq_sessions := 2\<rparr>"

definition sampleW :: "time \<Rightarrow> world" where
  "sampleW t = (world0 t)\<lparr>w_db := sampleDb, w_rand := [Some ''ABCDEFGHI'']\<rparr>"

definition sampleAz :: Authz where
  "sampleAz = \<lparr>az_Tool = ToolUISetWaypoint, az_Capability = CapWaypoint, az_Args = [], az_Preview = [],
     az_Token = [], az_Scopes = [''esi-ui.write_waypoint.v1'']\<rparr>"

definition sampleTok :: string where "sampleTok = ''414243444546474849''"

definition sampleDigest :: string where
  "sampleDigest = take 16 (hexEncode (sha256 [CHR 0x7B, CHR 0x7D]))"

definition sampleRow :: "time \<Rightarrow> confirm_row" where
  "sampleRow t = \<lparr>ct_token = sampleTok, ct_session_id = 1, ct_tool = ToolUISetWaypoint,
     ct_args_digest = sampleDigest, ct_created_at = t, ct_expires_at = t + 300 * second\<rparr>"

definition sampleW1 :: "time \<Rightarrow> world" where
  "sampleW1 t = (sampleW t)\<lparr>w_db := sampleDb\<lparr>t_confirms := [sampleRow t]\<rparr>, w_rand := []\<rparr>"

lemma sample_digest: "digestArgs sampleF [] = Inr sampleDigest"
  by (simp add: digestArgs_def jsonObject_def joinStr_def sampleDigest_def)

lemma sample_token: "trimRight (CHR ''='') (hexEncode ''ABCDEFGHI'') = sampleTok"
  by (simp add: hexEncode_def hexDigit_def sampleTok_def)

lemma sample_caps: "map_of Capabilities CapWaypoint \<noteq> None" "capScopes CapWaypoint = [''esi-ui.write_waypoint.v1'']"
  by (simp_all add: Capabilities_def capScopes_def)

lemma sample_not_mail: "CapWaypoint \<noteq> CapMailSend"
  by (simp add: Cap_defs)

lemma sample_checks:
  "CheckCapability sampleF CapWaypoint = Inr ()"
  "CheckScope CapWaypoint [''esi-ui.write_waypoint.v1''] = Inr ()"
  by (simp_all add: sample_caps)

lemma sample_preview:
  "Authorize sampleF guardPersist (NewGuard 7 1) sampleAz (sampleW 5)
    = (Inr (Some (previewRequired sampleAz sampleTok)), NewGuard 7 1, sampleW1 5)"
  using sample_digest sample_token sample_checks sample_not_mail
  by (simp add: Authorize_def sampleAz_def releaseMailHold_def NewGuard_def gateMailCap_def previewWrite_def
      randomToken_def randRead_def sampleW_def sampleW1_def world0_def guardPersist_def gp_PutConfirm_def
      Confirms_Put_def runStmt_def popFault_def putConfirmStmt_def fillConfirm_def sampleDb_def empty_db_def
      sampleRow_def confirm_TTL_def wrapA_def wrapR_def del: trimRight.simps CheckCapability_ok CheckScope_ok)

lemma sample_confirm:
  assumes "t \<le> 300 * second"
  shows "\<exists>g' w'. Authorize sampleF guardPersist (NewGuard 7 1) (sampleAz\<lparr>az_Token := sampleTok\<rparr>)
    ((sampleW1 5)\<lparr>w_now := t\<rparr>) = (Inr None, g', w')"
proof -
  have r: "confirmRow (w_db ((sampleW1 5)\<lparr>w_now := t\<rparr>)) sampleTok = Some (sampleRow 5)"
    by (simp add: sampleW1_def confirmRow_def sampleRow_def)
  show ?thesis
    using confirm_stored[of "(sampleW1 5)\<lparr>w_now := t\<rparr>" "sampleAz\<lparr>az_Token := sampleTok\<rparr>" "sampleRow 5"
        "NewGuard 7 1" sampleF sampleDigest] r assms sample_digest sample_caps sample_not_mail
    by (auto simp: sampleAz_def sampleTok_def sampleRow_def NewGuard_def sampleW1_def sampleW_def world0_def)
qed


lemma token_calls_show_nothing:
  "\<forall>(g, ain, t) \<in> set calls. az_Token ain \<noteq> [] \<Longrightarrow>
   \<not> (\<exists>x \<in> set (authorizeAll F guardPersist calls w). shows_token tok x)"
proof (induction calls arbitrary: w)
  case (Cons call calls)
  obtain g ain t where c: "call = (g, ain, t)" by (cases call)
  obtain r g' w1 where a: "Authorize F guardPersist g ain (w\<lparr>w_now := t\<rparr>) = (r, g', w1)"
    using prod_cases3 by blast
  have "\<not> shows_token tok (ain, r)"
    using Cons.prems c a preview_binds_token_raw[of F g ain "w\<lparr>w_now := t\<rparr>" _ g' w1]
    by (auto simp: shows_token_def split: sum.splits option.splits)
  then show ?case using Cons a c by auto
qed simp


theorem preview_binds_token_witness:
  "az_Token sampleAz = [] \<and> (\<exists>c. confirmRow (w_db (sampleW1 5)) sampleTok = Some c \<and> ct_created_at c = 5)"
  using preview_binds_token[OF sample_preview] by (auto simp: sampleW_def world0_def)

theorem confirm_succeeds_after_preview_witness:
  "\<exists>g' w'. Authorize sampleF guardPersist (NewGuard 7 1) (sampleAz\<lparr>az_Token := sampleTok\<rparr>)
      ((sampleW1 5)\<lparr>w_now := 300 * second\<rparr>) = (Inr None, g', w')"
  by (rule confirm_succeeds_after_preview[OF sample_preview previewRequired_token])
     (use sample_not_mail in \<open>simp_all add: sampleTok_def sampleW_def sampleW1_def world0_def NewGuard_def sampleAz_def\<close>)

lemma length_digest: "digestArgs F args = Inr d \<Longrightarrow> length d = 16"
  by (auto simp: digestArgs_def length_hexEncode split: option.splits)

definition otherRow :: confirm_row where
  "otherRow = (sampleRow 5)\<lparr>ct_args_digest := ''other''\<rparr>"

theorem changed_arguments_discard_token_witness:
  "\<exists>e g' w'. Authorize sampleF guardPersist (NewGuard 7 1) (sampleAz\<lparr>az_Token := sampleTok\<rparr>)
     ((sampleW 9)\<lparr>w_db := sampleDb\<lparr>t_confirms := [otherRow]\<rparr>\<rparr>) = (Inl e, g', w') \<and>
     errors_is e ErrConfirmArgs \<and> confirmRow (w_db w') sampleTok = None"
proof -
  let ?w = "(sampleW 9)\<lparr>w_db := sampleDb\<lparr>t_confirms := [otherRow]\<rparr>\<rparr>"
  have r: "confirmRow (w_db ?w) sampleTok = Some otherRow"
    by (simp add: confirmRow_def otherRow_def sampleRow_def)
  have n: "''other'' \<noteq> sampleDigest"
  proof
    assume "''other'' = sampleDigest"
    then have "length ''other'' = length sampleDigest" by (rule arg_cong)
    then show False using length_digest[OF sample_digest] by simp
  qed
  show ?thesis
    using changed_arguments_discard_token[of ?w "sampleAz\<lparr>az_Token := sampleTok\<rparr>" otherRow "NewGuard 7 1"
        sampleF sampleDigest] r n sample_digest sample_caps sample_not_mail
    by (auto simp: sampleAz_def sampleTok_def otherRow_def sampleRow_def NewGuard_def sampleW_def world0_def)
qed

end
