(* ===== verification/SessionProps.thy ===== *)
theory SessionProps
  imports SessionUse GuardProps
begin

text \<open>
  What the session use case promises: a code becomes at most one session and displaces the old
  one atomically, a logout leaves no usable grant, a refresh writes the rotated token to the row
  it came from, and a tool sees a character only behind a live session with all scopes.
\<close>

subsection \<open>Redeem\<close>

text \<open>
  C9. Redeeming is one atomic exchange. On an error no table has changed and nothing was revoked
  at CCP. On success the code existed and is gone, the character has exactly the new session
  unrevoked, with the parked grant and thirty days to live, and the tokens returned for
  revocation are exactly those its unrevoked sessions held before.
\<close>

theorem redeem_is_atomic_exchange:
  assumes "Redeem p w = (res, w')" "\<not> w_tx w"
  shows "w_ccp w' = w_ccp w \<and> (case res of
     Inl e \<Rightarrow> tables (w_db w') = tables (w_db w)
   | Inr (s, rv) \<Rightarrow>
       codeRow (w_db w) (pg_Code p) \<noteq> None \<and> codeRow (w_db w') (pg_Code p) = None \<and>
       sn_CharacterID s = pg_CharacterID p \<and> sn_RefreshToken s = pg_RefreshToken p \<and>
       sn_Scopes s = pg_Scopes p \<and> sn_ValidTil s = w_now w + 30 * day \<and>
       (\<forall>x \<in> set (t_sessions (w_db w')). se_character_id x = pg_CharacterID p \<and> unrevoked x \<longrightarrow> scanSession x = s) \<and>
       (\<exists>x \<in> set (t_sessions (w_db w')). unrevoked x \<and> scanSession x = s) \<and>
       set (rv_Tokens rv) = {t. t \<noteq> [] \<and> (\<exists>x \<in> set (t_sessions (w_db w)). se_character_id x = pg_CharacterID p \<and>
          unrevoked x \<and> se_refresh_token x = Some t)})"
  using assms by (rule redeem_effect)

fun redeemAll :: "(ParkedGrant \<times> time) list \<Rightarrow> world \<Rightarrow> (ParkedGrant \<times> (goerr + Exchanged)) list" where
  "redeemAll [] w = []"
| "redeemAll ((p, t) # ps) w =
    (case Redeem p (w\<lparr>w_now := t, w_tx := False\<rparr>) of (r, w1) \<Rightarrow> (p, r) # redeemAll ps w1)"

definition redeemed :: "string \<Rightarrow> (ParkedGrant \<times> (goerr + Exchanged)) list \<Rightarrow> nat" where
  "redeemed v rs = countWhere (\<lambda>(p, r). pg_Code p = v \<and> (\<exists>x. r = Inr x)) rs"

lemma Redeem_code:
  assumes "Redeem p w = (r, w')" "\<not> w_tx w"
  shows "codeRow (w_db w) v = None \<Longrightarrow> codeRow (w_db w') v = None"
    "codeRow (w_db w) (pg_Code p) = None \<Longrightarrow> \<exists>e. r = Inl e"
    "r = Inr x \<Longrightarrow> codeRow (w_db w') (pg_Code p) = None"
proof -
  note e = redeem_effect[OF assms]
  show "codeRow (w_db w') v = None" if "codeRow (w_db w) v = None"
  proof (cases r)
    case (Inl er)
    then have "tables (w_db w') = tables (w_db w)" using e by simp
    from tables_eqD[OF this] show ?thesis using that by (simp add: codeRow_def)
  next
    case (Inr y)
    obtain q q' where q: "redeemTx p q = (Inr y, q')" "w_db q = w_db w" "w_db q' = w_db w'"
      using Redeem_cases(3)[OF assms Inr] by blast
    obtain s rv where y: "y = (s, rv)" by (cases y)
    obtain u w1 where l: "LockCharacter (pg_CharacterID p) q = (Inr u, w1)"
      and m1: "andThen (wrapA (sessUse ''Redeem'') (Codes_Take (pg_Code p))) (\<lambda>_.
        andThen (wrapA (sessUse ''Redeem'') (RevokeAllForCharacter (pg_CharacterID p))) (\<lambda>revoked.
        andThen (wrapA (sessUse ''Redeem'') (Create (redeemSession p))) (\<lambda>created w.
          (Inr (created, revoked), w)))) w1 = (Inr y, q')"
      using q(1) unfolding redeemTx_def by (elim andThen_InrE) auto
    obtain row w2 where t: "Codes_Take (pg_Code p) w1 = (Inr row, w2)"
      and m2: "andThen (wrapA (sessUse ''Redeem'') (RevokeAllForCharacter (pg_CharacterID p))) (\<lambda>revoked.
        andThen (wrapA (sessUse ''Redeem'') (Create (redeemSession p))) (\<lambda>created w.
          (Inr (created, revoked), w))) w2 = (Inr y, q')"
      using m1 by (elim andThen_InrE) auto
    obtain rv2 w3 where r: "revokeWith ''RevokeAllForCharacter'' (\<lambda>now. doomedOfCharacter (pg_CharacterID p)) w2 = (Inr rv2, w3)"
      and m3: "\<exists>s. Create (redeemSession p) w3 = (Inr s, q')"
      using m2 unfolding RevokeAllForCharacter_def by (elim andThen_InrE) auto
    obtain s2 where c: "Create (redeemSession p) w3 = (Inr s2, q')" using m3 by blast
    have d: "t_codes (w_db q') = removeWhere (\<lambda>c. ac_code c = pg_Code p) (t_codes (w_db w))"
      using Create_ok(2)[OF c] revokeWith_ok(2)[OF r] Codes_Take_ok(3)[OF t] LockCharacter_ok(1)[OF l] q(2) by simp
    have "find (\<lambda>c. ac_code c = v) (removeWhere (\<lambda>c. ac_code c = pg_Code p) (t_codes (w_db w))) = None"
    proof (cases "v = pg_Code p")
      case True then show ?thesis by simp
    next
      case False
      then show ?thesis using that by (subst find_removeWhere_other) (auto simp: codeRow_def)
    qed
    then show ?thesis by (simp add: codeRow_def q(3) [symmetric] d)
  qed
  show "\<exists>e. r = Inl e" if "codeRow (w_db w) (pg_Code p) = None"
    using e that by (cases r) auto
  show "codeRow (w_db w') (pg_Code p) = None" if "r = Inr x"
    using e that by (cases x) auto
qed

lemma redeemed_absent: "codeRow (w_db w) v = None \<Longrightarrow> redeemed v (redeemAll ps w) = 0"
proof (induction ps arbitrary: w)
  case (Cons pt ps)
  obtain p t where pt: "pt = (p, t)" by (cases pt)
  obtain r w1 where r: "Redeem p (w\<lparr>w_now := t, w_tx := False\<rparr>) = (r, w1)" by force
  note k = Redeem_code[OF r]
  show ?case using Cons k r pt by (auto simp: redeemed_def)
qed (simp add: redeemed_def)

text \<open>
  C10. An authorization code is redeemed at most once: of any sequence of redemptions, at any
  times, with any parked data and any database failures, at most one with this code succeeds.
\<close>

theorem code_redeemed_at_most_once: "redeemed v (redeemAll ps w) \<le> 1"
proof (induction ps arbitrary: w)
  case (Cons pt ps)
  obtain p t where pt: "pt = (p, t)" by (cases pt)
  obtain r w1 where r: "Redeem p (w\<lparr>w_now := t, w_tx := False\<rparr>) = (r, w1)" by force
  show ?case
  proof (cases "pg_Code p = v \<and> (\<exists>x. r = Inr x)")
    case True
    then have "codeRow (w_db w1) v = None" using Redeem_code(3)[OF r] by auto
    then show ?thesis using redeemed_absent[of w1 v ps] r pt True by (auto simp: redeemed_def)
  next
    case False
    then show ?thesis using Cons.IH[of w1] r pt by (auto simp: redeemed_def)
  qed
qed (simp add: redeemed_def)

subsection \<open>Logout\<close>


subsection \<open>The EVE access token\<close>

lemma live_refresh [simp]: "live (g\<lparr>gs_refresh := r\<rparr>) now = live g now"
  by (simp add: live_def)

lemma LiveByID_same:
  "LiveByID i w = (x, w1) \<Longrightarrow> w_db w1 = w_db w \<and> w_now w1 = w_now w \<and> w_grants w1 = w_grants w \<and>
     w_ccp w1 = w_ccp w"
  using LiveByID_db[of i w] keepsD[OF keeps_LiveByID[OF fld_now.world_field_axioms], of i w]
    keepsD[OF keeps_LiveByID[OF fld_grants.world_field_axioms], of i w]
    keepsD[OF keeps_LiveByID[OF fld_ccp.world_field_axioms], of i w]
  by simp

text \<open>The part of \<open>eveAccess\<close> after a cached token was ruled out.\<close>

definition eveRefresh :: "SSO \<Rightarrow> Sess \<Rightarrow> string \<Rightarrow> string action" where
  "eveRefresh sso s expected w1 =
     (case LockForRefresh (so_SessionID s) (refreshUnderLock sso (so_CharacterID s) expected) w1 of
          (Inl e, w2) \<Rightarrow>
            (if errors_is e ErrInvalidGrant
             then (case Revoke (so_SessionID s) w2 of (_, w3) \<Rightarrow> (Inl (Wrap (sessUse ''eveAccess'') e), w3))
             else (Inl (Wrap (sessUse ''eveAccess'') e), w2))
        | (Inr _, w2) \<Rightarrow> (Inr (gs_access (w_grants w2 (so_CharacterID s))), w2))"

lemma eveAccess_split:
  assumes "eveAccess sso s w = (r, w')"
  shows "(live (w_grants w (so_CharacterID s)) (w_now w) \<noteq> [] \<and>
      r = Inr (live (w_grants w (so_CharacterID s)) (w_now w)) \<and> w' = w) \<or>
    (live (w_grants w (so_CharacterID s)) (w_now w) = [] \<and>
     (\<exists>ex w1. eveRefresh sso s ex w1 = (r, w') \<and> w_db w1 = w_db w \<and> w_now w1 = w_now w \<and>
       w_grants w1 = w_grants w \<and> w_ccp w1 = w_ccp w \<and> (w_faults w = [] \<longrightarrow> w_faults w1 = [])))"
proof -
  let ?g = "w_grants w (so_CharacterID s)"
  obtain x v where x: "LiveByID (so_SessionID s) w = (x, v)" by force
  have c: "calm (LiveByID (so_SessionID s))"
    unfolding calm_def
    by (auto simp: LiveByID_def runStmt_ok liveStmt_def split: option.split)
  note k = LiveByID_same[OF x] calmD[OF c _ x]
  show ?thesis
  proof (cases "live ?g (w_now w) = []")
    case False
    then have "eveAccess sso s w = (Inr (live ?g (w_now w)), w)" by (simp add: eveAccess_def Let_def)
    then show ?thesis using assms False by simp
  next
    case True
    then have "eveRefresh sso s
        (if gs_refresh ?g \<noteq> [] then gs_refresh ?g else case x of Inl _ \<Rightarrow> [] | Inr row \<Rightarrow> sn_RefreshToken row)
        (if gs_refresh ?g \<noteq> [] then w else v) = (r, w')"
      using assms x by (auto simp: eveAccess_def eveRefresh_def Let_def split: sum.splits)
    then show ?thesis using True k by (cases "gs_refresh ?g \<noteq> []") auto
  qed
qed

lemma writeRefreshStmt_sessions:
  "writeRefreshStmt i nxt d = Inr (u, d') \<Longrightarrow> t_sessions d' = updateWhere (\<lambda>x. se_id x = i)
     (\<lambda>x. x\<lparr>se_refresh_token := nullIfEmpty nxt\<rparr>) (t_sessions d)"
  by (auto simp: writeRefreshStmt_def)

lemma refreshUnderLock_ok:
  assumes "refreshUnderLock sso c ex row w = (Inr nxt, w')" "live (w_grants w c) (w_now w) = []"
  obtains t where "AccessToken sso row (w_now w) = Inr t" "nxt = tk_RefreshToken t" "w_db w' = w_db w"
    "gs_access (w_grants w' c) = tk_AccessToken t"
  using assms by (auto simp: refreshUnderLock_def Let_def setGrant_def split: sum.splits if_splits)

text \<open>
  C13. A token returned by \<open>eveAccess\<close> is either the cached one, which is valid for at least
  another minute, or comes from the sign-in service for exactly the refresh token stored in the
  session's live row, and then the rotated refresh token of the answer is what the row holds
  afterwards and the access token is remembered.
\<close>

theorem eve_access_persists_rotation:
  assumes "eveAccess sso s w = (Inr tok, w')" "wf_db (w_db w)"
  shows "(tok = gs_access (w_grants w (so_CharacterID s)) \<and> tok \<noteq> [] \<and>
        w_now w + 60 * second \<le> gs_expiry (w_grants w (so_CharacterID s)) \<and> w' = w) \<or>
    (\<exists>row t. row \<in> set (t_sessions (w_db w)) \<and> se_id row = so_SessionID s \<and> liveAt (w_now w) row \<and>
       AccessToken sso (deref (se_refresh_token row)) (w_now w) = Inr t \<and> tok = tk_AccessToken t \<and>
       gs_access (w_grants w' (so_CharacterID s)) = tok \<and>
       (\<forall>x \<in> set (t_sessions (w_db w')). se_id x = so_SessionID s \<longrightarrow>
          se_refresh_token x = nullIfEmpty (tk_RefreshToken t)))"
proof (cases "live (w_grants w (so_CharacterID s)) (w_now w) = []")
  case False
  then have "Inr tok = (Inr (live (w_grants w (so_CharacterID s)) (w_now w)) :: goerr + string)" "w' = w"
    using eveAccess_split[OF assms(1)] by auto
  then show ?thesis using False by (auto simp: live_def refreshMargin_def split: if_splits)
next
  case True
  then obtain ex w1 where r: "eveRefresh sso s ex w1 = (Inr tok, w')" and k: "w_db w1 = w_db w"
    "w_now w1 = w_now w" "w_grants w1 = w_grants w"
    using eveAccess_split[OF assms(1)] by auto
  obtain u where l: "LockForRefresh (so_SessionID s) (refreshUnderLock sso (so_CharacterID s) ex) w1 = (Inr u, w')"
    and tok: "tok = gs_access (w_grants w' (so_CharacterID s))"
    using r by (auto simp: eveRefresh_def split: prod.splits sum.splits if_splits)
  from l obtain row t nxt wa wb where f:
    "find (\<lambda>x. se_id x = so_SessionID s \<and> liveAt (w_now w1) x) (t_sessions (w_db w1)) = Some row"
    "rereadStmt (so_SessionID s) (w_db w1) = Inr (t, w_db w1)"
    "refreshUnderLock sso (so_CharacterID s) ex (deref t) wa = (Inr nxt, wb)" "w_db wa = w_db w1"
    "w_now wa = w_now w1" "w_grants wa = w_grants w1"
    "writeRefreshStmt (so_SessionID s) nxt (w_db wb) = Inr ((), w_db w')" "w_grants w' = w_grants wb"
    by (rule LockForRefresh_ok)
  have row: "row \<in> set (t_sessions (w_db w))" "se_id row = so_SessionID s" "liveAt (w_now w) row"
    using find_SomeD[OF f(1)] k by simp_all
  have t: "t = se_refresh_token row"
    using f(2) find_id_in[OF assms(2) row(1)] row(2) k by (simp add: rereadStmt_def)
  have "live (w_grants wa (so_CharacterID s)) (w_now wa) = []" using True f(5,6) k by simp
  from refreshUnderLock_ok[OF f(3) this] obtain a where a: "AccessToken sso (deref t) (w_now wa) = Inr a"
    "nxt = tk_RefreshToken a" "w_db wb = w_db wa" "gs_access (w_grants wb (so_CharacterID s)) = tk_AccessToken a" .
  have "t_sessions (w_db w') = updateWhere (\<lambda>x. se_id x = so_SessionID s)
       (\<lambda>x. x\<lparr>se_refresh_token := nullIfEmpty nxt\<rparr>) (t_sessions (w_db wb))"
    by (rule writeRefreshStmt_sessions[OF f(7)])
  then have "\<forall>x \<in> set (t_sessions (w_db w')). se_id x = so_SessionID s \<longrightarrow>
      se_refresh_token x = nullIfEmpty (tk_RefreshToken a)"
    using a(2) by auto
  then show ?thesis using row t a f(5,8) k tok by auto
qed

lemma calm_refresh: "calm (refreshUnderLock sso c ex row)"
  by (auto simp: calm_def refreshUnderLock_def Let_def split: sum.split)

lemma keeps_ccp_lockRun:
  assumes "\<And>t. keeps w_ccp (fn t)" shows "keeps w_ccp (lockRun i fn)"
  unfolding keeps_def
proof
  fix w
  obtain a w1 where a: "runStmt (liveStmt i (w_now w)) w = (a, w1)" by force
  obtain b w2 where b: "runStmt (rereadStmt i) w1 = (b, w2)" by force
  obtain c w3 where c: "fn (case b of Inr t \<Rightarrow> deref t | Inl _ \<Rightarrow> []) w2 = (c, w3)" by force
  obtain d w4 where d: "runStmt (writeRefreshStmt i (case c of Inr t \<Rightarrow> t | Inl _ \<Rightarrow> [])) w3 = (d, w4)" by force
  have "w_ccp w1 = w_ccp w" "w_ccp w2 = w_ccp w1" "w_ccp w4 = w_ccp w3"
    using keepsD[OF fld_ccp.keeps_runStmt, of "liveStmt i (w_now w)" w]
      keepsD[OF fld_ccp.keeps_runStmt, of "rereadStmt i" w1]
      keepsD[OF fld_ccp.keeps_runStmt, of "writeRefreshStmt i (case c of Inr t \<Rightarrow> t | Inl _ \<Rightarrow> [])" w3] a b d
    by simp_all
  moreover have "w_ccp w3 = w_ccp w2" using keepsD[OF assms, of _ w2] c by (metis snd_conv)
  ultimately show "w_ccp (snd (lockRun i fn w)) = w_ccp w"
    using a b c d by (cases a; cases b; cases c) (auto simp: lockRun_def wrapA_def wrapR_def split: option.split)
qed

lemma keeps_ccp_refresh: "keeps w_ccp (LockForRefresh i (refreshUnderLock sso c ex))"
proof -
  have l: "keeps w_ccp (lockRun i (refreshUnderLock sso c ex))"
    by (rule keeps_ccp_lockRun) (auto simp: keeps_def refreshUnderLock_def Let_def split: sum.split)
  then have "keeps w_ccp (wrapA (sessOp ''LockForRefresh'') (WithinTx (lockRun i (refreshUnderLock sso c ex))))"
    by (intro fld_ccp.keeps_rules)
  with l show ?thesis by (simp add: keeps_def LockForRefresh_def)
qed


subsection \<open>The character behind a session\<close>

lemma Character_ok:
  assumes "Character s w = (Inr tok, w')"
  shows "\<exists>row c. row \<in> set (t_sessions (w_db w)) \<and> se_id row = so_SessionID s \<and> liveAt (w_now w) row \<and>
      se_character_id row = so_CharacterID s \<and> set RequestedScopes \<subseteq> set (se_scopes row) \<and>
      c \<in> set (t_characters (w_db w)) \<and> ch_id c = so_CharacterID s \<and> Live c \<and>
      tk_CharacterID tok = ch_id c \<and> tk_Scopes tok = se_scopes row \<and> tk_OwnerHash tok = ch_owner_hash c \<and>
      w_db w' = w_db w"
proof -
  obtain row w1 where row: "LiveByID (so_SessionID s) w = (Inr row, w1)" "sn_CharacterID row = so_CharacterID s"
    using assms by (auto simp: Character_def split: if_splits prod.splits sum.splits)
  obtain c w2 where c: "Characters_Get (so_CharacterID s) w1 = (Inr c, w2)" "Live c"
    using assms row by (auto simp: Character_def split: if_splits prod.splits sum.splits)
  obtain u w3 where sc: "revokeIfScopesFallShort s (sn_Scopes row) w2 = (Inr u, w3)"
    using assms row c by (auto simp: Character_def wrapA_def wrapR_def split: if_splits prod.splits sum.splits)
  have m: "MissingScopes (sn_Scopes row) = []" "w3 = w2"
    using sc by (auto simp: revokeIfScopesFallShort_def split: if_splits prod.splits)
  have tok: "w' = w3" "tk_CharacterID tok = ch_id c" "tk_Scopes tok = sn_Scopes row" "tk_OwnerHash tok = ch_owner_hash c"
    using assms row c sc by (auto simp: Character_def wrapA_def wrapR_def split: if_splits)
  obtain r where r: "find (\<lambda>s'. se_id s' = so_SessionID s \<and> liveAt (w_now w) s') (t_sessions (w_db w)) = Some r"
    "row = scanSession r" "w_db w1 = w_db w"
    using LiveByID_ok[OF row(1)] by metis
  note C = Characters_Get_ok[OF c(1)]
  have "c \<in> set (t_characters (w_db w)) \<and> ch_id c = so_CharacterID s"
    using find_SomeD[of _ "t_characters (w_db w1)" c] C(1) r(3) by (auto simp: characterRow_def)
  then show ?thesis
    using find_SomeD[OF r(1)] r row(2) m tok c(2) C(2)
    by (intro exI[of _ r] exI[of _ c]) (auto simp: scanSession_def)
qed

lemma character_needs_live_session_db: "Character s w = (Inr tok, w') \<Longrightarrow> w_db w' = w_db w"
  using Character_ok by blast

text \<open>
  C15. A tool gets a character only behind a live session: the session row is unrevoked and
  before its \<open>valid_til\<close>, belongs to this character, the character is not deleted, and the
  session's scopes cover everything this build asks for. The token shows that row's data.
\<close>

theorem character_needs_live_session:
  assumes "Character s w = (Inr tok, w')"
  shows "\<exists>row c. row \<in> set (t_sessions (w_db w)) \<and> se_id row = so_SessionID s \<and> liveAt (w_now w) row \<and>
      se_character_id row = so_CharacterID s \<and> set RequestedScopes \<subseteq> set (se_scopes row) \<and>
      c \<in> set (t_characters (w_db w)) \<and> ch_id c = so_CharacterID s \<and> Live c \<and>
      tk_CharacterID tok = ch_id c \<and> tk_Scopes tok = se_scopes row \<and> tk_OwnerHash tok = ch_owner_hash c \<and>
      w_db w' = w_db w"
  using assms by (rule Character_ok)

subsection \<open>Concrete instances\<close>

definition sampleParked :: ParkedGrant where
  "sampleParked = \<lparr>pg_Code = ''k'', pg_CharacterID = 7, pg_RefreshToken = ''new'', pg_Scopes = RequestedScopes,
     pg_MCPClientID = ''c'', pg_ClientName = [], pg_IP = []\<rparr>"

definition sampleCode :: code_row where
  "sampleCode = \<lparr>ac_code = ''k'', ac_character_id = 7, ac_refresh_token = ''new'', ac_scopes = RequestedScopes,
     ac_mcp_client_id = ''c'', ac_redirect_uri = [], ac_code_challenge = [], ac_expires_at = 50\<rparr>"

definition codeW :: world where
  "codeW = (world0 9)\<lparr>w_db := sampleDb\<lparr>t_codes := [sampleCode]\<rparr>\<rparr>"

lemma sample_redeem:
  "\<exists>s rv w'. Redeem sampleParked codeW = (Inr (s, rv), w') \<and> rv_Tokens rv = [''r'']"
  by (simp add: Redeem_def redeemTx_def WithinTx_def andThen_def wrapA_def wrapR_def LockCharacter_def
      runStmt_ok Codes_Take_def takeStmt_def RevokeAllForCharacter_def revokeWith_def revokeStmt_def Let_def
      Create_def createStmt_def doomedOfCharacter_def codeW_def world0_def sampleDb_def empty_db_def
      sampleParked_def sampleCode_def redeemSession_def createRow_def unrevoked_def collectRevoked_def deref_def)

theorem redeem_is_atomic_exchange_witness:
  "\<exists>s rv w'. Redeem sampleParked codeW = (Inr (s, rv), w') \<and> codeRow (w_db w') ''k'' = None \<and>
     sn_ValidTil s = 9 + 30 * day \<and> (\<exists>x \<in> set (t_sessions (w_db w')). unrevoked x \<and> scanSession x = s)"
proof -
  obtain s rv w' where a: "Redeem sampleParked codeW = (Inr (s, rv), w')" using sample_redeem by blast
  have "\<not> w_tx codeW" by (simp add: codeW_def world0_def)
  from redeem_is_atomic_exchange[OF a this] show ?thesis
    using a by (auto simp: sampleParked_def codeW_def world0_def)
qed

definition sampleSess :: Sess where
  "sampleSess = \<lparr>so_CharacterID = 7, so_SessionID = 1, so_Guard = NewGuard 7 1\<rparr>"

lemma sample_logout: "\<exists>w'. Logout sampleSess (sampleW 9) = (Inr (7, ''Pilot''), w') \<and> w_ccp w' = [''r'']"
  by (simp add: Logout_def logoutTx_def WithinTx_def andThen_def wrapA_def wrapR_def LockCharacter_def
      Characters_Get_def characterRow_def Characters_Delete_def deleteCharacterStmt_def
      runStmt_ok Revoke_def revokeWith_def revokeStmt_def Let_def doomedOne_def sampleW_def world0_def
      sampleDb_def empty_db_def sampleSess_def unrevoked_def collectRevoked_def deref_def revokeAtCCP_def)


definition sampleSSO :: SSO where
  "sampleSSO = \<lparr>PrepareLogin = (\<lambda>_ _. Inl (External ''login'')),
     ExchangeCode = (\<lambda>_ _ _. Inl (Sentinel ErrInvalidGrant)),
     AccessToken = (\<lambda>r t. if r = ''r''
       then Inr \<lparr>tk_CharacterID = 7, tk_CharacterName = ''Pilot'', tk_RefreshToken = ''r2'', tk_Scopes = [],
              tk_OwnerHash = ''h'', tk_AddedAt = 0, tk_AccessToken = ''a'', tk_AccessExpiresAt = t + 20 * minute\<rparr>
       else Inl (Sentinel ErrInvalidGrant))\<rparr>"

lemma wf_sampleDb: "wf_db sampleDb"
  by (simp add: wf_defs sampleDb_def empty_db_def unrevoked_def)

lemma sample_refresh: "\<exists>w'. eveAccess sampleSSO sampleSess (sampleW 9) = (Inr ''a'', w')"
  by (simp add: eveAccess_def Let_def sampleSess_def sampleW_def world0_def noGrant_def live_def
      LiveByID_def runStmt_ok liveStmt_def sampleDb_def empty_db_def liveAt_def unrevoked_def scanSession_def
      LockForRefresh_def WithinTx_def lockRun_def wrapA_def rereadStmt_def refreshUnderLock_def deref_def
      sampleSSO_def setGrant_def writeRefreshStmt_def)

theorem eve_access_persists_rotation_witness:
  "\<exists>w'. eveAccess sampleSSO sampleSess (sampleW 9) = (Inr ''a'', w') \<and>
     (\<forall>x \<in> set (t_sessions (w_db w')). se_id x = 1 \<longrightarrow> se_refresh_token x = Some ''r2'')"
proof -
  obtain w' where a: "eveAccess sampleSSO sampleSess (sampleW 9) = (Inr ''a'', w')" using sample_refresh by blast
  have "wf_db (w_db (sampleW 9))" by (simp add: sampleW_def wf_sampleDb)
  from eve_access_persists_rotation[OF a this] show ?thesis
    using a by (auto simp: sampleSess_def sampleW_def world0_def noGrant_def sampleSSO_def nullIfEmpty_def
        sampleDb_def split: if_splits)
qed

definition deadSSO :: SSO where
  "deadSSO = sampleSSO\<lparr>AccessToken := (\<lambda>_ _. Inl (Sentinel ErrInvalidGrant))\<rparr>"

lemma sample_dead: "\<exists>e w'. eveAccess deadSSO sampleSess (sampleW 9) = (Inl e, w') \<and> errors_is e ErrInvalidGrant"
  by (simp add: eveAccess_def Let_def sampleSess_def sampleW_def world0_def noGrant_def live_def
      LiveByID_def runStmt_ok liveStmt_def sampleDb_def empty_db_def liveAt_def unrevoked_def scanSession_def
      LockForRefresh_def WithinTx_def lockRun_def wrapA_def rereadStmt_def refreshUnderLock_def deref_def
      sampleSSO_def deadSSO_def setGrant_def writeRefreshStmt_def Revoke_def revokeWith_def revokeStmt_def)


definition fullW :: world where
  "fullW = (world0 9)\<lparr>w_db := sampleDb\<lparr>t_sessions := map (\<lambda>s. s\<lparr>se_scopes := RequestedScopes\<rparr>) (t_sessions sampleDb)\<rparr>\<rparr>"

lemma sample_character: "\<exists>tok w'. Character sampleSess fullW = (Inr tok, w')"
  by (simp add: Character_def sampleSess_def fullW_def world0_def LiveByID_def runStmt_ok liveStmt_def
      sampleDb_def empty_db_def liveAt_def unrevoked_def scanSession_def Characters_Get_def characterRow_def
      Live_def revokeIfScopesFallShort_def wrapA_def wrapR_def)

theorem character_needs_live_session_witness:
  "\<exists>tok w'. Character sampleSess fullW = (Inr tok, w') \<and> tk_CharacterID tok = 7"
proof -
  obtain tok w' where a: "Character sampleSess fullW = (Inr tok, w')" using sample_character by blast
  from character_needs_live_session[OF a] show ?thesis using a by (auto simp: sampleSess_def)
qed

end
