(* ===== verification/OAuthProps.thy ===== *)
theory OAuthProps
  imports OAuth SessionProps
begin

text \<open>
  What the authorization server promises: tokens are handed out only against a proof key or a
  live session, a request reaches the MCP endpoint only behind a live session with all scopes,
  and the callback writes nothing for a grant that falls short.
\<close>

subsection \<open>Reading handlers\<close>

text \<open>A function \<^emph>\<open>reads\<close> when tables, clock, the log of CCP calls and the transaction stay.\<close>

definition reads :: "(world \<Rightarrow> 'r \<times> world) \<Rightarrow> bool" where
  "reads m = (\<forall>w. w_db (snd (m w)) = w_db w \<and> w_now (snd (m w)) = w_now w \<and>
     w_ccp (snd (m w)) = w_ccp w \<and> w_tx (snd (m w)) = w_tx w)"

lemma readsD: "reads m \<Longrightarrow> m w = (x, w') \<Longrightarrow>
    w_db w' = w_db w \<and> w_now w' = w_now w \<and> w_ccp w' = w_ccp w \<and> w_tx w' = w_tx w"
  unfolding reads_def by (metis snd_conv)

lemma reads_runStmt:
  assumes "\<And>d x d'. f d = Inr (x, d') \<Longrightarrow> d' = d"
  shows "reads (runStmt f)"
  unfolding reads_def
proof
  fix w :: world
  obtain r w' where r: "runStmt f w = (r, w')" by force
  show "w_db (snd (runStmt f w)) = w_db w \<and> w_now (snd (runStmt f w)) = w_now w \<and>
     w_ccp (snd (runStmt f w)) = w_ccp w \<and> w_tx (snd (runStmt f w)) = w_tx w"
  proof (cases r)
    case (Inl e) then show ?thesis using r runStmt_Inl[of f w e w'] by simp
  next
    case (Inr x) then show ?thesis using r runStmt_Inr[of f w x w'] assms by auto
  qed
qed

lemma reads_post: "reads m \<Longrightarrow> (\<And>w. snd (n w) = snd (m w)) \<Longrightarrow> reads n"
  by (simp add: reads_def)

lemma reads_Codes_Get: "reads (Codes_Get v)"
  by (rule reads_post[OF reads_runStmt[of "\<lambda>d. Inr (codeRow d v, d)"]])
     (auto simp: Codes_Get_def split: prod.split sum.split option.split)

lemma reads_Clients_Get: "reads (Clients_Get v)"
  by (rule reads_post[OF reads_runStmt[of "\<lambda>d. Inr (find (\<lambda>c. oc_client_id c = v \<and> oc_deleted_at c = None) (t_clients d), d)"]])
     (auto simp: Clients_Get_def split: prod.split sum.split option.split)

lemma reads_clientName: "reads (clientName v)"
  by (rule reads_post[OF reads_Clients_Get[of v]]) (auto simp: clientName_def split: prod.split sum.split)

lemma clientRedirectOK_world:
  "snd (clientRedirectOK N s c r w) = (if redirectAllowed N s r then snd (Clients_Get c w) else w)"
  by (auto simp: clientRedirectOK_def split: prod.split sum.split)

lemma reads_clientRedirectOK: "reads (clientRedirectOK N s c r)"
  using reads_Clients_Get[of c] by (simp add: reads_def clientRedirectOK_world)

lemma reads_LiveByID: "reads (LiveByID i)"
  unfolding reads_def
proof
  fix w :: world
  have "reads (runStmt (liveStmt i (w_now w)))" by (rule reads_runStmt) (simp add: liveStmt_def)
  moreover have "snd (LiveByID i w) = snd (runStmt (liveStmt i (w_now w)) w)"
    by (auto simp: LiveByID_def split: prod.split sum.split option.split)
  ultimately show "w_db (snd (LiveByID i w)) = w_db w \<and> w_now (snd (LiveByID i w)) = w_now w \<and>
     w_ccp (snd (LiveByID i w)) = w_ccp w \<and> w_tx (snd (LiveByID i w)) = w_tx w"
    by (simp add: reads_def)
qed

lemma Codes_Get_ok:
  assumes "Codes_Get v w = (Inr c, w')"
  shows "codeRow (w_db w) v = Some c" "w_now w \<le> ac_expires_at c" "ac_code c = v"
proof -
  have r: "runStmt (\<lambda>d. Inr (codeRow d v, d)) w = (Inr (Some c), w')"
    and t: "w_now w \<le> ac_expires_at c"
    using assms by (auto simp: Codes_Get_def split: prod.splits sum.splits option.splits if_splits)
  show c: "codeRow (w_db w) v = Some c" using runStmt_Inr(1)[OF r] by auto
  show "w_now w \<le> ac_expires_at c" by (fact t)
  show "ac_code c = v" using find_SomeD[OF c[unfolded codeRow_def]] by simp
qed

subsection \<open>The token endpoint\<close>

definition isTokens :: "reply \<Rightarrow> bool" where
  "isTokens r = (\<exists>ob. r = JsonReply 200 ob)"

lemma not_tokens [simp]: "\<not> isTokens invalidGrant" "\<not> isTokens (writeOAuthError e)"
  by (simp_all add: isTokens_def invalidGrant_def writeOAuthError_def)

lemma exchangeCode_effect:
  assumes "exchangeCode J s form ip w = (rep, w')" "\<not> w_tx w"
  shows "(tables (w_db w') = tables (w_db w) \<and> w_ccp w' = w_ccp w \<and> \<not> isTokens rep) \<or>
    (\<exists>row sess.
       codeRow (w_db w) (form ''code'') = Some row \<and> w_now w \<le> ac_expires_at row \<and>
       (form ''redirect_uri'' = [] \<or> form ''redirect_uri'' = ac_redirect_uri row) \<and>
       form ''code_verifier'' \<noteq> [] \<and>
       trimRight (CHR ''='') (ac_code_challenge row) = rawURLEncode (sha256 (form ''code_verifier'')) \<and>
       codeRow (w_db w') (form ''code'') = None \<and>
       sn_CharacterID sess = ac_character_id row \<and> sn_RefreshToken sess = ac_refresh_token row \<and>
       sn_Scopes sess = ac_scopes row \<and> sn_ValidTil sess = w_now w + 30 * day \<and>
       (\<forall>x \<in> set (t_sessions (w_db w')). se_character_id x = ac_character_id row \<and> unrevoked x \<longrightarrow> scanSession x = sess) \<and>
       (\<exists>x \<in> set (t_sessions (w_db w')). unrevoked x \<and> scanSession x = sess) \<and>
       rep = writeTokens J s (ac_character_id row) (sn_ID sess) (w_now w + 30 * day) (w_now w) \<and>
       (\<exists>sent. w_ccp w' = w_ccp w @ sent \<and> set sent = {t. t \<noteq> [] \<and>
          (\<exists>x \<in> set (t_sessions (w_db w)). se_character_id x = ac_character_id row \<and> unrevoked x \<and>
             se_refresh_token x = Some t)}))"
    (is "?refused \<or> ?issued")
proof -
  let ?code = "form ''code''"
  obtain a w1 where a: "Codes_Get ?code w = (a, w1)" by force
  note r1 = readsD[OF reads_Codes_Get a]
  show ?thesis
  proof (cases a)
    case (Inl e)
    then show ?thesis using assms a r1 by (auto simp: exchangeCode_def split: if_splits)
  next
    case (Inr row)
    note g = Codes_Get_ok[OF a[unfolded Inr]]
    show ?thesis
    proof (cases "(form ''redirect_uri'' \<noteq> [] \<and> form ''redirect_uri'' \<noteq> ac_redirect_uri row) \<or>
        \<not> pkceOK (ac_code_challenge row) (form ''code_verifier'')")
      case True
      then have "rep = invalidGrant" "w' = w1"
        using assms(1) a Inr by (auto simp: exchangeCode_def Let_def split: if_splits prod.splits)
      then show ?thesis using r1 by simp
    next
      case False
      obtain name w2 where n: "clientName (ac_mcp_client_id row) w1 = (name, w2)" by force
      note r2 = readsD[OF reads_clientName n]
      let ?p = "\<lparr>pg_Code = ac_code row, pg_CharacterID = ac_character_id row,
              pg_RefreshToken = ac_refresh_token row, pg_Scopes = ac_scopes row,
              pg_MCPClientID = ac_mcp_client_id row, pg_ClientName = name, pg_IP = ip\<rparr>"
      obtain b w3 where b: "Redeem ?p w2 = (b, w3)" by force
      have tx: "\<not> w_tx w2" using r1 r2 assms(2) by simp
      note E = redeem_effect[OF b tx]
      show ?thesis
      proof (cases b)
        case (Inl e)
        then have "w' = w3" "\<not> isTokens rep"
          using assms(1) a Inr n b False by (auto simp: exchangeCode_def Let_def split: if_splits)
        then show ?thesis using E Inl r1 r2 by simp
      next
        case I: (Inr y)
        obtain sess rv where y: "y = (sess, rv)" by (cases y)
        have w': "w' = revokeAtCCP (rv_Tokens rv) w3"
          and rep: "rep = writeTokens J s (sn_CharacterID sess) (sn_ID sess) (sn_ValidTil sess) (w_now w3)"
          using assms(1) a Inr n b I y False by (auto simp: exchangeCode_def Let_def split: if_splits)
        have now: "w_now w3 = w_now w2"
        proof -
          have "keeps w_now (Redeem ?p)"
            unfolding Redeem_def
            by (intro fld_now.keeps_rules keeps_redeemTx fld_now.world_field_axioms)
          then show ?thesis using keepsD[of w_now "Redeem ?p" w2] b by simp
        qed
        have e: "w_ccp w3 = w_ccp w2" "codeRow (w_db w3) ?code = None"
          "sn_CharacterID sess = ac_character_id row" "sn_RefreshToken sess = ac_refresh_token row"
          "sn_Scopes sess = ac_scopes row" "sn_ValidTil sess = w_now w2 + 30 * day"
          "\<forall>x \<in> set (t_sessions (w_db w3)). se_character_id x = ac_character_id row \<and> unrevoked x \<longrightarrow> scanSession x = sess"
          "\<exists>x \<in> set (t_sessions (w_db w3)). unrevoked x \<and> scanSession x = sess"
          "set (rv_Tokens rv) = {t. t \<noteq> [] \<and> (\<exists>x \<in> set (t_sessions (w_db w2)). se_character_id x = ac_character_id row \<and>
             unrevoked x \<and> se_refresh_token x = Some t)}"
          using E I y g(3) by simp_all
        have p: "form ''code_verifier'' \<noteq> []"
          "trimRight (CHR ''='') (ac_code_challenge row) = rawURLEncode (sha256 (form ''code_verifier''))"
          using False by (simp_all add: pkceOK_iff)
        have ?issued
          by (rule exI[of _ row], rule exI[of _ sess])
             (use g e p r1 r2 False w' rep now in auto)
        then show ?thesis ..
      qed
    qed
  qed
qed


text \<open>
  C17. The refresh grant. It writes nothing. Tokens come back only for a token of ours that parses
  as a refresh token and names a live session of the same character, and the new refresh token
  ends when that session does: refreshing never extends the thirty days.
\<close>

theorem refresh_grant_keeps_the_term:
  assumes "refreshGrant J s form w = (rep, w')"
  shows "w_db w' = w_db w \<and> w_ccp w' = w_ccp w \<and>
    (rep = invalidGrant \<or>
     (\<exists>ref. parseRefresh J s (form ''refresh_token'') (w_now w) = Inr ref \<and>
       (\<exists>x \<in> set (t_sessions (w_db w)). se_id x = is_SessionID ref \<and> liveAt (w_now w) x \<and>
          se_character_id x = is_CharacterID ref \<and>
          rep = writeTokens J s (se_character_id x) (se_id x) (se_valid_til x) (w_now w))))"
proof (cases "parseRefresh J s (form ''refresh_token'') (w_now w)")
  case (Inl e) then show ?thesis using assms by (simp add: refreshGrant_def)
next
  case (Inr ref)
  obtain a w1 where a: "LiveByID (is_SessionID ref) w = (a, w1)" by force
  note r = readsD[OF reads_LiveByID a]
  show ?thesis
  proof (cases a)
    case (Inl e) then show ?thesis using assms Inr a r by (simp add: refreshGrant_def)
  next
    case I: (Inr row)
    from a I obtain x where x: "find (\<lambda>s. se_id s = is_SessionID ref \<and> liveAt (w_now w) s) (t_sessions (w_db w)) = Some x"
      "row = scanSession x"
      by (auto elim: LiveByID_ok)
    show ?thesis
      using assms Inr a I r x find_SomeD[OF x(1)]
      by (auto simp: refreshGrant_def scanSession_def split: if_splits intro!: exI[of _ ref] bexI[of _ x])
  qed
qed

subsection \<open>In front of the MCP endpoint\<close>

text \<open>What \<open>requireLive\<close> does: passes for a live session with all scopes, and may revoke one that lost some.\<close>

lemma requireLive_effect:
  assumes "requireLive ref w = (res, w')"
  shows "w_ccp w' = w_ccp w \<and> w_now w' = w_now w"
    "res = Inr u \<Longrightarrow> w_db w' = w_db w \<and> (\<exists>x \<in> set (t_sessions (w_db w)). se_id x = is_SessionID ref \<and>
       liveAt (w_now w) x \<and> se_character_id x = is_CharacterID ref \<and> MissingScopes (se_scopes x) = [])"
    "res = Inl e \<Longrightarrow> wf_db (w_db w) \<Longrightarrow> x \<in> set (t_sessions (w_db w)) \<Longrightarrow>
       se_id x \<noteq> is_SessionID ref \<or> MissingScopes (se_scopes x) = [] \<Longrightarrow> x \<in> set (t_sessions (w_db w'))"
proof -
  obtain a w1 where a: "LiveByID (is_SessionID ref) w = (a, w1)" by force
  note r = readsD[OF reads_LiveByID a]
  obtain q w2 where q: "Revoke (is_SessionID ref) w1 = (q, w2)" by force
  have rv: "w_ccp w2 = w_ccp w1 \<and> w_now w2 = w_now w1"
    using q revokeWith_ok(3,4)[of "''Revoke''" "\<lambda>now. doomedOne (is_SessionID ref)" w1 _ w2]
      revokeWith_err(2,3)[of "''Revoke''" "\<lambda>now. doomedOne (is_SessionID ref)" w1 _ w2]
    by (cases q) (auto simp: Revoke_def)
  show "w_ccp w' = w_ccp w \<and> w_now w' = w_now w"
    using assms a r q rv by (auto simp: requireLive_def split: sum.splits if_splits)
  have live: thesis if "a = Inr row"
    "\<And>x. x \<in> set (t_sessions (w_db w)) \<Longrightarrow> se_id x = is_SessionID ref \<Longrightarrow> liveAt (w_now w) x \<Longrightarrow> row = scanSession x \<Longrightarrow> thesis"
    for row thesis
  proof -
    from a that(1) obtain x where "find (\<lambda>s. se_id s = is_SessionID ref \<and> liveAt (w_now w) s) (t_sessions (w_db w)) = Some x"
      "row = scanSession x" by (auto elim: LiveByID_ok)
    then show thesis using that(2) find_SomeD by fastforce
  qed
  show "w_db w' = w_db w \<and> (\<exists>x \<in> set (t_sessions (w_db w)). se_id x = is_SessionID ref \<and>
       liveAt (w_now w) x \<and> se_character_id x = is_CharacterID ref \<and> MissingScopes (se_scopes x) = [])"
    if res: "res = Inr u"
  proof -
    obtain row where row: "a = Inr row" "sn_CharacterID row = is_CharacterID ref" "MissingScopes (sn_Scopes row) = []" "w' = w1"
      using assms a q res by (auto simp: requireLive_def split: sum.splits if_splits)
    obtain x where "x \<in> set (t_sessions (w_db w))" "se_id x = is_SessionID ref" "liveAt (w_now w) x" "row = scanSession x"
      using live[OF row(1)] by blast
    then show ?thesis using row r by (auto simp: scanSession_def)
  qed
  show "x \<in> set (t_sessions (w_db w'))" if res: "res = Inl e" and wf: "wf_db (w_db w)" and x: "x \<in> set (t_sessions (w_db w))"
    and keep: "se_id x \<noteq> is_SessionID ref \<or> MissingScopes (se_scopes x) = []"
  proof (cases "\<exists>row. a = Inr row \<and> MissingScopes (sn_Scopes row) \<noteq> [] \<and> w' = w2")
    case False
    then have "w' = w1" using assms a q res by (auto simp: requireLive_def split: sum.splits if_splits)
    then show ?thesis using r x by simp
  next
    case True
    then obtain row where row: "a = Inr row" "MissingScopes (sn_Scopes row) \<noteq> []" "w' = w2" by blast
    obtain y where y: "y \<in> set (t_sessions (w_db w))" "se_id y = is_SessionID ref" "row = scanSession y"
      using live[OF row(1)] by blast
    have ne: "se_id x \<noteq> is_SessionID ref"
      using keep session_unique[OF wf x y(1)] y row(2) by (auto simp: scanSession_def)
    show ?thesis
    proof (cases q)
      case (Inl e')
      then show ?thesis using row q revokeWith_err(1) r x by (auto simp: Revoke_def)
    next
      case (Inr rv)
      have "w_db w2 = (w_db w1)\<lparr>t_sessions := updateWhere (\<lambda>s. se_id s \<in> set (map se_id (doomedOne (is_SessionID ref) (t_sessions (w_db w1)))))
         (\<lambda>s. s\<lparr>se_revoked_at := Some (w_now w1), se_refresh_token := None\<rparr>) (t_sessions (w_db w1))\<rparr>"
        using revokeWith_ok(2) q Inr by (simp add: Revoke_def)
      then show ?thesis
        using row r x ne by (auto simp: doomedOne_def image_iff intro!: bexI[of _ x])
    qed
  qed
qed

text \<open>
  C14. A bearer token is accepted only when it verifies as an access token and names a live session
  of its own character that holds every scope of this build; accepting changes no table. Refusing
  changes none either, except that a session whose scopes fall short may be revoked: every other
  row stays.
\<close>

theorem access_needs_live_session:
  assumes "VerifyAccess J s token w = (res, w')" "wf_db (w_db w)"
  shows "w_ccp w' = w_ccp w \<and> (case res of
     Inr info \<Rightarrow> w_db w' = w_db w \<and> (\<exists>ref. verifyAccess J s token (w_now w) = Inr (info, ref) \<and>
       (\<exists>x \<in> set (t_sessions (w_db w)). se_id x = is_SessionID ref \<and> liveAt (w_now w) x \<and>
          se_character_id x = is_CharacterID ref \<and> MissingScopes (se_scopes x) = []))
   | Inl e \<Rightarrow> (\<forall>x \<in> set (t_sessions (w_db w)). MissingScopes (se_scopes x) = [] \<longrightarrow> x \<in> set (t_sessions (w_db w'))))"
proof (cases "verifyAccess J s token (w_now w)")
  case (Inl e)
  then show ?thesis using assms(1) by (auto simp: VerifyAccess_def)
next
  case (Inr y)
  obtain info ref where y: "y = (info, ref)" by (cases y)
  obtain r w1 where r: "requireLive ref w = (r, w1)" by force
  note E = requireLive_effect[OF r]
  show ?thesis
  proof (cases r)
    case (Inl e)
    then show ?thesis using assms Inr y r E(1) E(3)[OF Inl assms(2)] by (auto simp: VerifyAccess_def)
  next
    case I: (Inr u)
    then show ?thesis using assms Inr y r E(1) E(2)[OF I] by (auto simp: VerifyAccess_def)
  qed
qed

text \<open>
  The session objects of the server: every entry is under its own character, and its guard is
  bound to the same character and session.
\<close>

definition sessions_ok :: "Server \<Rightarrow> bool" where
  "sessions_ok s = (\<forall>k sess. sv_Sessions s k = Some sess \<longrightarrow> k = itoa (so_CharacterID sess) \<and>
     g_characterID (so_Guard sess) = so_CharacterID sess \<and> g_sessionID (so_Guard sess) = so_SessionID sess)"

lemma SessionFor_effect:
  assumes "SessionFor c sid s w = (sess, s', w')" "sessions_ok s"
  shows "sessions_ok s'" "so_CharacterID sess = c" "so_SessionID sess = sid" "sv_Sessions s' (itoa c) = Some sess"
    "g_characterID (so_Guard sess) = c" "g_sessionID (so_Guard sess) = sid" "w_db w' = w_db w" "w_ccp w' = w_ccp w"
    "w_grants w' = (case sv_Sessions s (itoa c) of
       Some old \<Rightarrow> if so_SessionID old = sid then w_grants w else (w_grants w)(c := noGrant)
     | None \<Rightarrow> (w_grants w)(c := noGrant))"
proof -
  have old: "so_CharacterID old = c" "g_characterID (so_Guard old) = c" "g_sessionID (so_Guard old) = so_SessionID old"
    if "sv_Sessions s (itoa c) = Some old" for old
  proof -
    have "itoa c = itoa (so_CharacterID old)" using assms(2) that unfolding sessions_ok_def by blast
    then show "so_CharacterID old = c" by (rule itoa_inj[symmetric])
    then show "g_characterID (so_Guard old) = c" "g_sessionID (so_Guard old) = so_SessionID old"
      using assms(2) that unfolding sessions_ok_def by blast+
  qed
  have ok: "sessions_ok (s\<lparr>sv_Sessions := (sv_Sessions s)(itoa c \<mapsto> z)\<rparr>)"
    if "so_CharacterID z = c" "g_characterID (so_Guard z) = c" "g_sessionID (so_Guard z) = so_SessionID z" for z
    using assms(2) that by (simp add: sessions_ok_def)
  consider (new) "sv_Sessions s (itoa c) = None" "sess = \<lparr>so_CharacterID = c, so_SessionID = sid, so_Guard = NewGuard c sid\<rparr>"
      "s' = s\<lparr>sv_Sessions := (sv_Sessions s)(itoa c \<mapsto> sess)\<rparr>" "w' = w\<lparr>w_grants := (w_grants w)(c := noGrant)\<rparr>"
    | (kept) "sv_Sessions s (itoa c) = Some sess" "so_SessionID sess = sid" "s' = s" "w' = w"
    | (rebuilt) old0 where "sv_Sessions s (itoa c) = Some old0" "so_SessionID old0 \<noteq> sid"
      "sess = old0\<lparr>so_SessionID := sid, so_Guard := NewGuard c sid\<rparr>"
      "s' = s\<lparr>sv_Sessions := (sv_Sessions s)(itoa c \<mapsto> sess)\<rparr>" "w' = w\<lparr>w_grants := (w_grants w)(c := noGrant)\<rparr>"
  proof (cases "sv_Sessions s (itoa c)")
    case None
    then show thesis using assms(1) by (intro new) (auto simp: SessionFor_def ForCharacter_def Let_def)
  next
    case (Some o')
    then show thesis
    proof (cases "so_SessionID o' = sid")
      case True
      then show thesis using assms(1) Some by (intro kept) (auto simp: SessionFor_def)
    next
      case False
      then show thesis
        using assms(1) Some old(1)[OF Some] by (intro rebuilt) (auto simp: SessionFor_def RebuildGrant_def Let_def)
    qed
  qed
  note three = this
  show "sessions_ok s'" by (cases rule: three) (simp_all add: ok assms(2) NewGuard_def old)
  show "so_CharacterID sess = c" "so_SessionID sess = sid" "sv_Sessions s' (itoa c) = Some sess"
    "g_characterID (so_Guard sess) = c" "g_sessionID (so_Guard sess) = sid" "w_db w' = w_db w" "w_ccp w' = w_ccp w"
    by (cases rule: three, simp_all add: NewGuard_def old)+
  show "w_grants w' = (case sv_Sessions s (itoa c) of
       Some old \<Rightarrow> if so_SessionID old = sid then w_grants w else (w_grants w)(c := noGrant)
     | None \<Rightarrow> (w_grants w)(c := noGrant))"
    by (cases rule: three) simp_all
qed

text \<open>
  C18. A request is served only with the session object of the token's character and session id,
  whose guard carries the same two ids, behind a live session row with every scope. The server
  keeps one object per character, and the remembered EVE grant of a character is dropped exactly
  when the session id changes, so no grant crosses from one sign-in to the next.
\<close>

theorem served_session_matches_token:
  assumes "ProtectMCP ti s w = (rep, s', w')" "sessions_ok s"
  shows "sessions_ok s' \<and> (\<forall>sess. rep = Served sess \<longrightarrow>
    (\<exists>t. ti = Some t \<and> parseInt64 (ti_UserID t) = Some (so_CharacterID sess) \<and>
       claimInt64 (ti_Extra t) = Some (so_SessionID sess) \<and>
       g_characterID (so_Guard sess) = so_CharacterID sess \<and> g_sessionID (so_Guard sess) = so_SessionID sess \<and>
       sv_Sessions s' (itoa (so_CharacterID sess)) = Some sess \<and> w_db w' = w_db w \<and>
       (\<exists>x \<in> set (t_sessions (w_db w)). se_id x = so_SessionID sess \<and> liveAt (w_now w) x \<and>
          se_character_id x = so_CharacterID sess \<and> MissingScopes (se_scopes x) = []) \<and>
       ((\<exists>old. sv_Sessions s (itoa (so_CharacterID sess)) = Some old \<and> so_SessionID old = so_SessionID sess) \<or>
        w_grants w' (so_CharacterID sess) = noGrant)))"
proof (cases "\<exists>sess. rep = Served sess")
  case False
  then have "s' = s"
    using assms(1) by (auto simp: ProtectMCP_def split: option.splits if_splits sum.splits prod.splits)
  then show ?thesis using assms(2) False by blast
next
  case True
  then obtain sess where sess: "rep = Served sess" by blast
  obtain t c sid w1 where t: "ti = Some t" "parseInt64 (ti_UserID t) = Some c" "claimInt64 (ti_Extra t) = Some sid"
    and r: "requireLive \<lparr>is_CharacterID = c, is_SessionID = sid\<rparr> w = (Inr (), w1)"
    and f: "SessionFor c sid s w1 = (sess, s', w')"
    using assms(1) sess
    by (auto simp: ProtectMCP_def split: option.splits if_splits sum.splits prod.splits)
  note R = requireLive_effect(2)[OF r refl]
  note F = SessionFor_effect[OF f assms(2)]
  show ?thesis
    using sess t R F by (auto split: option.splits if_splits)
qed

subsection \<open>Our own tokens\<close>

definition fits :: "int \<Rightarrow> bool" where "fits n = (- (2 ^ 53) \<le> n \<and> n \<le> 2 ^ 53)"

lemma lookup_jsonNumbers:
  "lookupAny (jsonNumbers cs) k = (case lookupAny cs k of VInt n \<Rightarrow> VFloat (of_int n) | v \<Rightarrow> v)"
proof (induction cs)
  case (Cons kv cs)
  then show ?case by (cases kv; cases "snd kv") (simp_all add: jsonNumbers_def)
qed (simp add: jsonNumbers_def)

lemma claims_round_trip:
  assumes "lookupAny cs ''sub'' = VStr (itoa c)" "lookupAny cs ''sid'' = VInt sid"
    "c \<noteq> 0" "sid \<noteq> 0" "fits c" "fits sid"
  shows "claimsToIssued (jsonNumbers cs) = Inr \<lparr>is_CharacterID = c, is_SessionID = sid\<rparr>"
proof -
  have "itoa c \<noteq> []" using showNat_facts by (simp add: itoa_def)
  moreover have "parseInt64 (itoa c) = Some c" using assms(5) by (intro parseInt64_itoa) (simp_all add: fits_def)
  moreover have "claimInt64 (VFloat (of_int sid)) = Some sid"
    using assms(6) by (intro claimInt64_int) (simp_all add: fits_def)
  ultimately show ?thesis using assms(1-4) by (simp add: claimsToIssued_def lookup_jsonNumbers)
qed

lemma reads_backD:
  assumes b: "reads_back J key cs" and sg: "SignedString J cs key = Inr raw" and k: "kf ''HS256'' = Inr key"
  shows "claims_valid opts now cs \<Longrightarrow> jwt_Parse J raw kf opts now = Inr \<lparr>jt_Valid = True, jt_Claims = jsonNumbers cs\<rparr>"
    "\<not> claims_valid opts now cs \<Longrightarrow> \<exists>e. jwt_Parse J raw kf opts now = Inl e"
proof -
  have "if claims_valid opts now cs
      then jwt_Parse J raw kf opts now = Inr \<lparr>jt_Valid = True, jt_Claims = jsonNumbers cs\<rparr>
      else isl (jwt_Parse J raw kf opts now)" for opts now
    using b[unfolded reads_back_def, rule_format, OF conjI[OF sg], of kf, OF k] .
  from this[of opts now] show "claims_valid opts now cs \<Longrightarrow> jwt_Parse J raw kf opts now = Inr \<lparr>jt_Valid = True, jt_Claims = jsonNumbers cs\<rparr>"
    "\<not> claims_valid opts now cs \<Longrightarrow> \<exists>e. jwt_Parse J raw kf opts now = Inl e"
    by (auto simp: isl_def split: if_splits)
qed

text \<open>
  C28. Tokens survive the round trip and are not interchangeable. With a JWT library that reads back
  what it signed, the access token of a character and session verifies to exactly these two ids
  until thirty seconds after its hour and never later; the refresh token parses to the same two ids
  until thirty seconds after the session ends; the refresh token is never accepted as an access
  token nor the access token as a refresh token. Ids and expiry must be exact as \<open>float64\<close>.
\<close>

theorem tokens_round_trip:
  assumes "issueAccess J s c sid t0 = Inr a" "issueRefresh J s c sid til t0 = Inr r"
    "reads_back J (sv_HMACKey s) (accessClaims s c sid t0)"
    "reads_back J (sv_HMACKey s) (refreshClaims s c sid til t0)"
    "c \<noteq> 0" "sid \<noteq> 0" "fits c" "fits sid" "fits (unixOf (t0 + accessTTL))"
  shows "verifyAccess J s a t =
      (if t < ofUnix (unixOf (t0 + hour)) + 30 * second
       then Inr (\<lparr>ti_Scopes = [''eve''], ti_Expiration = ofUnix (unixOf (t0 + hour)), ti_UserID = itoa c,
              ti_Extra = VInt sid\<rparr>, \<lparr>is_CharacterID = c, is_SessionID = sid\<rparr>)
       else Inl mcpErrInvalidToken) \<and>
    parseRefresh J s r t =
      (if t < ofUnix (unixOf til) + 30 * second then Inr \<lparr>is_CharacterID = c, is_SessionID = sid\<rparr>
       else Inl (Sentinel errInvalidToken)) \<and>
    verifyAccess J s r t = Inl mcpErrInvalidToken \<and> isl (parseRefresh J s a t)"
proof -
  let ?ac = "accessClaims s c sid t0" and ?rc = "refreshClaims s c sid til t0"
  have sg: "SignedString J ?ac (sv_HMACKey s) = Inr a" "SignedString J ?rc (sv_HMACKey s) = Inr r"
    using assms(1,2) by (simp_all add: issueAccess_def issueRefresh_def)
  have kf: "keyFunc s ''HS256'' = Inr (sv_HMACKey s)" by (simp add: keyFunc_def)
  note A = reads_backD[where kf = "keyFunc s", OF assms(3) sg(1) kf]
    and R = reads_backD[where kf = "keyFunc s", OF assms(4) sg(2) kf]
  have ids: "claimsToIssued (jsonNumbers ?ac) = Inr \<lparr>is_CharacterID = c, is_SessionID = sid\<rparr>"
    "claimsToIssued (jsonNumbers ?rc) = Inr \<lparr>is_CharacterID = c, is_SessionID = sid\<rparr>"
    using assms(5-8) by (auto intro!: claims_round_trip simp: accessClaims_def refreshClaims_def)
  have tyc: "lookupAny (jsonNumbers ?ac) ''typ'' = VNil" "lookupAny (jsonNumbers ?rc) ''typ'' = VStr typRefresh"
    "lookupAny (jsonNumbers ?ac) ''exp'' = VFloat (of_int (unixOf (t0 + hour)))"
    by (simp_all add: lookup_jsonNumbers accessClaims_def refreshClaims_def accessTTL_def)
  have exp: "int64OfFloat (of_int (unixOf (t0 + hour))) = unixOf (t0 + hour)"
    using assms(9) claimInt64_int[of "unixOf (t0 + hour)"] by (simp add: fits_def accessTTL_def claimInt64_def)
  have va: "claims_valid \<lparr>jo_Audience = Some (sv_Resource s), jo_Issuer = sv_Base s, jo_Leeway = jwtLeeway\<rparr> t ?ac
      \<longleftrightarrow> t < ofUnix (unixOf (t0 + hour)) + 30 * second"
    by (simp add: claims_valid_def accessClaims_def jwtLeeway_def accessTTL_def)
  have vr: "claims_valid \<lparr>jo_Audience = None, jo_Issuer = sv_Base s, jo_Leeway = jwtLeeway\<rparr> t ?rc
      \<longleftrightarrow> t < ofUnix (unixOf til) + 30 * second"
    by (simp add: claims_valid_def refreshClaims_def jwtLeeway_def)
  have vx: "\<not> claims_valid \<lparr>jo_Audience = Some (sv_Resource s), jo_Issuer = sv_Base s, jo_Leeway = jwtLeeway\<rparr> t ?rc"
    by (simp add: claims_valid_def refreshClaims_def)
  let ?oa = "\<lparr>jo_Audience = Some (sv_Resource s), jo_Issuer = sv_Base s, jo_Leeway = jwtLeeway\<rparr>"
  let ?or = "\<lparr>jo_Audience = None, jo_Issuer = sv_Base s, jo_Leeway = jwtLeeway\<rparr>"
  have "verifyAccess J s a t = (if t < ofUnix (unixOf (t0 + hour)) + 30 * second
       then Inr (\<lparr>ti_Scopes = [''eve''], ti_Expiration = ofUnix (unixOf (t0 + hour)), ti_UserID = itoa c,
              ti_Extra = VInt sid\<rparr>, \<lparr>is_CharacterID = c, is_SessionID = sid\<rparr>)
       else Inl mcpErrInvalidToken)"
    using A[of ?oa t] va tyc ids exp by (auto simp: verifyAccess_def scopeEve_def typRefresh_def)
  moreover have "parseRefresh J s r t = (if t < ofUnix (unixOf til) + 30 * second
       then Inr \<lparr>is_CharacterID = c, is_SessionID = sid\<rparr> else Inl (Sentinel errInvalidToken))"
    using R[of ?or t] vr tyc ids by (auto simp: parseRefresh_def)
  moreover have "verifyAccess J s r t = Inl mcpErrInvalidToken"
    using R(2)[of ?oa t] vx by (auto simp: verifyAccess_def)
  moreover have "isl (parseRefresh J s a t)"
    using A[of ?or t] tyc by (cases "claims_valid ?or t ?ac") (auto simp: parseRefresh_def)
  ultimately show ?thesis by blast
qed

subsection \<open>Concrete instances\<close>

definition sampleServer :: Server where
  "sampleServer = \<lparr>sv_Base = ''https://b'', sv_Resource = ''https://b/mcp'', sv_HMACKey = ''k'',
     sv_ExtraRedirects = [], sv_TrustIP = False, sv_Sessions = Map.empty\<rparr>"

definition sampleJwt :: jwtlib where
  "sampleJwt = \<lparr>SignedString = (\<lambda>cs key. Inr (if lookupAny cs ''typ'' = VNil then ''A'' else ''R'')),
     jwt_Parse = (\<lambda>raw kf opts now. case kf ''HS256'' of Inl e \<Rightarrow> Inl e
       | Inr key \<Rightarrow> let cs = (if raw = ''A'' then accessClaims sampleServer 7 1 9
             else refreshClaims sampleServer 7 1 (30 * day) 9) in
           if claims_valid opts now cs then Inr \<lparr>jt_Valid = True, jt_Claims = jsonNumbers cs\<rparr>
           else Inl (External ''jwt''))\<rparr>"

lemma sampleJwt_reads_back:
  "reads_back sampleJwt ''k'' (accessClaims sampleServer 7 1 9)"
  "reads_back sampleJwt ''k'' (refreshClaims sampleServer 7 1 (30 * day) 9)"
proof -
  have t: "lookupAny (accessClaims sampleServer 7 1 9) ''typ'' = VNil"
    "lookupAny (refreshClaims sampleServer 7 1 (30 * day) 9) ''typ'' \<noteq> VNil"
    by (simp_all add: accessClaims_def refreshClaims_def typRefresh_def)
  show "reads_back sampleJwt ''k'' (accessClaims sampleServer 7 1 9)"
    "reads_back sampleJwt ''k'' (refreshClaims sampleServer 7 1 (30 * day) 9)"
    using t by (simp_all add: reads_back_def sampleJwt_def Let_def)
qed

theorem tokens_round_trip_witness:
  "verifyAccess sampleJwt sampleServer ''R'' 10 = Inl mcpErrInvalidToken \<and>
   parseRefresh sampleJwt sampleServer ''R'' 10 = Inr \<lparr>is_CharacterID = 7, is_SessionID = 1\<rparr>"
proof -
  have "issueAccess sampleJwt sampleServer 7 1 9 = Inr ''A''"
    "issueRefresh sampleJwt sampleServer 7 1 (30 * day) 9 = Inr ''R''"
    by (simp_all add: issueAccess_def issueRefresh_def sampleJwt_def accessClaims_def refreshClaims_def)
  from tokens_round_trip[OF this, of 10] sampleJwt_reads_back show ?thesis
    by (simp add: sampleServer_def fits_def unixOf_def accessTTL_def ofUnix_def)
qed

definition sampleGrant :: code_row where
  "sampleGrant = sampleCode\<lparr>ac_code_challenge := rawURLEncode (sha256 ''v'')\<rparr>"

definition grantW :: world where
  "grantW = (world0 9)\<lparr>w_db := sampleDb\<lparr>t_codes := [sampleGrant]\<rparr>\<rparr>"

definition sampleForm :: "string \<Rightarrow> string" where
  "sampleForm k = (if k = ''code'' then ''k'' else if k = ''code_verifier'' then ''v''
     else if k = ''refresh_token'' then ''R'' else [])"

lemma rawURLEncode_not_Nil: "s \<noteq> [] \<Longrightarrow> rawURLEncode s \<noteq> []"
  by (cases s rule: rawURLEncode.cases) (simp_all add: Let_def)

lemma sample_pkce: "pkceOK (rawURLEncode (sha256 v)) v \<longleftrightarrow> v \<noteq> []"
proof -
  have "sha256 v \<noteq> []" using length_sha256[of v] by force
  then show ?thesis
    using trimRight_pad[OF rawURLEncode_no_pad, of "sha256 v" 0] rawURLEncode_not_Nil by (simp add: pkceOK_iff)
qed

lemma sample_exchange:
  "\<exists>rep w'. exchangeCode sampleJwt sampleServer sampleForm ''ip'' grantW = (rep, w') \<and> isTokens rep"
  by (simp add: exchangeCode_def sampleForm_def Codes_Get_def runStmt_ok codeRow_def grantW_def world0_def
      sampleGrant_def sampleCode_def sample_pkce clientName_def Clients_Get_def
      Redeem_def redeemTx_def WithinTx_def andThen_def wrapA_def wrapR_def LockCharacter_def
      Codes_Take_def takeStmt_def RevokeAllForCharacter_def revokeWith_def revokeStmt_def Let_def
      Create_def createStmt_def doomedOfCharacter_def sampleDb_def empty_db_def
      redeemSession_def createRow_def unrevoked_def collectRevoked_def deref_def
      writeTokens_def issueAccess_def issueRefresh_def sampleJwt_def isTokens_def)


lemma sample_refresh_grant:
  "\<exists>rep w'. refreshGrant sampleJwt sampleServer sampleForm (sampleW 10) = (rep, w') \<and> isTokens rep"
proof -
  have i: "issueAccess sampleJwt sampleServer 7 1 9 = Inr ''A''"
    "issueRefresh sampleJwt sampleServer 7 1 (30 * day) 9 = Inr ''R''"
    by (simp_all add: issueAccess_def issueRefresh_def sampleJwt_def accessClaims_def refreshClaims_def)
  have "parseRefresh sampleJwt sampleServer ''R'' 10 = Inr \<lparr>is_CharacterID = 7, is_SessionID = 1\<rparr>"
    using reads_backD(1)[where kf = "keyFunc sampleServer" and J = sampleJwt and key = "''k''",
        OF sampleJwt_reads_back(2), of "''R''"]
      claims_round_trip[of "refreshClaims sampleServer 7 1 (30 * day) 9" 7 1]
    by (simp add: parseRefresh_def keyFunc_def sampleServer_def sampleJwt_def refreshClaims_def typRefresh_def
        claims_valid_def jwtLeeway_def ofUnix_def unixOf_def lookup_jsonNumbers fits_def)
  then show ?thesis
    by (simp add: refreshGrant_def sampleForm_def sampleW_def world0_def LiveByID_def runStmt_ok liveStmt_def
        sampleDb_def empty_db_def liveAt_def unrevoked_def scanSession_def
        writeTokens_def issueAccess_def issueRefresh_def sampleJwt_def isTokens_def)
qed

theorem refresh_grant_keeps_the_term_witness:
  "\<exists>rep w'. refreshGrant sampleJwt sampleServer sampleForm (sampleW 10) = (rep, w') \<and> isTokens rep \<and>
     w_db w' = sampleDb \<and> rep = writeTokens sampleJwt sampleServer 7 1 (30 * day) 10"
proof -
  obtain rep w' where a: "refreshGrant sampleJwt sampleServer sampleForm (sampleW 10) = (rep, w')" "isTokens rep"
    using sample_refresh_grant by blast
  have d: "w_db (sampleW 10) = sampleDb" "w_now (sampleW 10) = 10" by (simp_all add: sampleW_def world0_def)
  from refresh_grant_keeps_the_term[OF a(1)] a(2) d obtain ref x where
    "w_db w' = sampleDb" "x \<in> set (t_sessions sampleDb)"
    "rep = writeTokens sampleJwt sampleServer (se_character_id x) (se_id x) (se_valid_til x) 10" by auto
  then show ?thesis using a by (auto simp: sampleDb_def)
qed

definition sampleInfo :: TokenInfo where
  "sampleInfo = \<lparr>ti_Scopes = [''eve''], ti_Expiration = 0, ti_UserID = ''7'', ti_Extra = VInt 1\<rparr>"

lemma sample_ids: "parseInt64 ''7'' = Some 7"
  by (simp add: parseInt64_def isDigitChar_def digitsVal_def Let_def)

lemma sample_live: "\<exists>w'. requireLive \<lparr>is_CharacterID = 7, is_SessionID = 1\<rparr> fullW = (Inr (), w')"
  by (simp add: requireLive_def fullW_def world0_def LiveByID_def runStmt_ok liveStmt_def
      sampleDb_def empty_db_def liveAt_def unrevoked_def scanSession_def)

theorem access_needs_live_session_witness:
  "\<exists>info w'. VerifyAccess sampleJwt sampleServer ''A'' fullW = (Inr info, w') \<and> w_db w' = w_db fullW"
proof -
  have wf: "wf_db (w_db fullW)"
    by (simp add: fullW_def wf_defs sampleDb_def empty_db_def unrevoked_def)
  have "\<exists>info. verifyAccess sampleJwt sampleServer ''A'' 9 = Inr (info, \<lparr>is_CharacterID = 7, is_SessionID = 1\<rparr>)"
    using claims_round_trip[of "accessClaims sampleServer 7 1 9" 7 1]
    by (simp add: verifyAccess_def keyFunc_def sampleServer_def sampleJwt_def accessClaims_def typRefresh_def
        claims_valid_def jwtLeeway_def ofUnix_def unixOf_def lookup_jsonNumbers fits_def accessTTL_def)
  then obtain info where i: "verifyAccess sampleJwt sampleServer ''A'' (w_now fullW) = Inr (info, \<lparr>is_CharacterID = 7, is_SessionID = 1\<rparr>)"
    by (auto simp: fullW_def world0_def)
  obtain w' where l: "requireLive \<lparr>is_CharacterID = 7, is_SessionID = 1\<rparr> fullW = (Inr (), w')"
    using sample_live by blast
  have v: "VerifyAccess sampleJwt sampleServer ''A'' fullW = (Inr info, w')" using i l by (simp add: VerifyAccess_def)
  from access_needs_live_session[OF v wf] v show ?thesis by auto
qed

theorem served_session_matches_token_witness:
  "\<exists>sess s' w'. ProtectMCP (Some sampleInfo) sampleServer fullW = (Served sess, s', w') \<and> so_CharacterID sess = 7 \<and>
     so_SessionID sess = 1 \<and> g_sessionID (so_Guard sess) = 1 \<and> sv_Sessions s' (itoa 7) = Some sess"
proof -
  have ok: "sessions_ok sampleServer" by (simp add: sessions_ok_def sampleServer_def)
  obtain w' where l: "requireLive \<lparr>is_CharacterID = 7, is_SessionID = 1\<rparr> fullW = (Inr (), w')"
    using sample_live by blast
  obtain sess s' w2 where f: "SessionFor 7 1 sampleServer w' = (sess, s', w2)" by (cases "SessionFor 7 1 sampleServer w'")
  have p: "ProtectMCP (Some sampleInfo) sampleServer fullW = (Served sess, s', w2)"
    using l f by (simp add: ProtectMCP_def sampleInfo_def sample_ids claimInt64_def)
  from served_session_matches_token[OF p ok] p sample_ids show ?thesis
    by (auto simp: sampleInfo_def claimInt64_def)
qed

end
