(* ===== verification/LoginProps.thy ===== *)
theory LoginProps
  imports OAuthProps
begin

text \<open>
  The browser side of a sign-in: what a callback of the sign-in service leaves behind, when it
  succeeds and when it is refused, and where a login may send the browser.
\<close>

definition noLogin :: "string \<Rightarrow> db \<Rightarrow> db" where
  "noLogin st d = d\<lparr>t_logins := removeWhere (\<lambda>l. ls_state l = st) (t_logins d)\<rparr>"

lemma Logins_Take_world:
  assumes "Logins_Take st w = (r, w')"
  shows "w_now w' = w_now w \<and> w_ccp w' = w_ccp w \<and> (w_db w' = w_db w \<or> w_db w' = noLogin st (w_db w))"
proof -
  let ?f = "takeStmt (\<lambda>c. ls_state c = st) t_logins (\<lambda>xs d. d\<lparr>t_logins := xs\<rparr>)"
  obtain x w1 where x: "runStmt ?f w = (x, w1)" by force
  have w1: "w' = w1"
    using assms x by (auto simp: Logins_Take_def split: sum.splits option.splits if_splits)
  show ?thesis
  proof (cases x)
    case (Inl e) then show ?thesis using runStmt_Inl[of ?f w e w1] x w1 by simp
  next
    case (Inr y)
    then show ?thesis
      using runStmt_Inr[of ?f w y w1] x w1 by (auto simp: takeStmt_def noLogin_def split: option.splits)
  qed
qed

text \<open>
  A refused callback writes nothing. When the login state is unknown or stale, the sign-in
  service refuses the code, or the grant lacks a scope of this build, an error comes back without
  a redirect address, nothing is revoked at CCP, and the tables are as before but for the login
  state, which may be spent.
\<close>

theorem refused_callback_writes_nothing:
  assumes "CompleteCallback N sso code st w = ((cb, err), w')"
    "\<forall>l tok. loginRow (w_db w) st = Some l \<and> w_now w - ls_created_at l \<le> 15 * minute \<and>
       ExchangeCode sso code (ls_pkce_verifier l) (w_now w) = Inr tok \<longrightarrow> MissingScopes (tk_Scopes tok) \<noteq> []"
  shows "err \<noteq> None \<and> cb_Redirect cb = [] \<and> w_ccp w' = w_ccp w \<and>
    (w_db w' = w_db w \<or> w_db w' = noLogin st (w_db w))"
proof -
  obtain a w1 where a: "Logins_Take st w = (a, w1)" by force
  note W = Logins_Take_world[OF a]
  show ?thesis
  proof (cases a)
    case (Inl e)
    then show ?thesis using assms(1) a W by (auto simp: CompleteCallback_def split: if_splits)
  next
    case (Inr l)
    note L = Logins_Take_ok[OF a[unfolded Inr]]
    show ?thesis
    proof (cases "ExchangeCode sso code (ls_pkce_verifier l) (w_now w1)")
      case (Inl e)
      then show ?thesis using assms(1) a Inr W by (auto simp: CompleteCallback_def)
    next
      case (Inr tok)
      then have "MissingScopes (tk_Scopes tok) \<noteq> []"
        using assms(2) L by (simp add: loginstate_TTL_def)
      then show ?thesis
        using assms(1) a \<open>a = Inr l\<close> Inr W by (auto simp: CompleteCallback_def finishMCP_def)
    qed
  qed
qed

subsection \<open>A callback that succeeds\<close>

lemma randomID_keeps:
  "randomID n w = (x, w') \<Longrightarrow> w_db w' = w_db w \<and> w_now w' = w_now w \<and> w_ccp w' = w_ccp w"
  using randRead_keeps[of w] by (cases "randRead w") (auto simp: randomID_def split: option.splits)

definition stripped :: "int \<Rightarrow> world \<Rightarrow> world \<Rightarrow> bool" where
  \<comment> \<open>no unrevoked session of the character is left, and what they held went to CCP\<close>
  "stripped c w w' = ((\<forall>x \<in> set (t_sessions (w_db w')). se_character_id x = c \<longrightarrow> \<not> unrevoked x) \<and>
     (\<forall>x \<in> set (t_sessions (w_db w)). \<forall>t. se_character_id x = c \<and> unrevoked x \<and> se_refresh_token x = Some t \<and>
        t \<noteq> [] \<longrightarrow> t \<in> set (w_ccp w')))"

lemma revokeOnOwnerHashChange_ok:
  assumes "revokeOnOwnerHashChange token w = (Inr u, w')"
  shows "w_now w' = w_now w" "t_logins (w_db w') = t_logins (w_db w)"
    "t_codes (w_db w') = t_codes (w_db w)" "t_characters (w_db w') = t_characters (w_db w)"
    "\<And>ch. characterRow (w_db w) (tk_CharacterID token) = Some ch \<Longrightarrow> ch_owner_hash ch \<noteq> tk_OwnerHash token \<Longrightarrow>
       stripped (tk_CharacterID token) w w'"
proof -
  let ?c = "tk_CharacterID token"
  obtain a w1 where a: "Characters_Get ?c w = (a, w1)" by force
  have rd: "reads (Characters_Get ?c)"
    by (rule reads_post[OF reads_runStmt[of "\<lambda>d. Inr (characterRow d ?c, d)"]])
       (auto simp: Characters_Get_def split: prod.split sum.split option.split)
  note r1 = readsD[OF rd a]
  have absent: "characterRow (w_db w) ?c = None" if "a = Inl e" "errors_is e character_ErrNotFound" for e
  proof -
    obtain y where y: "runStmt (\<lambda>d. Inr (characterRow d ?c, d)) w = (y, w1)"
      using a by (auto simp: Characters_Get_def split: prod.splits sum.splits option.splits)
    then have "y = Inr None"
    proof (cases y)
      case (Inl f)
      then have "e = Wrap (charOp ''scan'') f" "f = dbFault"
        using a y that(1) by (auto simp: Characters_Get_def runStmt_def Let_def split: prod.splits if_splits)
      then show ?thesis using that(2) by (simp add: dbFault_def)
    next
      case (Inr z)
      then show ?thesis using a y that(1) by (cases z) (auto simp: Characters_Get_def)
    qed
    then show ?thesis using runStmt_Inr(1)[OF y[unfolded \<open>y = Inr None\<close>]] by auto
  qed
  consider (same) "w' = w1" "\<And>ch. characterRow (w_db w) ?c = Some ch \<Longrightarrow> ch_owner_hash ch = tk_OwnerHash token"
    | (gone) rv w2 where "RevokeAllForCharacter ?c w1 = (Inr rv, w2)" "w' = revokeAtCCP (rv_Tokens rv) w2"
  proof (cases a)
    case (Inl e)
    then have "errors_is e character_ErrNotFound" "w' = w1"
      using assms a by (auto simp: revokeOnOwnerHashChange_def split: if_splits)
    then show thesis using same absent[OF Inl] by simp
  next
    case (Inr ch)
    note C = Characters_Get_ok(1)[OF a[unfolded Inr]]
    show thesis
    proof (cases "ch_owner_hash ch = tk_OwnerHash token")
      case True
      then have "w' = w1" using assms a Inr by (simp add: revokeOnOwnerHashChange_def)
      then show thesis using same C True by simp
    next
      case False
      obtain z w2 where z: "RevokeAllForCharacter ?c w1 = (z, w2)" by force
      then obtain rv where "z = Inr rv" "w' = revokeAtCCP (rv_Tokens rv) w2"
        using assms a Inr False by (cases z) (auto simp: revokeOnOwnerHashChange_def)
      then show thesis using gone z by simp
    qed
  qed
  note two = this
  have G: "w_now w' = w_now w \<and> t_logins (w_db w') = t_logins (w_db w) \<and> t_codes (w_db w') = t_codes (w_db w) \<and>
      t_characters (w_db w') = t_characters (w_db w) \<and> stripped ?c w w'"
    if g: "RevokeAllForCharacter ?c w1 = (Inr rv, w2)" "w' = revokeAtCCP (rv_Tokens rv) w2" for rv w2
  proof -
    note R = revokeWith_ok[OF g(1)[unfolded RevokeAllForCharacter_def]]
    let ?gone = "doomedOfCharacter ?c (t_sessions (w_db w1))"
    have set_gone: "set ?gone = {x \<in> set (t_sessions (w_db w)). se_character_id x = ?c \<and> unrevoked x}"
      using r1 by (simp add: doomedOfCharacter_def)
    have "stripped ?c w w'"
      unfolding stripped_def
    proof (intro conjI ballI allI impI)
      fix x assume x: "x \<in> set (t_sessions (w_db w'))" "se_character_id x = ?c"
      from x(1) obtain y where y: "y \<in> set (t_sessions (w_db w))"
        "x = (if se_id y \<in> set (map se_id ?gone)
          then y\<lparr>se_revoked_at := Some (w_now w1), se_refresh_token := None\<rparr> else y)"
        unfolding g(2) revokeAtCCP_simps R(2) using r1 by auto
      show "\<not> unrevoked x"
      proof (cases "se_id y \<in> set (map se_id ?gone)")
        case True then show ?thesis using y by (simp add: unrevoked_def)
      next
        case False
        then have "y \<notin> set ?gone" by auto
        then show ?thesis using y False x(2) set_gone by auto
      qed
    next
      fix x t assume x: "x \<in> set (t_sessions (w_db w))"
        "se_character_id x = ?c \<and> unrevoked x \<and> se_refresh_token x = Some t \<and> t \<noteq> []"
      then have "x \<in> set ?gone" using set_gone by simp
      then have "t \<in> set (rv_Tokens rv)" using x(2) by (force simp: R(1) collectRevoked_tokens)
      then show "t \<in> set (w_ccp w')" by (simp add: g(2))
    qed
    then show ?thesis using R r1 by (simp add: g(2))
  qed
  show "w_now w' = w_now w" "t_logins (w_db w') = t_logins (w_db w)"
    "t_codes (w_db w') = t_codes (w_db w)" "t_characters (w_db w') = t_characters (w_db w)"
    by (cases rule: two; use r1 G in simp)+
  show "stripped ?c w w'" if "characterRow (w_db w) ?c = Some ch" "ch_owner_hash ch \<noteq> tk_OwnerHash token" for ch
    by (cases rule: two) (use that G in auto)
qed

lemma callback_parked:
  assumes "CompleteCallback N sso code st w = ((cb, None), w')"
  shows "\<exists>l tok c u. loginRow (w_db w) st = Some l \<and> w_now w - ls_created_at l \<le> 15 * minute \<and>
    loginRow (w_db w') st = None \<and> ExchangeCode sso code (ls_pkce_verifier l) (w_now w) = Inr tok \<and>
    MissingScopes (tk_Scopes tok) = [] \<and> t_codes (w_db w') = t_codes (w_db w) @ [c] \<and>
    ac_character_id c = tk_CharacterID tok \<and> ac_refresh_token c = tk_RefreshToken tok \<and>
    ac_scopes c = tk_Scopes tok \<and> ac_mcp_client_id c = ls_mcp_client_id l \<and>
    ac_redirect_uri c = ls_redirect_uri l \<and> ac_code_challenge c = ls_code_challenge l \<and>
    ac_expires_at c = w_now w + 2 * minute \<and>
    url_Parse N (ls_redirect_uri l) = Some u \<and>
    cb_Redirect cb = withQuery N u ((''code'', ac_code c) #
      (if ls_mcp_state l \<noteq> [] then [(''state'', ls_mcp_state l)] else [])) \<and>
    (\<exists>r. characterRow (w_db w') (tk_CharacterID tok) = Some r \<and> ch_deleted_at r = None \<and>
       ch_owner_hash r = tk_OwnerHash tok) \<and>
    (\<forall>ch. characterRow (w_db w) (tk_CharacterID tok) = Some ch \<and> ch_owner_hash ch \<noteq> tk_OwnerHash tok \<longrightarrow>
       stripped (tk_CharacterID tok) w w')"
proof -
  obtain l w1 where l: "Logins_Take st w = (Inr l, w1)"
    using assms by (auto simp: CompleteCallback_def split: prod.splits sum.splits if_splits)
  note L = Logins_Take_ok[OF l]
  obtain tok where tok: "ExchangeCode sso code (ls_pkce_verifier l) (w_now w1) = Inr tok"
    using assms l by (auto simp: CompleteCallback_def split: sum.splits)
  obtain loc where fin: "finishMCP N l tok w1 = (Inr loc, w')" and loc: "cb_Redirect cb = loc"
    using assms l tok by (auto simp: CompleteCallback_def split: prod.splits sum.splits)
  have miss: "MissingScopes (tk_Scopes tok) = []" using fin by (auto simp: finishMCP_def split: if_splits)
  obtain u2 w2 where r: "revokeOnOwnerHashChange tok w1 = (Inr u2, w2)"
    using fin miss by (auto simp: finishMCP_def split: prod.splits sum.splits)
  note R = revokeOnOwnerHashChange_ok[OF r]
  let ?ch = "\<lparr>ch_id = tk_CharacterID tok, ch_name = tk_CharacterName tok,
            ch_owner_hash = tk_OwnerHash tok, ch_added_at = 0, ch_deleted_at = None\<rparr>"
  obtain u3 w3 where up: "Characters_Upsert ?ch w2 = (Inr u3, w3)"
    using fin miss r by (auto simp: finishMCP_def split: prod.splits sum.splits)
  note U = Characters_Upsert_ok[OF up]
  obtain cd w4 where i: "randomID authCodeBytes w3 = (cd, w4)" by force
  note I = randomID_keeps[OF i]
  let ?c = "\<lparr>ac_code = cd, ac_character_id = tk_CharacterID tok,
               ac_refresh_token = tk_RefreshToken tok, ac_scopes = tk_Scopes tok,
               ac_mcp_client_id = ls_mcp_client_id l, ac_redirect_uri = ls_redirect_uri l,
               ac_code_challenge = ls_code_challenge l, ac_expires_at = w_now w4 + codeTTL\<rparr>"
  obtain u4 where put: "Codes_Put ?c w4 = (Inr u4, w')"
    using fin miss r up i by (auto simp: finishMCP_def Let_def split: prod.splits sum.splits option.splits)
  note P = Codes_Put_ok[OF put]
  obtain u where pu: "url_Parse N (ls_redirect_uri l) = Some u"
    "loc = withQuery N u ((''code'', cd) # (if ls_mcp_state l \<noteq> [] then [(''state'', ls_mcp_state l)] else []))"
    using fin miss r up i put by (auto simp: finishMCP_def Let_def split: option.splits)
  obtain cs where d3: "w_db w3 = (w_db w2)\<lparr>t_characters := cs\<rparr>" using U(1) by blast
  have "t_codes (w_db w') = t_codes (w_db w) @ [?c]" using P(1) I d3 R L by simp
  moreover have "loginRow (w_db w') st = None" using P(1) I d3 R L by (simp add: loginRow_def)
  moreover have "\<exists>r. characterRow (w_db w') (tk_CharacterID tok) = Some r \<and> ch_deleted_at r = None \<and>
       ch_owner_hash r = tk_OwnerHash tok"
    using U(4) P(1) I by (auto simp: characterRow_def)
  moreover have "stripped (tk_CharacterID tok) w w'"
    if "characterRow (w_db w) (tk_CharacterID tok) = Some ch" "ch_owner_hash ch \<noteq> tk_OwnerHash tok" for ch
  proof -
    have "stripped (tk_CharacterID tok) w1 w2" using R(5)[of ch] that L by (simp add: characterRow_def)
    moreover have "t_sessions (w_db w1) = t_sessions (w_db w)" "t_sessions (w_db w') = t_sessions (w_db w2)"
      using L P(1) I d3 by simp_all
    ultimately show ?thesis using U P I by (simp add: stripped_def)
  qed
  moreover have "w_now w4 = w_now w" using I U R L by simp
  ultimately show ?thesis
    using L tok miss pu loc
    by (intro exI[of _ l] exI[of _ tok] exI[of _ ?c] exI[of _ u]) (auto simp: codeTTL_def loginstate_TTL_def)
qed

text \<open>
  C27. A callback that succeeds parks the grant under a fresh code. The login state existed, was at
  most fifteen minutes old and is gone; the grant has every scope of this build; the code is bound to the
  client, redirect address and challenge of that login and lives two minutes; the character is
  stored undeleted with the grant's owner hash; and if the character was known under another owner
  hash, none of its sessions is unrevoked and every token they held went to CCP.
\<close>

theorem callback_parks_the_grant:
  assumes "CompleteCallback N sso code st w = ((cb, None), w')"
  shows "\<exists>l tok c u. loginRow (w_db w) st = Some l \<and> w_now w - ls_created_at l \<le> 15 * minute \<and>
    loginRow (w_db w') st = None \<and> ExchangeCode sso code (ls_pkce_verifier l) (w_now w) = Inr tok \<and>
    MissingScopes (tk_Scopes tok) = [] \<and> t_codes (w_db w') = t_codes (w_db w) @ [c] \<and>
    ac_character_id c = tk_CharacterID tok \<and> ac_refresh_token c = tk_RefreshToken tok \<and>
    ac_scopes c = tk_Scopes tok \<and> ac_mcp_client_id c = ls_mcp_client_id l \<and>
    ac_redirect_uri c = ls_redirect_uri l \<and> ac_code_challenge c = ls_code_challenge l \<and>
    ac_expires_at c = w_now w + 2 * minute \<and>
    url_Parse N (ls_redirect_uri l) = Some u \<and>
    cb_Redirect cb = withQuery N u ((''code'', ac_code c) #
      (if ls_mcp_state l \<noteq> [] then [(''state'', ls_mcp_state l)] else [])) \<and>
    (\<exists>r. characterRow (w_db w') (tk_CharacterID tok) = Some r \<and> ch_deleted_at r = None \<and>
       ch_owner_hash r = tk_OwnerHash tok) \<and>
    (\<forall>ch. characterRow (w_db w) (tk_CharacterID tok) = Some ch \<and> ch_owner_hash ch \<noteq> tk_OwnerHash tok \<longrightarrow>
       stripped (tk_CharacterID tok) w w')"
  using assms by (rule callback_parked)

subsection \<open>Where a login may lead\<close>

lemma find_update_const:
  "k l = v \<Longrightarrow> v \<in> k ` set xs \<Longrightarrow> find (\<lambda>x. k x = v) (updateWhere (\<lambda>x. k x = v) (\<lambda>_. l) xs) = Some l"
  by (induction xs) auto

lemma putLoginStmt_row:
  assumes "putLoginStmt l d = Inr (x, d')"
  shows "loginRow d' (ls_state l) = Some l"
proof (cases "ls_state l \<in> ls_state ` set (t_logins d)")
  case True
  then have d': "d' = d\<lparr>t_logins := updateWhere (\<lambda>x. ls_state x = ls_state l) (\<lambda>_. l) (t_logins d)\<rparr>"
    using assms by (simp add: putLoginStmt_def)
  show ?thesis using find_update_const[of ls_state l "ls_state l" "t_logins d"] True by (simp add: d' loginRow_def)
next
  case False
  then have d': "d' = d\<lparr>t_logins := t_logins d @ [l]\<rparr>" using assms by (simp add: putLoginStmt_def)
  have "find (\<lambda>x. ls_state x = ls_state l) (t_logins d) = None" using False by (simp add: find_key_None)
  then show ?thesis by (simp add: d' loginRow_def find_append)
qed

text \<open>
  A login starts only for an allowed redirect address. The browser is sent to the sign-in
  service only when the address is a loopback or one of the known clients', or configured; then the
  login state holds exactly the client, address, state and challenge of the request and the
  verifier that goes with it. In every other case no login state is written.
\<close>

theorem login_starts_for_allowed_redirect:
  assumes "ServeAuthorize N sso s q w = (rep, w')"
  shows "w_ccp w' = w_ccp w \<and>
   (case rep of
      RedirectTo loc \<Rightarrow> redirectAllowed N s (q ''redirect_uri'') \<and> q ''client_id'' \<noteq> [] \<and> q ''code_challenge'' \<noteq> [] \<and>
        (\<exists>prep l. PrepareLogin sso [] (w_now w) = Inr prep \<and> loc = pl_URL prep \<and>
          loginRow (w_db w') (pl_State prep) = Some l \<and>
          ls_pkce_verifier l = pl_Verifier prep \<and> ls_mcp_client_id l = q ''client_id'' \<and>
          ls_redirect_uri l = q ''redirect_uri'' \<and> ls_mcp_state l = q ''state'' \<and>
          ls_code_challenge l = q ''code_challenge'' \<and> ls_created_at l = w_now w)
    | _ \<Rightarrow> w_db w' = w_db w)"
proof (cases "q ''client_id'' = [] \<or> q ''redirect_uri'' = [] \<or> q ''code_challenge'' = []")
  case True then show ?thesis using assms by (auto simp: ServeAuthorize_def)
next
  case False
  obtain ok w1 where ok: "clientRedirectOK N s (q ''client_id'') (q ''redirect_uri'') w = (ok, w1)" by force
  note r = readsD[OF reads_clientRedirectOK ok]
  show ?thesis
  proof (cases ok)
    case No: False
    then show ?thesis using assms False ok r by (auto simp: ServeAuthorize_def Let_def)
  next
    case Yes: True
    then have allowed: "redirectAllowed N s (q ''redirect_uri'')"
      using ok by (auto simp: clientRedirectOK_def split: if_splits)
    show ?thesis
    proof (cases "PrepareLogin sso [] (w_now w1)")
      case (Inl e) then show ?thesis using assms False ok Yes r by (auto simp: ServeAuthorize_def Let_def writeOAuthError_def)
    next
      case (Inr prep)
      let ?l = "\<lparr>ls_state = pl_State prep, ls_pkce_verifier = pl_Verifier prep,
              ls_scopes = pl_Scopes prep, ls_mcp_client_id = q ''client_id'', ls_redirect_uri = q ''redirect_uri'',
              ls_mcp_state = q ''state'', ls_code_challenge = q ''code_challenge'', ls_created_at = 0\<rparr>"
      obtain z w2 where z: "Logins_Put ?l w1 = (z, w2)" by force
      have rep: "rep = (case z of Inl e \<Rightarrow> writeOAuthError e | Inr _ \<Rightarrow> RedirectTo (pl_URL prep))" "w' = w2"
        using assms False ok Yes Inr z by (auto simp: ServeAuthorize_def Let_def split: sum.splits)
      let ?f = "putLoginStmt (?l\<lparr>ls_created_at := w_now w1\<rparr>)"
      obtain y where y: "runStmt ?f w1 = (y, w2)" "z = wrapR (loginOp ''Put'') y"
        using z by (auto simp: Logins_Put_def wrapA_def split: prod.splits)
      show ?thesis
      proof (cases y)
        case (Inl e)
        then show ?thesis using runStmt_Inl[of ?f w1 e w2] y rep r by (simp add: writeOAuthError_def)
      next
        case I: (Inr x)
        note f = runStmt_Inr[OF y(1)[unfolded I]]
        have "\<exists>l. loginRow (w_db w2) (pl_State prep) = Some l \<and>
          ls_pkce_verifier l = pl_Verifier prep \<and> ls_mcp_client_id l = q ''client_id'' \<and>
          ls_redirect_uri l = q ''redirect_uri'' \<and> ls_mcp_state l = q ''state'' \<and>
          ls_code_challenge l = q ''code_challenge'' \<and> ls_created_at l = w_now w1"
          using putLoginStmt_row[OF f(1)] by force
        then show ?thesis
          using y I rep f r allowed False Inr by auto
      qed
    qed
  qed
qed

subsection \<open>Concrete instances\<close>

definition sampleNet :: netlib where
  "sampleNet = \<lparr>url_Parse = (\<lambda>s. if s = ''http://localhost/cb''
       then Some \<lparr>u_Scheme = ''http'', u_Hostname = ''localhost'', u_Path = ''/cb'', u_Text = s\<rparr> else None),
     ToLower = id, loopbackIP = (\<lambda>_. False), TrimSpace = id, SplitHost = Some,
     withQuery = (\<lambda>u kvs. u_Text u @ CHR ''?'' # joinStr ''&'' (map (\<lambda>(k, v). k @ ''='' @ v) kvs))\<rparr>"

definition sampleLogin :: login_row where
  "sampleLogin = \<lparr>ls_state = ''s'', ls_pkce_verifier = ''p'', ls_scopes = [], ls_mcp_client_id = ''c'',
     ls_redirect_uri = ''http://localhost/cb'', ls_mcp_state = ''m'', ls_code_challenge = ''h'', ls_created_at = 2\<rparr>"

definition sampleToken :: "string list \<Rightarrow> CharacterToken" where
  "sampleToken scopes = \<lparr>tk_CharacterID = 7, tk_CharacterName = ''Pilot'', tk_RefreshToken = ''g'', tk_Scopes = scopes,
     tk_OwnerHash = ''h2'', tk_AddedAt = 0, tk_AccessToken = ''a'', tk_AccessExpiresAt = 0\<rparr>"

definition loginSSO :: "string list \<Rightarrow> SSO" where
  "loginSSO scopes = \<lparr>PrepareLogin = (\<lambda>_ _. Inr \<lparr>pl_URL = ''https://login'', pl_State = ''s'', pl_Verifier = ''p'', pl_Scopes = []\<rparr>),
     ExchangeCode = (\<lambda>_ v _. if v = ''p'' then Inr (sampleToken scopes) else Inl (Sentinel ErrInvalidGrant)),
     AccessToken = (\<lambda>_ _. Inl (Sentinel ErrInvalidGrant))\<rparr>"

definition loginW :: world where
  "loginW = (sampleW 9)\<lparr>w_db := sampleDb\<lparr>t_logins := [sampleLogin]\<rparr>\<rparr>"

lemma Missing_all: "MissingScopes RequestedScopes = []"
  by (simp add: MissingScopes_Nil_iff)

lemma sample_callback:
  "\<exists>cb w'. CompleteCallback sampleNet (loginSSO RequestedScopes) ''x'' ''s'' loginW = ((cb, None), w')"
  by (simp add: CompleteCallback_def finishMCP_def revokeOnOwnerHashChange_def Logins_Take_def loginW_def sampleW_def
      world0_def runStmt_ok takeStmt_def sampleLogin_def loginstate_TTL_def loginSSO_def sampleToken_def Missing_all
      Characters_Get_def characterRow_def sampleDb_def empty_db_def RevokeAllForCharacter_def revokeWith_def
      revokeStmt_def doomedOfCharacter_def unrevoked_def Let_def collectRevoked_def deref_def
      Characters_Upsert_def wrapA_def wrapR_def upsertCharacterStmt_def revokeAtCCP_def randomID_def randRead_def
      Codes_Put_def putCodeStmt_def sampleNet_def)

theorem callback_parks_the_grant_witness:
  "\<exists>cb w'. CompleteCallback sampleNet (loginSSO RequestedScopes) ''x'' ''s'' loginW = ((cb, None), w') \<and>
     length (t_codes (w_db w')) = 1 \<and> stripped 7 loginW w'"
proof -
  obtain cb w' where a: "CompleteCallback sampleNet (loginSSO RequestedScopes) ''x'' ''s'' loginW = ((cb, None), w')"
    using sample_callback by blast
  have l: "loginRow (w_db loginW) ''s'' = Some sampleLogin"
    by (simp add: loginRow_def loginW_def sampleLogin_def)
  have ch: "characterRow (w_db loginW) 7 = Some \<lparr>ch_id = 7, ch_name = ''Pilot'', ch_owner_hash = ''h'', ch_added_at = 1, ch_deleted_at = None\<rparr>"
    by (simp add: characterRow_def loginW_def sampleDb_def)
  have tok: "ExchangeCode (loginSSO RequestedScopes) ''x'' (ls_pkce_verifier sampleLogin) t = Inr (sampleToken RequestedScopes)" for t
    by (simp add: loginSSO_def sampleLogin_def)
  have n: "t_codes (w_db loginW) = []" by (simp add: loginW_def sampleDb_def empty_db_def)
  from callback_parks_the_grant[OF a] l n obtain l' tok c where
    "l' = sampleLogin" "ExchangeCode (loginSSO RequestedScopes) ''x'' (ls_pkce_verifier l') (w_now loginW) = Inr tok"
    "t_codes (w_db w') = [c]"
    "\<forall>ch. characterRow (w_db loginW) (tk_CharacterID tok) = Some ch \<and> ch_owner_hash ch \<noteq> tk_OwnerHash tok \<longrightarrow>
       stripped (tk_CharacterID tok) loginW w'" by auto
  then show ?thesis using a tok ch by (auto simp: sampleToken_def)
qed

lemma Missing_none: "MissingScopes [] \<noteq> []"
  using RequestedScopes_not_empty by (simp add: MissingScopes_Nil_iff)

theorem refused_callback_writes_nothing_witness:
  "\<exists>cb err w'. CompleteCallback sampleNet (loginSSO []) ''x'' ''s'' loginW = ((cb, err), w') \<and> err \<noteq> None \<and>
     t_codes (w_db w') = []"
proof -
  obtain cb err w' where a: "CompleteCallback sampleNet (loginSSO []) ''x'' ''s'' loginW = ((cb, err), w')"
    by (metis surj_pair)
  have "\<forall>l tok. loginRow (w_db loginW) ''s'' = Some l \<and> w_now loginW - ls_created_at l \<le> 15 * minute \<and>
     ExchangeCode (loginSSO []) ''x'' (ls_pkce_verifier l) (w_now loginW) = Inr tok \<longrightarrow> MissingScopes (tk_Scopes tok) \<noteq> []"
    using Missing_none by (auto simp: loginSSO_def sampleToken_def simp del: MissingScopes_Nil_iff split: if_splits)
  from refused_callback_writes_nothing[OF a this] a show ?thesis
    by (auto simp: noLogin_def loginW_def sampleDb_def empty_db_def)
qed

definition sampleQuery :: "string \<Rightarrow> string" where
  "sampleQuery k = (if k = ''client_id'' then ''c'' else if k = ''redirect_uri'' then ''http://localhost/cb''
     else if k = ''code_challenge'' then ''h'' else [])"

lemma sample_authorize:
  "\<exists>w'. ServeAuthorize sampleNet (loginSSO []) sampleServer sampleQuery (sampleW 9) = (RedirectTo ''https://login'', w')"
  by (simp add: ServeAuthorize_def sampleQuery_def Let_def clientRedirectOK_def redirectAllowed_def redirectOK_def
      sampleNet_def Clients_Get_def runStmt_ok sampleW_def world0_def sampleDb_def empty_db_def loginSSO_def
      Logins_Put_def wrapA_def putLoginStmt_def)

theorem login_starts_for_allowed_redirect_witness:
  "\<exists>w' l. ServeAuthorize sampleNet (loginSSO []) sampleServer sampleQuery (sampleW 9) = (RedirectTo ''https://login'', w') \<and>
     loginRow (w_db w') ''s'' = Some l \<and> ls_redirect_uri l = ''http://localhost/cb'' \<and> ls_created_at l = 9"
proof -
  obtain w' where a: "ServeAuthorize sampleNet (loginSSO []) sampleServer sampleQuery (sampleW 9) = (RedirectTo ''https://login'', w')"
    using sample_authorize by blast
  from login_starts_for_allowed_redirect[OF a] a show ?thesis
    by (auto simp: loginSSO_def sampleQuery_def sampleW_def world0_def)
qed

end
