(* ===== verification/Sweep.thy ===== *)
theory Sweep
  imports SsoApi SessionRepo ConfirmRepo MutationRepo PeopleRepo
begin

text \<open>
  The sweeper (internal/usecase/sweep): every five minutes one pod, chosen by an advisory lock,
  expires login states, codes, confirm tokens and sessions and purges old rows. A rule that fails
  is logged and counts zero; the others run. The outcome of \<open>Lock.Try\<close> is an argument: an
  error, held elsewhere, or held by this pod.
\<close>

definition Interval :: duration where "Interval = 5 * minute"

record counts =
  n_LoginStates :: nat
  n_AuthCodes :: nat
  n_ConfirmTokens :: nat
  n_SessionsExpired :: nat
  n_SessionsPurged :: nat
  n_Mutations :: nat
  n_ClientsSoft :: nat
  n_ClientsHard :: nat

definition orZero :: "nat action \<Rightarrow> world \<Rightarrow> nat \<times> world" where
  \<comment> \<open>the shape of the plain rules: log the error, count zero\<close>
  "orZero m w = (case m w of (Inl _, w1) \<Rightarrow> (0, w1) | (Inr n, w1) \<Rightarrow> (n, w1))"

definition expireLoginStates :: "world \<Rightarrow> nat \<times> world" where
  "expireLoginStates = orZero Logins_DeleteExpired"

definition expireAuthCodes :: "world \<Rightarrow> nat \<times> world" where
  "expireAuthCodes w = (case Codes_SweepExpired w of
     (Inl _, w1) \<Rightarrow> (0, w1)
   | (Inr swept, w1) \<Rightarrow> (sw_Count swept, revokeAtCCP (sw_Tokens swept) w1))"

definition expireConfirmTokens :: "world \<Rightarrow> nat \<times> world" where
  "expireConfirmTokens = orZero Confirms_DeleteExpired"

definition expireSessions :: "world \<Rightarrow> nat \<times> world" where
  "expireSessions w = (case ExpireValidTil w of
     (Inl _, w1) \<Rightarrow> (0, w1)
   | (Inr revoked, w1) \<Rightarrow> (length (rv_IDs revoked), revokeAtCCP (rv_Tokens revoked) w1))"

definition purgeSessions :: "world \<Rightarrow> nat \<times> world" where
  "purgeSessions = orZero PurgeRevoked"

definition purgeMutations :: "world \<Rightarrow> nat \<times> world" where
  "purgeMutations = orZero DeleteOld"

definition purgeClients :: "world \<Rightarrow> (nat \<times> nat) \<times> world" where
  "purgeClients w =
    (let (soft, w1) = orZero Clients_SoftDeleteAbandoned w;
         (hard, w2) = orZero Clients_DeleteLongSoftDeleted w1 in ((soft, hard), w2))"

definition Once :: "bool \<Rightarrow> goerr + bool \<Rightarrow> world \<Rightarrow> counts option \<times> world" where
  "Once cancelled tryLock w =
    (if cancelled then (None, w)
     else (case tryLock of
        Inl _ \<Rightarrow> (None, w)
      | Inr held \<Rightarrow>
        if \<not> held then (None, w)
        else
          let (a, w1) = expireLoginStates w; (b, w2) = expireAuthCodes w1;
              (c, w3) = expireConfirmTokens w2; (d, w4) = expireSessions w3;
              (e, w5) = purgeSessions w4; (f, w6) = purgeMutations w5;
              ((g, h), w7) = purgeClients w6 in
          (Some \<lparr>n_LoginStates = a, n_AuthCodes = b, n_ConfirmTokens = c, n_SessionsExpired = d,
             n_SessionsPurged = e, n_Mutations = f, n_ClientsSoft = g, n_ClientsHard = h\<rparr>, w7)))"

subsection \<open>What one rule does\<close>

text \<open>
  \<open>heldTokens\<close> are the EVE refresh tokens the tables hold, in sessions and in codes. A rule is
  \<^emph>\<open>careful\<close> when the tables stay well formed, every token it takes out of them has been sent to
  CCP, and sessions that are live now are left as they are.
\<close>

definition heldTokens :: "db \<Rightarrow> string set" where
  "heldTokens d = {t. t \<noteq> [] \<and> ((\<exists>s \<in> set (t_sessions d). se_refresh_token s = Some t) \<or>
     (\<exists>c \<in> set (t_codes d). ac_refresh_token c = t))}"

definition liveRows :: "time \<Rightarrow> db \<Rightarrow> session_row set" where
  "liveRows now d = {s \<in> set (t_sessions d). unrevoked s \<and> now \<le> se_valid_til s}"

definition careful :: "world \<Rightarrow> world \<Rightarrow> bool" where
  "careful w w' = (wf_db (w_db w) \<longrightarrow> wf_db (w_db w') \<and> w_now w' = w_now w \<and>
     (\<exists>sent. w_ccp w' = w_ccp w @ sent \<and> heldTokens (w_db w) \<subseteq> heldTokens (w_db w') \<union> set sent) \<and>
     liveRows (w_now w) (w_db w) \<subseteq> liveRows (w_now w) (w_db w'))"

lemma careful_trans: "careful w w1 \<Longrightarrow> careful w1 w2 \<Longrightarrow> careful w w2"
  unfolding careful_def by (smt (verit, best) Un_iff append.assoc set_append subset_eq)

lemma careful_same:
  "w_now w' = w_now w \<Longrightarrow> w_ccp w' = w_ccp w \<Longrightarrow> (wf_db (w_db w) \<Longrightarrow> wf_db (w_db w')) \<Longrightarrow>
   t_sessions (w_db w') = t_sessions (w_db w) \<Longrightarrow> t_codes (w_db w') = t_codes (w_db w) \<Longrightarrow> careful w w'"
  by (auto simp: careful_def heldTokens_def liveRows_def)

text \<open>A statement that touches neither sessions nor codes.\<close>

lemma careful_stmt:
  assumes m: "\<And>w. snd (m w) = snd (runStmt (f (w_now w)) w)"
    and wf: "preserves wf_db seq_le m"
    and f: "\<And>t d x d'. f t d = Inr (x, d') \<Longrightarrow> t_sessions d' = t_sessions d \<and> t_codes d' = t_codes d"
  shows "careful w (snd (orZero m w))"
proof -
  obtain r w1 where r: "runStmt (f (w_now w)) w = (r, w1)" by force
  have s: "snd (orZero m w) = w1"
    using m[of w] r by (cases "m w"; cases "fst (m w)") (simp_all add: orZero_def)
  have w1: "snd (m w) = w1" using m[of w] r by simp
  have "w_now w1 = w_now w" using runStmt_now[of "f (w_now w)" w] r by simp
  moreover have "w_ccp w1 = w_ccp w" using keepsD[OF fld_ccp.keeps_runStmt, of "f (w_now w)" w] r by simp
  moreover have "wf_db (w_db w) \<Longrightarrow> wf_db (w_db w1)"
    using wf w1 by (auto simp: preserves_def)
  moreover have "t_sessions (w_db w1) = t_sessions (w_db w) \<and> t_codes (w_db w1) = t_codes (w_db w)"
  proof (cases r)
    case (Inl e) then show ?thesis using r runStmt_Inl(1)[of "f (w_now w)" w e w1] by simp
  next
    case (Inr x) then show ?thesis using r runStmt_Inr(1)[of "f (w_now w)" w x w1] f by blast
  qed
  ultimately show ?thesis unfolding s by (intro careful_same) auto
qed

lemma careful_logins: "careful w (snd (expireLoginStates w))"
  unfolding expireLoginStates_def
proof (rule careful_stmt[where f = "\<lambda>t d. let old = (\<lambda>l. ls_created_at l < t - 15 * minute) in
     Inr (countWhere old (t_logins d), d\<lparr>t_logins := removeWhere old (t_logins d)\<rparr>)"])
  show "preserves wf_db seq_le Logins_DeleteExpired"
    by (rule preserves_run_at[where f = "\<lambda>t d. let old = (\<lambda>l. ls_created_at l < t - 15 * minute) in
       Inr (countWhere old (t_logins d), d\<lparr>t_logins := removeWhere old (t_logins d)\<rparr>)"])
      (auto simp: Logins_DeleteExpired_def Let_def seq_le_def wf_drop_logins)
qed (auto simp: Logins_DeleteExpired_def Let_def)

lemma careful_confirms: "careful w (snd (expireConfirmTokens w))"
  unfolding expireConfirmTokens_def
  by (rule careful_stmt[where f = "\<lambda>t d. let old = (\<lambda>c. ct_expires_at c < t) in
     Inr (countWhere old (t_confirms d), d\<lparr>t_confirms := removeWhere old (t_confirms d)\<rparr>)"])
     (auto simp: Confirms_DeleteExpired_def[abs_def] Let_def intro: wf_Confirms_DeleteExpired[unfolded Confirms_DeleteExpired_def[abs_def] Let_def])

lemma wf_DeleteOld [inv_intros]: "preserves wf_db seq_le DeleteOld"
  by (rule preserves_run_at[where f = "\<lambda>t d. let old = (\<lambda>m. mu_created_at m < t - 90 * day) in
     Inr (countWhere old (t_mutations d), d\<lparr>t_mutations := removeWhere old (t_mutations d)\<rparr>)"])
     (auto simp: DeleteOld_def Let_def seq_le_def wf_drop_mutations)

lemma careful_mutations: "careful w (snd (purgeMutations w))"
  unfolding purgeMutations_def
  by (rule careful_stmt[where f = "\<lambda>t d. let old = (\<lambda>m. mu_created_at m < t - 90 * day) in
     Inr (countWhere old (t_mutations d), d\<lparr>t_mutations := removeWhere old (t_mutations d)\<rparr>)"])
     (auto simp: DeleteOld_def Let_def wf_DeleteOld)

lemma careful_soft: "careful w (snd (orZero Clients_SoftDeleteAbandoned w))"
  by (rule careful_stmt[where f = "\<lambda>t d. Inr (countWhere (abandonedClient t d) (t_clients d),
       d\<lparr>t_clients := updateWhere (abandonedClient t d) (\<lambda>c. c\<lparr>oc_deleted_at := Some t\<rparr>) (t_clients d)\<rparr>)"])
     (auto simp: Clients_SoftDeleteAbandoned_def wf_Clients_SoftDeleteAbandoned)

lemma careful_hard: "careful w (snd (orZero Clients_DeleteLongSoftDeleted w))"
  by (rule careful_stmt[where f = "\<lambda>t d. Inr (countWhere (longDeleted t) (t_clients d),
       d\<lparr>t_clients := removeWhere (longDeleted t) (t_clients d)\<rparr>)"])
     (auto simp: Clients_DeleteLongSoftDeleted_def wf_Clients_DeleteLongSoftDeleted)

text \<open>Rows found by key are the rows themselves: what a sweep deletes by key it has listed.\<close>

lemma in_keys_unique:
  "distinct (map k xs) \<Longrightarrow> x \<in> set xs \<Longrightarrow> set ys \<subseteq> set xs \<Longrightarrow> k x \<in> k ` set ys \<Longrightarrow> x \<in> set ys"
  by (auto simp: distinct_map inj_on_def)

lemma careful_codes: "careful w (snd (expireAuthCodes w))"
proof (cases "runStmt (sweepExpiredStmt (w_now w) authcode_revokeCeiling) w")
  case (Pair r w1)
  show ?thesis
  proof (cases r)
    case (Inl e)
    then have "snd (expireAuthCodes w) = w1"
      using Pair by (simp add: expireAuthCodes_def Codes_SweepExpired_def)
    then show ?thesis
      using runStmt_Inl[of "sweepExpiredStmt (w_now w) authcode_revokeCeiling" w e w1] Pair Inl
      by (intro careful_same) simp_all
  next
    case (Inr toks)
    define gone where "gone = take authcode_revokeCeiling
      (sort_key ac_expires_at (filter (\<lambda>c. ac_expires_at c < w_now w) (t_codes (w_db w))))"
    note f = runStmt_Inr[OF Pair[unfolded Inr]]
    have toks: "toks = map ac_refresh_token gone"
      and d1: "w_db w1 = (w_db w)\<lparr>t_codes := removeWhere (\<lambda>c. ac_code c \<in> set (map ac_code gone)) (t_codes (w_db w))\<rparr>"
      using f(1) by (auto simp: sweepExpiredStmt_def Let_def gone_def)
    have e: "snd (expireAuthCodes w) = revokeAtCCP (filter (\<lambda>t. t \<noteq> []) toks) w1"
      using Pair Inr by (simp add: expireAuthCodes_def Codes_SweepExpired_def collectSwept_def)
    have sub: "set gone \<subseteq> set (t_codes (w_db w))" by (auto simp: gone_def dest!: in_set_takeD)
    show ?thesis
      unfolding careful_def e
    proof (intro impI conjI)
      assume wf: "wf_db (w_db w)"
      then have u: "c \<in> set (t_codes (w_db w)) \<Longrightarrow> ac_code c \<in> ac_code ` set gone \<Longrightarrow> c \<in> set gone" for c
        using in_keys_unique[of ac_code "t_codes (w_db w)" c gone] sub by (simp add: wf_db_def keys_ok_def)
      show "wf_db (w_db (revokeAtCCP (filter (\<lambda>t. t \<noteq> []) toks) w1))"
        using wf d1 by (simp add: wf_drop_codes)
      show "\<exists>sent. w_ccp (revokeAtCCP (filter (\<lambda>t. t \<noteq> []) toks) w1) = w_ccp w @ sent \<and>
          heldTokens (w_db w) \<subseteq> heldTokens (w_db (revokeAtCCP (filter (\<lambda>t. t \<noteq> []) toks) w1)) \<union> set sent"
        by (rule exI[of _ "filter (\<lambda>t. t \<noteq> []) toks"])
           (use f d1 u in \<open>auto simp: heldTokens_def toks\<close>)
    qed (use f d1 in \<open>auto simp: liveRows_def\<close>)
  qed
qed

lemma careful_sessions: "careful w (snd (expireSessions w))"
proof (cases "ExpireValidTil w")
  case (Pair r w1)
  show ?thesis
  proof (cases r)
    case (Inl e)
    then have "snd (expireSessions w) = w1" using Pair by (simp add: expireSessions_def)
    then show ?thesis
      using revokeWith_err[OF Pair[unfolded Inl ExpireValidTil_def]] by (intro careful_same) simp_all
  next
    case (Inr rv)
    define gone where "gone = doomedExpired (w_now w) revokeCeiling (t_sessions (w_db w))"
    let ?f = "\<lambda>s. s\<lparr>se_revoked_at := Some (w_now w), se_refresh_token := None\<rparr>"
    note f = revokeWith_ok[OF Pair[unfolded Inr ExpireValidTil_def], folded gone_def]
    have e: "snd (expireSessions w) = revokeAtCCP (rv_Tokens rv) w1"
      using Pair Inr by (simp add: expireSessions_def)
    have toks: "set (rv_Tokens rv) = {t. t \<noteq> [] \<and> (\<exists>s \<in> set gone. se_refresh_token s = Some t)}"
      by (auto simp: f(1) collectRevoked_tokens image_iff) force+
    have gd: "\<And>s. s \<in> set gone \<Longrightarrow> s \<in> set (t_sessions (w_db w)) \<and> unrevoked s \<and> se_valid_til s < w_now w"
      using doomedExpired_facts(2)[of "w_now w" revokeCeiling "t_sessions (w_db w)"] by (auto simp: gone_def)
    show ?thesis
      unfolding careful_def e
    proof (intro impI conjI)
      assume wf: "wf_db (w_db w)"
      then have u: "s \<in> set (t_sessions (w_db w)) \<Longrightarrow> se_id s \<in> se_id ` set gone \<Longrightarrow> s \<in> set gone" for s
        using in_keys_unique[of se_id "t_sessions (w_db w)" s gone] gd by (auto simp: wf_db_def keys_ok_def)
      have d1: "w_db w1 = (w_db w)\<lparr>t_sessions := updateWhere (\<lambda>s. se_id s \<in> se_id ` set gone) ?f (t_sessions (w_db w))\<rparr>"
        using f(2) by simp
      show "wf_db (w_db (revokeAtCCP (rv_Tokens rv) w1))"
        using wf d1 wf_revoke_sessions[of "w_db w" "\<lambda>s. se_id s \<in> se_id ` set gone" "w_now w"] by simp
      show "\<exists>sent. w_ccp (revokeAtCCP (rv_Tokens rv) w1) = w_ccp w @ sent \<and>
          heldTokens (w_db w) \<subseteq> heldTokens (w_db (revokeAtCCP (rv_Tokens rv) w1)) \<union> set sent"
      proof (intro exI[of _ "rv_Tokens rv"] conjI subsetI)
        fix t assume t: "t \<in> heldTokens (w_db w)"
        show "t \<in> heldTokens (w_db (revokeAtCCP (rv_Tokens rv) w1)) \<union> set (rv_Tokens rv)"
        proof (cases "t \<in> set (rv_Tokens rv)")
          case False
          have "s \<in> set (t_sessions (w_db w1))"
            if "s \<in> set (t_sessions (w_db w))" "se_refresh_token s = Some t" for s
          proof -
            have "s \<notin> set gone" using False that t by (auto simp: toks heldTokens_def)
            then have "se_id s \<notin> se_id ` set gone" using u that(1) by blast
            then show ?thesis using that(1) d1 by (auto simp: image_iff intro!: bexI[of _ s])
          qed
          then have "t_sessions (w_db w1) = t_sessions (w_db w1) \<and> (\<exists>s \<in> set (t_sessions (w_db w)). se_refresh_token s = Some t) \<longrightarrow>
              (\<exists>s \<in> set (t_sessions (w_db w1)). se_refresh_token s = Some t)" by blast
          moreover have "t_codes (w_db w1) = t_codes (w_db w)" by (simp add: d1)
          ultimately show ?thesis using t unfolding heldTokens_def revokeAtCCP_simps by auto
        qed simp
      qed (simp add: f)
      show "liveRows (w_now w) (w_db w) \<subseteq> liveRows (w_now w) (w_db (revokeAtCCP (rv_Tokens rv) w1))"
      proof
        fix s assume s: "s \<in> liveRows (w_now w) (w_db w)"
        then have "s \<notin> set gone" using gd by (force simp: liveRows_def)
        then have "se_id s \<notin> se_id ` set gone" using u s by (auto simp: liveRows_def)
        then show "s \<in> liveRows (w_now w) (w_db (revokeAtCCP (rv_Tokens rv) w1))"
          using s d1 by (auto simp: liveRows_def image_iff intro!: bexI[of _ s])
      qed
    qed (simp add: f)
  qed
qed

lemma careful_purge: "careful w (snd (purgeSessions w))"
proof (cases "runStmt (purgeStmt (w_now w)) w")
  case (Pair r w1)
  have e: "snd (purgeSessions w) = w1"
    using Pair by (cases r) (simp_all add: purgeSessions_def orZero_def PurgeRevoked_def wrapR_def)
  show ?thesis
  proof (cases r)
    case (Inl x)
    then show ?thesis
      unfolding e using runStmt_Inl[of "purgeStmt (w_now w)" w x w1] Pair by (intro careful_same) simp_all
  next
    case (Inr n)
    note f = runStmt_Inr[OF Pair[unfolded Inr]]
    let ?old = "\<lambda>s. case se_revoked_at s of None \<Rightarrow> False | Some t \<Rightarrow> t < w_now w - 90 * day"
    have d1: "w_db w1 = deleteSessions ?old (w_db w)" using f(1) by (simp add: purgeStmt_def Let_def)
    show ?thesis
      unfolding careful_def e
    proof (intro impI conjI)
      assume wf: "wf_db (w_db w)"
      then show "wf_db (w_db w1)" unfolding d1 by (rule wf_deleteSessions)
      have g: "se_refresh_token s = None" if "s \<in> set (t_sessions (w_db w))" "?old s" for s
        using that wf by (auto simp: wf_db_def grants_cleared_def unrevoked_def split: option.splits)
      show "\<exists>sent. w_ccp w1 = w_ccp w @ sent \<and> heldTokens (w_db w) \<subseteq> heldTokens (w_db w1) \<union> set sent"
        by (rule exI[of _ "[]"]) (use f d1 g in \<open>fastforce simp: heldTokens_def deleteSessions_def Let_def\<close>)
      show "liveRows (w_now w) (w_db w) \<subseteq> liveRows (w_now w) (w_db w1)"
        unfolding d1 by (auto simp: liveRows_def deleteSessions_def Let_def unrevoked_def)
    qed (simp add: f)
  qed
qed

subsection \<open>A whole run\<close>

lemma careful_refl: "careful w w" by (simp add: careful_same)

lemma Once_world:
  "snd (Once cancelled tryLock w) = (if \<not> cancelled \<and> tryLock = Inr True
     then snd (orZero Clients_DeleteLongSoftDeleted (snd (orZero Clients_SoftDeleteAbandoned
       (snd (purgeMutations (snd (purgeSessions (snd (expireSessions (snd (expireConfirmTokens
       (snd (expireAuthCodes (snd (expireLoginStates w)))))))))))))))
     else w)"
  by (cases tryLock) (auto simp: Once_def Let_def split_beta purgeClients_def)

lemma careful_Once: "careful w (snd (Once cancelled tryLock w))"
proof -
  note r = careful_trans[OF _ careful_hard] careful_trans[OF _ careful_soft]
    careful_trans[OF _ careful_mutations] careful_trans[OF _ careful_purge]
    careful_trans[OF _ careful_sessions] careful_trans[OF _ careful_confirms]
    careful_trans[OF _ careful_codes]
  show ?thesis
    unfolding Once_world by (simp add: careful_refl r careful_logins)
qed

text \<open>
  What is overdue: unrevoked sessions past their end. One run takes the hundred that ended first,
  and nothing else a run does changes their number.
\<close>

definition overdue :: "time \<Rightarrow> db \<Rightarrow> nat" where
  "overdue now d = countWhere (\<lambda>s. unrevoked s \<and> se_valid_til s < now) (t_sessions d)"

lemma length_filter_split: "length (filter q xs) = length (filter (\<lambda>x. q x \<and> p x) xs) + length (filter (\<lambda>x. q x \<and> \<not> p x) xs)"
  by (induction xs) auto

lemma overdue_expire:
  assumes "wf_db d"
  shows "overdue now (d\<lparr>t_sessions := updateWhere (\<lambda>s. se_id s \<in> se_id ` set (doomedExpired now n (t_sessions d)))
    (\<lambda>s. s\<lparr>se_revoked_at := Some t, se_refresh_token := None\<rparr>) (t_sessions d)\<rparr>) = overdue now d - n"
proof -
  let ?xs = "t_sessions d" and ?q = "\<lambda>s. unrevoked s \<and> se_valid_til s < now"
  let ?gone = "doomedExpired now n ?xs"
  let ?p = "\<lambda>s. se_id s \<in> se_id ` set ?gone"
  have dist: "distinct (map se_id ?xs)" using assms by (simp add: wf_db_def keys_ok_def)
  then have dx: "distinct ?xs" by (simp add: distinct_map)
  have gs: "set ?gone \<subseteq> {s \<in> set ?xs. ?q s}" by (rule doomedExpired_facts(2))
  have "set (filter (\<lambda>s. ?q s \<and> ?p s) ?xs) = set ?gone"
    using in_keys_unique[OF dist, of _ ?gone] gs by auto
  moreover have "distinct ?gone" using dx by (simp add: doomedExpired_def)
  ultimately have "length (filter (\<lambda>s. ?q s \<and> ?p s) ?xs) = length ?gone"
    using dx distinct_card[of ?gone] distinct_card[of "filter (\<lambda>s. ?q s \<and> ?p s) ?xs"] by simp
  moreover have "length ?gone = min n (length (filter ?q ?xs))" by (simp add: doomedExpired_def min.commute)
  moreover have "filter ?q (updateWhere ?p (\<lambda>s. s\<lparr>se_revoked_at := Some t, se_refresh_token := None\<rparr>) ?xs) =
      filter (\<lambda>s. ?q s \<and> \<not> ?p s) ?xs"
    by (rule filter_updateWhere_off) (simp add: unrevoked_def)
  ultimately show ?thesis
    using length_filter_split[of ?q ?xs ?p] by (simp add: overdue_def countWhere_def)
qed

lemma overdue_purge: "overdue now (deleteSessions (\<lambda>s. case se_revoked_at s of None \<Rightarrow> False | Some t \<Rightarrow> t < c) d) = overdue now d"
proof -
  have r: "countWhere q (removeWhere p xs) = countWhere q xs" if "\<And>x. p x \<Longrightarrow> \<not> q x" for p q and xs :: "session_row list"
    using that by (induction xs) auto
  show ?thesis
    unfolding overdue_def deleteSessions_def Let_def
    by (simp, rule r) (simp add: unrevoked_def split: option.splits)
qed

lemma overdue_update_le:
  "countWhere (\<lambda>s. unrevoked s \<and> se_valid_til s < t)
     (updateWhere p (\<lambda>s. s\<lparr>se_revoked_at := Some u, se_refresh_token := None\<rparr>) xs)
   \<le> countWhere (\<lambda>s. unrevoked s \<and> se_valid_til s < t) xs"
  by (induction xs) (auto simp: unrevoked_def)

text \<open>A rule without faults runs its statement.\<close>

lemma rule_ok:
  assumes "w_faults w = []"
  shows "snd (expireLoginStates w) = w\<lparr>w_db := (w_db w)\<lparr>t_logins :=
      removeWhere (\<lambda>l. ls_created_at l < w_now w - 15 * minute) (t_logins (w_db w))\<rparr>\<rparr>"
    and "snd (expireConfirmTokens w) = w\<lparr>w_db := (w_db w)\<lparr>t_confirms :=
      removeWhere (\<lambda>c. ct_expires_at c < w_now w) (t_confirms (w_db w))\<rparr>\<rparr>"
    and "snd (purgeMutations w) = w\<lparr>w_db := (w_db w)\<lparr>t_mutations :=
      removeWhere (\<lambda>m. mu_created_at m < w_now w - 90 * day) (t_mutations (w_db w))\<rparr>\<rparr>"
    and "snd (purgeSessions w) = w\<lparr>w_db := deleteSessions (\<lambda>s. case se_revoked_at s of None \<Rightarrow> False
      | Some t \<Rightarrow> t < w_now w - 90 * day) (w_db w)\<rparr>"
  using assms
  by (simp_all add: expireLoginStates_def Logins_DeleteExpired_def expireConfirmTokens_def
      Confirms_DeleteExpired_def purgeMutations_def DeleteOld_def purgeSessions_def PurgeRevoked_def purgeStmt_def
      orZero_def wrapA_def wrapR_def runStmt_ok Let_def)

lemma rule_ok_clients:
  assumes "w_faults w = []"
  shows "snd (orZero Clients_SoftDeleteAbandoned w) = w\<lparr>w_db := (w_db w)\<lparr>t_clients :=
      updateWhere (abandonedClient (w_now w) (w_db w)) (\<lambda>c. c\<lparr>oc_deleted_at := Some (w_now w)\<rparr>) (t_clients (w_db w))\<rparr>\<rparr>"
    and "snd (orZero Clients_DeleteLongSoftDeleted w) = w\<lparr>w_db := (w_db w)\<lparr>t_clients :=
      removeWhere (longDeleted (w_now w)) (t_clients (w_db w))\<rparr>\<rparr>"
  using assms
  by (simp_all add: orZero_def Clients_SoftDeleteAbandoned_def Clients_DeleteLongSoftDeleted_def wrapA_def wrapR_def
      runStmt_ok)

lemma rule_ok_codes:
  assumes "w_faults w = []"
  shows "\<exists>gone :: code_row list. snd (expireAuthCodes w) = revokeAtCCP (filter (\<lambda>t. t \<noteq> []) (map ac_refresh_token gone))
      (w\<lparr>w_db := (w_db w)\<lparr>t_codes := removeWhere (\<lambda>c. ac_code c \<in> set (map ac_code gone)) (t_codes (w_db w))\<rparr>\<rparr>)"
  by (rule exI[of _ "take authcode_revokeCeiling (sort_key ac_expires_at (filter (\<lambda>c. ac_expires_at c < w_now w) (t_codes (w_db w))))"])
    (use assms in \<open>simp add: expireAuthCodes_def Codes_SweepExpired_def runStmt_ok sweepExpiredStmt_def Let_def collectSwept_def\<close>)

lemma rule_ok_sessions:
  assumes "w_faults w = []"
  shows "\<exists>ts. snd (expireSessions w) = revokeAtCCP ts (w\<lparr>w_db := (w_db w)\<lparr>t_sessions :=
      updateWhere (\<lambda>s. se_id s \<in> se_id ` set (doomedExpired (w_now w) revokeCeiling (t_sessions (w_db w))))
        (\<lambda>s. s\<lparr>se_revoked_at := Some (w_now w), se_refresh_token := None\<rparr>) (t_sessions (w_db w))\<rparr>\<rparr>)"
  using assms
  by (auto simp: expireSessions_def ExpireValidTil_def revokeWith_def runStmt_ok revokeStmt_def Let_def)

text \<open>What one run without faults leaves.\<close>

lemma Once_clean:
  assumes "w_faults w = []" "wf_db (w_db w)" and w': "w' = snd (Once False (Inr True) w)"
  shows "w_faults w' = []" "w_now w' = w_now w" "wf_db (w_db w')"
    "overdue t (w_db w') \<le> overdue t (w_db w)"
    "overdue (w_now w) (w_db w') = overdue (w_now w) (w_db w) - revokeCeiling"
    "\<forall>l \<in> set (t_logins (w_db w')). w_now w - 15 * minute \<le> ls_created_at l"
    "\<forall>c \<in> set (t_confirms (w_db w')). w_now w \<le> ct_expires_at c"
    "\<forall>m \<in> set (t_mutations (w_db w')). w_now w - 90 * day \<le> mu_created_at m"
    "\<forall>s \<in> set (t_sessions (w_db w')). \<forall>r. se_revoked_at s = Some r \<longrightarrow> w_now w - 90 * day \<le> r"
proof -
  let ?t = "w_now w"
  define w1 where "w1 = snd (expireLoginStates w)"
  define w2 where "w2 = snd (expireAuthCodes w1)"
  define w3 where "w3 = snd (expireConfirmTokens w2)"
  define w4 where "w4 = snd (expireSessions w3)"
  define w5 where "w5 = snd (purgeSessions w4)"
  define w6 where "w6 = snd (purgeMutations w5)"
  define w7 where "w7 = snd (orZero Clients_SoftDeleteAbandoned w6)"
  have w: "w' = snd (orZero Clients_DeleteLongSoftDeleted w7)"
    unfolding w' w7_def w6_def w5_def w4_def w3_def w2_def w1_def by (simp add: Once_world)
  show wf: "wf_db (w_db w')" and "w_now w' = ?t"
    using careful_Once[of w False "Inr True"] assms by (simp_all add: careful_def)
  have c1: "w_faults w1 = []" "w_now w1 = ?t" "t_sessions (w_db w1) = t_sessions (w_db w)"
    "\<forall>l \<in> set (t_logins (w_db w1)). ?t - 15 * minute \<le> ls_created_at l"
    using rule_ok(1)[OF assms(1)] assms(1) by (auto simp: w1_def)
  obtain gone :: "code_row list" where e2: "w2 = revokeAtCCP (filter (\<lambda>t. t \<noteq> []) (map ac_refresh_token gone))
      (w1\<lparr>w_db := (w_db w1)\<lparr>t_codes := removeWhere (\<lambda>c. ac_code c \<in> set (map ac_code gone)) (t_codes (w_db w1))\<rparr>\<rparr>)"
    using rule_ok_codes[OF c1(1)] unfolding w2_def by blast
  have c2: "w_faults w2 = []" "w_now w2 = ?t" "t_sessions (w_db w2) = t_sessions (w_db w)" "t_logins (w_db w2) = t_logins (w_db w1)"
    by (simp_all add: e2 c1)
  have c3: "w_faults w3 = []" "w_now w3 = ?t" "t_sessions (w_db w3) = t_sessions (w_db w)" "t_logins (w_db w3) = t_logins (w_db w1)"
    "\<forall>c \<in> set (t_confirms (w_db w3)). ?t \<le> ct_expires_at c"
    using rule_ok(2)[OF c2(1)] c2 by (auto simp: w3_def)
  have wf3: "wf_db (w_db w3)"
    using careful_logins[of w] careful_codes[of w1] careful_confirms[of w2] assms(2)
    by (simp add: careful_def w1_def w2_def w3_def)
  let ?d4 = "(w_db w3)\<lparr>t_sessions := updateWhere (\<lambda>s. se_id s \<in> se_id ` set (doomedExpired ?t revokeCeiling (t_sessions (w_db w3))))
        (\<lambda>s. s\<lparr>se_revoked_at := Some ?t, se_refresh_token := None\<rparr>) (t_sessions (w_db w3))\<rparr>"
  have c4: "w_faults w4 = []" "w_now w4 = ?t" "w_db w4 = ?d4"
    using rule_ok_sessions[OF c3(1)] c3 by (auto simp: w4_def)
  have o4: "overdue ?t (w_db w4) = overdue ?t (w_db w) - revokeCeiling"
    using overdue_expire[OF wf3, of ?t revokeCeiling ?t] c3(3) unfolding c4(3) by (simp add: overdue_def)
  have p4: "overdue t (w_db w4) \<le> overdue t (w_db w)"
    using overdue_update_le c3(3) unfolding c4(3) overdue_def by auto
  let ?old = "\<lambda>s. case se_revoked_at s of None \<Rightarrow> False | Some t \<Rightarrow> t < w_now w4 - 90 * day"
  have c5: "w5 = w4\<lparr>w_db := deleteSessions ?old (w_db w4)\<rparr>"
    unfolding w5_def by (rule rule_ok(4)[OF c4(1)])
  have d5: "w_faults w5 = []" "w_now w5 = ?t" "t_logins (w_db w5) = t_logins (w_db w1)"
    "set (t_confirms (w_db w5)) \<subseteq> set (t_confirms (w_db w3))"
    "\<forall>s \<in> set (t_sessions (w_db w5)). \<forall>r. se_revoked_at s = Some r \<longrightarrow> ?t - 90 * day \<le> r"
    using c4 c3 by (auto simp: c5 deleteSessions_def Let_def)
  have o5: "overdue t (w_db w5) = overdue t (w_db w4)" for t
    by (simp add: c5 overdue_purge)
  have c6: "w_faults w6 = []" "w_now w6 = ?t" "t_logins (w_db w6) = t_logins (w_db w1)"
    "t_confirms (w_db w6) = t_confirms (w_db w5)" "t_sessions (w_db w6) = t_sessions (w_db w5)"
    "\<forall>m \<in> set (t_mutations (w_db w6)). ?t - 90 * day \<le> mu_created_at m"
    using rule_ok(3)[OF d5(1)] d5 by (auto simp: w6_def)
  have c7: "w_faults w7 = []" "t_logins (w_db w7) = t_logins (w_db w1)" "t_confirms (w_db w7) = t_confirms (w_db w5)"
    "t_sessions (w_db w7) = t_sessions (w_db w5)" "t_mutations (w_db w7) = t_mutations (w_db w6)"
    using rule_ok_clients(1)[OF c6(1)] c6 by (simp_all add: w7_def)
  have c8: "w_faults w' = []" "t_logins (w_db w') = t_logins (w_db w1)" "t_confirms (w_db w') = t_confirms (w_db w5)"
    "t_sessions (w_db w') = t_sessions (w_db w5)" "t_mutations (w_db w') = t_mutations (w_db w6)"
    using rule_ok_clients(2)[OF c7(1)] c7 by (simp_all add: w)
  have o8: "overdue t (w_db w') = overdue t (w_db w5)" for t by (simp add: overdue_def c8)
  show "w_faults w' = []" by (fact c8)
  show "overdue t (w_db w') \<le> overdue t (w_db w)" using p4 o5 o8 by simp
  show "overdue ?t (w_db w') = overdue ?t (w_db w) - revokeCeiling" using o4 o5 o8 by simp
  show "\<forall>l \<in> set (t_logins (w_db w')). ?t - 15 * minute \<le> ls_created_at l" using c8 c1 by simp
  show "\<forall>c \<in> set (t_confirms (w_db w')). ?t \<le> ct_expires_at c" using c8 d5 c3 by auto
  show "\<forall>m \<in> set (t_mutations (w_db w')). ?t - 90 * day \<le> mu_created_at m" using c8 c6 by simp
  show "\<forall>s \<in> set (t_sessions (w_db w')). \<forall>r. se_revoked_at s = Some r \<longrightarrow> ?t - 90 * day \<le> r"
    using c8 d5 by simp
qed

lemma Once_iterate:
  assumes "w_faults w = []" "wf_db (w_db w)"
  defines "run \<equiv> \<lambda>v. snd (Once False (Inr True) v)"
  shows "w_faults ((run ^^ k) w) = [] \<and> w_now ((run ^^ k) w) = w_now w \<and> wf_db (w_db ((run ^^ k) w)) \<and>
    overdue (w_now w) (w_db ((run ^^ k) w)) = overdue (w_now w) (w_db w) - k * revokeCeiling"
proof (induction k)
  case (Suc k)
  define v where "v = (run ^^ k) w"
  have v: "w_faults v = []" "w_now v = w_now w" "wf_db (w_db v)"
    "overdue (w_now w) (w_db v) = overdue (w_now w) (w_db w) - k * revokeCeiling"
    using Suc.IH by (simp_all add: v_def)
  note c = Once_clean[OF v(1,3) refl]
  show ?case using c(1,2,3,5) v by (simp add: run_def v_def)
qed (use assms in simp)

subsection \<open>Claims\<close>

text \<open>
  C22. Whatever fails during it, a sweep is careful: the tables stay well formed, every EVE refresh
  token it drops from sessions and codes has been sent to CCP for revocation, and no session that
  has not reached its end is touched. Without the lock it does nothing.
\<close>

theorem sweep_is_careful:
  assumes "wf_db (w_db w)"
  shows "let w' = snd (Once cancelled tryLock w) in
    wf_db (w_db w') \<and>
    (\<exists>sent. w_ccp w' = w_ccp w @ sent \<and> heldTokens (w_db w) - heldTokens (w_db w') \<subseteq> set sent) \<and>
    liveRows (w_now w) (w_db w) \<subseteq> liveRows (w_now w) (w_db w') \<and>
    (cancelled \<or> tryLock \<noteq> Inr True \<longrightarrow> w' = w)"
  using careful_Once[of w cancelled tryLock] assms Once_world[of cancelled tryLock w]
  by (auto simp: careful_def Let_def)


text \<open>A world with an overdue session, a live one and an expired login state.\<close>

definition sweepDb :: db where
  "sweepDb = empty_db\<lparr>
     t_characters := [\<lparr>ch_id = 7, ch_name = ''Pilot'', ch_owner_hash = ''h'', ch_added_at = 1, ch_deleted_at = None\<rparr>,
       \<lparr>ch_id = 8, ch_name = ''Alt'', ch_owner_hash = ''k'', ch_added_at = 1, ch_deleted_at = None\<rparr>],
     t_sessions := [\<lparr>se_id = 1, se_character_id = 7, se_refresh_token = Some ''r'', se_scopes = [],
        se_mcp_client_id = ''c'', se_client_name = [], se_ip = [], se_created_at = 1,
        se_valid_til = 30 * day, se_revoked_at = None\<rparr>,
       \<lparr>se_id = 2, se_character_id = 8, se_refresh_token = Some ''q'', se_scopes = [],
        se_mcp_client_id = ''c'', se_client_name = [], se_ip = [], se_created_at = 1,
        se_valid_til = 90 * day, se_revoked_at = None\<rparr>],
     t_logins := [\<lparr>ls_state = ''s'', ls_pkce_verifier = ''v'', ls_scopes = [], ls_mcp_client_id = ''c'',
        ls_redirect_uri = [], ls_mcp_state = [], ls_code_challenge = [], ls_created_at = 1\<rparr>],
     seq_sessions := 3\<rparr>"

lemma wf_sweepDb: "wf_db sweepDb"
  by (simp add: wf_defs sweepDb_def empty_db_def unrevoked_def)

theorem sweep_is_careful_witness:
  "let w = (world0 (60 * day))\<lparr>w_db := sweepDb\<rparr>; w' = snd (Once False (Inr True) w) in
    wf_db (w_db w') \<and>
    (\<exists>sent. w_ccp w' = w_ccp w @ sent \<and> heldTokens (w_db w) - heldTokens (w_db w') \<subseteq> set sent) \<and>
    liveRows (w_now w) (w_db w) \<subseteq> liveRows (w_now w) (w_db w') \<and>
    (False \<or> Inr True \<noteq> (Inr True :: goerr + bool) \<longrightarrow> w' = w)"
  using sweep_is_careful[of "(world0 (60 * day))\<lparr>w_db := sweepDb\<rparr>" False "Inr True"] wf_sweepDb
  by (simp add: Let_def)


end
