(* ===== verification/System.thy ===== *)
theory System
  imports LoginProps Sweep
begin

text \<open>
  The server as a whole: the requests it serves, the tools' access to the character and the EVE
  token, logouts and the sweeper, one after another in any order and at any times. The locale
  \<open>repositories\<close> lists what these use of the repositories; it is interpreted on the tables'
  invariant and on the relation \<open>shrinks\<close>, so that what the handlers preserve is proved once.
\<close>

subsection \<open>What the handlers use of the repositories\<close>

locale repositories = session_invariant I R for I R +
  assumes Codes_Take_ok: "preserves I R (Codes_Take v)"
    and Codes_Sweep_ok: "preserves I R Codes_SweepExpired"
    and Logins_Take_ok: "preserves I R (Logins_Take v)"
    and Logins_Sweep_ok: "preserves I R Logins_DeleteExpired"
    and Confirms_Sweep_ok: "preserves I R Confirms_DeleteExpired"
    and Create_ok: "preserves I R (Create s)"
    and Purge_ok: "preserves I R PurgeRevoked"
    and Characters_Upsert_ok: "preserves I R (Characters_Upsert ch)"
    and Characters_Delete_ok: "preserves I R (Characters_Delete i)"
    and Clients_Upsert_ok: "preserves I R (Clients_Upsert cl)"
    and Clients_Soft_ok: "preserves I R Clients_SoftDeleteAbandoned"
    and Clients_Hard_ok: "preserves I R Clients_DeleteLongSoftDeleted"
    and DeleteOld_ok: "preserves I R DeleteOld"
begin

definition keepsTo :: "world \<Rightarrow> world \<Rightarrow> bool" where
  "keepsTo w w' = (I (w_db w) \<longrightarrow> I (w_db w') \<and> R (w_db w) (w_db w'))"

lemma keepsTo_same: "w_db w' = w_db w \<Longrightarrow> keepsTo w w'"
  by (simp add: keepsTo_def R_refl)

lemma keepsTo_trans: "keepsTo w w1 \<Longrightarrow> keepsTo w1 w2 \<Longrightarrow> keepsTo w w2"
  using R_trans[of "w_db w" "w_db w1" "w_db w2"] by (simp add: keepsTo_def)

lemma keepsTo_action: "preserves I R m \<Longrightarrow> m w = (r, w1) \<Longrightarrow> keepsTo w w1"
  using preservesD[of m w r w1] by (simp add: keepsTo_def)

lemma keepsTo_reads: "reads m \<Longrightarrow> m w = (r, w1) \<Longrightarrow> keepsTo w w1"
  using readsD[of m w r w1] by (simp add: keepsTo_same)

lemma keepsTo_ccp: "keepsTo w w1 \<Longrightarrow> keepsTo w (revokeAtCCP ts w1)"
  by (simp add: keepsTo_def)

lemma keepsTo_grants [simp]: "keepsTo w (w1\<lparr>w_grants := g\<rparr>) = keepsTo w w1"
  by (simp add: keepsTo_def)

lemma Revokes_ok: "preserves I R (RevokeAllForCharacter c)" "preserves I R (Revoke i)" "preserves I R ExpireValidTil"
  by (simp_all add: RevokeAllForCharacter_def Revoke_def ExpireValidTil_def revoke_ok)

lemma Redeem_ok: "preserves I R (Redeem p)"
  unfolding Redeem_def redeemTx_def
  by (intro preserves_wrapA preserves_WithinTx preserves_andThen Codes_Take_ok Revokes_ok Create_ok
      preserves_const) simp_all

lemma LiveByID_keepsTo: "LiveByID i w = (r, w1) \<Longrightarrow> keepsTo w w1"
  by (rule keepsTo_reads[OF reads_LiveByID])

lemma exchangeCode_keepsTo: "exchangeCode J s form ip w = (rep, w') \<Longrightarrow> keepsTo w w'"
  by (auto simp: exchangeCode_def Let_def split: prod.splits sum.splits if_splits
      dest!: keepsTo_reads[OF reads_Codes_Get] keepsTo_reads[OF reads_clientName] keepsTo_action[OF Redeem_ok]
      intro!: keepsTo_ccp intro: keepsTo_trans)

lemma refreshGrant_keepsTo: "refreshGrant J s form w = (rep, w') \<Longrightarrow> keepsTo w w'"
  by (auto simp: refreshGrant_def split: prod.splits sum.splits if_splits dest!: LiveByID_keepsTo intro: keepsTo_same)

lemma ServeToken_keepsTo: "ServeToken J s verb form ip w = (rep, w') \<Longrightarrow> keepsTo w w'"
  by (auto simp: ServeToken_def split: option.splits if_splits
      intro: exchangeCode_keepsTo refreshGrant_keepsTo keepsTo_same)

lemma requireLive_keepsTo: "requireLive ref w = (r, w') \<Longrightarrow> keepsTo w w'"
  by (auto simp: requireLive_def split: prod.splits sum.splits if_splits
      dest!: LiveByID_keepsTo keepsTo_action[OF Revokes_ok(2)] intro: keepsTo_trans)

lemma ProtectMCP_keepsTo: "ProtectMCP ti s w = (rep, s', w') \<Longrightarrow> keepsTo w w'"
  by (auto simp: ProtectMCP_def SessionFor_def RebuildGrant_def ForCharacter_def Let_def
      split: option.splits if_splits sum.splits prod.splits
      dest!: requireLive_keepsTo intro: keepsTo_same keepsTo_trans)

lemma randomID_keepsTo: "randomID n w = (x, w') \<Longrightarrow> keepsTo w w'"
  using randomID_keeps[of n w x w'] by (simp add: keepsTo_same)

lemma ServeRegister_keepsTo: "ServeRegister N s verb body w = (rep, w') \<Longrightarrow> keepsTo w w'"
  by (auto simp: ServeRegister_def Let_def split: option.splits if_splits prod.splits sum.splits
      dest!: keepsTo_action[OF Clients_Upsert_ok] randomID_keepsTo intro: keepsTo_same keepsTo_trans)

lemma Logout_keepsTo: "Logout s w = (r, w') \<Longrightarrow> keepsTo w w'"
proof -
  have tx: "preserves I R (WithinTx (logoutTx s))"
    unfolding logoutTx_def
    by (intro preserves_wrapA preserves_WithinTx preserves_andThen Revokes_ok Characters_Delete_ok preserves_const) simp_all
  have g: "preserves I R (Characters_Get c)" for c by (intro preserves_const) simp
  show "Logout s w = (r, w') \<Longrightarrow> keepsTo w w'"
    by (auto simp: Logout_def wrapA_def wrapR_def split: prod.splits sum.splits
        dest!: keepsTo_action[OF tx] keepsTo_action[OF g] intro!: keepsTo_ccp intro: keepsTo_trans)
qed

lemma revokeOnOwnerHashChange_keepsTo: "revokeOnOwnerHashChange token w = (r, w') \<Longrightarrow> keepsTo w w'"
proof -
  have g: "preserves I R (Characters_Get c)" for c by (intro preserves_const) simp
  show "revokeOnOwnerHashChange token w = (r, w') \<Longrightarrow> keepsTo w w'"
    by (auto simp: revokeOnOwnerHashChange_def split: prod.splits sum.splits if_splits
        dest!: keepsTo_action[OF g] keepsTo_action[OF Revokes_ok(1)] intro!: keepsTo_ccp intro: keepsTo_trans)
qed

lemma Character_keepsTo: "Character s w = (r, w') \<Longrightarrow> keepsTo w w'"
proof -
  have g: "preserves I R (Characters_Get c)" for c by (intro preserves_const) simp
  have sh: "keepsTo w w1" if "revokeIfScopesFallShort s sc w = (x, w1)" for sc w x w1
    using that
    by (auto simp: revokeIfScopesFallShort_def split: prod.splits if_splits
        dest!: keepsTo_action[OF Revokes_ok(2)] intro: keepsTo_same)
  show "Character s w = (r, w') \<Longrightarrow> keepsTo w w'"
    by (auto simp: Character_def wrapA_def wrapR_def split: prod.splits sum.splits if_splits
        dest!: LiveByID_keepsTo keepsTo_action[OF g] sh intro: keepsTo_same keepsTo_trans)
qed

lemma eveAccess_keepsTo: "eveAccess sso s w = (r, w') \<Longrightarrow> keepsTo w w'"
  by (rule keepsTo_action[OF preserves_eveAccess])

lemma orZero_keepsTo: "preserves I R m \<Longrightarrow> orZero m w = (n, w') \<Longrightarrow> keepsTo w w'"
  by (auto simp: orZero_def split: prod.splits sum.splits dest: keepsTo_action)

lemma Once_keepsTo: "keepsTo w (snd (Once cancelled tryLock w))"
proof -
  have o: "preserves I R m \<Longrightarrow> keepsTo v (snd (orZero m v))" for m v
    using orZero_keepsTo[of m v] by (metis surj_pair snd_conv)
  have c: "keepsTo v (snd (expireAuthCodes v))" for v
    by (auto simp: expireAuthCodes_def split: prod.split sum.split
        dest: keepsTo_action[OF Codes_Sweep_ok] intro!: keepsTo_ccp)
  have e: "keepsTo v (snd (expireSessions v))" for v
    by (auto simp: expireSessions_def split: prod.split sum.split
        dest: keepsTo_action[OF Revokes_ok(3)] intro!: keepsTo_ccp)
  note t = keepsTo_trans[OF _ o[OF Clients_Hard_ok]] keepsTo_trans[OF _ o[OF Clients_Soft_ok]]
    keepsTo_trans[OF _ o[OF DeleteOld_ok]] keepsTo_trans[OF _ o[OF Purge_ok]] keepsTo_trans[OF _ e]
    keepsTo_trans[OF _ o[OF Confirms_Sweep_ok]] keepsTo_trans[OF _ c]
  show ?thesis
    unfolding Once_world purgeMutations_def purgeSessions_def expireConfirmTokens_def expireLoginStates_def
    by (simp add: keepsTo_same t o[OF Logins_Sweep_ok])
qed

end

subsection \<open>The two interpretations\<close>

text \<open>Login states and codes only ever leave their tables, but for the two operations that put them.\<close>

definition shrinks :: "db \<Rightarrow> db \<Rightarrow> bool" where
  "shrinks d d' = (set (t_logins d') \<subseteq> set (t_logins d) \<and> set (t_codes d') \<subseteq> set (t_codes d))"

interpretation shr: table_invariant "\<lambda>_. True" shrinks
  by unfold_locales (auto simp: shrinks_def rollbackTo_def)

lemma shr_stmt:
  assumes "\<And>t d x d'. f t d = Inr (x, d') \<Longrightarrow> shrinks d d'"
    "\<And>w. w_db (snd (n w)) = w_db (snd (runStmt (f (w_now w)) w))"
  shows "preserves (\<lambda>_. True) shrinks n"
  using shr.preserves_stmt[of "f _"] assms unfolding preserves_def by metis

interpretation wfr: repositories wf_db seq_le
proof unfold_locales
  show "preserves wf_db seq_le Logins_DeleteExpired"
    by (rule preserves_run_at[where f = "\<lambda>t d. let old = (\<lambda>l. ls_created_at l < t - 15 * minute) in
       Inr (countWhere old (t_logins d), d\<lparr>t_logins := removeWhere old (t_logins d)\<rparr>)"])
      (auto simp: Logins_DeleteExpired_def Let_def seq_le_def wf_drop_logins)
qed (intro inv_intros)+

lemmas shr_defs = shrinks_def Let_def takeStmt_def upsertCharacterStmt_def upsertClientStmt_def
  deleteCharacterStmt_def createStmt_def revokeStmt_def purgeStmt_def deleteSessions_def sweepExpiredStmt_def
  writeRefreshStmt_def

interpretation shrr: repositories "\<lambda>_. True" shrinks
proof unfold_locales
  show "preserves (\<lambda>_. True) shrinks (Codes_Take v)" for v
    by (rule shr_stmt[where f = "\<lambda>_. takeStmt (\<lambda>c. ac_code c = v) t_codes (\<lambda>xs d. d\<lparr>t_codes := xs\<rparr>)"])
       (auto simp: Codes_Take_def shr_defs split: prod.split sum.split option.splits)
  show "preserves (\<lambda>_. True) shrinks Codes_SweepExpired"
    by (rule shr_stmt[where f = "\<lambda>t. sweepExpiredStmt t authcode_revokeCeiling"])
       (auto simp: Codes_SweepExpired_def shr_defs split: prod.split sum.split)
  show "preserves (\<lambda>_. True) shrinks (Logins_Take v)" for v
    by (rule shr_stmt[where f = "\<lambda>_. takeStmt (\<lambda>c. ls_state c = v) t_logins (\<lambda>xs d. d\<lparr>t_logins := xs\<rparr>)"])
       (auto simp: Logins_Take_def shr_defs split: prod.split sum.split option.splits)
  show "preserves (\<lambda>_. True) shrinks Logins_DeleteExpired"
    by (rule shr_stmt[where f = "\<lambda>t d. let old = (\<lambda>l. ls_created_at l < t - 15 * minute) in
       Inr (countWhere old (t_logins d), d\<lparr>t_logins := removeWhere old (t_logins d)\<rparr>)"])
       (auto simp: Logins_DeleteExpired_def shr_defs)
  show "preserves (\<lambda>_. True) shrinks Confirms_DeleteExpired"
    by (rule shr_stmt[where f = "\<lambda>t d. let old = (\<lambda>c. ct_expires_at c < t) in
       Inr (countWhere old (t_confirms d), d\<lparr>t_confirms := removeWhere old (t_confirms d)\<rparr>)"])
       (auto simp: Confirms_DeleteExpired_def shr_defs)
  show "preserves (\<lambda>_. True) shrinks (Create s)" for s
    by (rule shr_stmt[where f = "\<lambda>t. createStmt s t"])
       (auto simp: Create_def shr_defs split: prod.split sum.split if_splits)
  show "preserves (\<lambda>_. True) shrinks (revokeWith op doomed)" for op doomed
    by (rule shr_stmt[where f = "\<lambda>t. revokeStmt (doomed t) t"])
       (auto simp: revokeWith_def shr_defs split: prod.split sum.split)
  show "preserves (\<lambda>_. True) shrinks PurgeRevoked"
    by (rule shr_stmt[where f = purgeStmt]) (auto simp: PurgeRevoked_def shr_defs)
  show "preserves (\<lambda>_. True) shrinks (Characters_Upsert ch)" for ch
    by (rule shr_stmt[where f = "\<lambda>t. upsertCharacterStmt (if isZero (ch_added_at ch) then ch\<lparr>ch_added_at := t\<rparr> else ch)"])
       (auto simp: Characters_Upsert_def wrapA_def shr_defs split: prod.split if_splits)
  show "preserves (\<lambda>_. True) shrinks (Characters_Delete i)" for i
    by (rule shr_stmt[where f = "deleteCharacterStmt i"])
       (auto simp: Characters_Delete_def shr_defs split: prod.split sum.split)
  show "preserves (\<lambda>_. True) shrinks (Clients_Upsert cl)" for cl
    by (rule shr_stmt[where f = "\<lambda>t. upsertClientStmt (if isZero (oc_created_at cl) then cl\<lparr>oc_created_at := t\<rparr> else cl)"])
       (auto simp: Clients_Upsert_def wrapA_def shr_defs split: prod.split if_splits)
  show "preserves (\<lambda>_. True) shrinks Clients_SoftDeleteAbandoned"
    by (rule shr_stmt[where f = "\<lambda>t d. Inr (countWhere (abandonedClient t d) (t_clients d),
       d\<lparr>t_clients := updateWhere (abandonedClient t d) (\<lambda>c. c\<lparr>oc_deleted_at := Some t\<rparr>) (t_clients d)\<rparr>)"])
       (auto simp: Clients_SoftDeleteAbandoned_def shr_defs)
  show "preserves (\<lambda>_. True) shrinks Clients_DeleteLongSoftDeleted"
    by (rule shr_stmt[where f = "\<lambda>t d. Inr (countWhere (longDeleted t) (t_clients d),
       d\<lparr>t_clients := removeWhere (longDeleted t) (t_clients d)\<rparr>)"])
       (auto simp: Clients_DeleteLongSoftDeleted_def shr_defs)
  show "preserves (\<lambda>_. True) shrinks DeleteOld"
    by (rule shr_stmt[where f = "\<lambda>t d. let old = (\<lambda>m. mu_created_at m < t - 90 * day) in
       Inr (countWhere old (t_mutations d), d\<lparr>t_mutations := removeWhere old (t_mutations d)\<rparr>)"])
       (auto simp: DeleteOld_def shr_defs)
  show "writeRefreshStmt i next d = Inr (x, d') \<Longrightarrow> True \<and> shrinks d d'" for i "next" d and x :: unit and d'
    by (auto simp: shr_defs)
qed

subsection \<open>The server in time\<close>

text \<open>
  One event of the whole system: a request, a step of a tool, a logout or a sweep. The server's
  state is its session objects and the world; \<open>e_At\<close> sets the clock an event reads.
\<close>

datatype event =
    At time
  | Register string "(string list \<times> string) option"
  | StartLogin "string \<Rightarrow> string"
  | LoginCallback string string
  | Token string "(string \<Rightarrow> string) option" string
  | McpRequest "TokenInfo option"
  | ToolCharacter Sess
  | ToolAccess Sess
  | ToolLogout Sess
  | SweepRun bool "goerr + bool"

fun handle :: "netlib \<Rightarrow> jwtlib \<Rightarrow> SSO \<Rightarrow> event \<Rightarrow> Server \<times> world \<Rightarrow> Server \<times> world" where
  "handle N J sso (At t) (s, w) = (s, w\<lparr>w_now := t\<rparr>)"
| "handle N J sso (Register verb body) (s, w) = (s, snd (ServeRegister N s verb body w))"
| "handle N J sso (StartLogin q) (s, w) = (s, snd (ServeAuthorize N sso s q w))"
| "handle N J sso (LoginCallback code st) (s, w) = (s, snd (CompleteCallback N sso code st w))"
| "handle N J sso (Token verb form ip) (s, w) = (s, snd (ServeToken J s verb form ip w))"
| "handle N J sso (McpRequest ti) (s, w) = snd (ProtectMCP ti s w)"
| "handle N J sso (ToolCharacter sess) (s, w) = (s, snd (Character sess w))"
| "handle N J sso (ToolAccess sess) (s, w) = (s, snd (eveAccess sso sess w))"
| "handle N J sso (ToolLogout sess) (s, w) = (s, snd (Logout sess w))"
| "handle N J sso (SweepRun cancelled tryLock) (s, w) = (s, snd (Once cancelled tryLock w))"

definition history :: "netlib \<Rightarrow> jwtlib \<Rightarrow> SSO \<Rightarrow> event list \<Rightarrow> Server \<times> world \<Rightarrow> Server \<times> world" where
  "history N J sso es sw = fold (handle N J sso) es sw"

context repositories begin

text \<open>Every event that puts neither a login state nor a code.\<close>

lemma handle_keepsTo:
  assumes "\<And>q. e \<noteq> StartLogin q" "\<And>c st. e \<noteq> LoginCallback c st" "handle N J sso e (s, w) = (s', w')"
  shows "keepsTo w w'"
proof -
  have "keepsTo w (snd (handle N J sso e (s, w)))"
  proof (cases e)
    case (At t) then show ?thesis by (simp add: keepsTo_same)
  next
    case (Register verb body)
    then show ?thesis using ServeRegister_keepsTo[of N s verb body w] by (cases "ServeRegister N s verb body w") simp
  next
    case (Token verb form ip)
    then show ?thesis using ServeToken_keepsTo[of J s verb form ip w] by (cases "ServeToken J s verb form ip w") simp
  next
    case (McpRequest ti)
    then show ?thesis using ProtectMCP_keepsTo[of ti s w] by (cases "ProtectMCP ti s w") simp
  next
    case (ToolCharacter sess)
    then show ?thesis using Character_keepsTo[of sess w] by (cases "Character sess w") simp
  next
    case (ToolAccess sess)
    then show ?thesis using eveAccess_keepsTo[of sso sess w] by (cases "eveAccess sso sess w") simp
  next
    case (ToolLogout sess)
    then show ?thesis using Logout_keepsTo[of sess w] by (cases "Logout sess w") simp
  next
    case (SweepRun c l) then show ?thesis using Once_keepsTo by simp
  qed (use assms in auto)
  then show ?thesis using assms(3) by simp
qed

lemma ServeAuthorize_steps:
  assumes "ServeAuthorize N sso s q w = (rep, w')"
  shows "keepsTo w w' \<or> (\<exists>w1 l r. keepsTo w w1 \<and> Logins_Put l w1 = (r, w') \<and>
    redirectAllowed N s (q ''redirect_uri'') \<and> ls_mcp_client_id l = q ''client_id'' \<and>
    ls_redirect_uri l = q ''redirect_uri'' \<and> ls_code_challenge l = q ''code_challenge'')"
proof (cases "q ''client_id'' = [] \<or> q ''redirect_uri'' = [] \<or> q ''code_challenge'' = []")
  case True then show ?thesis using assms by (auto simp: ServeAuthorize_def intro: keepsTo_same)
next
  case False
  obtain ok w1 where ok: "clientRedirectOK N s (q ''client_id'') (q ''redirect_uri'') w = (ok, w1)" by force
  note k = keepsTo_reads[OF reads_clientRedirectOK ok]
  show ?thesis
  proof (cases "ok \<and> (\<exists>prep. PrepareLogin sso [] (w_now w1) = Inr prep)")
    case No: False
    then have "w' = w1" using assms False ok by (auto simp: ServeAuthorize_def Let_def split: sum.splits if_splits)
    then show ?thesis using k by simp
  next
    case True
    then obtain prep where prep: "ok" "PrepareLogin sso [] (w_now w1) = Inr prep" by blast
    have allowed: "redirectAllowed N s (q ''redirect_uri'')"
      using ok prep(1) by (auto simp: clientRedirectOK_def split: if_splits)
    let ?l = "\<lparr>ls_state = pl_State prep, ls_pkce_verifier = pl_Verifier prep,
              ls_scopes = pl_Scopes prep, ls_mcp_client_id = q ''client_id'', ls_redirect_uri = q ''redirect_uri'',
              ls_mcp_state = q ''state'', ls_code_challenge = q ''code_challenge'', ls_created_at = 0\<rparr>"
    obtain z w2 where z: "Logins_Put ?l w1 = (z, w2)" by force
    then have "w' = w2"
      using assms False ok prep by (auto simp: ServeAuthorize_def Let_def split: sum.splits)
    then show ?thesis using k z allowed by (intro disjI2 exI[of _ w1] exI[of _ ?l] exI[of _ z]) simp
  qed
qed

lemma finishMCP_steps:
  assumes "finishMCP N l tok w = (x, w')"
  shows "keepsTo w w' \<or> (\<exists>w1 c r. keepsTo w w1 \<and> Codes_Put c w1 = (r, w') \<and>
    ac_mcp_client_id c = ls_mcp_client_id l \<and> ac_redirect_uri c = ls_redirect_uri l \<and>
    ac_code_challenge c = ls_code_challenge l)"
proof (cases "MissingScopes (tk_Scopes tok) = []")
  case False then show ?thesis using assms by (auto simp: finishMCP_def intro: keepsTo_same)
next
  case True
  obtain a w1 where a: "revokeOnOwnerHashChange tok w = (a, w1)" by force
  note k1 = revokeOnOwnerHashChange_keepsTo[OF a]
  let ?ch = "\<lparr>ch_id = tk_CharacterID tok, ch_name = tk_CharacterName tok,
            ch_owner_hash = tk_OwnerHash tok, ch_added_at = 0, ch_deleted_at = None\<rparr>"
  obtain b w2 where b: "Characters_Upsert ?ch w1 = (b, w2)" by force
  note k2 = keepsTo_trans[OF k1 keepsTo_action[OF Characters_Upsert_ok b]]
  obtain cd w3 where i: "randomID authCodeBytes w2 = (cd, w3)" by force
  note k3 = keepsTo_trans[OF k2 randomID_keepsTo[OF i]]
  let ?c = "\<lparr>ac_code = cd, ac_character_id = tk_CharacterID tok,
               ac_refresh_token = tk_RefreshToken tok, ac_scopes = tk_Scopes tok,
               ac_mcp_client_id = ls_mcp_client_id l, ac_redirect_uri = ls_redirect_uri l,
               ac_code_challenge = ls_code_challenge l, ac_expires_at = w_now w3 + codeTTL\<rparr>"
  obtain d w4 where d: "Codes_Put ?c w3 = (d, w4)" by force
  have "w' = w1 \<or> w' = w2 \<or> w' = w4"
    using assms True a b i d by (auto simp: finishMCP_def Let_def split: sum.splits option.splits)
  then show ?thesis using k1 k2 k3 d by (auto intro!: exI[of _ w3] exI[of _ ?c] exI[of _ d])
qed

lemma CompleteCallback_steps:
  assumes "CompleteCallback N sso code st w = (x, w')"
  shows "keepsTo w w' \<or> (\<exists>l w1 c r. loginRow (w_db w) st = Some l \<and> keepsTo w w1 \<and> Codes_Put c w1 = (r, w') \<and>
    ac_mcp_client_id c = ls_mcp_client_id l \<and> ac_redirect_uri c = ls_redirect_uri l \<and>
    ac_code_challenge c = ls_code_challenge l)"
proof -
  obtain a w1 where a: "Logins_Take st w = (a, w1)" by force
  note k1 = keepsTo_action[OF Logins_Take_ok a]
  show ?thesis
  proof (cases "\<exists>l tok. a = Inr l \<and> ExchangeCode sso code (ls_pkce_verifier l) (w_now w1) = Inr tok")
    case False
    then have "w' = w1"
      using assms a by (auto simp: CompleteCallback_def split: sum.splits if_splits)
    then show ?thesis using k1 by simp
  next
    case True
    then obtain l tok where l: "a = Inr l" "ExchangeCode sso code (ls_pkce_verifier l) (w_now w1) = Inr tok" by blast
    obtain y w2 where y: "finishMCP N l tok w1 = (y, w2)" by force
    have "w' = w2" using assms a l y by (auto simp: CompleteCallback_def split: sum.splits)
    moreover have "loginRow (w_db w) st = Some l" using OneShot.Logins_Take_ok(1) a l(1) by blast
    ultimately show ?thesis using finishMCP_steps[OF y] keepsTo_trans[OF k1] by blast
  qed
qed

end

subsection \<open>The tables stay well formed\<close>

lemma handle_wf:
  assumes "handle N J sso e (s, w) = (s', w')" "wf_db (w_db w)"
  shows "wf_db (w_db w')"
proof -
  consider (login) q where "e = StartLogin q" | (callback) code st where "e = LoginCallback code st"
    | (other) "\<And>q. e \<noteq> StartLogin q" "\<And>c st. e \<noteq> LoginCallback c st" by blast
  then show ?thesis
  proof cases
    case login
    then obtain rep where "ServeAuthorize N sso s q w = (rep, w')"
      using assms(1) by (cases "ServeAuthorize N sso s q w") simp
    from wfr.ServeAuthorize_steps[OF this] show ?thesis
      using assms(2) wf.preservesD[OF wf_Logins_Put] by (auto simp: wfr.keepsTo_def)
  next
    case callback
    then obtain rep where "CompleteCallback N sso code st w = (rep, w')"
      using assms(1) by (cases "CompleteCallback N sso code st w") simp
    from wfr.CompleteCallback_steps[OF this] show ?thesis
      using assms(2) wf.preservesD[OF wf_Codes_Put] by (auto simp: wfr.keepsTo_def)
  next
    case other
    from wfr.handle_keepsTo[OF other assms(1)] assms(2) show ?thesis by (simp add: wfr.keepsTo_def)
  qed
qed

lemma handle_sessions_ok:
  assumes "handle N J sso e (s, w) = (s', w')" "sessions_ok s"
  shows "sessions_ok s' \<and> sv_ExtraRedirects s' = sv_ExtraRedirects s"
proof (cases "\<exists>ti. e = McpRequest ti")
  case False
  then have "s' = s" using assms(1) by (cases e) auto
  then show ?thesis using assms(2) by simp
next
  case True
  then obtain ti rep where p: "ProtectMCP ti s w = (rep, s', w')"
    using assms(1) by (metis handle.simps(6) prod.collapse)
  have x: "sv_ExtraRedirects s2 = sv_ExtraRedirects s" if "SessionFor c sid s v = (sess, s2, v2)" for c sid v sess s2 v2
    using that by (auto simp: SessionFor_def Let_def split: option.splits if_splits prod.splits)
  have "sessions_ok s'"
    using p assms(2) SessionFor_effect(1)[of _ _ s]
    by (auto simp: ProtectMCP_def split: option.splits if_splits sum.splits prod.splits)
  moreover have "sv_ExtraRedirects s' = sv_ExtraRedirects s"
    using p x by (auto simp: ProtectMCP_def split: option.splits if_splits sum.splits prod.splits)
  ultimately show ?thesis by simp
qed

lemma history_wf:
  "history N J sso es (s, w) = (s', w') \<Longrightarrow> wf_db (w_db w) \<Longrightarrow> sessions_ok s \<Longrightarrow>
   wf_db (w_db w') \<and> sessions_ok s' \<and> sv_ExtraRedirects s' = sv_ExtraRedirects s"
proof (induction es arbitrary: s w)
  case (Cons e es)
  obtain s1 w1 where h: "handle N J sso e (s, w) = (s1, w1)" by force
  show ?case
    using Cons.IH[of s1 w1] Cons.prems h handle_wf[OF h] handle_sessions_ok[OF h] by (simp add: history_def)
qed (simp add: history_def)

text \<open>
  C8. No history breaks the tables. After any sequence of registrations, logins, callbacks, token
  and MCP requests, tool checks, token refreshes, logouts and sweeps, with any answers of the
  sign-in service and any database faults, the tables are well formed: unique keys, at most one
  unrevoked session per character, references that resolve, fresh identities, and no EVE grant in
  a revoked session; and the server's session objects still match their characters.
\<close>

theorem history_keeps_tables_well_formed:
  assumes "history N J sso es (s, w) = (s', w')" "wf_db (w_db w)" "sessions_ok s"
  shows "keys_ok (w_db w') \<and> one_live (w_db w') \<and> refs_ok (w_db w') \<and> ids_fresh (w_db w') \<and>
    grants_cleared (w_db w') \<and> sessions_ok s'"
  using history_wf[OF assms] by (simp add: wf_db_def)

subsection \<open>The handshake\<close>

text \<open>
  The triples of client, redirect address and challenge that logins in \<open>es\<close> asked for with an
  allowed address, and the tables that hold no others.
\<close>

definition asked :: "netlib \<Rightarrow> Server \<Rightarrow> event list \<Rightarrow> (string \<times> string \<times> string) set" where
  "asked N s es = {(q ''client_id'', q ''redirect_uri'', q ''code_challenge'') | q.
     StartLogin q \<in> set es \<and> redirectAllowed N s (q ''redirect_uri'')}"

definition traced :: "(string \<times> string \<times> string) set \<Rightarrow> db \<Rightarrow> bool" where
  "traced H d = ((\<forall>l \<in> set (t_logins d). (ls_mcp_client_id l, ls_redirect_uri l, ls_code_challenge l) \<in> H) \<and>
     (\<forall>c \<in> set (t_codes d). (ac_mcp_client_id c, ac_redirect_uri c, ac_code_challenge c) \<in> H))"

lemma traced_keepsTo: "shrr.keepsTo w w' \<Longrightarrow> traced H (w_db w) \<Longrightarrow> traced H (w_db w')"
  unfolding shrr.keepsTo_def shrinks_def traced_def by blast

lemma traced_mono: "traced H d \<Longrightarrow> H \<subseteq> H' \<Longrightarrow> traced H' d"
  unfolding traced_def by blast

lemma putLoginStmt_traced:
  "putLoginStmt l d = Inr (x, d') \<Longrightarrow> traced H d \<Longrightarrow>
   (ls_mcp_client_id l, ls_redirect_uri l, ls_code_challenge l) \<in> H \<Longrightarrow> traced H d'"
  by (auto simp: putLoginStmt_def traced_def split: if_splits)

lemma Logins_Put_traced:
  assumes "Logins_Put l w = (r, w')" "traced H (w_db w)"
    "(ls_mcp_client_id l, ls_redirect_uri l, ls_code_challenge l) \<in> H"
  shows "traced H (w_db w')"
proof -
  let ?f = "putLoginStmt (if isZero (ls_created_at l) then l\<lparr>ls_created_at := w_now w\<rparr> else l)"
  obtain y where y: "runStmt ?f w = (y, w')"
    using assms(1) by (auto simp: Logins_Put_def wrapA_def Let_def split: prod.splits)
  show ?thesis
  proof (cases y)
    case (Inl e) then show ?thesis using runStmt_Inl(1)[of ?f w e w'] y assms(2) by simp
  next
    case (Inr x)
    then have "?f (w_db w) = Inr (x, w_db w')" using runStmt_Inr(1)[of ?f w x w'] y by simp
    then show ?thesis by (rule putLoginStmt_traced) (use assms(2,3) in auto)
  qed
qed

lemma Codes_Put_traced:
  assumes "Codes_Put c w = (r, w')" "traced H (w_db w)"
    "(ac_mcp_client_id c, ac_redirect_uri c, ac_code_challenge c) \<in> H"
  shows "traced H (w_db w')"
proof (cases r)
  case (Inl e)
  then obtain e' where "runStmt (putCodeStmt c) w = (Inl e', w')"
    using assms(1) by (auto simp: Codes_Put_def elim: wrapA_InlE)
  then show ?thesis using runStmt_Inl(1) assms(2) by metis
next
  case (Inr u)
  then show ?thesis using Codes_Put_ok(1)[of c w u w'] assms by (auto simp: traced_def)
qed

lemma redirectAllowed_extra: "sv_ExtraRedirects s = sv_ExtraRedirects s' \<Longrightarrow> redirectAllowed N s r = redirectAllowed N s' r"
  by (simp add: redirectAllowed_def)

lemma handle_traced:
  assumes "handle N J sso e (s, w) = (s', w')" "traced H (w_db w)" "asked N s [e] \<subseteq> H"
  shows "traced H (w_db w')"
proof -
  consider (login) q where "e = StartLogin q" | (callback) code st where "e = LoginCallback code st"
    | (other) "\<And>q. e \<noteq> StartLogin q" "\<And>c st. e \<noteq> LoginCallback c st" by blast
  then show ?thesis
  proof cases
    case login
    then obtain rep where a: "ServeAuthorize N sso s q w = (rep, w')"
      using assms(1) by (cases "ServeAuthorize N sso s q w") simp
    from shrr.ServeAuthorize_steps[OF a] show ?thesis
    proof (elim disjE exE conjE)
      fix w1 l r assume l: "shrr.keepsTo w w1" "Logins_Put l w1 = (r, w')" "redirectAllowed N s (q ''redirect_uri'')"
        "ls_mcp_client_id l = q ''client_id''" "ls_redirect_uri l = q ''redirect_uri''"
        "ls_code_challenge l = q ''code_challenge''"
      have "(q ''client_id'', q ''redirect_uri'', q ''code_challenge'') \<in> H"
        using assms(3) l(3) login by (auto simp: asked_def)
      then show ?thesis using Logins_Put_traced[OF l(2) traced_keepsTo[OF l(1) assms(2)]] l by simp
    qed (use traced_keepsTo assms(2) in blast)
  next
    case callback
    then obtain rep where a: "CompleteCallback N sso code st w = (rep, w')"
      using assms(1) by (cases "CompleteCallback N sso code st w") simp
    from shrr.CompleteCallback_steps[OF a] show ?thesis
    proof (elim disjE exE conjE)
      fix l w1 c r assume l: "loginRow (w_db w) st = Some l" "shrr.keepsTo w w1" "Codes_Put c w1 = (r, w')"
        "ac_mcp_client_id c = ls_mcp_client_id l" "ac_redirect_uri c = ls_redirect_uri l"
        "ac_code_challenge c = ls_code_challenge l"
      have "l \<in> set (t_logins (w_db w))" using l(1) find_SomeD unfolding loginRow_def by fastforce
      then have "(ac_mcp_client_id c, ac_redirect_uri c, ac_code_challenge c) \<in> H"
        using assms(2) l by (simp add: traced_def)
      then show ?thesis using Codes_Put_traced[OF l(3) traced_keepsTo[OF l(2) assms(2)]] by simp
    qed (use traced_keepsTo assms(2) in blast)
  next
    case other
    from shrr.handle_keepsTo[OF other assms(1)] show ?thesis using traced_keepsTo assms(2) by blast
  qed
qed

lemma history_traced:
  "history N J sso es (s, w) = (s', w') \<Longrightarrow> traced H (w_db w) \<Longrightarrow> sessions_ok s \<Longrightarrow>
   traced (H \<union> asked N s es) (w_db w')"
proof (induction es arbitrary: s w H)
  case Nil then show ?case by (simp add: history_def traced_mono)
next
  case (Cons e es)
  obtain s1 w1 where h: "handle N J sso e (s, w) = (s1, w1)" by force
  have "traced (H \<union> asked N s [e]) (w_db w1)"
    using handle_traced[OF h, of "H \<union> asked N s [e]"] Cons.prems(2) traced_mono by blast
  moreover have ex: "sessions_ok s1" "sv_ExtraRedirects s1 = sv_ExtraRedirects s"
    using handle_sessions_ok[OF h Cons.prems(3)] by simp_all
  moreover have "history N J sso es (s1, w1) = (s', w')" using Cons.prems(1) h by (simp add: history_def)
  ultimately have "traced (H \<union> asked N s [e] \<union> asked N s1 es) (w_db w')" using Cons.IH by blast
  moreover have "asked N s [e] \<union> asked N s1 es \<subseteq> asked N s (e # es)"
    using redirectAllowed_extra[OF ex(2)] by (auto simp: asked_def)
  ultimately show ?case using traced_mono by (metis Un_assoc Un_mono subset_refl)
qed

text \<open>
  C3. Whoever gets tokens for a code started the login. In any history that began without login
  states and codes, if the token endpoint issues tokens for a code, then some login was started
  with an allowed redirect address and a challenge that is the base64url of the SHA-256 of the
  verifier now presented, and the redirect address given, if any, is that login's.
\<close>

theorem handshake_agreement:
  assumes "history N J sso es (s0, w0) = (s, w)" "t_logins (w_db w0) = []" "t_codes (w_db w0) = []"
    "sessions_ok s0" "\<not> w_tx w" "exchangeCode J s form ip w = (rep, w')" "isTokens rep"
  shows "\<exists>q. StartLogin q \<in> set es \<and> redirectAllowed N s0 (q ''redirect_uri'') \<and>
    form ''code_verifier'' \<noteq> [] \<and>
    trimRight (CHR ''='') (q ''code_challenge'') = rawURLEncode (sha256 (form ''code_verifier'')) \<and>
    (form ''redirect_uri'' = [] \<or> form ''redirect_uri'' = q ''redirect_uri'')"
proof -
  have t: "traced (asked N s0 es) (w_db w)"
    using history_traced[OF assms(1), of "{}"] assms(2-4) by (simp add: traced_def)
  obtain row where row: "codeRow (w_db w) (form ''code'') = Some row"
    "form ''redirect_uri'' = [] \<or> form ''redirect_uri'' = ac_redirect_uri row" "form ''code_verifier'' \<noteq> []"
    "trimRight (CHR ''='') (ac_code_challenge row) = rawURLEncode (sha256 (form ''code_verifier''))"
    using exchangeCode_effect[OF assms(6,5)] assms(7) by blast
  have "row \<in> set (t_codes (w_db w))" using row(1) find_SomeD unfolding codeRow_def by fastforce
  then have "(ac_mcp_client_id row, ac_redirect_uri row, ac_code_challenge row) \<in> asked N s0 es"
    using t by (simp add: traced_def)
  then show ?thesis using row by (auto simp: asked_def)
qed

subsection \<open>A whole sign-in\<close>

definition flowQuery :: "string \<Rightarrow> string" where
  "flowQuery k = (if k = ''client_id'' then ''c'' else if k = ''redirect_uri'' then ''http://localhost/cb''
     else if k = ''code_challenge'' then rawURLEncode (sha256 ''v'') else [])"

definition flowForm :: "string \<Rightarrow> string" where
  "flowForm k = (if k = ''code'' then hexEncode ''ABCDEFGHI'' else if k = ''code_verifier'' then ''v'' else [])"

definition flowEvents :: "event list" where
  "flowEvents = [StartLogin flowQuery, LoginCallback ''x'' ''s'']"

lemma sha_not_Nil: "rawURLEncode (sha256 v) \<noteq> []"
  using length_sha256[of v] by (intro rawURLEncode_not_Nil) force

lemma flow_runs:
  "\<exists>w rep w'. history sampleNet sampleJwt (loginSSO RequestedScopes) flowEvents (sampleServer, sampleW 9) = (sampleServer, w) \<and>
     \<not> w_tx w \<and> exchangeCode sampleJwt sampleServer flowForm ''ip'' w = (rep, w') \<and> isTokens rep"
  by (simp add: history_def flowEvents_def ServeAuthorize_def flowQuery_def Let_def clientRedirectOK_def
      redirectAllowed_def redirectOK_def sha_not_Nil
      sampleNet_def Clients_Get_def runStmt_ok sampleW_def world0_def sampleDb_def empty_db_def
      Logins_Put_def wrapA_def putLoginStmt_def CompleteCallback_def finishMCP_def revokeOnOwnerHashChange_def
      Logins_Take_def takeStmt_def loginstate_TTL_def loginSSO_def sampleToken_def Missing_all
      Characters_Get_def characterRow_def RevokeAllForCharacter_def revokeWith_def
      revokeStmt_def doomedOfCharacter_def unrevoked_def collectRevoked_def deref_def
      Characters_Upsert_def wrapR_def upsertCharacterStmt_def revokeAtCCP_def randomID_def randRead_def
      Codes_Put_def putCodeStmt_def exchangeCode_def flowForm_def Codes_Get_def codeRow_def codeTTL_def
      sample_pkce clientName_def Redeem_def redeemTx_def WithinTx_def andThen_def LockCharacter_def
      Codes_Take_def Create_def createStmt_def redeemSession_def createRow_def
      writeTokens_def issueAccess_def issueRefresh_def sampleJwt_def isTokens_def)

theorem handshake_agreement_witness:
  "\<exists>w rep w'. history sampleNet sampleJwt (loginSSO RequestedScopes) flowEvents (sampleServer, sampleW 9) = (sampleServer, w) \<and>
     exchangeCode sampleJwt sampleServer flowForm ''ip'' w = (rep, w') \<and> isTokens rep \<and>
     (\<exists>q. StartLogin q \<in> set flowEvents \<and> redirectAllowed sampleNet sampleServer (q ''redirect_uri''))"
proof -
  obtain w rep w' where f: "history sampleNet sampleJwt (loginSSO RequestedScopes) flowEvents (sampleServer, sampleW 9) = (sampleServer, w)"
    "\<not> w_tx w" "exchangeCode sampleJwt sampleServer flowForm ''ip'' w = (rep, w')" "isTokens rep"
    using flow_runs by blast
  have e: "t_logins (w_db (sampleW 9)) = []" "t_codes (w_db (sampleW 9)) = []" "sessions_ok sampleServer"
    by (simp_all add: sampleW_def sampleDb_def empty_db_def sessions_ok_def sampleServer_def)
  from handshake_agreement[OF f(1) e f(2,3,4)] f show ?thesis by blast
qed

theorem history_keeps_tables_well_formed_witness:
  "one_live (w_db (snd (history sampleNet sampleJwt (loginSSO RequestedScopes)
     (flowEvents @ [SweepRun False (Inr True), At 99, ToolLogout sampleSess]) (sampleServer, sampleW 9))))"
proof -
  let ?h = "history sampleNet sampleJwt (loginSSO RequestedScopes)
     (flowEvents @ [SweepRun False (Inr True), At 99, ToolLogout sampleSess]) (sampleServer, sampleW 9)"
  obtain s' w' where h: "?h = (s', w')" by force
  have "wf_db (w_db (sampleW 9))" "sessions_ok sampleServer"
    by (simp_all add: sampleW_def wf_sampleDb sessions_ok_def sampleServer_def)
  from history_keeps_tables_well_formed[OF h this] show ?thesis by (simp add: h)
qed

end
