(* ===== verification/MailCap.thy ===== *)
theory MailCap
  imports GuardProps
begin

text \<open>
  The audit log and the hourly mail cap: what \<open>Record\<close> leaves in the table, what an open hold
  guarantees, and the interleavings of several senders. In the step relation every sender has a
  guard of its own; the advisory lock of a hold keeps the other senders of the character waiting,
  and the cap is exact. With one guard shared by two calls, as the calls of one MCP session share
  it, the second call's \<open>Authorize\<close> releases the hold of the first and six mails can be sent.
\<close>

subsection \<open>Record\<close>

lemma guardPersist_hold [simp]: "HoldDo guardPersist = Hold_Do" "HoldRelease guardPersist = Hold_Release"
  by (simp_all add: guardPersist_def)

definition okMail :: "Guard \<Rightarrow> Record \<Rightarrow> bool" where
  "okMail g r = (rec_Tool r = ToolMailSend \<and> (rec_Outcome r = [] \<or> rec_Outcome r = OutcomeOK))"

lemma appendRecord_ok:
  assumes "appendRecord F guardPersist g r w = (Inr u, w')"
  obtains d where "digestArgs F (rec_Args r) = Inr d"
    "w_db w' = (w_db w)\<lparr>t_mutations := t_mutations (w_db w) @
        [mutationRow (auditRow F g r d) (w_now w) (seq_mutations (w_db w))],
        seq_mutations := seq_mutations (w_db w) + 1\<rparr>"
    "w_now w' = w_now w"
proof -
  obtain d where d: "digestArgs F (rec_Args r) = Inr d" "Append (auditRow F g r d) w = (Inr u, w')"
    using assms by (auto simp: appendRecord_def guardPersist_def wrapA_def wrapR_def split: sum.splits prod.splits)
  show thesis
    using that[OF d(1)] Append_ok[OF d(2)] appendStmt_ok(1)[OF Append_ok(1)[OF d(2)]] by simp
qed

lemma appendRecord_err:
  assumes "appendRecord F guardPersist g r w = (Inl e, w')"
  shows "tables (w_db w') = tables (w_db w)"
proof (cases "digestArgs F (rec_Args r)")
  case (Inl c) then show ?thesis using assms by (simp add: appendRecord_def)
next
  case (Inr d)
  then obtain e' where "Append (auditRow F g r d) w = (Inl e', w')"
    using assms by (auto simp: appendRecord_def guardPersist_def wrapA_def wrapR_def split: sum.splits prod.splits)
  then show ?thesis by (rule Append_err)
qed

lemma record_effect:
  assumes "RecordWrite F guardPersist g r w = (res, g', w')"
    and "\<forall>h. g_mailHold g = Some h \<longrightarrow> hd_pending h = [] \<and> \<not> hd_nested h"
  shows "g_mailHold g' = None \<and>
    (case res of
       Inl e \<Rightarrow> tables (w_db w') = tables (w_db w)
     | Inr _ \<Rightarrow> \<exists>row d. digestArgs F (rec_Args r) = Inr d \<and>
         t_mutations (w_db w') = t_mutations (w_db w) @ [row] \<and>
         mu_character_id row = g_characterID g \<and> mu_tool row = rec_Tool r \<and>
         mu_session_id row = nullIfZero (g_sessionID g) \<and>
         mu_capability row = rec_Capability r \<and> mu_args_digest row = d \<and>
         mu_outcome row = (if rec_Outcome r = [] then ''ok'' else rec_Outcome r) \<and>
         mu_created_at row = w_now w \<and> length (runes (mu_summary row)) \<le> 200 \<and>
         length (runes (deref (mu_error row))) \<le> 200)"
proof -
  have row: "mu_character_id q = g_characterID g \<and> mu_tool q = rec_Tool r \<and>
         mu_session_id q = nullIfZero (g_sessionID g) \<and>
         mu_capability q = rec_Capability r \<and> mu_args_digest q = d \<and>
         mu_outcome q = (if rec_Outcome r = [] then ''ok'' else rec_Outcome r) \<and>
         mu_created_at q = t \<and> length (runes (mu_summary q)) \<le> 200 \<and>
         length (runes (deref (mu_error q))) \<le> 200"
    if "q = mutationRow (auditRow F g r d) t i" for q d t i
    using that length_truncateRunes[of _ 200]
    by (simp add: mutationRow_def auditRow_def OutcomeOK_def auditFieldMax_def)
  show ?thesis
  proof (cases "g_mailHold g")
    case None
    obtain x w1 where x: "appendRecord F guardPersist g r w = (x, w1)" by force
    have e: "res = x" "w' = w1" "g_mailHold g' = None"
      using assms(1) None x by (auto simp: RecordWrite_def releaseMailHold_def split: sum.splits)
    show ?thesis
    proof (cases x)
      case (Inl er) then show ?thesis using e appendRecord_err x by simp
    next
      case (Inr u)
      then obtain d where d: "digestArgs F (rec_Args r) = Inr d"
        "w_db w1 = (w_db w)\<lparr>t_mutations := t_mutations (w_db w) @
            [mutationRow (auditRow F g r d) (w_now w) (seq_mutations (w_db w))],
            seq_mutations := seq_mutations (w_db w) + 1\<rparr>"
        using x appendRecord_ok by metis
      then show ?thesis using e Inr row[OF refl, of d "w_now w" "seq_mutations (w_db w)"] by auto
    qed
  next
    case (Some h)
    have h: "hd_pending h = []" "\<not> hd_nested h" using assms(2) Some by auto
    define v where "v = w\<lparr>w_tx := True\<rparr>"
    obtain x w1 where x: "appendRecord F guardPersist g r v = (x, w1)" by force
    define n where "n = length (t_mutations (w_db w))"
    define h1 where "h1 = h\<lparr>hd_pending := drop n (t_mutations (w_db w1))\<rparr>"
    define w2 where "w2 = w1\<lparr>w_tx := w_tx w, w_db := (w_db w1)\<lparr>t_mutations := take n (t_mutations (w_db w1))\<rparr>\<rparr>"
    have do: "HoldDo guardPersist h (appendRecord F guardPersist g r) w = ((x, h1), w2)"
      using h x[unfolded v_def] by (simp add: Hold_Do_def h1_def w2_def n_def Let_def guardPersist_hold)
    obtain y w3 where y: "Hold_Release h1 (errOf x) w2 = (y, w3)" by force
    have e: "res = (case x of Inl er \<Rightarrow> Inl er | Inr _ \<Rightarrow> y)" "w' = w3" "g_mailHold g' = None"
      using assms(1) Some do y
      by (auto simp: RecordWrite_def releaseMailHold_def Let_def split: sum.splits)
    note rf = Hold_Release_frame[OF y]
    have dv: "w_db v = w_db w" "w_now v = w_now w" by (simp_all add: v_def)
    show ?thesis
    proof (cases x)
      case (Inl er)
      then have t: "tables (w_db w1) = tables (w_db w)" using appendRecord_err x dv by metis
      then have "t_mutations (w_db w1) = t_mutations (w_db w)" using tables_eqD by blast
      then have "w_db w2 = w_db w1" by (simp add: w2_def n_def)
      then show ?thesis using e Inl rf t by (auto simp: errOf_def)
    next
      case (Inr u)
      then obtain d where d: "digestArgs F (rec_Args r) = Inr d"
        "w_db w1 = (w_db w)\<lparr>t_mutations := t_mutations (w_db w) @
            [mutationRow (auditRow F g r d) (w_now w) (seq_mutations (w_db w))],
            seq_mutations := seq_mutations (w_db w) + 1\<rparr>"
        using x appendRecord_ok dv by metis
      have w2: "w_db w2 = (w_db w)\<lparr>seq_mutations := seq_mutations (w_db w) + 1\<rparr>"
        by (simp add: w2_def d(2) n_def)
      have p: "hd_pending h1 = [mutationRow (auditRow F g r d) (w_now w) (seq_mutations (w_db w))]"
        by (simp add: h1_def n_def d(2))
      show ?thesis
      proof (cases y)
        case ye: (Inl er)
        then have "w_db w3 = w_db w2" using rf(3) by auto
        then show ?thesis using e Inr ye w2 by (simp add: tables_def)
      next
        case yo: (Inr u2)
        have nn: "\<not> hd_nested h1" using h by (simp add: h1_def)
        have "w_db w3 = (w_db w2)\<lparr>t_mutations := t_mutations (w_db w2) @ hd_pending h1\<rparr>"
        proof -
          obtain b q where "popFault w2 = (b, q)" by force
          then show ?thesis using y yo nn Inr popFault_keeps(1)[of w2]
            by (auto simp: Hold_Release_def errOf_def split: if_splits)
        qed
        then show ?thesis
          using e Inr yo w2 p d(1) row[OF refl, of d "w_now w" "seq_mutations (w_db w)"] by auto
      qed
    qed
  qed
qed

text \<open>
  \<open>Record\<close> reports success exactly when the audit log has one new row, and the row says what
  the call did: the guard's character and session, tool, capability, the digest of the
  arguments, the outcome (ok when none is given), the instant, and summary and error cut to 200
  runes. On an error the tables are as before. This holds with and without an open mail hold.
\<close>

theorem record_appends_one_row:
  assumes "RecordWrite F guardPersist g r w = (res, g', w')"
    and "\<forall>h. g_mailHold g = Some h \<longrightarrow> hd_pending h = [] \<and> \<not> hd_nested h"
  shows "g_mailHold g' = None \<and>
    (case res of
       Inl e \<Rightarrow> tables (w_db w') = tables (w_db w)
     | Inr _ \<Rightarrow> \<exists>row d. digestArgs F (rec_Args r) = Inr d \<and>
         t_mutations (w_db w') = t_mutations (w_db w) @ [row] \<and>
         mu_character_id row = g_characterID g \<and> mu_tool row = rec_Tool r \<and>
         mu_session_id row = nullIfZero (g_sessionID g) \<and>
         mu_capability row = rec_Capability r \<and> mu_args_digest row = d \<and>
         mu_outcome row = (if rec_Outcome r = [] then ''ok'' else rec_Outcome r) \<and>
         mu_created_at row = w_now w \<and> length (runes (mu_summary row)) \<le> 200 \<and>
         length (runes (deref (mu_error row))) \<le> 200)"
  using assms by (rule record_effect)

subsection \<open>Several senders\<close>

definition mailsWithin :: "int \<Rightarrow> time \<Rightarrow> db \<Rightarrow> nat" where
  \<comment> \<open>the mails of a character in the hour that ends at \<open>t\<close>\<close>
  "mailsWithin c t d = countWhere (\<lambda>m. countsForCap c t m \<and> mu_created_at m \<le> t) (t_mutations d)"

definition capView :: "mutation_row \<Rightarrow> int \<times> string \<times> string \<times> time" where
  "capView m = (mu_character_id m, mu_tool m, mu_outcome m, mu_created_at m)"

definition lockFree :: "Guard list \<Rightarrow> nat \<Rightarrow> bool" where
  \<comment> \<open>no other sender of the character holds \<open>pg_advisory_xact_lock(mailCapLockKey(c))\<close>\<close>
  "lockFree gs i = (\<forall>k < length gs. k \<noteq> i \<longrightarrow> g_characterID (gs ! k) = g_characterID (gs ! i) \<longrightarrow>
     g_mailHold (gs ! k) = None)"

text \<open>
  One step of one sender, or of the rest of the system: time passes, old audit rows are deleted,
  session references are cleared, other tables change (\<open>env\<close>). A mail is recorded as sent only
  by a sender whose \<open>Authorize\<close> took the hold.
\<close>

inductive mailstep :: "fmtlib \<Rightarrow> Guard list \<times> world \<Rightarrow> Guard list \<times> world \<Rightarrow> bool" for F where
  env: "w_now w \<le> w_now w' \<Longrightarrow>
    map capView (t_mutations (w_db w')) = map capView (removeWhere p (t_mutations (w_db w))) \<Longrightarrow>
    mailstep F (gs, w) (gs, w')"
| hold: "i < length gs \<Longrightarrow> g_mailHold (gs ! i) = None \<Longrightarrow> lockFree gs i \<Longrightarrow> \<not> w_tx w \<Longrightarrow>
    holdMailCap guardPersist (gs ! i) w = (res, g', w') \<Longrightarrow> mailstep F (gs, w) (gs[i := g'], w')"
| recorded: "i < length gs \<Longrightarrow> (okMail (gs ! i) r \<longrightarrow> g_mailHold (gs ! i) \<noteq> None) \<Longrightarrow>
    RecordWrite F guardPersist (gs ! i) r w = (res, g', w') \<Longrightarrow> mailstep F (gs, w) (gs[i := g'], w')"
| abandon: "i < length gs \<Longrightarrow>
    releaseMailHold guardPersist (gs ! i) (Some e) w = (res, g', w') \<Longrightarrow> mailstep F (gs, w) (gs[i := g'], w')"

inductive reachable :: "fmtlib \<Rightarrow> Guard list \<times> world \<Rightarrow> Guard list \<times> world \<Rightarrow> bool" for F s0 where
  start: "reachable F s0 s0"
| more: "reachable F s0 s \<Longrightarrow> mailstep F s s' \<Longrightarrow> reachable F s0 s'"

inductive_cases mailstepE: "mailstep F s s'"

definition hold_ok :: "Guard list \<Rightarrow> world \<Rightarrow> nat \<Rightarrow> Hold \<Rightarrow> bool" where
  "hold_ok gs w i h = (hd_pending h = [] \<and> \<not> hd_nested h \<and> hd_Count h < 5 \<and>
     mailsLastHour (g_characterID (gs ! i)) (w_now w) (w_db w) \<le> hd_Count h \<and> lockFree gs i)"

definition cap_inv :: "Guard list \<times> world \<Rightarrow> bool" where
  "cap_inv s = (case s of (gs, w) \<Rightarrow>
     (\<forall>c t. mailsWithin c t (w_db w) \<le> 5) \<and>
     (\<forall>i h. i < length gs \<longrightarrow> g_mailHold (gs ! i) = Some h \<longrightarrow> hold_ok gs w i h))"

lemma countWhere_mono: "(\<And>x. p x \<Longrightarrow> q x) \<Longrightarrow> countWhere p xs \<le> countWhere q xs"
  by (induction xs) auto

lemma countWhere_map: "countWhere q (map f xs) = countWhere (\<lambda>m. q (f m)) xs"
  by (induction xs) auto

lemma countWhere_removeWhere: "countWhere q (removeWhere p xs) \<le> countWhere q xs"
  by (induction xs) auto

lemma mailsLastHour_later: "t \<le> t' \<Longrightarrow> mailsLastHour c t' d \<le> mailsLastHour c t d"
  unfolding mailsLastHour_def by (rule countWhere_mono) (simp add: countsForCap_def)

definition viewCounts :: "int \<Rightarrow> time \<Rightarrow> int \<times> string \<times> string \<times> time \<Rightarrow> bool" where
  "viewCounts c t v = (case v of (ch, tool, out, at_) \<Rightarrow>
     ch = c \<and> tool = ''eve_mail_send'' \<and> out = ''ok'' \<and> at_ \<ge> t - 1 * hour)"

lemma countsForCap_view: "countsForCap c t = (\<lambda>m. viewCounts c t (capView m))"
  by (rule ext) (simp add: countsForCap_def viewCounts_def capView_def)

lemma mailsLastHour_view: "mailsLastHour c t d = countWhere (viewCounts c t) (map capView (t_mutations d))"
  by (simp add: mailsLastHour_def countsForCap_view countWhere_map)

lemma mailsWithin_view:
  "mailsWithin c t d =
   countWhere (\<lambda>v. viewCounts c t v \<and> snd (snd (snd v)) \<le> t) (map capView (t_mutations d))"
  by (simp add: mailsWithin_def countsForCap_view countWhere_map capView_def)

lemma mails_tables:
  assumes "tables d = tables d'"
  shows "mailsWithin c t d = mailsWithin c t d'" "mailsLastHour c t d = mailsLastHour c t d'"
  using tables_eqD[OF assms] by (simp_all add: mailsWithin_def mailsLastHour_def)

lemma env_counts:
  assumes "map capView (t_mutations d') = map capView (removeWhere p (t_mutations d))"
  shows "mailsWithin c t d' \<le> mailsWithin c t d" "mailsLastHour c t d' \<le> mailsLastHour c t d"
  unfolding mailsWithin_view mailsLastHour_view assms countWhere_map
  by (rule countWhere_removeWhere)+

text \<open>A new row counts at most once, and only where its instant falls into the window.\<close>

lemma new_row_within:
  assumes "t_mutations d' = t_mutations d @ [row]"
    "countsForCap c t row \<and> mu_created_at row \<le> t \<longrightarrow> mailsLastHour c (mu_created_at row) d < 5"
    "mailsWithin c t d \<le> 5"
  shows "mailsWithin c t d' \<le> 5"
proof (cases "countsForCap c t row \<and> mu_created_at row \<le> t")
  case True
  have "mailsWithin c t d \<le> mailsLastHour c (mu_created_at row) d"
    unfolding mailsWithin_def mailsLastHour_def
    by (rule countWhere_mono) (use True in \<open>auto simp: countsForCap_def\<close>)
  then show ?thesis using assms(1,2) True by (simp add: mailsWithin_def)
next
  case False
  then show ?thesis using assms(1,3) by (auto simp: mailsWithin_def)
qed

lemma lockFree_update:
  assumes "g_mailHold g' = None \<or> lockFree gs i" "g_characterID g' = g_characterID (gs ! i)"
    "lockFree gs k" "k \<noteq> i" "i < length gs" "k < length gs"
    "g_mailHold (gs ! k) \<noteq> None"
  shows "lockFree (gs[i := g']) k"
  using assms unfolding lockFree_def by (metis length_list_update nth_list_update)

lemma lockFree_self:
  "lockFree gs i \<Longrightarrow> g_characterID g' = g_characterID (gs ! i) \<Longrightarrow> i < length gs \<Longrightarrow> lockFree (gs[i := g']) i"
  by (simp add: lockFree_def)

lemma RecordWrite_guard:
  "RecordWrite F P g r w = (res, g', w') \<Longrightarrow> g_characterID g' = g_characterID g"
  by (auto simp: RecordWrite_def releaseMailHold_def Let_def split: option.splits prod.splits sum.splits)

lemma releaseMailHold_guard:
  "releaseMailHold P g e w = (res, g', w') \<Longrightarrow> g_characterID g' = g_characterID g \<and> g_mailHold g' = None"
  by (auto simp: releaseMailHold_def split: option.splits prod.splits)

lemma RecordWrite_now:
  assumes "RecordWrite F guardPersist g r w = (res, g', w')" shows "w_now w' = w_now w"
proof -
  have a: "w_now (snd (appendRecord F guardPersist g r v)) = w_now v" for v
    by (simp add: appendRecord_def guardPersist_def split: sum.split)
  show ?thesis
  proof (cases "g_mailHold g")
    case None
    obtain x w1 where x: "appendRecord F guardPersist g r w = (x, w1)" by force
    then show ?thesis using assms None a[of w]
      by (auto simp: RecordWrite_def releaseMailHold_def split: sum.splits)
  next
    case (Some h)
    obtain x h1 w1 where x: "Hold_Do h (appendRecord F guardPersist g r) w = ((x, h1), w1)"
      by (metis surj_pair)
    have n: "w_now w1 = w_now w"
      using x a by (auto simp: Hold_Do_def Let_def split: if_splits prod.splits) (metis snd_conv world.select_convs(2) world.surjective world.update_convs(1) world.update_convs(4))+
    obtain y w2 where y: "Hold_Release h1 (errOf x) w1 = (y, w2)" by force
    show ?thesis using assms Some x n y Hold_Release_frame(1)[OF y]
      by (auto simp: RecordWrite_def releaseMailHold_def Let_def split: sum.splits)
  qed
qed

lemma holdMailCap_effect:
  assumes "holdMailCap guardPersist g w = (res, g', w')" "\<not> w_tx w" "g_mailHold g = None"
  shows "w_db w' = w_db w \<and> w_now w' = w_now w \<and> g_characterID g' = g_characterID g \<and>
    (g' = g \<or> (\<exists>h. g_mailHold g' = Some h \<and> hd_pending h = [] \<and> \<not> hd_nested h \<and> hd_Count h < 5 \<and>
       hd_Count h = mailsLastHour (g_characterID g) (w_now w) (w_db w)))"
proof -
  obtain x w1 where x: "HoldMailCap (g_characterID g) w = (x, w1)" by force
  note f = HoldMailCap_frame[OF x]
  have p: "HoldMails guardPersist (g_characterID g) w = (wrapR (sessUse ''HoldMailCap'') x, w1)"
    using x by (simp add: guardPersist_def gp_HoldMailCap_def)
  show ?thesis
  proof (cases x)
    case (Inl e) then show ?thesis using assms p f by (simp add: holdMailCap_def)
  next
    case (Inr h)
    note c = HoldMailCap_count[OF x[unfolded Inr]]
    obtain y w2 where y: "Hold_Release h (Some (Sentinel ErrMailCap)) w1 = (y, w2)" by force
    show ?thesis using assms p f Inr c y Hold_Release_frame[OF y]
      by (auto simp: holdMailCap_def MailCap_def split: if_splits)
  qed
qed

lemma hold_ok_other:
  assumes "hold_ok gs w k h" "i < length gs" "k < length gs" "k \<noteq> i" "g_mailHold (gs ! k) \<noteq> None"
    "g_mailHold g' = None \<or> lockFree gs i" "g_characterID g' = g_characterID (gs ! i)"
    "mailsLastHour (g_characterID (gs ! k)) (w_now w') (w_db w') \<le> mailsLastHour (g_characterID (gs ! k)) (w_now w) (w_db w)"
  shows "hold_ok (gs[i := g']) w' k h"
  using assms lockFree_update[of g' gs i k] by (auto simp: hold_ok_def)

lemma cap_inv_hold:
  assumes "cap_inv (gs, w)" "i < length gs" "g_mailHold (gs ! i) = None" "lockFree gs i" "\<not> w_tx w"
    "holdMailCap guardPersist (gs ! i) w = (res, g', w')"
  shows "cap_inv (gs[i := g'], w')"
proof -
  note e = holdMailCap_effect[OF assms(6,5,3)]
  have "hold_ok (gs[i := g']) w' k h" if k: "k < length gs" "g_mailHold (gs[i := g'] ! k) = Some h" for k h
  proof (cases "k = i")
    case True
    then have "g_mailHold g' = Some h" using k assms(2) by simp
    then show ?thesis using e True assms(2,3,4) lockFree_self[of gs i g'] by (auto simp: hold_ok_def)
  next
    case False
    then have "g_mailHold (gs ! k) = Some h" "hold_ok gs w k h"
      using k assms(1) by (auto simp: cap_inv_def)
    then show ?thesis using hold_ok_other[of gs w k h i g' w'] assms(2,4) k False e by auto
  qed
  then show ?thesis using assms(1) e by (auto simp: cap_inv_def)
qed

lemma cap_inv_abandon:
  assumes "cap_inv (gs, w)" "i < length gs" "releaseMailHold guardPersist (gs ! i) (Some e) w = (res, g', w')"
  shows "cap_inv (gs[i := g'], w')"
proof -
  note g = releaseMailHold_guard[OF assms(3)]
  have d: "w_db w' = w_db w \<and> w_now w' = w_now w"
    using assms(3) Hold_Release_frame[of _ "Some e" w res w']
    by (auto simp: releaseMailHold_def split: option.splits prod.splits)
  have "hold_ok (gs[i := g']) w' k h" if k: "k < length gs" "g_mailHold (gs[i := g'] ! k) = Some h" for k h
  proof (cases "k = i")
    case True then show ?thesis using k assms(2) g by simp
  next
    case False
    then have "g_mailHold (gs ! k) = Some h" "hold_ok gs w k h"
      using k assms(1) by (auto simp: cap_inv_def)
    then show ?thesis using hold_ok_other[of gs w k h i g' w'] assms(2) k False g d by auto
  qed
  then show ?thesis using assms(1) d by (auto simp: cap_inv_def)
qed

lemma cap_inv_record:
  assumes "cap_inv (gs, w)" "i < length gs" "okMail (gs ! i) r \<longrightarrow> g_mailHold (gs ! i) \<noteq> None"
    "RecordWrite F guardPersist (gs ! i) r w = (res, g', w')"
  shows "cap_inv (gs[i := g'], w')"
proof -
  let ?c = "g_characterID (gs ! i)"
  have pend: "\<forall>h. g_mailHold (gs ! i) = Some h \<longrightarrow> hd_pending h = [] \<and> \<not> hd_nested h"
    using assms(1,2) by (auto simp: cap_inv_def hold_ok_def)
  note e = record_effect[OF assms(4) pend]
  note n = RecordWrite_now[OF assms(4)] and gc = RecordWrite_guard[OF assms(4)]
  have w5: "mailsWithin c t (w_db w) \<le> 5" for c t using assms(1) by (simp add: cap_inv_def)
  have held: "mailsLastHour ?c (w_now w) (w_db w) < 5 \<and> lockFree gs i" if "okMail (gs ! i) r"
    using assms(1-3) that by (fastforce simp: cap_inv_def hold_ok_def)
  have counts: "mailsWithin c t (w_db w') \<le> 5 \<and>
      (mailsLastHour c (w_now w) (w_db w') \<le> mailsLastHour c (w_now w) (w_db w) \<or> (okMail (gs ! i) r \<and> c = ?c))" for c t
  proof (cases res)
    case (Inl er)
    then have "tables (w_db w') = tables (w_db w)" using e by simp
    from mails_tables[OF this] show ?thesis using w5 by simp
  next
    case (Inr u)
    then obtain row where row: "t_mutations (w_db w') = t_mutations (w_db w) @ [row]"
      "mu_character_id row = ?c" "mu_tool row = rec_Tool r"
      "mu_outcome row = (if rec_Outcome r = [] then ''ok'' else rec_Outcome r)" "mu_created_at row = w_now w"
      using e by auto
    have ok: "countsForCap c t row \<longrightarrow> okMail (gs ! i) r \<and> c = ?c" for c t
      using row by (auto simp: countsForCap_def okMail_def ToolMailSend_def OutcomeOK_def split: if_splits)
    have "mailsWithin c t (w_db w') \<le> 5"
    proof (rule new_row_within[OF row(1)])
      show "countsForCap c t row \<and> mu_created_at row \<le> t \<longrightarrow> mailsLastHour c (mu_created_at row) (w_db w) < 5"
        using ok[of c t] held row(5) by auto
    qed (rule w5)
    moreover have "mailsLastHour c (w_now w) (w_db w') \<le> mailsLastHour c (w_now w) (w_db w) \<or> (okMail (gs ! i) r \<and> c = ?c)"
      using ok[of c "w_now w"] row(1) by (auto simp: mailsLastHour_def)
    ultimately show ?thesis by simp
  qed
  have "hold_ok (gs[i := g']) w' k h" if k: "k < length gs" "g_mailHold (gs[i := g'] ! k) = Some h" for k h
  proof (cases "k = i")
    case True then show ?thesis using k assms(2) e by simp
  next
    case False
    then have h: "g_mailHold (gs ! k) = Some h" "hold_ok gs w k h"
      using k assms(1) by (auto simp: cap_inv_def)
    have "\<not> (okMail (gs ! i) r \<and> g_characterID (gs ! k) = ?c)"
      using held False k(1) h(1) by (auto simp: lockFree_def)
    then have "mailsLastHour (g_characterID (gs ! k)) (w_now w') (w_db w') \<le> mailsLastHour (g_characterID (gs ! k)) (w_now w) (w_db w)"
      using counts[of "g_characterID (gs ! k)"] n by auto
    then show ?thesis using hold_ok_other[of gs w k h i g' w'] assms(2) k False e gc h by auto
  qed
  then show ?thesis using counts by (auto simp: cap_inv_def)
qed

lemma cap_inv_env:
  assumes "cap_inv (gs, w)" "w_now w \<le> w_now w'"
    "map capView (t_mutations (w_db w')) = map capView (removeWhere p (t_mutations (w_db w)))"
  shows "cap_inv (gs, w')"
proof -
  note e = env_counts[OF assms(3)]
  have "mailsLastHour c (w_now w') (w_db w') \<le> mailsLastHour c (w_now w) (w_db w)" for c
    using e(2)[of c "w_now w'"] mailsLastHour_later[OF assms(2)] le_trans by blast
  then have "hold_ok gs w k h \<Longrightarrow> hold_ok gs w' k h" for k h
    by (auto simp: hold_ok_def intro: le_trans)
  moreover have "mailsWithin c t (w_db w') \<le> 5" for c t
    using e(1)[of c t] assms(1) by (auto simp: cap_inv_def intro: le_trans)
  ultimately show ?thesis using assms(1) by (simp add: cap_inv_def)
qed

lemma cap_inv_step: "mailstep F s s' \<Longrightarrow> cap_inv s \<Longrightarrow> cap_inv s'"
proof (induction rule: mailstep.induct)
  case (env w w' p gs) then show ?case using cap_inv_env by blast
next
  case (hold i gs w res g' w') then show ?case using cap_inv_hold by blast
next
  case (recorded i gs r w res g' w') then show ?case using cap_inv_record by blast
next
  case (abandon i gs e w res g' w') then show ?case using cap_inv_abandon by blast
qed

lemma cap_inv_reachable: "reachable F s0 s \<Longrightarrow> cap_inv s0 \<Longrightarrow> cap_inv s"
  by (induction rule: reachable.induct) (auto intro: cap_inv_step)


lemma sample_hold:
  "holdMailCap guardPersist (NewGuard 7 1) (sampleW 5) =
    (Inr (), (NewGuard 7 1)\<lparr>g_mailHold := Some \<lparr>hd_Count = 0, hd_nested = False, hd_pending = []\<rparr>\<rparr>, sampleW 5)"
  by (simp add: holdMailCap_def guardPersist_def gp_HoldMailCap_def wrapA_def HoldMailCap_nofault NewGuard_def
      sampleW_def world0_def mailsLastHour_def sampleDb_def empty_db_def MailCap_def)


definition sampleRec :: Record where
  "sampleRec = \<lparr>rec_Tool = ToolMailSend, rec_Capability = CapMailSend, rec_Args = [], rec_Outcome = OutcomeOK,
     rec_ESIStatus = 0, rec_Error = []\<rparr>"

definition sampleMail :: "time \<Rightarrow> int \<Rightarrow> mutation_row" where
  "sampleMail t i = mutationRow (auditRow sampleF (NewGuard 7 1) sampleRec sampleDigest) t i"

lemma sample_fk: "7 \<in> ch_id ` set (t_characters sampleDb)" "1 \<in> se_id ` set (t_sessions sampleDb)"
  by (simp_all add: sampleDb_def)

lemma sample_append:
  assumes "w_faults w = []" "t_characters (w_db w) = t_characters sampleDb" "t_sessions (w_db w) = t_sessions sampleDb"
    "g_characterID g = 7" "g_sessionID g = 1"
  shows "appendRecord sampleF guardPersist g sampleRec w = (Inr (), w\<lparr>w_db := (w_db w)\<lparr>
      t_mutations := t_mutations (w_db w) @ [sampleMail (w_now w) (seq_mutations (w_db w))],
      seq_mutations := seq_mutations (w_db w) + 1\<rparr>\<rparr>)"
proof -
  define m where "m = auditRow sampleF (NewGuard 7 1) sampleRec sampleDigest"
  have g: "auditRow sampleF g sampleRec sampleDigest = m"
    using assms(4,5) by (simp add: m_def auditRow_def NewGuard_def)
  have f: "mn_CharacterID m = 7" "mn_SessionID m = 1" "mn_Tool m = mutation_ToolMailSend" "mn_Outcome m = OutcomeOK"
    by (simp_all add: m_def auditRow_def NewGuard_def sampleRec_def ToolMailSend_def mutation_ToolMailSend_def OutcomeOK_def)
  have st: "appendStmt m (w_now w) d = Inr ((), d\<lparr>
      t_mutations := t_mutations d @ [mutationRow m (w_now w) (seq_mutations d)], seq_mutations := seq_mutations d + 1\<rparr>)"
    if "t_characters d = t_characters sampleDb" "t_sessions d = t_sessions sampleDb" for d
    using that f sample_fk by (simp add: appendStmt_def)
  show ?thesis
    using assms(1-3) f st
    by (simp add: appendRecord_def sampleRec_def sample_digest guardPersist_def g[unfolded sampleRec_def]
        Append_def withMailCap_def Let_def WithinTx_def andThen_def lockStmt_def wrapA_def wrapR_def
        runStmt_ok appendWrite_def sampleMail_def m_def[unfolded sampleRec_def, symmetric])
qed

theorem record_appends_one_row_witness:
  "\<exists>g' w' row. RecordWrite sampleF guardPersist (NewGuard 7 1) sampleRec (sampleW 5) = (Inr (), g', w') \<and>
     t_mutations (w_db w') = [row] \<and> mu_outcome row = ''ok'' \<and> mu_created_at row = 5"
proof -
  obtain g' w' where a: "RecordWrite sampleF guardPersist (NewGuard 7 1) sampleRec (sampleW 5) = (Inr (), g', w')"
    using sample_append[of "sampleW 5" "NewGuard 7 1"]
    by (simp add: RecordWrite_def NewGuard_def releaseMailHold_def sampleW_def world0_def)
  show ?thesis
    using a record_appends_one_row[OF a]
    by (auto simp: NewGuard_def sampleRec_def OutcomeOK_def sampleW_def sampleDb_def empty_db_def world0_def)
qed

subsection \<open>One guard, two calls\<close>

definition mailAz :: "string \<Rightarrow> Authz" where
  "mailAz tok = \<lparr>az_Tool = ToolMailSend, az_Capability = CapMailSend, az_Args = [], az_Preview = [],
     az_Token = tok, az_Scopes = [''esi-mail.send_mail.v1'']\<rparr>"

definition mailToken :: "string \<Rightarrow> confirm_row" where
  "mailToken tok = \<lparr>ct_token = tok, ct_session_id = 1, ct_tool = ToolMailSend, ct_args_digest = sampleDigest,
     ct_created_at = 90, ct_expires_at = 90 + 300 * second\<rparr>"

text \<open>Four mails sent at instant 50, and two confirmed sends waiting at instant 100.\<close>

definition sharedW :: world where
  "sharedW = (world0 100)\<lparr>w_db := sampleDb\<lparr>t_mutations := map (sampleMail 50) [1, 2, 3, 4], seq_mutations := 5,
     t_confirms := [mailToken ''a'', mailToken ''b'']\<rparr>\<rparr>"

lemma mail_checks:
  "CheckCapability F CapMailSend = Inr ()" "CheckScope CapMailSend [''esi-mail.send_mail.v1''] = Inr ()"
  by (simp_all add: Capabilities_def Cap_defs capScopes_def)

lemma shared_authorize:
  assumes "w_faults w = []" "\<not> w_tx w" "confirmRow (w_db w) tok = Some (mailToken tok)" "tok \<noteq> []"
    "w_now w = 100" "g_characterID g = 7" "g_sessionID g = 1" "\<forall>h. g_mailHold g = Some h \<longrightarrow> \<not> hd_nested h"
    "mailsLastHour 7 100 (w_db w) = n" "n < 5"
  shows "Authorize sampleF guardPersist g (mailAz tok) w =
    (Inr None, g\<lparr>g_mailHold := Some \<lparr>hd_Count = n, hd_nested = False, hd_pending = []\<rparr>\<rparr>,
     w\<lparr>w_db := (w_db w)\<lparr>t_confirms := removeWhere (\<lambda>c. ct_token c = tok) (t_confirms (w_db w))\<rparr>\<rparr>)"
proof -
  have rel: "releaseMailHold guardPersist g (Some e) w = (Inr (), g\<lparr>g_mailHold := None\<rparr>, w)" for e
    using assms(1,8) by (cases "g_mailHold g") (auto simp: releaseMailHold_def Hold_Release_def)
  let ?g = "g\<lparr>g_mailHold := Some \<lparr>hd_Count = n, hd_nested = False, hd_pending = []\<rparr>\<rparr>"
  have gate: "gateMailCap guardPersist (g\<lparr>g_mailHold := None\<rparr>) (mailAz tok) w = (Inr (), ?g, w)"
    using assms by (simp add: gateMailCap_def mailAz_def holdMailCap_def guardPersist_def gp_HoldMailCap_def
        wrapA_def HoldMailCap_nofault MailCap_def)
  have get: "GetConfirm guardPersist tok w = ((Some (toConfirm (mailToken tok)), None), w)"
    using assms(1,3) by (simp add: guardPersist_def gp_GetConfirm_def Confirms_Get_def runStmt_ok)
  have del: "DeleteConfirm guardPersist tok w = (Inr (), w\<lparr>w_db := (w_db w)\<lparr>t_confirms :=
      removeWhere (\<lambda>c. ct_token c = tok) (t_confirms (w_db w))\<rparr>\<rparr>)"
    using assms(1) by (simp add: guardPersist_def Confirms_Delete_def runStmt_ok wrapA_def deleteConfirmStmt_def)
  have con: "consumeConfirm sampleF guardPersist ?g ToolMailSend sampleDigest tok w =
      (Inr (), w\<lparr>w_db := (w_db w)\<lparr>t_confirms := removeWhere (\<lambda>c. ct_token c = tok) (t_confirms (w_db w))\<rparr>\<rparr>)"
    using get del assms(5,7) by (simp add: consumeConfirm_def consumeGot_def toConfirm_def mailToken_def ConfirmTTL_def)
  show ?thesis
    using rel gate con assms(4) mail_checks sample_digest
    by (simp add: Authorize_def confirmWrite_def mailAz_def del: CheckCapability_ok CheckScope_ok)
qed

lemma sampleMail_counts: "countsForCap 7 100 (sampleMail t i) \<longleftrightarrow> t \<ge> 100 - 1 * hour"
  by (simp add: countsForCap_def sampleMail_def mutationRow_def auditRow_def NewGuard_def sampleRec_def
      ToolMailSend_def OutcomeOK_def)

lemma sampleMail_created [simp]: "mu_created_at (sampleMail t i) = t"
  by (simp add: sampleMail_def mutationRow_def)

text \<open>
  C25. A guard shared by two calls lets six mails out within an hour. With four mails sent, two
  confirmed sends of one session that interleave as authorize, authorize, record, record are both
  authorised (the second releases the hold of the first) and both recorded as sent.
\<close>

theorem shared_guard_exceeds_cap:
  "\<exists>g1 w1 g2 w2 g3 w3 g4 w4.
     Authorize sampleF guardPersist (NewGuard 7 1) (mailAz ''a'') sharedW = (Inr None, g1, w1) \<and>
     Authorize sampleF guardPersist g1 (mailAz ''b'') w1 = (Inr None, g2, w2) \<and>
     RecordWrite sampleF guardPersist g2 sampleRec w2 = (Inr (), g3, w3) \<and>
     RecordWrite sampleF guardPersist g3 sampleRec w3 = (Inr (), g4, w4) \<and>
     mailsWithin 7 (w_now w4) (w_db w4) = 6"
proof -
  let ?h = "\<lparr>hd_Count = 4, hd_nested = False, hd_pending = []\<rparr>"
  let ?g1 = "(NewGuard 7 1)\<lparr>g_mailHold := Some ?h\<rparr>"
  let ?w1 = "sharedW\<lparr>w_db := (w_db sharedW)\<lparr>t_confirms := [mailToken ''b'']\<rparr>\<rparr>"
  let ?w2 = "sharedW\<lparr>w_db := (w_db sharedW)\<lparr>t_confirms := []\<rparr>\<rparr>"
  have n: "mailsLastHour 7 100 (w_db sharedW) = 4"
    by (simp add: mailsLastHour_def sharedW_def sampleMail_counts)
  have a1: "Authorize sampleF guardPersist (NewGuard 7 1) (mailAz ''a'') sharedW = (Inr None, ?g1, ?w1)"
    using shared_authorize[of sharedW "''a''" "NewGuard 7 1" 4] n
    by (simp add: sharedW_def world0_def confirmRow_def mailToken_def NewGuard_def)
  have a2: "Authorize sampleF guardPersist ?g1 (mailAz ''b'') ?w1 = (Inr None, ?g1, ?w2)"
    using shared_authorize[of ?w1 "''b''" ?g1 4] n
    by (simp add: sharedW_def world0_def confirmRow_def mailToken_def NewGuard_def mailsLastHour_def)
  define ms where "ms = map (sampleMail 50) [1, 2, 3, 4]"
  have ms: "length ms = 4" "t_mutations (w_db sharedW) = ms" by (simp_all add: ms_def sharedW_def)
  define v where "v = ?w2\<lparr>w_tx := True\<rparr>"
  let ?d3 = "(w_db ?w2)\<lparr>t_mutations := ms @ [sampleMail 100 5], seq_mutations := 6\<rparr>"
  have ap1: "appendRecord sampleF guardPersist ?g1 sampleRec v = (Inr (), v\<lparr>w_db := ?d3\<rparr>)"
    using sample_append[of v ?g1] ms by (simp add: v_def sharedW_def world0_def NewGuard_def)
  have do: "Hold_Do ?h (appendRecord sampleF guardPersist ?g1 sampleRec) ?w2 =
      ((Inr (), ?h\<lparr>hd_pending := [sampleMail 100 5]\<rparr>), ?w2\<lparr>w_db := (w_db ?w2)\<lparr>seq_mutations := 6\<rparr>\<rparr>)"
    using ap1 by (simp add: Hold_Do_def Let_def v_def sharedW_def world0_def sampleDb_def empty_db_def ms_def)
  let ?w3 = "?w2\<lparr>w_db := ?d3\<rparr>"
  have r1: "RecordWrite sampleF guardPersist ?g1 sampleRec ?w2 = (Inr (), NewGuard 7 1, ?w3)"
    using do by (simp add: RecordWrite_def releaseMailHold_def Hold_Release_def errOf_def NewGuard_def
        sharedW_def world0_def sampleDb_def empty_db_def ms_def)
  let ?d4 = "(w_db ?w2)\<lparr>t_mutations := ms @ [sampleMail 100 5, sampleMail 100 6], seq_mutations := 7\<rparr>"
  have ap2: "appendRecord sampleF guardPersist (NewGuard 7 1) sampleRec ?w3 = (Inr (), ?w2\<lparr>w_db := ?d4\<rparr>)"
    using sample_append[of ?w3 "NewGuard 7 1"] by (simp add: sharedW_def world0_def NewGuard_def)
  have r2: "RecordWrite sampleF guardPersist (NewGuard 7 1) sampleRec ?w3 = (Inr (), NewGuard 7 1, ?w2\<lparr>w_db := ?d4\<rparr>)"
    using ap2 by (simp add: RecordWrite_def releaseMailHold_def NewGuard_def)
  have six: "mailsWithin 7 100 ?d4 = 6"
    by (simp add: mailsWithin_def ms_def sampleMail_counts)
  have six': "mailsWithin 7 (w_now (?w2\<lparr>w_db := ?d4\<rparr>)) (w_db (?w2\<lparr>w_db := ?d4\<rparr>)) = 6"
    using six by (simp add: sharedW_def world0_def)
  show ?thesis
    by (intro exI conjI) (rule a1, rule a2, rule r1, rule r2, rule six')
qed

text \<open>
  C26. The token is not spent atomically. Two requests that both look the token up before either
  deletes it both succeed: the second deletion of an absent row is no error, and nothing tests
  how many rows it deleted.
\<close>

theorem token_race_spends_twice:
  "\<exists>got1 w1 got2 w2 w3 w4.
     GetConfirm guardPersist ''a'' sharedW = (got1, w1) \<and> GetConfirm guardPersist ''a'' w1 = (got2, w2) \<and>
     consumeGot sampleF guardPersist (NewGuard 7 1) ToolMailSend sampleDigest ''a'' got1 w2 = (Inr (), w3) \<and>
     consumeGot sampleF guardPersist (NewGuard 7 1) ToolMailSend sampleDigest ''a'' got2 w3 = (Inr (), w4)"
proof -
  let ?got = "(Some (toConfirm (mailToken ''a'')), None)"
  let ?w = "sharedW\<lparr>w_db := (w_db sharedW)\<lparr>t_confirms := [mailToken ''b'']\<rparr>\<rparr>"
  have get: "GetConfirm guardPersist ''a'' sharedW = (?got, sharedW)"
    by (simp add: guardPersist_def gp_GetConfirm_def Confirms_Get_def runStmt_ok sharedW_def world0_def
        confirmRow_def mailToken_def)
  have c1: "consumeGot sampleF guardPersist (NewGuard 7 1) ToolMailSend sampleDigest ''a'' ?got sharedW = (Inr (), ?w)"
    by (simp add: consumeGot_def toConfirm_def mailToken_def NewGuard_def ConfirmTTL_def guardPersist_def
        Confirms_Delete_def runStmt_ok wrapA_def deleteConfirmStmt_def sharedW_def world0_def)
  have c2: "consumeGot sampleF guardPersist (NewGuard 7 1) ToolMailSend sampleDigest ''a'' ?got ?w = (Inr (), ?w)"
    by (simp add: consumeGot_def toConfirm_def mailToken_def NewGuard_def ConfirmTTL_def guardPersist_def
        Confirms_Delete_def runStmt_ok wrapA_def deleteConfirmStmt_def sharedW_def world0_def)
  show ?thesis by (intro exI conjI) (rule get, rule get, rule c1, rule c2)
qed

end
