(* ===== verification/EsiLimits.thy ===== *)
theory EsiLimits
  imports GoErrors
begin

text \<open>
  The two allowances every user has on ESI (adapter/esi/http/bucket.go and budget.go): a token
  bucket of 400 requests that refills at 2 per second, and an error budget over a rolling
  minute. Each operation of the code holds its mutex from the first to the last line, so it is
  one step here; \<open>now\<close> is the clock reading of that step. Tokens are rationals: the
  code's \<open>float64\<close> arithmetic is taken as exact. The rejection counters, which are only
  observed, are left out.

  The bucket lemmas bound the number of requests over any interleaving of operations and show
  that the promised retry time is the exact one; the budget lemmas describe when a request is
  let through, and that a low shared remainder closes the budget altogether.
\<close>

subsection \<open>The bucket\<close>

definition UserBucketCapacity :: rat where "UserBucketCapacity = 400"
definition UserBucketRefill :: rat where "UserBucketRefill = 2"

record userBucket =
  ub_tokens :: rat
  ub_last :: time

definition newUserBucket :: userBucket where
  "newUserBucket = \<lparr>ub_tokens = UserBucketCapacity, ub_last = 0\<rparr>"

definition seconds :: "duration \<Rightarrow> rat" where
  \<comment> \<open>\<open>d.Seconds()\<close>\<close>
  "seconds d = of_int d / 1000000000"

definition refillLocked :: "time \<Rightarrow> userBucket \<Rightarrow> userBucket" where
  "refillLocked now b =
    (if isZero (ub_last b) then b\<lparr>ub_last := now\<rparr>
     else let elapsed = seconds (now - ub_last b) in
       if elapsed \<le> 0 then b
       else b\<lparr>ub_tokens := min UserBucketCapacity (ub_tokens b + elapsed * UserBucketRefill),
              ub_last := now\<rparr>)"

definition takeToken :: "time \<Rightarrow> userBucket \<Rightarrow> goerr option \<times> userBucket" where
  "takeToken now b0 = (let b = refillLocked now b0 in
     if ub_tokens b < 1
     then let deficit = 1 - ub_tokens b; wait = deficit / UserBucketRefill;
              retrySec = max \<lceil>wait\<rceil> 1;
              retryAt = now + \<lfloor>wait * 1000000000\<rfloor>
          in (Some (UserLimitedError retryAt retrySec (Sentinel ErrAllowanceSpent)), b)
     else (None, b\<lparr>ub_tokens := ub_tokens b - 1\<rparr>))"

definition refund :: "userBucket \<Rightarrow> userBucket" where
  "refund b = b\<lparr>ub_tokens := min UserBucketCapacity (ub_tokens b + 1)\<rparr>"

definition remaining :: "time \<Rightarrow> userBucket \<Rightarrow> rat \<times> userBucket" where
  "remaining now b = (let b' = refillLocked now b in (ub_tokens b', b'))"

text \<open>Between 0 and 400 tokens, always a whole number of nanoseconds' worth of refill.\<close>

definition bucketOK :: "userBucket \<Rightarrow> bool" where
  "bucketOK b \<longleftrightarrow> 0 \<le> ub_tokens b \<and> ub_tokens b \<le> UserBucketCapacity
     \<and> ub_tokens b * 500000000 \<in> \<int>"

lemma bucketOK_new [intro]: "bucketOK newUserBucket"
  by (simp add: bucketOK_def newUserBucket_def UserBucketCapacity_def)

lemma Ints_min: "(x::rat) \<in> \<int> \<Longrightarrow> y \<in> \<int> \<Longrightarrow> min x y \<in> \<int>"
  by (simp add: min_def)

lemma bucketOK_refill [intro]: assumes "bucketOK b" shows "bucketOK (refillLocked now b)"
proof -
  let ?t = "ub_tokens b + seconds (now - ub_last b) * UserBucketRefill"
  have eq: "?t * 500000000 = ub_tokens b * 500000000 + of_int (now - ub_last b)"
    by (simp add: seconds_def UserBucketRefill_def field_simps)
  have "min UserBucketCapacity ?t * 500000000 = min 200000000000 (?t * 500000000)"
    by (simp add: UserBucketCapacity_def min_def)
  moreover have "min 200000000000 (?t * 500000000) \<in> \<int>"
    using assms unfolding eq bucketOK_def by (intro Ints_min Ints_add) auto
  ultimately show ?thesis
    using assms by (auto simp: bucketOK_def refillLocked_def Let_def UserBucketRefill_def
        UserBucketCapacity_def)
qed

lemma bucketOK_take [intro]: "bucketOK b \<Longrightarrow> bucketOK (snd (takeToken now b))"
  using bucketOK_refill [of b now]
  by (auto simp: takeToken_def Let_def bucketOK_def left_diff_distrib Ints_diff)

lemma bucketOK_refund [intro]: "bucketOK b \<Longrightarrow> bucketOK (refund b)"
  by (auto simp: refund_def bucketOK_def UserBucketCapacity_def min_def distrib_right)

text \<open>Operations in the order in which they get hold of the mutex.\<close>

datatype bucketOp = OpTake time | OpRefund | OpRemaining time

fun bucketStep :: "bucketOp \<Rightarrow> userBucket \<Rightarrow> bool \<times> userBucket" where
  \<comment> \<open>whether a request was let through\<close>
  "bucketStep (OpTake now) b = (let (e, b') = takeToken now b in (e = None, b'))"
| "bucketStep OpRefund b = (False, refund b)"
| "bucketStep (OpRemaining now) b = (False, snd (remaining now b))"

fun bucketRun :: "bucketOp list \<Rightarrow> userBucket \<Rightarrow> nat \<times> userBucket" where
  "bucketRun [] b = (0, b)"
| "bucketRun (op # ops) b = (let (ok, b1) = bucketStep op b; (n, b2) = bucketRun ops b1 in
     ((if ok then n + 1 else n), b2))"

fun opTimes :: "bucketOp \<Rightarrow> time list" where
  "opTimes (OpTake t) = [t]"
| "opTimes OpRefund = []"
| "opTimes (OpRemaining t) = [t]"

definition refunds :: "bucketOp list \<Rightarrow> nat" where
  "refunds ops = countWhere (\<lambda>op. op = OpRefund) ops"

lemma bucketOK_run: "bucketOK b \<Longrightarrow> bucketOK (snd (bucketRun ops b))"
proof (induction ops arbitrary: b)
  case (Cons op ops)
  have "bucketOK (snd (bucketStep op b))"
    using Cons.prems bucketOK_take [of b] by (cases op) (auto simp: remaining_def Let_def case_prod_unfold)
  then show ?case using Cons.IH by (simp add: Let_def case_prod_unfold)
qed simp

text \<open>
  What a bucket can still grant by the instant \<open>T\<close>: its tokens and the refill to come. A
  bucket not used yet refills from its first use, which is not before \<open>S\<close>.
\<close>

definition lastFrom :: "time \<Rightarrow> userBucket \<Rightarrow> time" where
  "lastFrom S b = (if isZero (ub_last b) then S else ub_last b)"

definition credit :: "time \<Rightarrow> time \<Rightarrow> userBucket \<Rightarrow> rat" where
  "credit S T b = ub_tokens b + UserBucketRefill * seconds (T - lastFrom S b)"

lemma refill_credit:
  assumes "S \<le> lastFrom S b" "lastFrom S b \<le> T" "S \<le> now" "now \<le> T" "0 < S" "bucketOK b"
  shows "credit S T (refillLocked now b) \<le> credit S T b"
    "S \<le> lastFrom S (refillLocked now b)" "lastFrom S (refillLocked now b) \<le> T"
  using assms by (auto simp: credit_def lastFrom_def refillLocked_def Let_def UserBucketRefill_def
      seconds_def UserBucketCapacity_def diff_divide_distrib divide_right_mono)

lemma bucketStep_credit:
  assumes "S \<le> lastFrom S b" "lastFrom S b \<le> T" "0 < S" "bucketOK b"
    "\<forall>t \<in> set (opTimes op). S \<le> t \<and> t \<le> T" "bucketStep op b = (ok, b')"
  shows "S \<le> lastFrom S b'" "lastFrom S b' \<le> T" "bucketOK b'"
    "of_bool ok + credit S T b' \<le> credit S T b + of_nat (refunds [op])"
proof -
  have "S \<le> lastFrom S b' \<and> lastFrom S b' \<le> T \<and> bucketOK b'
    \<and> of_bool ok + credit S T b' \<le> credit S T b + of_nat (refunds [op])"
  proof (cases op)
    case (OpTake t)
    then show ?thesis
      using assms refill_credit [of S b T t] bucketOK_take [of b t]
      by (auto simp: takeToken_def Let_def refunds_def credit_def lastFrom_def split: if_splits)
  next
    case OpRefund
    then show ?thesis using assms bucketOK_refund [of b]
      by (auto simp: refund_def refunds_def credit_def lastFrom_def)
  next
    case (OpRemaining t)
    then show ?thesis
      using assms refill_credit [of S b T t] bucketOK_refill [of b t]
      by (auto simp: remaining_def Let_def refunds_def)
  qed
  then show "S \<le> lastFrom S b'" "lastFrom S b' \<le> T" "bucketOK b'"
    "of_bool ok + credit S T b' \<le> credit S T b + of_nat (refunds [op])" by auto
qed

lemma bucketRun_credit:
  "S \<le> lastFrom S b \<Longrightarrow> lastFrom S b \<le> T \<Longrightarrow> 0 < S \<Longrightarrow> bucketOK b
   \<Longrightarrow> \<forall>op \<in> set ops. \<forall>t \<in> set (opTimes op). S \<le> t \<and> t \<le> T
   \<Longrightarrow> of_nat (fst (bucketRun ops b)) \<le> credit S T b + of_nat (refunds ops)"
proof (induction ops arbitrary: b)
  case Nil
  then show ?case by (auto simp: refunds_def credit_def bucketOK_def UserBucketRefill_def seconds_def)
next
  case (Cons op ops)
  obtain ok b' where s: "bucketStep op b = (ok, b')" by fastforce
  have times: "\<forall>t \<in> set (opTimes op). S \<le> t \<and> t \<le> T" using Cons.prems(5) by simp
  note step = bucketStep_credit [OF Cons.prems(1-4) times s]
  have "of_nat (fst (bucketRun ops b')) \<le> credit S T b' + of_nat (refunds ops)"
    using step Cons.prems(3,5) by (intro Cons.IH) auto
  moreover have "refunds (op # ops) = refunds [op] + refunds ops" by (simp add: refunds_def)
  ultimately show ?case using step(4) s by (auto simp: Let_def case_prod_unfold)
qed

text \<open>The allowance is a rate: whatever the order of requests, refunds and readings, and
  even when clock readings go backwards, a new bucket lets at most 400 requests plus 2 per
  second of the interval through, plus one for each refunded (not modified) answer; and its
  tokens stay between 0 and 400.\<close>
theorem bucket_is_a_rate_limit:
  assumes "0 < S" "S \<le> T" "\<forall>op \<in> set ops. \<forall>t \<in> set (opTimes op). S \<le> t \<and> t \<le> T"
    and "bucketRun ops newUserBucket = (granted, b)"
  shows "of_nat granted \<le> 400 + 2 * seconds (T - S) + of_nat (refunds ops)
    \<and> 0 \<le> ub_tokens b \<and> ub_tokens b \<le> 400"
  using bucketRun_credit [of S newUserBucket T ops] bucketOK_run [of newUserBucket ops] assms
  by (auto simp: lastFrom_def credit_def newUserBucket_def UserBucketRefill_def
      UserBucketCapacity_def bucketOK_def bucketOK_new [unfolded newUserBucket_def])

lemma bucket_is_a_rate_limit_witness:
  "of_nat (fst (bucketRun [OpTake 5, OpRefund, OpTake 3] newUserBucket)) \<le> 400 + 2 * seconds 4 + (1::rat)"
  using bucket_is_a_rate_limit [of 1 5 "[OpTake 5, OpRefund, OpTake 3]"
      "fst (bucketRun [OpTake 5, OpRefund, OpTake 3] newUserBucket)"
      "snd (bucketRun [OpTake 5, OpRefund, OpTake 3] newUserBucket)"]
  by (simp add: refunds_def)

lemma take_refused:
  assumes "takeToken now b = (Some e, b')"
  shows "b' = refillLocked now b" "ub_tokens b' < 1"
    "e = UserLimitedError (now + \<lfloor>(1 - ub_tokens b') / UserBucketRefill * 1000000000\<rfloor>)
           (max \<lceil>(1 - ub_tokens b') / UserBucketRefill\<rceil> 1) (Sentinel ErrAllowanceSpent)"
  using assms by (auto simp: takeToken_def Let_def split: if_splits)

lemma refill_at: "0 < ub_last b \<Longrightarrow> ub_last b \<le> t \<Longrightarrow> bucketOK b
    \<Longrightarrow> ub_tokens (refillLocked t b)
       = min 400 (ub_tokens b + 2 * of_int (t - ub_last b) / 1000000000)"
  by (auto simp: refillLocked_def Let_def seconds_def UserBucketRefill_def UserBucketCapacity_def
      bucketOK_def algebra_simps)

lemma last_refill_now: "0 < now \<Longrightarrow> ub_last b \<le> now \<Longrightarrow> ub_last (refillLocked now b) = now"
  by (auto simp: refillLocked_def Let_def seconds_def)

text \<open>A refusal names the exact instant of recovery: with no operation in between, a
  request at or after \<open>retry_at\<close> is let through and one before it is refused with the same
  \<open>retry_at\<close>; and the seconds to wait, at least one, reach it.\<close>
theorem retry_at_is_exact:
  assumes "bucketOK b" "0 < now" "ub_last b \<le> now"
    and "takeToken now b = (Some (UserLimitedError retryAt retrySec reason), b')"
  shows "(\<forall>t \<ge> now. fst (takeToken t b') = None \<longleftrightarrow> retryAt \<le> t)
    \<and> now \<le> retryAt \<and> retryAt \<le> now + retrySec * second \<and> 1 \<le> retrySec
    \<and> reason = Sentinel ErrAllowanceSpent"
proof -
  note r = take_refused [OF assms(4)]
  have ok: "bucketOK b'" using r(1) assms(1) by auto
  have last: "ub_last b' = now" using r(1) assms(2,3) last_refill_now by simp
  obtain k where k: "ub_tokens b' * 500000000 = of_int k" using ok by (auto simp: bucketOK_def Ints_def)
  define d where "d = 500000000 - k"
  have half: "(1 - ub_tokens b') / UserBucketRefill * 1000000000 = of_int d"
    using k by (simp add: d_def UserBucketRefill_def field_simps)
  have at: "retryAt = now + d" using r(3) half by simp
  have sec: "retrySec = max \<lceil>(1 - ub_tokens b') / UserBucketRefill\<rceil> 1" "reason = Sentinel ErrAllowanceSpent"
    using r(3) by simp_all
  have "0 < (of_int d :: rat)" unfolding half [symmetric] using r(2) by (simp add: UserBucketRefill_def)
  then have d0: "0 < d" by simp
  have reach: "d \<le> retrySec * 1000000000"
  proof -
    have "(1 - ub_tokens b') / UserBucketRefill \<le> of_int retrySec" using sec(1) by linarith
    then have "of_int d \<le> (of_int (retrySec * 1000000000) :: rat)"
      unfolding half [symmetric] by (simp add: UserBucketRefill_def)
    then show ?thesis by (simp only: of_int_le_iff)
  qed
  have take: "fst (takeToken t b') = None \<longleftrightarrow> retryAt \<le> t" if "now \<le> t" for t
  proof -
    have "ub_tokens (refillLocked t b') = min 400 (ub_tokens b' + 2 * of_int (t - now) / 1000000000)"
      using refill_at [of b' t] last assms(2) that ok by simp
    then have "ub_tokens (refillLocked t b') < 1 \<longleftrightarrow> ub_tokens b' + 2 * of_int (t - now) / 1000000000 < 1"
      by (simp add: min_less_iff_disj)
    also have "\<dots> \<longleftrightarrow> (of_int (t - now) :: rat) < of_int d"
      unfolding half [symmetric] by (simp add: UserBucketRefill_def field_simps)
    also have "\<dots> \<longleftrightarrow> t < retryAt" using at by (simp only: of_int_less_iff) linarith
    finally show ?thesis by (auto simp: takeToken_def Let_def)
  qed
  then show ?thesis using d0 at reach sec by auto
qed

definition drained :: userBucket where
  "drained = \<lparr>ub_tokens = 1 / 2, ub_last = 10 * second\<rparr>"

lemma retry_at_is_exact_witness:
  "fst (takeToken (10 * second) drained)
     = Some (UserLimitedError (10 * second + 250000000) 1 (Sentinel ErrAllowanceSpent))
   \<and> fst (takeToken (10 * second + 249999999) (snd (takeToken (10 * second) drained))) \<noteq> None
   \<and> fst (takeToken (10 * second + 250000000) (snd (takeToken (10 * second) drained))) = None"
proof -
  have t: "takeToken (10 * second) drained
     = (Some (UserLimitedError (10 * second + 250000000) 1 (Sentinel ErrAllowanceSpent)), drained)"
    by (simp add: takeToken_def drained_def refillLocked_def seconds_def UserBucketRefill_def Let_def
        ceiling_eq_iff)
  have "(500000000 :: rat) * (1 / 2) = of_int 250000000" by simp
  then have ok: "bucketOK drained"
    by (auto simp: bucketOK_def drained_def UserBucketCapacity_def simp del: of_int_numeral
        intro!: Ints_of_int)
  show ?thesis
    using retry_at_is_exact [OF ok _ _ t] t by (simp add: drained_def)
qed

subsection \<open>The error budget\<close>

definition errorBudgetCap :: int where "errorBudgetCap = 20"
definition errorBudgetShare :: int where "errorBudgetShare = 5"
definition errorBudgetWindow :: duration where "errorBudgetWindow = 60 * second"

text \<open>The budget is the list of the instants of its errors, in the order they were charged.\<close>

type_synonym errorBudget = "time list"

definition errorBudgetLimit :: "int \<Rightarrow> int" where
  "errorBudgetLimit remain = min errorBudgetCap (max remain 0 div errorBudgetShare)"

definition pruneLocked :: "time \<Rightarrow> errorBudget \<Rightarrow> errorBudget" where
  "pruneLocked now stamps = dropWhile (\<lambda>s. s \<le> now - errorBudgetWindow) stamps"

definition checkBudget :: "time \<Rightarrow> int \<Rightarrow> errorBudget \<Rightarrow> goerr option \<times> errorBudget" where
  "checkBudget now remain stamps0 = (let stamps = pruneLocked now stamps0 in
     if int (length stamps) < errorBudgetLimit remain then (None, stamps)
     else let retryAt = (case stamps of [] \<Rightarrow> now + errorBudgetWindow
                                     | s # _ \<Rightarrow> s + errorBudgetWindow);
              wait = max (retryAt - now) second;
              retrySec = max \<lceil>seconds wait\<rceil> 1
          in (Some (UserLimitedError retryAt retrySec (Sentinel ErrBudgetSpent)), stamps))"

definition charge :: "time \<Rightarrow> errorBudget \<Rightarrow> errorBudget" where
  "charge now stamps = pruneLocked now stamps @ [now]"

definition budgetCount :: "time \<Rightarrow> errorBudget \<Rightarrow> nat \<times> errorBudget" where
  "budgetCount now stamps = (let s = pruneLocked now stamps in (length s, s))"

text \<open>Errors are charged in the order of the clock, so what survives is the last minute's.\<close>

lemma dropWhile_sorted: "sorted xs \<Longrightarrow> dropWhile (\<lambda>x. x \<le> c) xs = filter (\<lambda>x. c < x) xs"
  for c :: "'a::linorder"
proof (induction xs)
  case (Cons x xs)
  show ?case
  proof (cases "x \<le> c")
    case False
    then have "\<forall>y \<in> set (x # xs). c < y" using Cons.prems by auto
    then show ?thesis using False by (simp add: filter_True)
  qed (use Cons in simp)
qed simp

lemma prune_sorted: "sorted s \<Longrightarrow> pruneLocked now s = filter (\<lambda>x. now - errorBudgetWindow < x) s"
  by (simp add: pruneLocked_def dropWhile_sorted)

lemma sorted_prune: "sorted s \<Longrightarrow> sorted (pruneLocked now s)"
  by (simp add: prune_sorted sorted_wrt_filter)

lemma sorted_charge: "sorted s \<Longrightarrow> \<forall>x \<in> set s. x \<le> now \<Longrightarrow> sorted (charge now s)"
  by (auto simp: charge_def sorted_append sorted_prune prune_sorted sorted_wrt_filter)

text \<open>The errors of the last minute before \<open>now\<close>, in the order they happened.\<close>

definition recentErrors :: "time \<Rightarrow> errorBudget \<Rightarrow> errorBudget" where
  "recentErrors now s = filter (\<lambda>x. now - 60 * second < x) s"

lemma checkBudget_verdict:
  assumes "sorted s"
  shows "snd (checkBudget now remain s) = recentErrors now s"
    "fst (checkBudget now remain s) = None \<longleftrightarrow>
       int (length (recentErrors now s)) < errorBudgetLimit remain"
  using assms by (simp_all add: checkBudget_def Let_def prune_sorted errorBudgetWindow_def recentErrors_def)

lemma errorBudgetLimit_bounds:
  "0 \<le> errorBudgetLimit r" "errorBudgetLimit r \<le> 20" "5 * errorBudgetLimit r \<le> max r 0"
  by (auto simp: errorBudgetLimit_def errorBudgetCap_def errorBudgetShare_def)

lemma low_remain_refused: "remain \<le> 4 \<Longrightarrow> fst (checkBudget now remain s) \<noteq> None"
  by (simp add: checkBudget_def Let_def errorBudgetLimit_def errorBudgetShare_def)

text \<open>A refusal of the budget always has the reason and the shape of a user limit.\<close>

lemma checkBudget_refusal:
  "fst (checkBudget now remain s) = Some e \<Longrightarrow>
   \<exists>retryAt retrySec. e = UserLimitedError retryAt retrySec (Sentinel ErrBudgetSpent) \<and> 1 \<le> retrySec"
  by (auto simp: checkBudget_def Let_def split: if_splits)

text \<open>The error budget counts the errors of the last minute and nothing else: a request is
  let through exactly when they are fewer than the limit; when they have reached the limit, the
  retry time is the instant the oldest of them is a minute old, it lies ahead by at most a
  minute, and with the limit met exactly a request at that instant is let through.\<close>
theorem error_budget_is_a_rolling_minute:
  assumes "sorted s" "\<forall>x \<in> set s. x \<le> now" "4 < remain"
    and "checkBudget now remain s = (r, s')"
  shows "s' = recentErrors now s \<and> (r = None \<longleftrightarrow> int (length s') < errorBudgetLimit remain)
    \<and> (\<forall>e. r = Some e \<longrightarrow> (\<exists>retryAt retrySec.
         e = UserLimitedError retryAt retrySec (Sentinel ErrBudgetSpent)
         \<and> retryAt = hd s' + 60 * second \<and> now < retryAt \<and> retryAt \<le> now + 60 * second
         \<and> (int (length s') = errorBudgetLimit remain
            \<longrightarrow> fst (checkBudget retryAt remain s') = None)))"
proof (cases r)
  case None
  then show ?thesis using checkBudget_verdict [OF assms(1), of now remain] assms(4) by simp
next
  case (Some e)
  have s': "s' = recentErrors now s" "int (length s') \<ge> errorBudgetLimit remain"
    using checkBudget_verdict [OF assms(1), of now remain] assms(4) Some by simp_all
  have "0 < errorBudgetLimit remain"
    using assms(3) by (simp add: errorBudgetLimit_def errorBudgetCap_def errorBudgetShare_def)
  then obtain x xs where x: "s' = x # xs" using s'(2) by (cases s') auto
  have mem: "\<forall>y \<in> set s'. now - 60 * second < y \<and> y \<le> now" "sorted s'"
    using assms(1,2) s'(1) by (auto simp: recentErrors_def sorted_wrt_filter)
  have pr: "pruneLocked now s = x # xs"
    using checkBudget_verdict(1) [OF assms(1), of now remain] x s'(1)
    by (simp add: checkBudget_def Let_def split: if_splits)
  have e: "\<exists>retrySec. e = UserLimitedError (x + 60 * second) retrySec (Sentinel ErrBudgetSpent)"
    using assms(4) Some pr
    by (auto simp: checkBudget_def Let_def errorBudgetWindow_def split: if_splits)
  have "recentErrors (x + 60 * second) s' = filter (\<lambda>y. x < y) xs"
    using x by (simp add: recentErrors_def)
  then have "length (recentErrors (x + 60 * second) s') < length s'"
    using x by (simp add: le_imp_less_Suc)
  then have "int (length s') = errorBudgetLimit remain
      \<longrightarrow> fst (checkBudget (x + 60 * second) remain s') = None"
    using checkBudget_verdict(2) [OF mem(2), of "x + 60 * second" remain] by simp
  moreover have "hd s' = x" "now < x + 60 * second" "x \<le> now" using x mem(1) by auto
  moreover have "r = None \<longleftrightarrow> int (length s') < errorBudgetLimit remain" using Some s'(2) by simp
  ultimately show ?thesis using e s'(1) Some by auto
qed

lemma error_budget_is_a_rolling_minute_witness:
  "snd (checkBudget (70 * second) 5 [10 * second, 20 * second]) = [20 * second]
   \<and> fst (checkBudget (70 * second) 5 [10 * second, 20 * second]) \<noteq> None"
proof -
  obtain r s' where c: "checkBudget (70 * second) 5 [10 * second, 20 * second] = (r, s')" by fastforce
  then show ?thesis
    using error_budget_is_a_rolling_minute [OF _ _ _ c]
    by (simp add: recentErrors_def errorBudgetLimit_def errorBudgetCap_def errorBudgetShare_def)
qed

end
