(* ===== verification/EsiCache.thy ===== *)
theory EsiCache
  imports GoErrors
begin

text \<open>
  The two caches of the ESI client (adapter/esi/http/cache.go and namecache.go). Both keep a
  doubly linked list of entries, the most recently used first, and a map from keys to its
  elements; the map is the list looked up by key, so a cache is modelled as the list, and the
  code's \<open>c.items[k]\<close> as \<open>entry k\<close>. \<open>MoveToFront\<close>, \<open>PushFront\<close> and
  \<open>Remove(Back())\<close> are list operations. The locale \<open>recency_cache\<close> states what both promise
  their clients; its facts say what a lookup returns after any history of operations.
\<close>

subsection \<open>The list and its map\<close>

definition entry :: "'k \<Rightarrow> ('k \<times> 'v) list \<Rightarrow> 'v option" where
  "entry k ll = map_of ll k"

definition dropKey :: "'k \<Rightarrow> ('k \<times> 'v) list \<Rightarrow> ('k \<times> 'v) list" where
  "dropKey k ll = removeWhere (\<lambda>e. fst e = k) ll"

definition MoveToFront :: "'k \<Rightarrow> ('k \<times> 'v) list \<Rightarrow> ('k \<times> 'v) list" where
  "MoveToFront k ll = (case entry k ll of None \<Rightarrow> ll | Some v \<Rightarrow> (k, v) # dropKey k ll)"

definition setFront :: "'k \<Rightarrow> 'v \<Rightarrow> ('k \<times> 'v) list \<Rightarrow> ('k \<times> 'v) list" where
  \<comment> \<open>change the value of an element and move it to the front\<close>
  "setFront k v ll = (k, v) # dropKey k ll"

lemma entry_simps [simp]:
  "entry k [] = None" "entry k ((k', v) # ll) = (if k = k' then Some v else entry k ll)"
  by (simp_all add: entry_def)

lemma entry_dropKey [simp]: "entry k (dropKey k' ll) = (if k = k' then None else entry k ll)"
  by (induction ll) (auto simp: dropKey_def)

lemma map_fst_dropKey [simp]: "map fst (dropKey k ll) = removeAll k (map fst ll)"
  by (induction ll) (auto simp: dropKey_def)

lemma entry_None_iff: "entry k ll = None \<longleftrightarrow> k \<notin> fst ` set ll"
  by (simp add: entry_def map_of_eq_None_iff)

lemma set_keys: "fst ` set ll = dom (\<lambda>k. entry k ll)"
  by (simp add: entry_def dom_map_of_conv_image_fst)

lemma entry_SomeD: "entry k ll = Some v \<Longrightarrow> (k, v) \<in> set ll"
  by (simp add: entry_def map_of_SomeD)

lemma set_dropKey: "set (dropKey k ll) \<subseteq> set ll"
  by (auto simp: dropKey_def)

lemma dropKey_absent: "k \<notin> fst ` set ll \<Longrightarrow> dropKey k ll = ll"
  by (simp add: dropKey_def) (rule removeWhere_none, auto)

lemma length_dropKey_less: "entry k ll = Some v \<Longrightarrow> length (dropKey k ll) < length ll"
  by (force simp: dropKey_def removeWhere_def intro!: length_filter_less dest: entry_SomeD)

lemma entry_butlast:
  assumes "distinct (map fst ll)" "ll \<noteq> []"
  shows "entry k (butlast ll) = (if k = fst (last ll) then None else entry k ll)"
proof -
  obtain xs k' v where ll: "ll = xs @ [(k', v)]"
    using assms(2) by (metis append_butlast_last_id prod.collapse)
  have "k' \<notin> fst ` set xs" using assms(1) ll by auto
  then show ?thesis by (auto simp: ll entry_def map_of_eq_None_iff map_add_def split: option.splits)
qed

subsection \<open>Responses\<close>

definition maxCacheEntries :: nat where "maxCacheEntries = 2000"
definition maxCacheBytes :: int where "maxCacheBytes = 256 * 2 ^ 20"
definition maxCachedBody :: int where "maxCachedBody = 8 * 2 ^ 20"

record cachedResponse =
  cr_Body :: string
  cr_ETag :: string
  cr_ExpiresAt :: time
  cr_StoredAt :: time
  cr_Pages :: "int option"

definition Fresh :: "time \<Rightarrow> cachedResponse \<Rightarrow> bool" where
  "Fresh now c \<longleftrightarrow> now < cr_ExpiresAt c"

record responseCache =
  rc_ll :: "(string \<times> cachedResponse) list"
  rc_bytes :: int

definition newResponseCache :: responseCache where
  "newResponseCache = \<lparr>rc_ll = [], rc_bytes = 0\<rparr>"

definition rcGet :: "string \<Rightarrow> responseCache \<Rightarrow> cachedResponse option \<times> responseCache" where
  "rcGet key c = (case entry key (rc_ll c) of
     None \<Rightarrow> (None, c)
   | Some v \<Rightarrow> (Some v, c\<lparr>rc_ll := MoveToFront key (rc_ll c)\<rparr>))"

definition bodyLen :: "cachedResponse \<Rightarrow> int" where
  "bodyLen v = int (length (cr_Body v))"

function evictLocked :: "responseCache \<Rightarrow> responseCache" where
  "evictLocked c =
    (if (maxCacheEntries < length (rc_ll c) \<or> maxCacheBytes < rc_bytes c) \<and> rc_ll c \<noteq> []
     then evictLocked (c\<lparr>rc_ll := butlast (rc_ll c),
                         rc_bytes := rc_bytes c - bodyLen (snd (last (rc_ll c)))\<rparr>)
     else c)"
  by auto
termination by (relation "measure (\<lambda>c. length (rc_ll c))") auto

declare evictLocked.simps [simp del]

definition stampStored :: "time \<Rightarrow> cachedResponse \<Rightarrow> cachedResponse" where
  "stampStored now v = (if isZero (cr_StoredAt v) then v\<lparr>cr_StoredAt := now\<rparr> else v)"

definition rcPut :: "time \<Rightarrow> string \<Rightarrow> cachedResponse \<Rightarrow> responseCache \<Rightarrow> responseCache" where
  "rcPut now key val0 c =
    (if maxCachedBody < bodyLen val0 then c
     else let val = stampStored now val0 in
       evictLocked (case entry key (rc_ll c) of
         Some old \<Rightarrow> c\<lparr>rc_bytes := rc_bytes c - bodyLen old + bodyLen val,
                       rc_ll := setFront key val (rc_ll c)\<rparr>
       | None \<Rightarrow> c\<lparr>rc_ll := (key, val) # rc_ll c, rc_bytes := rc_bytes c + bodyLen val\<rparr>))"

definition rcTouch :: "time \<Rightarrow> string \<Rightarrow> time \<Rightarrow> responseCache \<Rightarrow> responseCache" where
  "rcTouch now key expires c = (case entry key (rc_ll c) of
     None \<Rightarrow> c
   | Some v \<Rightarrow> c\<lparr>rc_ll := setFront key (v\<lparr>cr_ExpiresAt := expires, cr_StoredAt := now\<rparr>) (rc_ll c)\<rparr>)"

definition rcStats :: "responseCache \<Rightarrow> int \<times> nat" where
  "rcStats c = (rc_bytes c, length (rc_ll c))"

definition totalBytes :: "(string \<times> cachedResponse) list \<Rightarrow> int" where
  "totalBytes ll = sum_list (map (\<lambda>e. bodyLen (snd e)) ll)"

text \<open>The byte counter is exact, no key is twice in the list, and both limits hold.\<close>

definition rcKeysOK :: "responseCache \<Rightarrow> bool" where
  "rcKeysOK c \<longleftrightarrow> distinct (map fst (rc_ll c)) \<and> rc_bytes c = totalBytes (rc_ll c)
     \<and> (\<forall>e \<in> set (rc_ll c). bodyLen (snd e) \<le> maxCachedBody)"

definition rcInv :: "responseCache \<Rightarrow> bool" where
  "rcInv c \<longleftrightarrow> rcKeysOK c \<and> length (rc_ll c) \<le> maxCacheEntries \<and> rc_bytes c \<le> maxCacheBytes"

lemma rcInv_new [simp]: "rcInv newResponseCache"
  by (simp add: rcInv_def rcKeysOK_def newResponseCache_def totalBytes_def maxCacheBytes_def)

lemma totalBytes_simps [simp]:
  "totalBytes [] = 0" "totalBytes (e # ll) = bodyLen (snd e) + totalBytes ll"
  "totalBytes (xs @ ys) = totalBytes xs + totalBytes ys"
  by (simp_all add: totalBytes_def)

lemma totalBytes_dropKey:
  "distinct (map fst ll) \<Longrightarrow> entry k ll = Some v \<Longrightarrow> totalBytes (dropKey k ll) = totalBytes ll - bodyLen v"
proof (induction ll)
  case (Cons e ll)
  obtain k' v' where e: "e = (k', v')" by fastforce
  show ?case
  proof (cases "k = k'")
    case True
    then have "k \<notin> fst ` set ll" using Cons.prems e by simp
    then have "dropKey k ll = ll" by (rule dropKey_absent)
    then show ?thesis using True Cons.prems e by (simp add: dropKey_def)
  next
    case False
    then show ?thesis using Cons e by (simp add: dropKey_def)
  qed
qed simp

lemma distinct_dropKey: "distinct (map fst ll) \<Longrightarrow> distinct (map fst (dropKey k ll))"
  by (simp add: distinct_removeAll)

lemma rcKeysOK_butlast:
  assumes "rcKeysOK c" "rc_ll c \<noteq> []"
  shows "rcKeysOK (c\<lparr>rc_ll := butlast (rc_ll c), rc_bytes := rc_bytes c - bodyLen (snd (last (rc_ll c)))\<rparr>)"
proof -
  obtain xs x where ll: "rc_ll c = xs @ [x]" using assms(2) by (metis append_butlast_last_id)
  then show ?thesis using assms(1) by (simp add: rcKeysOK_def)
qed

lemma evict_prefix:
  "\<exists>n. rc_ll (evictLocked c) = take n (rc_ll c)"
proof (induction c rule: evictLocked.induct)
  case (1 c)
  show ?case
  proof (cases "(maxCacheEntries < length (rc_ll c) \<or> maxCacheBytes < rc_bytes c) \<and> rc_ll c \<noteq> []")
    case True
    then obtain n where "rc_ll (evictLocked c) = take n (butlast (rc_ll c))"
      using "1.IH" evictLocked.simps [of c] by auto
    then show ?thesis by (auto simp: butlast_conv_take)
  next
    case False
    then show ?thesis by (subst evictLocked.simps) (auto intro!: exI [of _ "length (rc_ll c)"])
  qed
qed

lemma evict_inv: "rcKeysOK c \<Longrightarrow> rcInv (evictLocked c)"
proof (induction c rule: evictLocked.induct)
  case (1 c)
  show ?case
  proof (cases "(maxCacheEntries < length (rc_ll c) \<or> maxCacheBytes < rc_bytes c) \<and> rc_ll c \<noteq> []")
    case True
    then show ?thesis using "1.IH" rcKeysOK_butlast [OF "1.prems"] by (subst evictLocked.simps) simp
  next
    case False
    then show ?thesis using "1.prems"
      by (subst evictLocked.simps)
        (auto simp: rcInv_def rcKeysOK_def maxCacheBytes_def maxCacheEntries_def not_less)
  qed
qed

text \<open>The front entry is never evicted: its body is far below the byte limit.\<close>

lemma evict_keeps_front:
  "rc_ll c = e # rest \<Longrightarrow> rcKeysOK c \<Longrightarrow> \<exists>n. rc_ll (evictLocked c) = e # take n rest"
proof (induction c arbitrary: rest rule: evictLocked.induct)
  case (1 c)
  show ?case
  proof (cases "(maxCacheEntries < length (rc_ll c) \<or> maxCacheBytes < rc_bytes c) \<and> rc_ll c \<noteq> []")
    case True
    have "rest \<noteq> []"
    proof
      assume "rest = []"
      then show False using True "1.prems"
        by (simp add: maxCacheEntries_def rcKeysOK_def maxCachedBody_def maxCacheBytes_def)
    qed
    then have "\<exists>n. rc_ll (evictLocked c) = e # take n (butlast rest)"
      using "1.IH" [of "butlast rest"] True "1.prems"(1) rcKeysOK_butlast [OF "1.prems"(2)]
      by (subst evictLocked.simps) simp
    then show ?thesis by (auto simp: butlast_conv_take)
  next
    case False
    then show ?thesis using "1.prems"(1)
      by (subst evictLocked.simps) (auto intro!: exI [of _ "length rest"])
  qed
qed

subsection \<open>Names\<close>

definition maxNameEntries :: nat where "maxNameEntries = 50000"

type_synonym nameCache = "(int \<times> string) list"

fun ncGet :: "int list \<Rightarrow> nameCache \<Rightarrow> ((int \<times> string) list \<times> int list) \<times> nameCache" where
  \<comment> \<open>the names found, in the order asked, and the ids not found\<close>
  "ncGet [] c = (([], []), c)"
| "ncGet (i # ids) c = (case entry i c of
     None \<Rightarrow> (let ((names, missing), c') = ncGet ids c in ((names, i # missing), c'))
   | Some name \<Rightarrow> (let ((names, missing), c') = ncGet ids (MoveToFront i c) in
       (((i, name) # names, missing), c')))"

function evictNames :: "nameCache \<Rightarrow> nameCache" where
  "evictNames c = (if maxNameEntries < length c then evictNames (butlast c) else c)"
  by auto
termination by (relation "measure length") auto

declare evictNames.simps [simp del]

definition ncPut :: "int \<Rightarrow> string \<Rightarrow> nameCache \<Rightarrow> nameCache" where
  "ncPut i name c =
    (if i = 0 \<or> name = [] then c
     else case entry i c of
       Some _ \<Rightarrow> setFront i name c
     | None \<Rightarrow> evictNames ((i, name) # c))"

definition ncInv :: "nameCache \<Rightarrow> bool" where
  "ncInv c \<longleftrightarrow> distinct (map fst c) \<and> length c \<le> maxNameEntries"

lemma evictNames_take: "evictNames c = take maxNameEntries c"
proof (induction c rule: evictNames.induct)
  case (1 c)
  then show ?case by (subst evictNames.simps) (auto simp: butlast_conv_take min_def)
qed

subsection \<open>What a cache promises\<close>

text \<open>A history of insertions (\<open>Inl\<close>) and refreshing operations (\<open>Inr\<close>).\<close>

fun cacheRun :: "('k \<Rightarrow> 'p \<Rightarrow> 'c \<Rightarrow> 'c) \<Rightarrow> ('k \<Rightarrow> 'u \<Rightarrow> 'c \<Rightarrow> 'c) \<Rightarrow> ('k \<times> 'p + 'k \<times> 'u) list \<Rightarrow> 'c \<Rightarrow> 'c" where
  "cacheRun put use [] c = c"
| "cacheRun put use (Inl (k, p) # ops) c = cacheRun put use ops (put k p c)"
| "cacheRun put use (Inr (k, u) # ops) c = cacheRun put use ops (use k u c)"

text \<open>The last insertion of a key that was accepted, \<open>v\<close> when there is none.\<close>

fun lastPut :: "('k \<Rightarrow> 'p \<Rightarrow> bool) \<Rightarrow> ('p \<Rightarrow> 'v) \<Rightarrow> ('k \<times> 'p + 'k \<times> 'u) list \<Rightarrow> 'k \<Rightarrow> 'v option \<Rightarrow> 'v option" where
  "lastPut acc val [] k v = v"
| "lastPut acc val (Inl (k', p) # ops) k v
    = lastPut acc val ops k (if k = k' \<and> acc k p then Some (val p) else v)"
| "lastPut acc val (Inr _ # ops) k v = lastPut acc val ops k v"

fun keysOf :: "('k \<times> 'p + 'k \<times> 'u) list \<Rightarrow> 'k set" where
  "keysOf [] = {}"
| "keysOf (Inl (k, _) # ops) = insert k (keysOf ops)"
| "keysOf (Inr (k, _) # ops) = insert k (keysOf ops)"

lemma finite_keysOf [simp]: "finite (keysOf ops)"
  by (induction ops rule: keysOf.induct) auto

text \<open>
  \<open>look\<close> is the content of a cache (for responses: what is not renewed by a 304, the body, the
  tag and the page count), \<open>order\<close> its keys by recency, \<open>put\<close> an insertion, \<open>use\<close> the effect
  of an operation that only refreshes a key, \<open>acc\<close> whether an insertion is accepted at all.
\<close>

locale recency_cache =
  fixes inv :: "'c \<Rightarrow> bool"
    and look :: "'c \<Rightarrow> 'k \<Rightarrow> 'v option"
    and order :: "'c \<Rightarrow> 'k list"
    and put :: "'k \<Rightarrow> 'p \<Rightarrow> 'c \<Rightarrow> 'c"
    and use :: "'k \<Rightarrow> 'u \<Rightarrow> 'c \<Rightarrow> 'c"
    and acc :: "'k \<Rightarrow> 'p \<Rightarrow> bool"
    and val :: "'p \<Rightarrow> 'v"
    and cap :: nat
  assumes order_ok: "inv c \<Longrightarrow> distinct (order c) \<and> length (order c) \<le> cap \<and> set (order c) = dom (look c)"
    and put_inv: "inv c \<Longrightarrow> inv (put k p c)"
    and use_inv: "inv c \<Longrightarrow> inv (use k u c)"
    and use_look: "inv c \<Longrightarrow> look (use k u c) = look c"
    and use_order: "inv c \<Longrightarrow> order (use k u c)
          = (if k \<in> set (order c) then k # removeAll k (order c) else order c)"
    and put_rejected: "\<not> acc k p \<Longrightarrow> put k p c = c"
    and put_look: "inv c \<Longrightarrow> acc k p
          \<Longrightarrow> look (put k p c) = ((look c)(k \<mapsto> val p)) |` set (order (put k p c))"
    and put_order: "inv c \<Longrightarrow> acc k p \<Longrightarrow> \<exists>n. order (put k p c) = k # take n (removeAll k (order c))"
begin

lemma run_inv: "inv c \<Longrightarrow> inv (cacheRun put use ops c)"
  by (induction ops arbitrary: c rule: keysOf.induct) (simp_all add: put_inv use_inv)

lemma bounded: "inv c \<Longrightarrow> card (dom (look (cacheRun put use ops c))) \<le> cap"
  using order_ok [OF run_inv, of c ops] by (metis distinct_card)

lemma put_look_same: "inv c \<Longrightarrow> acc k p \<Longrightarrow> look (put k p c) k = Some (val p)"
  using put_look [of c k p] put_order [of c k p] by (auto simp: restrict_map_def)

lemma put_look_le:
  "inv c \<Longrightarrow> look (put k p c) k' = Some v
    \<Longrightarrow> (if k' = k \<and> acc k p then v = val p else look c k' = Some v)"
  using put_look [of c k p] put_rejected [of k p c]
  by (cases "acc k p") (auto simp: restrict_map_def split: if_splits)

text \<open>Whatever was evicted, a hit is the value of the last accepted insertion of its key.\<close>

lemma coherent:
  "inv c \<Longrightarrow> (\<And>v. look c k = Some v \<Longrightarrow> v0 = Some v) \<Longrightarrow> look (cacheRun put use ops c) k = Some w
    \<Longrightarrow> lastPut acc val ops k v0 = Some w"
proof (induction ops arbitrary: c v0 rule: keysOf.induct)
  case 1
  then show ?case by auto
next
  case (2 k' p ops)
  have "lastPut acc val ops k (if k = k' \<and> acc k p then Some (val p) else v0) = Some w"
    using 2 put_look_le [of c k' p k]
    by (intro "2.IH") (auto simp: put_inv split: if_splits)
  then show ?case by simp
next
  case (3 k' u ops)
  then show ?case using "3.IH" [of "use k' u c" v0] by (simp add: use_inv use_look)
qed

lemma put_then_hit: "inv c \<Longrightarrow> acc k p \<Longrightarrow> look (put k p (cacheRun put use ops c)) k = Some (val p)"
  by (simp add: put_look_same run_inv)

end

text \<open>A cache with a limit on the number of its entries only drops exactly the oldest.\<close>

locale counted_cache = recency_cache +
  assumes put_full: "inv c \<Longrightarrow> acc k p \<Longrightarrow> order (put k p c) = take cap (k # removeAll k (order c))"
begin

definition before :: "'b \<Rightarrow> 'a \<Rightarrow> 'b set \<Rightarrow> bool" where
  \<comment> \<open>\<open>k\<close> is held, and only keys of \<open>K\<close> were used after it\<close>
  "before k c K \<longleftrightarrow> (\<exists>xs ys. order c = xs @ k # ys \<and> set xs \<subseteq> K)"

lemma before_front: "order c = k # ys \<Longrightarrow> before k c K"
  unfolding before_def by (intro exI [of _ "[]"] exI [of _ ys]) simp

lemma before_use:
  assumes "inv c" "before k c K" shows "before k (use k' u c) (insert k' K)"
proof -
  obtain xs ys where o: "order c = xs @ k # ys" "set xs \<subseteq> K" using assms(2) by (auto simp: before_def)
  show ?thesis
  proof (cases "k' = k")
    case True
    then show ?thesis using use_order [OF assms(1), of k' u] o by (intro before_front) simp
  next
    case False
    then have "k' \<in> set (order c) \<Longrightarrow> order (use k' u c) = (k' # removeAll k' xs) @ k # removeAll k' ys"
      using use_order [OF assms(1), of k' u] o by simp
    moreover have "k' \<notin> set (order c) \<Longrightarrow> order (use k' u c) = xs @ k # ys"
      using use_order [OF assms(1), of k' u] o by simp
    ultimately show ?thesis using o(2) unfolding before_def
      by (cases "k' \<in> set (order c)") (fastforce, blast)
  qed
qed

lemma before_put:
  assumes "inv c" "before k c K" "finite K" "card (insert k' K - {k}) < cap"
  shows "before k (put k' p c) (insert k' K)"
proof (cases "acc k' p")
  case False
  then show ?thesis using assms(2) put_rejected by (auto simp: before_def)
next
  case True
  obtain xs ys where o: "order c = xs @ k # ys" "set xs \<subseteq> K" using assms(2) by (auto simp: before_def)
  show ?thesis
  proof (cases "k' = k")
    case True
    obtain n where "order (put k' p c) = k' # take n (removeAll k' (order c))"
      using put_order [OF assms(1) \<open>acc k' p\<close>] by blast
    then show ?thesis using True by (intro before_front) simp
  next
    case False
    let ?xs = "k' # removeAll k' xs"
    have "distinct (order c)" using order_ok [OF assms(1)] by simp
    then have d: "distinct ?xs" "k \<notin> set ?xs" using o(1) False by (auto simp: distinct_removeAll)
    have "set ?xs \<subseteq> insert k' K - {k}" using o(2) d(2) by auto
    then have "length ?xs \<le> card (insert k' K - {k})"
      using assms(3) d(1) by (metis card_mono distinct_card finite_Diff finite_insert)
    then have len: "length ?xs < cap" using assms(4) by simp
    have "order (put k' p c) = take cap (?xs @ k # removeAll k' ys)"
      using put_full [OF assms(1) \<open>acc k' p\<close>] o(1) False by simp
    then have "order (put k' p c) = ?xs @ k # take (cap - Suc (length ?xs)) (removeAll k' ys)"
      using len by (simp add: take_Cons' Suc_diff_Suc)
    then show ?thesis using o(2) unfolding before_def
      by (intro exI [of _ ?xs] exI [of _ "take (cap - Suc (length ?xs)) (removeAll k' ys)"]) auto
  qed
qed

lemma survives:
  "inv c \<Longrightarrow> before k c K \<Longrightarrow> finite K \<Longrightarrow> card (K \<union> keysOf ops - {k}) < cap
    \<Longrightarrow> look (cacheRun put use ops c) k \<noteq> None"
proof (induction ops arbitrary: c K rule: keysOf.induct)
  case 1
  then have "k \<in> set (order c)" by (auto simp: before_def)
  then show ?case using order_ok [OF "1"(1)] by auto
next
  case (2 k' p ops)
  have "card (insert k' K - {k}) \<le> card (K \<union> keysOf (Inl (k', p) # ops) - {k})"
    using "2.prems"(3) by (intro card_mono) auto
  then have "before k (put k' p c) (insert k' K)" using "2.prems" by (intro before_put) auto
  then show ?case using "2.IH" [of "put k' p c" "insert k' K"] "2.prems" by (simp add: put_inv)
next
  case (3 k' u ops)
  then show ?case using "3.IH" [of "use k' u c" "insert k' K"] before_use [of c k K k' u] by (simp add: use_inv)
qed

lemma recent_survives:
  assumes "inv c" "acc k p" "card (keysOf ops - {k}) < cap"
  shows "look (cacheRun put use ops (put k p c)) k \<noteq> None"
proof (rule survives [of _ _ "{}"])
  obtain n where "order (put k p c) = k # take n (removeAll k (order c))"
    using put_order [OF assms(1,2)] by blast
  then show "before k (put k p c) {}" by (rule before_front)
qed (use assms in \<open>simp_all add: put_inv\<close>)

end

subsection \<open>Both caches keep the promise\<close>

text \<open>What a response keeps when a 304 renews it.\<close>

definition content :: "cachedResponse \<Rightarrow> string \<times> string \<times> int option" where
  "content v = (cr_Body v, cr_ETag v, cr_Pages v)"

definition rcLook :: "responseCache \<Rightarrow> string \<Rightarrow> (string \<times> string \<times> int option) option" where
  "rcLook c k = map_option content (entry k (rc_ll c))"

definition rcOrder :: "responseCache \<Rightarrow> string list" where
  "rcOrder c = map fst (rc_ll c)"

definition rcAccepts :: "string \<Rightarrow> time \<times> cachedResponse \<Rightarrow> bool" where
  "rcAccepts k p \<longleftrightarrow> bodyLen (snd p) \<le> maxCachedBody"

datatype rcUse = UGet | UTouch time time

definition rcPutOp :: "string \<Rightarrow> time \<times> cachedResponse \<Rightarrow> responseCache \<Rightarrow> responseCache" where
  "rcPutOp k p c = rcPut (fst p) k (snd p) c"

definition rcUseOp :: "string \<Rightarrow> rcUse \<Rightarrow> responseCache \<Rightarrow> responseCache" where
  "rcUseOp k u c = (case u of UGet \<Rightarrow> snd (rcGet k c) | UTouch now expires \<Rightarrow> rcTouch now k expires c)"

lemma bodyLen_stamp [simp]: "bodyLen (stampStored now v) = bodyLen v"
  by (simp add: stampStored_def bodyLen_def)

lemma content_stamp [simp]: "content (stampStored now v) = content v"
  by (simp add: stampStored_def content_def)

lemma entry_take:
  "distinct (map fst ll) \<Longrightarrow> entry k (take n ll) = (if k \<in> set (map fst (take n ll)) then entry k ll else None)"
proof (induction ll arbitrary: n)
  case (Cons e ll)
  then show ?case by (cases n; cases e) auto
qed simp

text \<open>The list before eviction, the same on both branches of \<open>put\<close>.\<close>

lemma rcPut_pushed:
  assumes "rcKeysOK c" "bodyLen val \<le> maxCachedBody"
  obtains c1 where "rcPut now k val c = evictLocked c1" "rcKeysOK c1"
    "rc_ll c1 = (k, stampStored now val) # dropKey k (rc_ll c)"
proof -
  let ?v = "stampStored now val"
  let ?c1 = "case entry k (rc_ll c) of
         Some old \<Rightarrow> c\<lparr>rc_bytes := rc_bytes c - bodyLen old + bodyLen ?v, rc_ll := setFront k ?v (rc_ll c)\<rparr>
       | None \<Rightarrow> c\<lparr>rc_ll := (k, ?v) # rc_ll c, rc_bytes := rc_bytes c + bodyLen ?v\<rparr>"
  have ok: "distinct (map fst (rc_ll c))" "rc_bytes c = totalBytes (rc_ll c)"
    using assms(1) by (simp_all add: rcKeysOK_def)
  have "rcPut now k val c = evictLocked ?c1" using assms(2) by (simp add: rcPut_def Let_def)
  moreover have "rc_ll ?c1 = (k, ?v) # dropKey k (rc_ll c)"
    by (auto simp: setFront_def entry_None_iff dropKey_absent split: option.split)
  moreover have "rc_bytes ?c1 = totalBytes ((k, ?v) # dropKey k (rc_ll c))"
    using ok totalBytes_dropKey [OF ok(1), of k]
    by (auto simp: entry_None_iff dropKey_absent split: option.split)
  moreover have "distinct (map fst ((k, ?v) # dropKey k (rc_ll c)))"
    using distinct_dropKey [OF ok(1), of k] by (simp only: list.map(2) distinct.simps map_fst_dropKey) auto
  moreover have "\<forall>e \<in> set ((k, ?v) # dropKey k (rc_ll c)). bodyLen (snd e) \<le> maxCachedBody"
    using assms set_dropKey [of k "rc_ll c"] by (auto simp: rcKeysOK_def)
  ultimately show thesis by (intro that [of ?c1]) (simp_all only: rcKeysOK_def)
qed

lemma rcPut_result:
  assumes "rcKeysOK c" "bodyLen val \<le> maxCachedBody"
  shows "rcInv (rcPut now k val c)"
    "\<exists>n. rc_ll (rcPut now k val c) = (k, stampStored now val) # take n (dropKey k (rc_ll c))"
proof -
  obtain c1 where c1: "rcPut now k val c = evictLocked c1" "rcKeysOK c1"
    "rc_ll c1 = (k, stampStored now val) # dropKey k (rc_ll c)" using rcPut_pushed [OF assms] by blast
  show "rcInv (rcPut now k val c)" using evict_inv [OF c1(2)] c1(1) by simp
  show "\<exists>n. rc_ll (rcPut now k val c) = (k, stampStored now val) # take n (dropKey k (rc_ll c))"
    using evict_keeps_front [OF c1(3,2)] c1(1) by simp
qed

lemma front_inv:
  assumes "rcInv c" "entry k (rc_ll c) = Some v" "bodyLen v' = bodyLen v"
  shows "rcInv (c\<lparr>rc_ll := (k, v') # dropKey k (rc_ll c)\<rparr>)"
proof -
  have d: "distinct (map fst (rc_ll c))" "(k, v) \<in> set (rc_ll c)"
    using assms by (auto simp: rcInv_def rcKeysOK_def dest: entry_SomeD)
  have "length (dropKey k (rc_ll c)) < length (rc_ll c)" using assms(2) by (rule length_dropKey_less)
  then show ?thesis using assms d totalBytes_dropKey [OF d(1) assms(2)] distinct_dropKey [OF d(1), of k]
      set_dropKey [of k "rc_ll c"]
    by (auto simp: rcInv_def rcKeysOK_def distinct_removeAll)
qed

lemma rcUseOp_cases:
  "entry k (rc_ll c) = None \<Longrightarrow> rcUseOp k u c = c"
  "entry k (rc_ll c) = Some v \<Longrightarrow> \<exists>v'. rcUseOp k u c = c\<lparr>rc_ll := (k, v') # dropKey k (rc_ll c)\<rparr>
     \<and> content v' = content v \<and> bodyLen v' = bodyLen v"
  by (cases u; simp add: rcUseOp_def rcGet_def rcTouch_def MoveToFront_def setFront_def content_def bodyLen_def; fail)
    (cases u; force simp: rcUseOp_def rcGet_def rcTouch_def MoveToFront_def setFront_def content_def bodyLen_def)

lemma rcUse_inv: "rcInv c \<Longrightarrow> rcInv (rcUseOp k u c)"
proof (cases "entry k (rc_ll c)")
  case (Some v)
  assume c: "rcInv c"
  obtain v' where "rcUseOp k u c = c\<lparr>rc_ll := (k, v') # dropKey k (rc_ll c)\<rparr>" "bodyLen v' = bodyLen v"
    using rcUseOp_cases(2) [OF Some] by blast
  then show ?thesis using front_inv [OF c Some] by simp
qed (simp add: rcUseOp_cases)

lemma rcUse_look: "rcLook (rcUseOp k u c) = rcLook c"
proof (cases "entry k (rc_ll c)")
  case (Some v)
  then obtain v' where "rcUseOp k u c = c\<lparr>rc_ll := (k, v') # dropKey k (rc_ll c)\<rparr>" "content v' = content v"
    using rcUseOp_cases(2) [OF Some] by blast
  then show ?thesis using Some by (auto simp: rcLook_def fun_eq_iff)
qed (simp add: rcUseOp_cases)

lemma rcUse_order: "rcOrder (rcUseOp k u c)
    = (if k \<in> set (rcOrder c) then k # removeAll k (rcOrder c) else rcOrder c)"
proof (cases "entry k (rc_ll c)")
  case (Some v)
  then obtain v' where "rcUseOp k u c = c\<lparr>rc_ll := (k, v') # dropKey k (rc_ll c)\<rparr>"
    using rcUseOp_cases(2) [OF Some] by blast
  moreover have "k \<in> set (rcOrder c)" using Some by (force simp: rcOrder_def dest: entry_SomeD)
  ultimately show ?thesis by (simp add: rcOrder_def)
qed (simp add: rcUseOp_cases rcOrder_def entry_None_iff)

lemma rcPut_order: "rcInv c \<Longrightarrow> rcAccepts k p
    \<Longrightarrow> \<exists>n. rcOrder (rcPutOp k p c) = k # take n (removeAll k (rcOrder c))"
  using rcPut_result(2) [of c "snd p" "fst p" k]
  by (auto simp: rcInv_def rcAccepts_def rcPutOp_def rcOrder_def simp flip: take_map)

lemma rcPut_rejected: "\<not> rcAccepts k p \<Longrightarrow> rcPutOp k p c = c"
  by (simp add: rcPutOp_def rcPut_def rcAccepts_def)

lemma rcPut_inv: "rcInv c \<Longrightarrow> rcInv (rcPutOp k p c)"
  using rcPut_result(1) [of c "snd p" "fst p" k] by (auto simp: rcInv_def rcPutOp_def rcPut_def)

lemma rcPut_look:
  assumes "rcInv c" "rcAccepts k p"
  shows "rcLook (rcPutOp k p c) = ((rcLook c)(k \<mapsto> content (snd p))) |` set (rcOrder (rcPutOp k p c))"
proof
  fix k'
  let ?d = "dropKey k (rc_ll c)"
  obtain n where n: "rc_ll (rcPutOp k p c) = (k, stampStored (fst p) (snd p)) # take n ?d"
    using rcPut_result(2) [of c "snd p" "fst p" k] assms by (auto simp: rcInv_def rcAccepts_def rcPutOp_def)
  have "distinct (map fst ?d)" using assms(1) by (intro distinct_dropKey) (simp add: rcInv_def rcKeysOK_def)
  from entry_take [OF this, of k' n]
  show "rcLook (rcPutOp k p c) k'
     = (((rcLook c)(k \<mapsto> content (snd p))) |` set (rcOrder (rcPutOp k p c))) k'"
    by (simp add: rcLook_def rcOrder_def n restrict_map_def)
qed

lemma rc_order_ok: "rcInv c \<Longrightarrow> distinct (rcOrder c) \<and> length (rcOrder c) \<le> maxCacheEntries
    \<and> set (rcOrder c) = dom (rcLook c)"
  by (auto simp: rcInv_def rcKeysOK_def rcOrder_def rcLook_def set_keys dom_map_option)

interpretation rc: recency_cache rcInv rcLook rcOrder rcPutOp rcUseOp rcAccepts "\<lambda>p. content (snd p)" maxCacheEntries
  by unfold_locales
    (rule rcPut_inv rcUse_inv rcUse_look rcUse_order rcPut_look rcPut_order rc_order_ok
      rcPut_rejected; assumption?)+

definition ncUseOp :: "int \<Rightarrow> unit \<Rightarrow> nameCache \<Rightarrow> nameCache" where
  "ncUseOp i u c = snd (ncGet [i] c)"

definition ncAccepts :: "int \<Rightarrow> string \<Rightarrow> bool" where
  "ncAccepts i name \<longleftrightarrow> i \<noteq> 0 \<and> name \<noteq> []"

definition ncLook :: "nameCache \<Rightarrow> int \<Rightarrow> string option" where
  "ncLook c i = entry i c"

definition ncOrder :: "nameCache \<Rightarrow> int list" where
  "ncOrder c = map fst c"

lemma ncPut_list:
  assumes "ncInv c" "ncAccepts i name"
  shows "ncPut i name c = take maxNameEntries ((i, name) # dropKey i c)"
proof (cases "entry i c")
  case None
  then have "dropKey i c = c" by (simp add: dropKey_absent entry_None_iff)
  then show ?thesis using assms None by (simp add: ncPut_def ncAccepts_def evictNames_take)
next
  case (Some v)
  then show ?thesis using assms length_dropKey_less [OF Some]
    by (simp add: ncPut_def ncAccepts_def setFront_def ncInv_def)
qed

lemma ncUse_list: "ncUseOp i u c = (case entry i c of None \<Rightarrow> c | Some v \<Rightarrow> (i, v) # dropKey i c)"
  by (simp add: ncUseOp_def MoveToFront_def split: option.split)

lemma nc_put_order: "ncInv c \<Longrightarrow> ncAccepts i name
    \<Longrightarrow> ncOrder (ncPut i name c) = take maxNameEntries (i # removeAll i (ncOrder c))"
  by (simp add: ncPut_list ncOrder_def flip: take_map)

lemma nc_put_inv: "ncInv c \<Longrightarrow> ncInv (ncPut i name c)"
proof (cases "ncAccepts i name")
  case True
  assume c: "ncInv c"
  then have "distinct (i # map fst (dropKey i c))" by (simp add: ncInv_def distinct_removeAll)
  then show ?thesis using ncPut_list [OF c True]
    by (simp add: ncInv_def flip: take_map del: map_fst_dropKey)
qed (auto simp: ncPut_def ncAccepts_def)

lemma nc_put_look:
  assumes "ncInv c" "ncAccepts i name"
  shows "ncLook (ncPut i name c) = ((ncLook c)(i \<mapsto> name)) |` set (ncOrder (ncPut i name c))"
proof
  fix j
  have "distinct (map fst ((i, name) # dropKey i c))" using assms(1) by (simp add: ncInv_def distinct_removeAll)
  from entry_take [OF this, of j maxNameEntries]
  show "ncLook (ncPut i name c) j = (((ncLook c)(i \<mapsto> name)) |` set (ncOrder (ncPut i name c))) j"
    by (simp add: ncLook_def ncOrder_def ncPut_list [OF assms] restrict_map_def del: take_Cons')
qed

lemma nc_order_ok: "ncInv c \<Longrightarrow> distinct (ncOrder c) \<and> length (ncOrder c) \<le> maxNameEntries
    \<and> set (ncOrder c) = dom (ncLook c)"
  by (auto simp: ncInv_def ncOrder_def ncLook_def set_keys)

lemma nc_use: assumes "ncInv c" shows "ncInv (ncUseOp i u c)" "ncLook (ncUseOp i u c) = ncLook c"
    "ncOrder (ncUseOp i u c) = (if i \<in> set (ncOrder c) then i # removeAll i (ncOrder c) else ncOrder c)"
  using assms distinct_dropKey [of c i] length_dropKey_less [of i c]
  by (auto simp: ncUse_list ncInv_def ncLook_def ncOrder_def fun_eq_iff entry_None_iff
      split: option.split dest: entry_SomeD; force dest: entry_SomeD)+

interpretation nc: counted_cache ncInv ncLook ncOrder ncPut ncUseOp ncAccepts id maxNameEntries
proof unfold_locales
  fix c i name assume c: "ncInv c" "ncAccepts i name"
  show "ncOrder (ncPut i name c) = take maxNameEntries (i # removeAll i (ncOrder c))"
    using c by (rule nc_put_order)
  then show "\<exists>n. ncOrder (ncPut i name c) = i # take n (removeAll i (ncOrder c))"
    by (auto simp: maxNameEntries_def take_Cons')
  show "ncLook (ncPut i name c) = ((ncLook c)(i \<mapsto> id name)) |` set (ncOrder (ncPut i name c))"
    using nc_put_look [OF c] by simp
qed (simp_all add: nc_put_inv nc_use nc_order_ok, simp add: ncPut_def ncAccepts_def)

text \<open>C39. Over any history of insertions, lookups and renewals the response cache holds at most
  2000 entries and 256 MiB, counted exactly; a hit is the content last accepted under its key;
  and a response of at most 8 MiB is found by the very next lookup, a larger one changes
  nothing.\<close>
theorem response_cache_history:
  fixes ops :: "(string \<times> time \<times> cachedResponse + string \<times> rcUse) list"
  defines "c \<equiv> cacheRun rcPutOp rcUseOp ops newResponseCache"
  shows "length (rc_ll c) \<le> 2000 \<and> rc_bytes c = totalBytes (rc_ll c) \<and> rc_bytes c \<le> 256 * 2 ^ 20
    \<and> (\<forall>k v. fst (rcGet k c) = Some v
          \<longrightarrow> lastPut rcAccepts (\<lambda>p. content (snd p)) ops k None = Some (content v))
    \<and> (\<forall>now k v. if bodyLen v \<le> 8 * 2 ^ 20
         then \<exists>v'. fst (rcGet k (rcPut now k v c)) = Some v' \<and> content v' = content v
         else rcPut now k v c = c)"
proof -
  have inv: "rcInv c" unfolding c_def by (rule rc.run_inv) simp
  have hit: "\<exists>v'. fst (rcGet k (rcPut now k v c)) = Some v' \<and> content v' = content v"
    if "bodyLen v \<le> maxCachedBody" for now k v
    using rc.put_look_same [OF inv, of k "(now, v)"] that
    by (auto simp: rcAccepts_def rcPutOp_def rcLook_def rcGet_def split: option.splits)
  have "lastPut rcAccepts (\<lambda>p. content (snd p)) ops k None = Some (content v)"
    if "fst (rcGet k c) = Some v" for k v
    using that rc.coherent [of newResponseCache k None ops "content v"]
    by (auto simp: c_def rcLook_def rcGet_def newResponseCache_def split: option.splits)
      (simp add: rcInv_new [unfolded newResponseCache_def])
  moreover have "rcPut now k v c = c" if "\<not> bodyLen v \<le> maxCachedBody" for now k v
    using that by (simp add: rcPut_def)
  ultimately show ?thesis using inv hit
    by (simp add: rcInv_def rcKeysOK_def maxCacheEntries_def maxCacheBytes_def maxCachedBody_def)
qed

lemma response_cache_history_witness:
  "\<exists>v. fst (rcGet ''k'' (rcPut 7 ''k'' \<lparr>cr_Body = ''{}'', cr_ETag = ''t'', cr_ExpiresAt = 9,
      cr_StoredAt = 0, cr_Pages = None\<rparr> newResponseCache)) = Some v \<and> cr_ETag v = ''t''"
proof -
  let ?v = "\<lparr>cr_Body = ''{}'', cr_ETag = ''t'', cr_ExpiresAt = 9, cr_StoredAt = 0, cr_Pages = None\<rparr>"
  have "\<exists>v'. fst (rcGet ''k'' (rcPut 7 ''k'' ?v newResponseCache)) = Some v' \<and> content v' = content ?v"
    using response_cache_history [of "[]", THEN conjunct2, THEN conjunct2, THEN conjunct2, THEN conjunct2,
        rule_format, of ?v "''k''" 7]
    by (simp add: bodyLen_def)
  then show ?thesis by (auto simp: content_def)
qed

text \<open>The name cache never holds more than 50000 names, answers a name only as it was last
  stored, and still knows a name after any number of operations on fewer than 50000 other ids:
  only the least recently used names are dropped.\<close>
theorem name_cache_keeps_recent:
  assumes "c = cacheRun ncPut ncUseOp ops1 []" "i \<noteq> 0" "name \<noteq> []"
    and "card (keysOf ops2 - {i}) < 50000"
    and "c2 = cacheRun ncPut ncUseOp ops2 (ncPut i name c)"
  shows "length c2 \<le> 50000
    \<and> (\<exists>name'. fst (ncGet [i] c2) = ([(i, name')], [])
        \<and> lastPut ncAccepts id ops2 i (Some name) = Some name')"
proof -
  have new: "ncInv []" by (simp add: ncInv_def)
  have inv: "ncInv c" unfolding assms(1) by (rule nc.run_inv) (rule new)
  have acc: "ncAccepts i name" using assms(2,3) by (simp add: ncAccepts_def)
  have inv2: "ncInv c2" unfolding assms(5) by (intro nc.run_inv nc.put_inv inv)
  have "ncLook c2 i \<noteq> None" unfolding assms(5)
    using nc.recent_survives [OF inv acc] assms(4) by (simp add: maxNameEntries_def)
  then obtain name' where n: "entry i c2 = Some name'" by (auto simp: ncLook_def)
  have "lastPut ncAccepts id ops2 i (Some name) = Some name'"
    using nc.coherent [OF nc.put_inv [OF inv, of i name], of i "Some name" ops2 name']
      nc.put_look_same [OF inv acc] n assms(5)
    by (simp add: ncLook_def)
  then show ?thesis using n inv2 by (simp add: ncInv_def maxNameEntries_def)
qed

lemma name_cache_keeps_recent_witness:
  "fst (ncGet [30] (cacheRun ncPut ncUseOp [Inl (31, ''b''), Inr (30, ())] (ncPut 30 ''a'' [])))
     = ([(30, ''a'')], [])"
  using name_cache_keeps_recent [of "[]" "[]" 30 "''a''" "[Inl (31, ''b''), Inr (30, ())]"
      "cacheRun ncPut ncUseOp [Inl (31, ''b''), Inr (30, ())] (ncPut 30 ''a'' [])"]
  by simp

end
