(* ===== verification/EsiJson.thy ===== *)
theory EsiJson
  imports Json Summary
begin

text \<open>
  Reading dynamic JSON values (internal/j/j.go): each reader returns a default for a value of
  another type, so no read of a response can fail. Floats are rationals; the parser of numbers
  in text, \<open>strconv.ParseFloat\<close>, is an argument.
\<close>

definition jMap :: "any \<Rightarrow> object" where
  "jMap v = (case v of VMap m \<Rightarrow> m | _ \<Rightarrow> [])"

definition jSlice :: "any \<Rightarrow> any list option" where
  \<comment> \<open>\<open>None\<close> is the nil slice of a value that is no array\<close>
  "jSlice v = (case v of VSlice xs \<Rightarrow> Some xs | _ \<Rightarrow> None)"

definition rowsOf :: "any \<Rightarrow> any list" where
  "rowsOf v = (case jSlice v of None \<Rightarrow> [] | Some xs \<Rightarrow> xs)"

fun jObjects :: "any list \<Rightarrow> object list" where
  "jObjects [] = []"
| "jObjects (v # vs) = (case v of VMap m \<Rightarrow> m # jObjects vs | _ \<Rightarrow> jObjects vs)"

definition jMaps :: "any \<Rightarrow> object list" where
  "jMaps v = jObjects (rowsOf v)"

definition jStr :: "any \<Rightarrow> string" where
  "jStr v = (case v of VStr s \<Rightarrow> s | _ \<Rightarrow> [])"

definition jBool :: "any \<Rightarrow> bool" where
  "jBool v = (case v of VBool b \<Rightarrow> b | _ \<Rightarrow> False)"

definition jFloat :: "(string \<Rightarrow> rat option) \<Rightarrow> any \<Rightarrow> rat" where
  "jFloat parseFloat v = (case v of
     VFloat f \<Rightarrow> f
   | VInt n \<Rightarrow> of_int n
   | VStr s \<Rightarrow> (case parseFloat s of Some f \<Rightarrow> f | None \<Rightarrow> 0)
   | _ \<Rightarrow> 0)"

definition jInt :: "(string \<Rightarrow> rat option) \<Rightarrow> any \<Rightarrow> int" where
  "jInt parseFloat v = truncInt (jFloat parseFloat v)"

definition jHas :: "object \<Rightarrow> string \<Rightarrow> bool" where
  "jHas m k \<longleftrightarrow> k \<in> set (map fst m)"

lemma length_jObjects: "length (jObjects vs) \<le> length vs"
  by (induction vs) (auto split: any.split)

lemma jObjects_maps [simp]: "jObjects (map VMap ms) = ms"
  by (induction ms) auto

end
