(* ===== verification/EsiHttp.thy ===== *)
theory EsiHttp
  imports EsiLimits EsiCache EsiJson Tokens
begin

text \<open>
  The ESI client of one user (adapter/esi/http/client.go, request.go, httputil.go): budget and
  allowance, retries, the conditional GET with its cache, writes and the error values.

  The network is the argument \<open>nt_send\<close>: what happens to the last request handed to the
  transport, given everything handed to it so far, and how long it takes. Reading the body of
  an answer is part of it: \<open>rs_body\<close> is what \<open>io.ReadAll\<close> yields. JSON decoding, time and
  float parsing, URL building and the randomness of the back-off are arguments too. The
  semaphore that bounds the requests in flight, the observer and the logger are left out.
  A client runs its steps one after the other here; the mutual exclusion of the bucket, the
  budget and the cache makes each of their operations one step of any interleaving.
\<close>

subsection \<open>Requests, answers and the world around them\<close>

record resp =
  rs_status :: int
  rs_headers :: "(string \<times> string) list"
  rs_body :: "goerr + string"

record neterr =
  ne_op :: bool
  ne_text :: string

text \<open>\<open>ne_op\<close>: the chain of the error has a \<open>net.OpError\<close>; \<open>ne_text\<close> is \<open>err.Error()\<close>.\<close>

record httpCall =
  hc_method :: string
  hc_path :: string
  hc_params :: object
  hc_headers :: "(string \<times> string) list"
  hc_jsonBody :: any

record esinet =
  nt_send :: "httpCall list \<Rightarrow> duration \<times> (neterr + resp)"
  nt_rand :: "httpCall list \<Rightarrow> nat option"
  nt_newRequest :: "httpCall \<Rightarrow> goerr option"
  nt_unmarshal :: "string \<Rightarrow> any option"
  nt_parseTime :: "string \<Rightarrow> time option"
  nt_parseFloat :: "string \<Rightarrow> rat option"
  nt_trimSpace :: "string \<Rightarrow> string"
  nt_fmt :: fmtlib
  nt_rfc3339 :: "time \<Rightarrow> string"
  nt_auth :: "(int \<Rightarrow> goerr + string) option"
  nt_UserAgent :: string
  nt_CompatDate :: string

record esi =
  ec_now :: time
  ec_remain :: int
  ec_resetAt :: time
  ec_bucket :: userBucket
  ec_budget :: errorBudget
  ec_cache :: responseCache
  ec_sent :: "httpCall list"

record esiResult =
  er_Data :: any
  er_FromCache :: bool
  er_AgeSeconds :: rat
  er_ExpiresAt :: rat
  er_Pages :: "int option"
  er_Truncated :: bool

definition errorFloor :: int where "errorFloor = 15"
definition maxCacheTTL :: rat where "maxCacheTTL = 86400"
definition errorLimitBudget :: int where "errorLimitBudget = 100"
definition maxResponseBody :: nat where "maxResponseBody = 16 * 2 ^ 20"
definition errorSnippet :: nat where "errorSnippet = 300"
definition defaultRetryAfter :: duration where "defaultRetryAfter = 10 * second"
definition statusErrorLimited :: int where "statusErrorLimited = 420"
definition backoffCap :: duration where "backoffCap = 8 * second"
definition throttleRetryCap :: duration where "throttleRetryCap = 2 * second"

definition ForUser :: "time \<Rightarrow> responseCache \<Rightarrow> esi" where
  \<comment> \<open>a user's client: the shared cache, an allowance and budgets of its own\<close>
  "ForUser now cache = \<lparr>ec_now = now, ec_remain = errorLimitBudget, ec_resetAt = 0,
     ec_bucket = newUserBucket, ec_budget = [], ec_cache = cache, ec_sent = []\<rparr>"

definition esiOp :: "string \<Rightarrow> string" where "esiOp op = ''esi: '' @ op"

definition sleepFor :: "duration \<Rightarrow> esi \<Rightarrow> esi" where
  "sleepFor d c = c\<lparr>ec_now := ec_now c + max 0 d\<rparr>"

subsection \<open>Reading an answer\<close>

definition headerGet :: "resp \<Rightarrow> string \<Rightarrow> string" where
  "headerGet r name = (case map_of (rs_headers r) name of None \<Rightarrow> [] | Some v \<Rightarrow> v)"

definition intHeader :: "resp \<Rightarrow> string \<Rightarrow> int option" where
  "intHeader r name = (let raw = headerGet r name in if raw = [] then None else parseInt64 raw)"

definition headerDate :: "esinet \<Rightarrow> resp \<Rightarrow> string \<Rightarrow> time option" where
  "headerDate N r name = (let raw = headerGet r name in if raw = [] then None else nt_parseTime N raw)"

definition serverTTL :: "esinet \<Rightarrow> time \<Rightarrow> resp \<Rightarrow> rat option" where
  "serverTTL N now r = (case headerDate N r ''Expires'' of None \<Rightarrow> None
     | Some expires \<Rightarrow> (case headerDate N r ''Date'' of
         None \<Rightarrow> Some (seconds (expires - now))
       | Some served \<Rightarrow> Some (seconds (expires - served))))"

fun splitComma :: "string \<Rightarrow> string list" where
  \<comment> \<open>\<open>strings.SplitSeq(s, ",")\<close>\<close>
  "splitComma [] = [[]]"
| "splitComma (c # s) = (if c = CHR '','' then [] # splitComma s
     else (case splitComma s of p # ps \<Rightarrow> (c # p) # ps | [] \<Rightarrow> [[c]]))"

fun maxAgeOf :: "esinet \<Rightarrow> string list \<Rightarrow> rat option" where
  "maxAgeOf N [] = None"
| "maxAgeOf N (part0 # parts) = (let part = nt_trimSpace N part0 in
     if hasPrefix part ''max-age='' then nt_parseFloat N (drop 8 part) else maxAgeOf N parts)"

definition maxAge :: "esinet \<Rightarrow> resp \<Rightarrow> rat option" where
  "maxAge N r = maxAgeOf N (splitComma (headerGet r ''Cache-Control''))"

definition expiresAt :: "esinet \<Rightarrow> time \<Rightarrow> resp \<Rightarrow> rat option \<Rightarrow> rat" where
  "expiresAt N now r fallback =
    (let ttl = (case serverTTL N now r of Some t \<Rightarrow> t
                | None \<Rightarrow> (case maxAge N r of Some t \<Rightarrow> t
                  | None \<Rightarrow> (case fallback of Some t \<Rightarrow> t | None \<Rightarrow> 60)));
         ttl1 = (if ttl < 0 then 0 else ttl);
         ttl2 = (if maxCacheTTL < ttl1 then maxCacheTTL else ttl1)
     in of_int (unixOf now) + ttl2)"

definition unixTime :: "rat \<Rightarrow> time" where
  "unixTime unix = ofUnix (truncInt unix)"

definition retryAfter :: "esinet \<Rightarrow> time \<Rightarrow> resp \<Rightarrow> duration" where
  "retryAfter N now r = (let raw = headerGet r ''Retry-After'' in
     if raw = [] then defaultRetryAfter
     else case nt_parseFloat N raw of
       Some sec \<Rightarrow> if 0 < sec then truncInt (sec * of_int second) else defaultRetryAfter
     | None \<Rightarrow> (case nt_parseTime N raw of
         Some wh \<Rightarrow> (let base = (case headerDate N r ''Date'' of Some d \<Rightarrow> d | None \<Rightarrow> now);
                         d = wh - base in if 0 < d then d else defaultRetryAfter)
       | None \<Rightarrow> defaultRetryAfter))"

definition decode :: "esinet \<Rightarrow> int \<Rightarrow> string \<Rightarrow> any" where
  "decode N status body =
    (if status = 204 \<or> body = [] then VNil
     else case nt_unmarshal N body of Some v \<Rightarrow> v | None \<Rightarrow> VStr body)"

definition readBody :: "resp \<Rightarrow> goerr + string" where
  \<comment> \<open>\<open>io.ReadAll(io.LimitReader(resp.Body, maxResponseBody))\<close>\<close>
  "readBody r = (case rs_body r of Inl e \<Rightarrow> Inl e | Inr b \<Rightarrow> Inr (take maxResponseBody b))"

definition discardBody :: "resp \<Rightarrow> goerr option" where
  "discardBody r = (case rs_body r of Inl e \<Rightarrow> Some (Wrap (esiOp ''discardBody'') e) | Inr _ \<Rightarrow> None)"

subsection \<open>Errors\<close>

definition hint401 :: string where
  "hint401 = ''the access token was rejected '' @ [CHR 0xE2, CHR 0x80, CHR 0x94]
     @ '' the character may need to log in again''"

definition hintFor :: "int \<Rightarrow> string option" where
  "hintFor status =
    (if status = 401 then Some hint401
     else if status = 403 then Some ''missing scope or in-game role for this endpoint''
     else if status = 404 then Some ''not found (wrong id, or the character has no such data)''
     else None)"

definition httpError :: "esinet \<Rightarrow> int \<Rightarrow> string \<Rightarrow> string \<Rightarrow> goerr" where
  "httpError N status body path =
    (let decoded = decode N status body;
         e = jStr (lookupAny (jMap decoded) ''error'');
         detail1 = (if e \<noteq> [] then e
                    else if decoded \<noteq> VNil
                    then (case marshal (nt_fmt N) decoded of
                            Some raw \<Rightarrow> take errorSnippet raw | None \<Rightarrow> [])
                    else []);
         detail = (if detail1 = [] then take errorSnippet body else detail1);
         msg = ''ESI '' @ itoa status @ '' on '' @ path @ '': '' @ detail
     in EsiError (case hintFor status of Some h \<Rightarrow> msg @ '' ('' @ h @ '')'' | None \<Rightarrow> msg) status)"

definition roundSec :: "duration \<Rightarrow> int" where
  \<comment> \<open>\<open>max(int(d.Seconds()+roundHalf), 1)\<close>\<close>
  "roundSec d = max (truncInt (seconds d + 1 / 2)) 1"

definition limitError :: "esinet \<Rightarrow> time \<Rightarrow> resp \<Rightarrow> goerr" where
  "limitError N now r =
    (let retry0 = retryAfter N now r;
         remain = intHeader r ''X-Esi-Error-Limit-Remain'';
         reset = intHeader r ''X-Esi-Error-Limit-Reset'';
         retry1 = (case reset of Some n \<Rightarrow> max retry0 (n * second) | None \<Rightarrow> retry0);
         retry = (if retry1 \<le> 0 then defaultRetryAfter else retry1)
     in RateLimitedError (rs_status r) (now + retry) (roundSec retry) remain reset)"

subsection \<open>The error budget of the client\<close>

definition noteErrorHeaders :: "resp \<Rightarrow> esi \<Rightarrow> esi" where
  "noteErrorHeaders r c =
    (case intHeader r ''X-Esi-Error-Limit-Remain'' of None \<Rightarrow> c
     | Some remain \<Rightarrow>
         (let sec = (case intHeader r ''X-Esi-Error-Limit-Reset'' of None \<Rightarrow> 0 | Some n \<Rightarrow> n);
              c1 = c\<lparr>ec_remain := remain, ec_resetAt := ec_now c + sec * second\<rparr>
          in if 400 \<le> rs_status r then c1\<lparr>ec_budget := charge (ec_now c) (ec_budget c1)\<rparr> else c1))"

definition checkErrorBudget :: "esi \<Rightarrow> goerr option \<times> esi" where
  "checkErrorBudget c = (let (e, b) = checkBudget (ec_now c) (ec_remain c) (ec_budget c)
     in (e, c\<lparr>ec_budget := b\<rparr>))"

definition awaitErrorBudget :: "esi \<Rightarrow> goerr option \<times> esi" where
  "awaitErrorBudget c =
    (if errorFloor \<le> ec_remain c then (None, c)
     else let wait = ec_resetAt c - ec_now c in
       if wait \<le> 0 then (None, c\<lparr>ec_remain := errorLimitBudget\<rparr>)
       else (Some (RateLimitedError statusErrorLimited (ec_resetAt c) (roundSec wait)
                     (Some (ec_remain c)) (Some (roundSec wait))), c))"

subsection \<open>One request, with its retries\<close>

definition MethodGet :: string where "MethodGet = ''GET''"

definition safeToRetry :: "string \<Rightarrow> neterr \<Rightarrow> bool" where
  "safeToRetry meth err \<longleftrightarrow> meth = MethodGet \<or> ne_op err
     \<or> strContains (ne_text err) ''connection refused'' \<or> strContains (ne_text err) ''no such host''"

definition backoff :: "nat option \<Rightarrow> nat \<Rightarrow> duration" where
  \<comment> \<open>the first argument is the 64-bit random draw, \<open>None\<close> when the source of randomness fails\<close>
  "backoff draw attempt =
    (let base = min (2 ^ attempt * second) backoffCap in
     case draw of None \<Rightarrow> base
     | Some n \<Rightarrow> (let frac = of_nat n / of_nat (2 ^ 64 - 1) :: rat in
         truncInt (of_int base * (1 / 2 * (1 + frac)))))"

definition serverRetry :: "string \<Rightarrow> nat \<Rightarrow> int \<Rightarrow> bool" where
  "serverRetry meth attempt status =
    (if 2 \<le> attempt \<or> meth \<noteq> MethodGet then False
     else status = 500 \<or> status = 502 \<or> status = 503 \<or> status = 504)"

text \<open>
  What follows an attempt: the request is answered, or sent again after a pause. The code
  recurses on \<open>request\<close> with \<open>attempt\<close> increased where \<open>Again\<close> stands here.
\<close>

datatype outcome = Answer "goerr + resp" | Again duration

definition netErrText :: "string \<Rightarrow> string \<Rightarrow> neterr \<Rightarrow> string" where
  "netErrText meth path err =
    ''Network error calling '' @ path @ '': '' @ ne_text err @
    (if meth \<noteq> MethodGet
     then ''. The request may or may not have reached EVE '' @ [CHR 0xE2, CHR 0x80, CHR 0x94]
       @ '' check the current state with the matching read tool before trying again, because repeating it could apply the change twice.''
     else [])"

definition retryOrNetErr :: "httpCall \<Rightarrow> nat \<Rightarrow> neterr \<Rightarrow> nat option \<Rightarrow> outcome" where
  "retryOrNetErr call attempt err draw =
    (if attempt < 2 \<and> safeToRetry (hc_method call) err then Again (backoff draw attempt)
     else Answer (Inl (EsiError (netErrText (hc_method call) (hc_path call) err) 0)))"

text \<open>\<open>None\<close>: the answer is neither a 420 nor a 429.\<close>

definition throttleOrLimit :: "esinet \<Rightarrow> time \<Rightarrow> nat \<Rightarrow> resp \<Rightarrow> outcome option" where
  "throttleOrLimit N now attempt r =
    (if rs_status r \<noteq> statusErrorLimited \<and> rs_status r \<noteq> 429 then None
     else if rs_status r = 429 \<and> attempt < 1
     then (case discardBody r of Some e \<Rightarrow> Some (Answer (Inl e))
           | None \<Rightarrow> Some (Again (min (retryAfter N now r) throttleRetryCap)))
     else (case discardBody r of Some e \<Rightarrow> Some (Answer (Inl e))
           | None \<Rightarrow> Some (Answer (Inl (limitError N now r)))))"

definition requestBody :: "esinet \<Rightarrow> httpCall \<Rightarrow> goerr + string" where
  "requestBody N call = (if hc_jsonBody call = VNil then Inr []
     else case marshal (nt_fmt N) (hc_jsonBody call) of
       Some raw \<Rightarrow> Inr raw | None \<Rightarrow> Inl (Wrap (esiOp ''request'') (External ''json'')))"

definition transport :: "esinet \<Rightarrow> httpCall \<Rightarrow> esi \<Rightarrow> (neterr + resp) \<times> esi" where
  "transport N call c = (let sent = ec_sent c @ [call]; (d, out) = nt_send N sent in
     (out, c\<lparr>ec_sent := sent, ec_now := ec_now c + max 0 d\<rparr>))"

definition afterSend :: "esinet \<Rightarrow> httpCall \<Rightarrow> nat \<Rightarrow> neterr + resp \<Rightarrow> esi \<Rightarrow> outcome \<times> esi" where
  "afterSend N call attempt out c =
    (case out of
       Inl err \<Rightarrow> (retryOrNetErr call attempt err (nt_rand N (ec_sent c)), c)
     | Inr r \<Rightarrow>
         (let c1 = noteErrorHeaders r c in
          case throttleOrLimit N (ec_now c1) attempt r of
            Some o1 \<Rightarrow> (o1, c1)
          | None \<Rightarrow>
              if serverRetry (hc_method call) attempt (rs_status r)
              then (case discardBody r of Some e \<Rightarrow> (Answer (Inl e), c1)
                    | None \<Rightarrow> (Again (backoff (nt_rand N (ec_sent c1)) attempt), c1))
              else (Answer (Inr r), c1)))"

definition attemptOnce :: "esinet \<Rightarrow> httpCall \<Rightarrow> nat \<Rightarrow> esi \<Rightarrow> outcome \<times> esi" where
  "attemptOnce N call attempt c =
    (case awaitErrorBudget c of
       (Some e, c1) \<Rightarrow> (Answer (Inl e), c1)
     | (None, c1) \<Rightarrow> (case takeToken (ec_now c1) (ec_bucket c1) of
         (Some e, b) \<Rightarrow> (Answer (Inl e), c1\<lparr>ec_bucket := b\<rparr>)
       | (None, b) \<Rightarrow>
           (let c2 = c1\<lparr>ec_bucket := b\<rparr> in
            case requestBody N call of
              Inl e \<Rightarrow> (Answer (Inl e), c2)
            | Inr body \<Rightarrow> (case nt_newRequest N call of
                Some e \<Rightarrow> (Answer (Inl (Wrap (esiOp ''request'') e)), c2)
              | None \<Rightarrow> (let (out, c3) = transport N call c2 in afterSend N call attempt out c3)))))"

lemma throttle_again: "throttleOrLimit N now attempt r = Some (Again d) \<Longrightarrow> attempt < 1 \<and> rs_status r = 429"
  by (auto simp: throttleOrLimit_def split: if_splits option.splits)

lemma serverRetryD: "serverRetry meth attempt status
    \<Longrightarrow> attempt < 2 \<and> meth = MethodGet \<and> status \<in> {500, 502, 503, 504}"
  by (auto simp: serverRetry_def split: if_splits)

lemma retryOrNetErr_again:
  "retryOrNetErr call attempt err draw = Again d \<Longrightarrow> attempt < 2 \<and> safeToRetry (hc_method call) err"
  by (auto simp: retryOrNetErr_def split: if_splits)

lemma afterSend_again:
  "afterSend N call attempt out c = (Again d, c') \<Longrightarrow> attempt < 2 \<and>
     (case out of Inl err \<Rightarrow> safeToRetry (hc_method call) err
      | Inr r \<Rightarrow> rs_status r = 429 \<or> hc_method call = MethodGet \<and> rs_status r \<in> {500, 502, 503, 504})"
  by (auto simp: afterSend_def Let_def split: sum.splits option.splits if_splits
      dest!: throttle_again serverRetryD retryOrNetErr_again dest: sym)

lemma attemptOnce_again: "attemptOnce N call attempt c = (Again d, c') \<Longrightarrow> attempt < 2"
  by (auto simp: attemptOnce_def Let_def split: prod.splits option.splits sum.splits
      dest!: afterSend_again)

function request :: "esinet \<Rightarrow> httpCall \<Rightarrow> nat \<Rightarrow> esi \<Rightarrow> (goerr + resp) \<times> esi" where
  "request N call attempt c =
    (case attemptOnce N call attempt c of
       (Answer r, c1) \<Rightarrow> (r, c1)
     | (Again d, c1) \<Rightarrow> request N call (Suc attempt) (sleepFor d c1))"
  by pat_completeness auto
termination
  by (relation "measure (\<lambda>(N, call, attempt, c). 3 - attempt)") (auto dest!: attemptOnce_again [OF sym])

declare request.simps [simp del]

subsection \<open>Reads through the cache\<close>

fun normalise :: "object \<Rightarrow> object" where
  "normalise [] = []"
| "normalise ((k, v) # params) = (case v of
     VNil \<Rightarrow> normalise params
   | VBool b \<Rightarrow> (k, VStr (if b then ''true'' else ''false'')) # normalise params
   | VStrs ss \<Rightarrow> (k, VStr (joinStr '','' ss)) # normalise params
   | VInts ns \<Rightarrow> (k, VStr (joinStr '','' (map itoa ns))) # normalise params
   | _ \<Rightarrow> (k, v) # normalise params)"

definition canonicalKey :: "esinet \<Rightarrow> string \<Rightarrow> int option \<Rightarrow> object \<Rightarrow> string option" where
  "canonicalKey N path characterID params = marshal (nt_fmt N) (VMap
    [(''p'', VStr path), (''c'', case characterID of None \<Rightarrow> VNil | Some n \<Rightarrow> VInt n),
     (''q'', VMap (normalise params)), (''d'', VStr (nt_CompatDate N))])"

definition cacheKey :: "esinet \<Rightarrow> string \<Rightarrow> int option \<Rightarrow> object \<Rightarrow> goerr + string" where
  "cacheKey N path characterID params = (case canonicalKey N path characterID params of
     None \<Rightarrow> Inl (Wrap (esiOp ''cacheKey'') (External ''json''))
   | Some raw \<Rightarrow> Inr (hexEncode (sha256 raw)))"

definition esiHeaders :: "esinet \<Rightarrow> int option \<Rightarrow> goerr + (string \<times> string) list" where
  "esiHeaders N characterID =
    (let h = [(''User-Agent'', nt_UserAgent N), (''X-Compatibility-Date'', nt_CompatDate N),
              (''Accept'', ''application/json'')] in
     case characterID of None \<Rightarrow> Inr h
     | Some cid \<Rightarrow> (case nt_auth N of
         None \<Rightarrow> Inl (Wrap (esiOp ''headers'') (Sentinel errNoTokenSource))
       | Some auth \<Rightarrow> (case auth cid of
           Inl e \<Rightarrow> Inl (Wrap (esiOp ''headers'') e)
         | Inr token \<Rightarrow> Inr (h @ [(''Authorization'', ''Bearer '' @ token)]))))"

definition crData :: "esinet \<Rightarrow> cachedResponse \<Rightarrow> any" where
  "crData N v = (if cr_Body v = [] then VNil
     else case nt_unmarshal N (cr_Body v) of Some x \<Rightarrow> x | None \<Rightarrow> VNil)"

definition AgeSeconds :: "time \<Rightarrow> cachedResponse \<Rightarrow> rat" where
  "AgeSeconds now v = max 0 (seconds (now - cr_StoredAt v))"

definition ExpiresUnix :: "cachedResponse \<Rightarrow> rat" where
  "ExpiresUnix v = of_int (unixOf (cr_ExpiresAt v))"

definition cachedResult :: "esinet \<Rightarrow> time \<Rightarrow> cachedResponse \<Rightarrow> esiResult" where
  "cachedResult N now v = \<lparr>er_Data = crData N v, er_FromCache = True, er_AgeSeconds = AgeSeconds now v,
     er_ExpiresAt = ExpiresUnix v, er_Pages = cr_Pages v, er_Truncated = False\<rparr>"

definition finishGet :: "esinet \<Rightarrow> resp \<Rightarrow> string \<Rightarrow> string \<Rightarrow> cachedResponse option \<Rightarrow> string \<Rightarrow> rat option
    \<Rightarrow> esi \<Rightarrow> (goerr + esiResult) \<times> esi" where
  "finishGet N r body key cached path cacheTTL c =
    (case (if rs_status r = 304 then cached else None) of
       Some v \<Rightarrow>
         (let c1 = c\<lparr>ec_bucket := refund (ec_bucket c)\<rparr>;
              expires = expiresAt N (ec_now c) r cacheTTL
          in (Inr \<lparr>er_Data = crData N v, er_FromCache = True, er_AgeSeconds = 0,
                   er_ExpiresAt = expires, er_Pages = cr_Pages v, er_Truncated = False\<rparr>,
              c1\<lparr>ec_cache := rcTouch (ec_now c) key (unixTime expires) (ec_cache c1)\<rparr>))
     | None \<Rightarrow>
         if 400 \<le> rs_status r
         then (case (if 500 \<le> rs_status r \<and> rs_status r < 600 then cached else None) of
                 Some v \<Rightarrow> (Inr (cachedResult N (ec_now c) v), c)
               | None \<Rightarrow> (Inl (httpError N (rs_status r) body path), c))
         else
           (let decoded = decode N (rs_status r) body;
                pages = intHeader r ''X-Pages'';
                expires = expiresAt N (ec_now c) r cacheTTL
            in case marshal (nt_fmt N) decoded of
                 None \<Rightarrow> (Inl (Wrap (esiOp ''cachedGet'') (External ''json'')), c)
               | Some raw \<Rightarrow>
                   (Inr \<lparr>er_Data = decoded, er_FromCache = False, er_AgeSeconds = 0,
                         er_ExpiresAt = expires, er_Pages = pages, er_Truncated = False\<rparr>,
                    c\<lparr>ec_cache := rcPut (ec_now c) key
                        \<lparr>cr_Body = raw, cr_ETag = headerGet r ''Etag'', cr_ExpiresAt = unixTime expires,
                         cr_StoredAt = 0, cr_Pages = pages\<rparr> (ec_cache c)\<rparr>)))"

definition withETag :: "cachedResponse option \<Rightarrow> (string \<times> string) list \<Rightarrow> (string \<times> string) list" where
  "withETag cached h = (case cached of None \<Rightarrow> h
     | Some v \<Rightarrow> if cr_ETag v \<noteq> [] then h @ [(''If-None-Match'', cr_ETag v)] else h)"

definition cachedGet :: "esinet \<Rightarrow> string \<Rightarrow> int option \<Rightarrow> object \<Rightarrow> rat option
    \<Rightarrow> esi \<Rightarrow> (goerr + esiResult) \<times> esi" where
  "cachedGet N path characterID params cacheTTL c0 =
    (case cacheKey N path characterID params of Inl e \<Rightarrow> (Inl e, c0)
     | Inr key \<Rightarrow>
       (let (cached, cache1) = rcGet key (ec_cache c0); c = c0\<lparr>ec_cache := cache1\<rparr> in
        case (case cached of None \<Rightarrow> None | Some v \<Rightarrow> if Fresh (ec_now c) v then Some v else None) of
          Some v \<Rightarrow> (Inr (cachedResult N (ec_now c) v), c)
        | None \<Rightarrow> (case checkErrorBudget c of
            (Some e, c1) \<Rightarrow> (Inl e, c1)
          | (None, c1) \<Rightarrow> (case esiHeaders N characterID of
              Inl e \<Rightarrow> (Inl e, c1)
            | Inr h \<Rightarrow> (case request N \<lparr>hc_method = MethodGet, hc_path = path, hc_params = params,
                             hc_headers = withETag cached h, hc_jsonBody = VNil\<rparr> 0 c1 of
                (Inl e, c2) \<Rightarrow> (Inl e, c2)
              | (Inr r, c2) \<Rightarrow> (case readBody r of
                  Inl e \<Rightarrow> (Inl (Wrap (esiOp ''cachedGet'') e), c2)
                | Inr body \<Rightarrow> finishGet N r body key cached path cacheTTL c2))))))"

subsection \<open>Writes\<close>

definition esiWrite :: "esinet \<Rightarrow> string \<Rightarrow> string \<Rightarrow> int option \<Rightarrow> object \<Rightarrow> any \<Rightarrow> esi \<Rightarrow> (goerr + any) \<times> esi" where
  "esiWrite N meth path characterID params jsonBody c =
    (case checkErrorBudget c of
       (Some e, c1) \<Rightarrow> (Inl e, c1)
     | (None, c1) \<Rightarrow> (case esiHeaders N characterID of
         Inl e \<Rightarrow> (Inl e, c1)
       | Inr h \<Rightarrow>
         (let h1 = (if jsonBody \<noteq> VNil then h @ [(''Content-Type'', ''application/json'')] else h) in
          case request N \<lparr>hc_method = meth, hc_path = path, hc_params = params, hc_headers = h1,
                          hc_jsonBody = jsonBody\<rparr> 0 c1 of
            (Inl e, c2) \<Rightarrow> (Inl e, c2)
          | (Inr r, c2) \<Rightarrow> (case readBody r of
              Inl e \<Rightarrow> (Inl (Wrap (esiOp ''write'') e), c2)
            | Inr body \<Rightarrow>
                if 400 \<le> rs_status r then (Inl (httpError N (rs_status r) body path), c2)
                else (Inr (decode N (rs_status r) body), c2)))))"

definition esiGet :: "esinet \<Rightarrow> string \<Rightarrow> int option \<Rightarrow> object \<Rightarrow> rat option \<Rightarrow> esi \<Rightarrow> (goerr + esiResult) \<times> esi" where
  "esiGet N path characterID params cacheTTL c = cachedGet N path characterID params cacheTTL c"

definition esiPost :: "esinet \<Rightarrow> string \<Rightarrow> int option \<Rightarrow> object \<Rightarrow> any \<Rightarrow> esi \<Rightarrow> (goerr + any) \<times> esi" where
  "esiPost N path characterID params jsonBody c = esiWrite N ''POST'' path characterID params jsonBody c"

definition esiPut :: "esinet \<Rightarrow> string \<Rightarrow> int option \<Rightarrow> object \<Rightarrow> any \<Rightarrow> esi \<Rightarrow> (goerr + any) \<times> esi" where
  "esiPut N path characterID params jsonBody c = esiWrite N ''PUT'' path characterID params jsonBody c"

definition esiDelete :: "esinet \<Rightarrow> string \<Rightarrow> int option \<Rightarrow> object \<Rightarrow> any \<Rightarrow> esi \<Rightarrow> (goerr + any) \<times> esi" where
  "esiDelete N path characterID params jsonBody c = esiWrite N ''DELETE'' path characterID params jsonBody c"

end
