(* ===== verification/EsiProps.thy ===== *)
theory EsiProps
  imports EsiHttp
begin

text \<open>
  What the ESI client guarantees: how often a request reaches the transport and after which
  outcomes it is sent again, what every request costs, where a cached answer comes from, and
  what a low shared error remainder does. \<open>exchanged\<close> collects what any stretch of the
  client's work does to the transport, the bucket, the clock and the cache; it composes, so the
  facts about one attempt give those about a request, a call and a whole history of calls of
  several users that share the cache.
\<close>

subsection \<open>What the transport answered\<close>

definition answersFrom :: "esinet \<Rightarrow> nat \<Rightarrow> httpCall list \<Rightarrow> (neterr + resp) list" where
  "answersFrom N n sent = map (\<lambda>i. snd (nt_send N (take (Suc i) sent))) [n..<length sent]"

lemma answersFrom_none [simp]: "answersFrom N (length sent) sent = []"
  by (simp add: answersFrom_def)

lemma answersFrom_one [simp]: "answersFrom N (length sent) (sent @ [call]) = [snd (nt_send N (sent @ [call]))]"
  by (simp add: answersFrom_def)

lemma answersFrom_split:
  "answersFrom N (length s) (s @ xs @ ys)
     = answersFrom N (length s) (s @ xs) @ answersFrom N (length s + length xs) (s @ xs @ ys)"
proof -
  have "[length s..<length (s @ xs @ ys)]
      = [length s..<length s + length xs] @ [length s + length xs..<length (s @ xs @ ys)]"
    using upt_add_eq_append [of "length s" "length s + length xs" "length ys"] by (simp add: add.assoc)
  then show ?thesis by (simp add: answersFrom_def)
qed

lemma length_answersFrom [simp]: "length (answersFrom N n s) = length s - n"
  by (simp add: answersFrom_def)

text \<open>
  \<open>exchanged N call c outs c'\<close>: on the way from \<open>c\<close> to \<open>c'\<close> the request \<open>call\<close> was handed to the
  transport once for each outcome in \<open>outs\<close>, each time for a token of the bucket, and nothing
  was refunded or cached.
\<close>

definition granted :: "bucketOp list \<Rightarrow> userBucket \<Rightarrow> nat" where
  "granted ops b = fst (bucketRun ops b)"

definition timesIn :: "time \<Rightarrow> time \<Rightarrow> bucketOp list \<Rightarrow> bool" where
  "timesIn S T ops \<longleftrightarrow> (\<forall>op \<in> set ops. \<forall>t \<in> set (opTimes op). S \<le> t \<and> t \<le> T)"

definition exchanged :: "esinet \<Rightarrow> httpCall \<Rightarrow> esi \<Rightarrow> (neterr + resp) list \<Rightarrow> esi \<Rightarrow> bool" where
  "exchanged N call c outs c' \<longleftrightarrow>
     ec_sent c' = ec_sent c @ replicate (length outs) call
   \<and> answersFrom N (length (ec_sent c)) (ec_sent c') = outs
   \<and> ec_cache c' = ec_cache c \<and> ec_now c \<le> ec_now c'
   \<and> (\<exists>ops. ec_bucket c' = snd (bucketRun ops (ec_bucket c))
        \<and> length outs \<le> granted ops (ec_bucket c)
        \<and> refunds ops = 0 \<and> timesIn (ec_now c) (ec_now c') ops)"

lemma bucketRun_append:
  "bucketRun (xs @ ys) b = (granted xs b + granted ys (snd (bucketRun xs b)),
                            snd (bucketRun ys (snd (bucketRun xs b))))"
  by (induction xs arbitrary: b) (auto simp: granted_def Let_def case_prod_unfold)

lemma timesIn_append: "timesIn S T xs \<Longrightarrow> timesIn S' T' ys \<Longrightarrow> S \<le> S' \<Longrightarrow> T \<le> T' \<Longrightarrow> timesIn S T' (xs @ ys)"
  by (fastforce simp: timesIn_def)

lemma timesIn_widen: "timesIn S T ops \<Longrightarrow> T \<le> T' \<Longrightarrow> timesIn S T' ops"
  by (fastforce simp: timesIn_def)

lemma refunds_append: "refunds (xs @ ys) = refunds xs + refunds ys"
  by (simp add: refunds_def)

lemma exchangedD:
  assumes "exchanged N call c outs c'"
  shows "ec_sent c' = ec_sent c @ replicate (length outs) call"
    "answersFrom N (length (ec_sent c)) (ec_sent c') = outs" "ec_cache c' = ec_cache c"
  using assms unfolding exchanged_def by blast+

lemma exchanged_refl:
  "ec_sent c' = ec_sent c \<Longrightarrow> ec_cache c' = ec_cache c \<Longrightarrow> ec_now c \<le> ec_now c' \<Longrightarrow> ec_bucket c' = ec_bucket c
    \<Longrightarrow> exchanged N call c [] c'"
  by (auto simp: exchanged_def granted_def refunds_def timesIn_def intro!: exI [of _ "[]"])

lemma exchanged_trans:
  assumes "exchanged N call c xs c1" "exchanged N call c1 ys c2"
  shows "exchanged N call c (xs @ ys) c2"
proof -
  have s: "ec_sent c1 = ec_sent c @ replicate (length xs) call"
    "ec_sent c2 = ec_sent c1 @ replicate (length ys) call"
    using assms by (simp_all add: exchanged_def)
  obtain ops1 where o1: "ec_bucket c1 = snd (bucketRun ops1 (ec_bucket c))"
    "length xs \<le> granted ops1 (ec_bucket c)" "refunds ops1 = 0" "timesIn (ec_now c) (ec_now c1) ops1"
    using assms(1) by (auto simp: exchanged_def)
  obtain ops2 where o2: "ec_bucket c2 = snd (bucketRun ops2 (ec_bucket c1))"
    "length ys \<le> granted ops2 (ec_bucket c1)" "refunds ops2 = 0" "timesIn (ec_now c1) (ec_now c2) ops2"
    using assms(2) by (auto simp: exchanged_def)
  have t: "ec_now c \<le> ec_now c1" "ec_now c1 \<le> ec_now c2" using assms by (simp_all add: exchanged_def)
  have "answersFrom N (length (ec_sent c)) (ec_sent c2) = xs @ ys"
    using answersFrom_split [of N "ec_sent c" "replicate (length xs) call" "replicate (length ys) call"]
      assms s by (simp add: exchanged_def)
  moreover have "timesIn (ec_now c) (ec_now c2) (ops1 @ ops2)" using o1(4) o2(4) t by (rule timesIn_append)
  ultimately show ?thesis using assms s t o1 o2
    by (auto simp: exchanged_def replicate_add bucketRun_append granted_def refunds_append
        intro!: exI [of _ "ops1 @ ops2"])
qed

subsection \<open>One attempt and one request\<close>

definition retriable :: "string \<Rightarrow> neterr + resp \<Rightarrow> bool" where
  "retriable meth out = (case out of
     Inl err \<Rightarrow> safeToRetry meth err
   | Inr r \<Rightarrow> rs_status r = 429 \<or> meth = MethodGet \<and> rs_status r \<in> {500, 502, 503, 504})"

lemma noteErrorHeaders_keeps [simp]:
  "ec_sent (noteErrorHeaders r c) = ec_sent c" "ec_cache (noteErrorHeaders r c) = ec_cache c"
  "ec_now (noteErrorHeaders r c) = ec_now c" "ec_bucket (noteErrorHeaders r c) = ec_bucket c"
  by (auto simp: noteErrorHeaders_def Let_def split: option.split)

lemma awaitErrorBudget_keeps:
  "awaitErrorBudget c = (r, c') \<Longrightarrow> \<exists>remain. c' = c\<lparr>ec_remain := remain\<rparr>"
  by (auto simp: awaitErrorBudget_def Let_def split: if_splits
      intro: exI [of _ "ec_remain c"] exI [of _ errorLimitBudget])

lemma afterSend_effect:
  "afterSend N call attempt out c = (outc, c') \<Longrightarrow>
     ec_sent c' = ec_sent c \<and> ec_cache c' = ec_cache c \<and> ec_now c' = ec_now c \<and> ec_bucket c' = ec_bucket c
   \<and> (\<forall>r. outc = Answer (Inr r) \<longrightarrow> out = Inr r \<and> rs_status r \<noteq> 420 \<and> rs_status r \<noteq> 429)
   \<and> (\<forall>d. outc = Again d \<longrightarrow> retriable (hc_method call) out)"
  by (auto simp: afterSend_def Let_def retriable_def retryOrNetErr_def throttleOrLimit_def statusErrorLimited_def
      split: sum.splits option.splits if_splits dest: serverRetryD)

lemma takeToken_exchange:
  assumes "takeToken (ec_now c) (ec_bucket c) = (r, b)"
  shows "\<exists>ops. b = snd (bucketRun ops (ec_bucket c)) \<and> granted ops (ec_bucket c) = of_bool (r = None)
     \<and> refunds ops = 0 \<and> timesIn (ec_now c) (ec_now c) ops"
  using assms by (intro exI [of _ "[OpTake (ec_now c)]"]) (simp add: granted_def refunds_def timesIn_def)

lemma attemptOnce_effect:
  assumes "attemptOnce N call attempt c = (outc, c')"
  obtains outs where "exchanged N call c outs c'" "length outs \<le> 1"
    "\<And>d. outc = Again d \<Longrightarrow> attempt < 2 \<and> (\<exists>out. outs = [out] \<and> retriable (hc_method call) out)"
    "\<And>r. outc = Answer (Inr r) \<Longrightarrow> outs = [Inr r] \<and> rs_status r \<noteq> 420 \<and> rs_status r \<noteq> 429"
proof -
  obtain r1 c1 where aw: "awaitErrorBudget c = (r1, c1)" by fastforce
  then obtain remain where c1: "c1 = c\<lparr>ec_remain := remain\<rparr>" using awaitErrorBudget_keeps by blast
  obtain r2 b where tk: "takeToken (ec_now c1) (ec_bucket c1) = (r2, b)" by fastforce
  then obtain ops where ops: "b = snd (bucketRun ops (ec_bucket c))"
    "granted ops (ec_bucket c) = of_bool (r2 = None)" "refunds ops = 0" "timesIn (ec_now c) (ec_now c) ops"
    using takeToken_exchange [of c1 r2 b] c1 by auto
  have quiet: "exchanged N call c [] (c1\<lparr>ec_bucket := b\<rparr>)"
    using ops c1 by (auto simp: exchanged_def intro!: exI [of _ ops])
  show thesis
  proof (cases "r1 = None \<and> r2 = None \<and> isl (requestBody N call) = False \<and> nt_newRequest N call = None")
    case True
    obtain body where rb: "requestBody N call = Inr body" using True by (cases "requestBody N call") auto
    let ?c2 = "c1\<lparr>ec_bucket := b\<rparr>"
    obtain d out where send: "nt_send N (ec_sent c @ [call]) = (d, out)" by fastforce
    let ?c3 = "?c2\<lparr>ec_sent := ec_sent c @ [call], ec_now := ec_now c + max 0 d\<rparr>"
    have tr: "transport N call ?c2 = (out, ?c3)" using send c1 by (simp add: transport_def Let_def)
    have af: "afterSend N call attempt out ?c3 = (outc, c')"
      using assms True aw tk rb tr by (simp add: attemptOnce_def Let_def)
    have "timesIn (ec_now c) (ec_now c + max 0 d) ops" using ops(4) by (rule timesIn_widen) simp
    then have "exchanged N call c [out] c'"
      using afterSend_effect [OF af] ops c1 send True
      by (auto simp: exchanged_def intro!: exI [of _ ops])
    then show thesis using afterSend_effect [OF af] attemptOnce_again [of N call attempt c _ c'] assms
      by (intro that [of "[out]"]) auto
  next
    case False
    have "(outc, c') \<in> {(Answer (Inl e), c'') | e c''. c'' = c1 \<or> c'' = c1\<lparr>ec_bucket := b\<rparr>}"
      using assms False aw tk by (auto simp: attemptOnce_def Let_def split: option.splits sum.splits)
    moreover have "exchanged N call c [] c1" using c1 by (intro exchanged_refl) auto
    ultimately show thesis using quiet by (intro that [of "[]"]) auto
  qed
qed

lemma exchanged_sleep: "exchanged N call c outs c' \<Longrightarrow> exchanged N call c outs (sleepFor d c')"
  using exchanged_trans [of N call c outs c' "[]"] exchanged_refl [of "sleepFor d c'" c']
  by (simp add: sleepFor_def)

lemma request_effect:
  "request N call attempt c = (r, c') \<Longrightarrow> attempt \<le> 2 \<Longrightarrow>
   \<exists>outs. exchanged N call c outs c' \<and> length outs \<le> 3 - attempt
     \<and> (\<forall>out \<in> set (butlast outs). retriable (hc_method call) out)
     \<and> (\<forall>x. r = Inr x \<longrightarrow> outs \<noteq> [] \<and> last outs = Inr x \<and> rs_status x \<noteq> 420 \<and> rs_status x \<noteq> 429)"
proof (induction N call attempt c arbitrary: r c' rule: request.induct)
  case (1 N call attempt c)
  obtain outc c1 where once: "attemptOnce N call attempt c = (outc, c1)" by fastforce
  from attemptOnce_effect [OF once] obtain outs where outs: "exchanged N call c outs c1" "length outs \<le> 1"
    and again: "\<And>d. outc = Again d \<Longrightarrow> attempt < 2 \<and> (\<exists>out. outs = [out] \<and> retriable (hc_method call) out)"
    and answer: "\<And>r. outc = Answer (Inr r) \<Longrightarrow> outs = [Inr r] \<and> rs_status r \<noteq> 420 \<and> rs_status r \<noteq> 429"
    by blast
  show ?case
  proof (cases outc)
    case (Answer x)
    then have "r = x" "c' = c1" using "1.prems"(1) once by (simp_all add: request.simps [of N call attempt])
    moreover have "butlast outs = []" using outs(2) by (cases outs) auto
    ultimately show ?thesis using outs answer Answer "1.prems"(2) by (intro exI [of _ outs]) auto
  next
    case (Again d)
    from again [OF Again] obtain out where out: "outs = [out]" "retriable (hc_method call) out" "attempt < 2"
      by blast
    have rest: "request N call (Suc attempt) (sleepFor d c1) = (r, c')"
      using "1.prems"(1) once Again by (simp add: request.simps [of N call attempt])
    have le: "Suc attempt \<le> 2" using out(3) by simp
    from "1.IH" [OF once [symmetric] Again rest le]
    obtain outs2 where o2: "exchanged N call (sleepFor d c1) outs2 c'" "length outs2 \<le> 3 - Suc attempt"
      "\<forall>out \<in> set (butlast outs2). retriable (hc_method call) out"
      "\<forall>x. r = Inr x \<longrightarrow> outs2 \<noteq> [] \<and> last outs2 = Inr x \<and> rs_status x \<noteq> 420 \<and> rs_status x \<noteq> 429"
      by blast
    have "exchanged N call c (outs @ outs2) c'"
      using exchanged_trans [OF exchanged_sleep [OF outs(1)] o2(1)] .
    then show ?thesis using o2 out by (intro exI [of _ "outs @ outs2"]) (auto simp: butlast_append)
  qed
qed

text \<open>C12. One call of the client reaches the transport at most three times, with the same
  request each time and a token of the allowance for each; it is sent again only after an
  answer 429, an answer 500, 502, 503 or 504 to a GET, or a network error that is safe to
  retry; and the answer returned is the last one received, never a 420 or 429. It always
  returns, and it does not touch the cache.\<close>
theorem request_is_sent_at_most_three_times:
  assumes "request N call 0 c = (r, c')"
  shows "\<exists>outs. ec_sent c' = ec_sent c @ replicate (length outs) call \<and> length outs \<le> 3
     \<and> answersFrom N (length (ec_sent c)) (ec_sent c') = outs
     \<and> (\<forall>out \<in> set (butlast outs). case out of
           Inl err \<Rightarrow> safeToRetry (hc_method call) err
         | Inr x \<Rightarrow> rs_status x = 429 \<or> hc_method call = ''GET'' \<and> rs_status x \<in> {500, 502, 503, 504})
     \<and> (\<forall>x. r = Inr x \<longrightarrow> outs \<noteq> [] \<and> last outs = Inr x \<and> rs_status x \<noteq> 420 \<and> rs_status x \<noteq> 429)
     \<and> (\<exists>ops. ec_bucket c' = snd (bucketRun ops (ec_bucket c))
          \<and> length outs \<le> fst (bucketRun ops (ec_bucket c)) \<and> refunds ops = 0)
     \<and> ec_cache c' = ec_cache c"
proof -
  obtain outs where o: "exchanged N call c outs c'" "length outs \<le> 3"
    "\<forall>out \<in> set (butlast outs). retriable (hc_method call) out"
    "\<forall>x. r = Inr x \<longrightarrow> outs \<noteq> [] \<and> last outs = Inr x \<and> rs_status x \<noteq> 420 \<and> rs_status x \<noteq> 429"
    using request_effect [OF assms] by auto
  show ?thesis using o(1,2,4) o(3) [unfolded retriable_def MethodGet_def]
    by (intro exI [of _ outs]) (auto simp: exchanged_def granted_def)
qed

subsection \<open>Whole calls\<close>

definition notModified :: "neterr + resp \<Rightarrow> bool" where
  "notModified out = (case out of Inl _ \<Rightarrow> False | Inr r \<Rightarrow> rs_status r = 304)"

definition renewed :: "esinet \<Rightarrow> nat \<Rightarrow> httpCall list \<Rightarrow> nat" where
  \<comment> \<open>the answers 304 among those to the requests sent since the first \<open>n\<close>\<close>
  "renewed N n sent = length (filter notModified (answersFrom N n sent))"

text \<open>
  \<open>worked N c c'\<close>: requests were sent, each for a token, and at most the answers 304 were
  refunded.
\<close>

definition worked :: "esinet \<Rightarrow> esi \<Rightarrow> esi \<Rightarrow> bool" where
  "worked N c c' \<longleftrightarrow> ec_now c \<le> ec_now c' \<and> (\<exists>new ops. ec_sent c' = ec_sent c @ new
     \<and> ec_bucket c' = snd (bucketRun ops (ec_bucket c)) \<and> length new \<le> granted ops (ec_bucket c)
     \<and> refunds ops \<le> renewed N (length (ec_sent c)) (ec_sent c')
     \<and> timesIn (ec_now c) (ec_now c') ops)"

lemma worked_refl:
  "ec_sent c' = ec_sent c \<Longrightarrow> ec_now c \<le> ec_now c' \<Longrightarrow> ec_bucket c' = ec_bucket c \<Longrightarrow> worked N c c'"
  by (auto simp: worked_def granted_def refunds_def timesIn_def intro!: exI [of _ "[]"])

lemma renewed_split:
  "renewed N (length s) (s @ xs @ ys) = renewed N (length s) (s @ xs) + renewed N (length s + length xs) (s @ xs @ ys)"
  by (simp add: renewed_def answersFrom_split)

lemma worked_trans:
  assumes "worked N c c1" "worked N c1 c2" shows "worked N c c2"
proof -
  obtain n1 ops1 where 1: "ec_sent c1 = ec_sent c @ n1" "ec_bucket c1 = snd (bucketRun ops1 (ec_bucket c))"
    "length n1 \<le> granted ops1 (ec_bucket c)" "refunds ops1 \<le> renewed N (length (ec_sent c)) (ec_sent c1)"
    "timesIn (ec_now c) (ec_now c1) ops1" "ec_now c \<le> ec_now c1"
    using assms(1) by (auto simp: worked_def)
  obtain n2 ops2 where 2: "ec_sent c2 = ec_sent c1 @ n2" "ec_bucket c2 = snd (bucketRun ops2 (ec_bucket c1))"
    "length n2 \<le> granted ops2 (ec_bucket c1)" "refunds ops2 \<le> renewed N (length (ec_sent c1)) (ec_sent c2)"
    "timesIn (ec_now c1) (ec_now c2) ops2" "ec_now c1 \<le> ec_now c2"
    using assms(2) by (auto simp: worked_def)
  have "timesIn (ec_now c) (ec_now c2) (ops1 @ ops2)" using 1(5) 2(5) 1(6) 2(6) by (rule timesIn_append)
  moreover have "refunds (ops1 @ ops2) \<le> renewed N (length (ec_sent c)) (ec_sent c2)"
    using 1(1,4) 2(1,4) renewed_split [of N "ec_sent c" n1 n2] by (simp add: refunds_append)
  ultimately show ?thesis using 1 2
    by (auto simp: worked_def bucketRun_append granted_def intro!: exI [of _ "n1 @ n2"] exI [of _ "ops1 @ ops2"])
qed

lemma exchanged_worked: "exchanged N call c outs c' \<Longrightarrow> worked N c c'"
  by (auto simp: exchanged_def worked_def)

text \<open>The refund of a 304 is paid for by the answer that ended the request.\<close>

lemma exchanged_refund:
  assumes "exchanged N call c outs c1" "outs \<noteq> []" "last outs = Inr r" "rs_status r = 304"
    and "ec_sent c2 = ec_sent c1" "ec_now c2 = ec_now c1" "ec_bucket c2 = refund (ec_bucket c1)"
  shows "worked N c c2"
proof -
  obtain ops where o: "ec_bucket c1 = snd (bucketRun ops (ec_bucket c))"
    "length outs \<le> granted ops (ec_bucket c)" "refunds ops = 0" "timesIn (ec_now c) (ec_now c1) ops"
    using assms(1) by (auto simp: exchanged_def)
  have "Inr r \<in> set outs" using assms(2,3) by (metis last_in_set)
  then have "filter notModified outs \<noteq> []" using assms(4) by (auto simp: notModified_def filter_empty_conv intro!: bexI [of _ "Inr r"])
  then have one: "1 \<le> length (filter notModified outs)" by (cases "filter notModified outs") auto
  have "timesIn (ec_now c) (ec_now c1) (ops @ [OpRefund])" using o(4) by (auto simp: timesIn_def)
  then show ?thesis using assms o one
    by (auto simp: worked_def exchanged_def renewed_def bucketRun_append granted_def refunds_append
        refunds_def intro!: exI [of _ "ops @ [OpRefund]"])
qed

text \<open>The ways a read can go: answered or refused without a request, or by one request.\<close>

lemma checkErrorBudget_keeps:
  "checkErrorBudget c = (r, c1) \<Longrightarrow> \<exists>b. c1 = c\<lparr>ec_budget := b\<rparr>"
  by (auto simp: checkErrorBudget_def Let_def case_prod_unfold)

definition getCall :: "string \<Rightarrow> object \<Rightarrow> (string \<times> string) list \<Rightarrow> cachedResponse option \<Rightarrow> httpCall" where
  "getCall path params h cached = \<lparr>hc_method = MethodGet, hc_path = path, hc_params = params,
     hc_headers = withETag cached h, hc_jsonBody = VNil\<rparr>"

lemma cachedGet_cases:
  assumes "cachedGet N path cid params ttl c0 = (res, c')"
  obtains (quiet) b cache where "c' = c0\<lparr>ec_budget := b, ec_cache := cache\<rparr>"
      "cache = ec_cache c0 \<or> (\<exists>key. cache = snd (rcGet key (ec_cache c0)))"
      "\<And>x. res = Inr x \<Longrightarrow> \<exists>key v. cacheKey N path cid params = Inr key
         \<and> fst (rcGet key (ec_cache c0)) = Some v \<and> er_Data x = crData N v \<and> er_FromCache x"
  | (asked) key cached cache b h r c2 where
      "cacheKey N path cid params = Inr key" "rcGet key (ec_cache c0) = (cached, cache)"
      "fst (checkErrorBudget c0) = None" "esiHeaders N cid = Inr h"
      "request N (getCall path params h cached) 0 (c0\<lparr>ec_cache := cache, ec_budget := b\<rparr>) = (r, c2)"
      "(\<exists>e. res = Inl e \<and> c' = c2) \<or> (\<exists>x body. r = Inr x \<and> readBody x = Inr body
         \<and> finishGet N x body key cached path ttl c2 = (res, c'))"
proof (cases "cacheKey N path cid params")
  case (Inl e)
  then show thesis using assms by (intro quiet [where b = "ec_budget c0" and cache = "ec_cache c0"]) (auto simp: cachedGet_def)
next
  case key: (Inr key)
  obtain cached cache where g: "rcGet key (ec_cache c0) = (cached, cache)" by fastforce
  let ?c = "c0\<lparr>ec_cache := cache\<rparr>"
  obtain v c1 where b0: "checkErrorBudget ?c = (v, c1)" by fastforce
  then obtain b where c1: "c1 = ?c\<lparr>ec_budget := b\<rparr>" using checkErrorBudget_keeps by blast
  have v: "v = fst (checkErrorBudget c0)" using b0 by (auto simp: checkErrorBudget_def Let_def case_prod_unfold)
  have cache: "cache = snd (rcGet key (ec_cache c0))" using g by simp
  let ?hit = "case cached of None \<Rightarrow> None | Some v \<Rightarrow> if Fresh (ec_now ?c) v then Some v else None"
  have unf: "cachedGet N path cid params ttl c0 = (case ?hit of
      Some v \<Rightarrow> (Inr (cachedResult N (ec_now ?c) v), ?c)
    | None \<Rightarrow> (case (v, c1) of
        (Some e, c1) \<Rightarrow> (Inl e, c1)
      | (None, c1) \<Rightarrow> (case esiHeaders N cid of
          Inl e \<Rightarrow> (Inl e, c1)
        | Inr h \<Rightarrow> (case request N (getCall path params h cached) 0 c1 of
            (Inl e, c2) \<Rightarrow> (Inl e, c2)
          | (Inr r, c2) \<Rightarrow> (case readBody r of
              Inl e \<Rightarrow> (Inl (Wrap (esiOp ''cachedGet'') e), c2)
            | Inr body \<Rightarrow> finishGet N r body key cached path ttl c2)))))"
    by (simp only: cachedGet_def key g Let_def b0 getCall_def sum.case prod.case)
  show thesis
  proof (cases ?hit)
    case (Some w)
    have "res = Inr (cachedResult N (ec_now c0) w)" "c' = ?c"
      using assms unfolding unf Some by auto
    moreover have "cached = Some w" using Some by (auto split: option.splits if_splits)
    then have "fst (rcGet key (ec_cache c0)) = Some w" using g by simp
    moreover have "er_Data (cachedResult N (ec_now c0) w) = crData N w \<and> er_FromCache (cachedResult N (ec_now c0) w)"
      by (simp add: cachedResult_def)
    ultimately show thesis using cache key
      by (intro quiet [where b = "ec_budget c0" and cache = cache]) (simp, blast, blast)
  next
    case None
    note unf = unf [unfolded None option.case]
    consider (refused) e where "v = Some e" | (noauth) e where "v = None" "esiHeaders N cid = Inl e"
      | (ok) h where "v = None" "esiHeaders N cid = Inr h"
      by (cases v; cases "esiHeaders N cid") auto
    then show thesis
    proof cases
      case refused
      then have "(res, c') = (Inl e, c1)" using assms unfolding unf by simp
      then show thesis using cache c1 by (intro quiet [where b = b and cache = cache]) auto
    next
      case noauth
      then have "(res, c') = (Inl e, c1)" using assms unfolding unf by simp
      then show thesis using cache c1 by (intro quiet [where b = b and cache = cache]) auto
    next
      case ok
      obtain r c2 where rq: "request N (getCall path params h cached) 0 c1 = (r, c2)" by fastforce
      have "(\<exists>e. res = Inl e \<and> c' = c2) \<or> (\<exists>x body. r = Inr x \<and> readBody x = Inr body
         \<and> finishGet N x body key cached path ttl c2 = (res, c'))"
        using assms unfolding unf by (auto simp: ok rq split: sum.splits)
      then show thesis using key g v ok rq c1
        by (intro asked [where key = key and cached = cached and cache = cache and h = h and b = b
              and r = r]) simp_all
    qed
  qed
qed

text \<open>A read changes the cache by storing the answer or by renewing the entry.\<close>

definition stored :: "esinet \<Rightarrow> time \<Rightarrow> string \<Rightarrow> resp \<Rightarrow> string \<Rightarrow> responseCache \<Rightarrow> responseCache \<Rightarrow> bool" where
  "stored N now key x body cache cache' \<longleftrightarrow> rs_status x < 400 \<and> (\<exists>raw etag expires pages.
     marshal (nt_fmt N) (decode N (rs_status x) body) = Some raw
   \<and> cache' = rcPut now key \<lparr>cr_Body = raw, cr_ETag = etag, cr_ExpiresAt = expires,
                cr_StoredAt = 0, cr_Pages = pages\<rparr> cache)"

definition touched :: "time \<Rightarrow> string \<Rightarrow> responseCache \<Rightarrow> responseCache \<Rightarrow> bool" where
  "touched now key cache cache' \<longleftrightarrow> (\<exists>expires. cache' = rcTouch now key expires cache)"

lemma touched_rcTouch [simp]: "touched now key cache (rcTouch now key expires cache)"
  by (auto simp: touched_def)

lemma stored_rcPut: "rs_status x < 400 \<Longrightarrow> marshal (nt_fmt N) (decode N (rs_status x) body) = Some raw
    \<Longrightarrow> stored N now key x body cache (rcPut now key \<lparr>cr_Body = raw, cr_ETag = etag,
          cr_ExpiresAt = expires, cr_StoredAt = 0, cr_Pages = pages\<rparr> cache)"
  by (auto simp: stored_def)

lemma finishGet_effect:
  assumes "finishGet N x body key cached path ttl c = (res, c')"
  shows "ec_sent c' = ec_sent c" "ec_now c' = ec_now c" "ec_remain c' = ec_remain c"
    "ec_bucket c' = (if rs_status x = 304 \<and> cached \<noteq> None then refund (ec_bucket c) else ec_bucket c)"
    "ec_cache c' = ec_cache c \<or> touched (ec_now c) key (ec_cache c) (ec_cache c')
     \<or> stored N (ec_now c) key x body (ec_cache c) (ec_cache c')"
  using assms by (auto simp: finishGet_def Let_def stored_rcPut split: option.splits if_splits)

lemma cachedGet_worked:
  assumes "cachedGet N path cid params ttl c = (res, c')" shows "worked N c c'"
  using assms
proof (cases rule: cachedGet_cases)
  case (quiet b cache)
  then show ?thesis by (intro worked_refl) auto
next
  case (asked key cached cache b h r c2)
  let ?c1 = "c\<lparr>ec_cache := cache, ec_budget := b\<rparr>"
  have w1: "worked N c ?c1" by (rule worked_refl) auto
  from request_effect [OF asked(5)] obtain outs where outs: "exchanged N (getCall path params h cached) ?c1 outs c2"
    "\<And>x. r = Inr x \<Longrightarrow> outs \<noteq> [] \<and> last outs = Inr x" by auto
  from asked(6) show ?thesis
  proof (elim disjE exE conjE)
    fix e assume "c' = c2"
    then show ?thesis using worked_trans [OF w1 exchanged_worked [OF outs(1)]] by simp
  next
    fix x body assume x: "r = Inr x" "finishGet N x body key cached path ttl c2 = (res, c')"
    note fin = finishGet_effect [OF x(2)]
    show ?thesis
    proof (cases "rs_status x = 304 \<and> cached \<noteq> None")
      case True
      then have "worked N ?c1 c'" using exchanged_refund [OF outs(1), of x c'] outs(2) [OF x(1)] fin by simp
      then show ?thesis by (rule worked_trans [OF w1])
    next
      case False
      then have "worked N c2 c'" using fin by (intro worked_refl) auto
      then show ?thesis using worked_trans [OF w1 worked_trans [OF exchanged_worked [OF outs(1)]]] by blast
    qed
  qed
qed

lemma esiWrite_cases:
  assumes "esiWrite N meth path cid params jsonBody c0 = (res, c')"
  obtains (quiet) b e where "c' = c0\<lparr>ec_budget := b\<rparr>" "res = Inl e"
  | (asked) b h r where "fst (checkErrorBudget c0) = None"
      "request N \<lparr>hc_method = meth, hc_path = path, hc_params = params, hc_headers = h,
          hc_jsonBody = jsonBody\<rparr> 0 (c0\<lparr>ec_budget := b\<rparr>) = (r, c')"
      "\<And>v. res = Inr v \<Longrightarrow> \<exists>x body. r = Inr x \<and> rs_status x < 400 \<and> readBody x = Inr body
         \<and> v = decode N (rs_status x) body"
proof -
  obtain v c1 where b0: "checkErrorBudget c0 = (v, c1)" by fastforce
  then obtain b where c1: "c1 = c0\<lparr>ec_budget := b\<rparr>" using checkErrorBudget_keeps by blast
  show thesis
  proof (cases "v = None \<and> \<not> isl (esiHeaders N cid)")
    case False
    then show thesis using assms b0 c1 quiet
      by (auto simp: esiWrite_def split: option.splits sum.splits)
  next
    case True
    then obtain h0 where h: "esiHeaders N cid = Inr h0" by (cases "esiHeaders N cid") auto
    define h1 where "h1 = (if jsonBody \<noteq> VNil then h0 @ [(''Content-Type'', ''application/json'')] else h0)"
    obtain r c2 where rq: "request N \<lparr>hc_method = meth, hc_path = path, hc_params = params,
        hc_headers = h1, hc_jsonBody = jsonBody\<rparr> 0 c1 = (r, c2)" by fastforce
    have "esiWrite N meth path cid params jsonBody c0 = (case r of Inl e \<Rightarrow> (Inl e, c2)
          | Inr r \<Rightarrow> (case readBody r of
              Inl e \<Rightarrow> (Inl (Wrap (esiOp ''write'') e), c2)
            | Inr body \<Rightarrow>
                if 400 \<le> rs_status r then (Inl (httpError N (rs_status r) body path), c2)
                else (Inr (decode N (rs_status r) body), c2)))"
      using True b0 h rq by (simp add: esiWrite_def h1_def Let_def split: sum.splits)
    then show thesis using assms rq c1 b0 True
      by (intro asked [where h = h1 and b = b and r = r]) (auto split: sum.splits if_splits)
  qed
qed

lemma esiWrite_worked:
  assumes "esiWrite N meth path cid params jsonBody c = (res, c')" shows "worked N c c'"
  using assms
proof (cases rule: esiWrite_cases)
  case (quiet b e)
  then show ?thesis by (intro worked_refl) auto
next
  case (asked b h r)
  have "worked N c (c\<lparr>ec_budget := b\<rparr>)" by (rule worked_refl) auto
  then show ?thesis using request_effect [OF asked(2)] exchanged_worked worked_trans by blast
qed

subsection \<open>Several users over one cache\<close>

datatype callOp =
    CGet string "int option" object "rat option"
  | CWrite string string "int option" object any
  | CWait duration

fun clientStep :: "esinet \<Rightarrow> callOp \<Rightarrow> esi \<Rightarrow> esi" where
  "clientStep N (CGet path cid params ttl) c = snd (cachedGet N path cid params ttl c)"
| "clientStep N (CWrite meth path cid params body) c = snd (esiWrite N meth path cid params body c)"
| "clientStep N (CWait d) c = sleepFor d c"

text \<open>The clients of all users: each its own allowance and budgets, one cache (\<open>ForUser\<close>).\<close>

record pool =
  pl_cache :: responseCache
  pl_user :: "nat \<Rightarrow> esi"

definition newPool :: "time \<Rightarrow> pool" where
  "newPool now = \<lparr>pl_cache = newResponseCache, pl_user = (\<lambda>u. ForUser now newResponseCache)\<rparr>"

definition poolStep :: "(nat \<Rightarrow> esinet) \<Rightarrow> nat \<times> callOp \<Rightarrow> pool \<Rightarrow> pool" where
  "poolStep nets uop p = (let (u, op) = uop;
      c = clientStep (nets u) op ((pl_user p u)\<lparr>ec_cache := pl_cache p\<rparr>)
    in \<lparr>pl_cache = ec_cache c, pl_user = (pl_user p)(u := c)\<rparr>)"

fun poolRun :: "(nat \<Rightarrow> esinet) \<Rightarrow> (nat \<times> callOp) list \<Rightarrow> pool \<Rightarrow> pool" where
  "poolRun nets [] p = p"
| "poolRun nets (uop # ops) p = poolRun nets ops (poolStep nets uop p)"

lemma clientStep_worked: "worked N c (clientStep N op c)"
proof (cases op)
  case (CGet path cid params ttl)
  then show ?thesis using cachedGet_worked [OF surjective_pairing] by simp
next
  case (CWrite meth path cid params body)
  then show ?thesis using esiWrite_worked [OF surjective_pairing] by simp
next
  case (CWait d)
  then show ?thesis by (auto simp: sleepFor_def intro: worked_refl)
qed

lemma worked_any_cache [simp]: "worked N (c\<lparr>ec_cache := cache\<rparr>) c' = worked N c c'"
  by (simp add: worked_def)

lemma poolStep_worked: "worked (nets u) (pl_user p u) (pl_user (poolStep nets uop p) u)"
  using clientStep_worked [of "nets u" "(pl_user p u)\<lparr>ec_cache := pl_cache p\<rparr>" "snd uop"]
  by (auto simp: poolStep_def Let_def case_prod_unfold intro: worked_refl)

lemma poolRun_worked: "worked (nets u) (pl_user p u) (pl_user (poolRun nets ops p) u)"
proof (induction ops arbitrary: p)
  case Nil
  then show ?case by (simp add: worked_refl)
next
  case (Cons uop ops)
  show ?case using worked_trans [OF poolStep_worked [of nets u p uop] Cons.IH [of "poolStep nets uop p"]]
    by simp
qed

text \<open>C11. Whatever several users do over the shared cache, the number of requests of one user
  that reach CCP between \<open>S\<close> and \<open>T\<close> is at most 400 plus 2 per second, not counting the
  answers 304, whose tokens come back; retries are counted.\<close>
theorem user_request_rate_is_bounded:
  assumes "0 < S" "p = poolRun nets ops (newPool S)" "c = pl_user p u"
  shows "of_nat (length (ec_sent c))
    \<le> 400 + 2 * seconds (ec_now c - S) + of_nat (renewed (nets u) 0 (ec_sent c))"
proof -
  let ?c0 = "ForUser S newResponseCache"
  have "worked (nets u) ?c0 c" using poolRun_worked [of nets u "newPool S" ops] assms
    by (simp add: newPool_def)
  then obtain bops where b: "length (ec_sent c) \<le> granted bops newUserBucket"
    "refunds bops \<le> renewed (nets u) 0 (ec_sent c)" "timesIn S (ec_now c) bops" "S \<le> ec_now c"
    by (auto simp: worked_def ForUser_def)
  have "of_nat (granted bops newUserBucket) \<le> credit S (ec_now c) newUserBucket + of_nat (refunds bops)"
    unfolding granted_def using b assms(1)
    by (intro bucketRun_credit) (auto simp: lastFrom_def newUserBucket_def timesIn_def
        bucketOK_new [unfolded newUserBucket_def])
  also have "\<dots> \<le> 400 + 2 * seconds (ec_now c - S) + of_nat (renewed (nets u) 0 (ec_sent c))"
    using b(2) by (simp add: credit_def lastFrom_def newUserBucket_def UserBucketCapacity_def UserBucketRefill_def)
  finally show ?thesis using b(1) by (meson of_nat_mono order_trans)
qed

subsection \<open>A low remainder\<close>

lemma low_remain_check: "ec_remain c \<le> 4 \<Longrightarrow> fst (checkErrorBudget c) \<noteq> None"
  using low_remain_refused [of "ec_remain c" "ec_now c" "ec_budget c"]
  by (simp add: checkErrorBudget_def Let_def case_prod_unfold)

lemma clientStep_locked:
  assumes "ec_remain c \<le> 4"
  shows "ec_sent (clientStep N op c) = ec_sent c \<and> ec_remain (clientStep N op c) = ec_remain c"
proof (cases op)
  case (CGet path cid params ttl)
  obtain res c' where g: "cachedGet N path cid params ttl c = (res, c')" by fastforce
  then have "ec_sent c' = ec_sent c \<and> ec_remain c' = ec_remain c" using low_remain_check [OF assms]
    by (cases rule: cachedGet_cases) auto
  then show ?thesis using CGet g by simp
next
  case (CWrite meth path cid params body)
  obtain res c' where g: "esiWrite N meth path cid params body c = (res, c')" by fastforce
  then have "ec_sent c' = ec_sent c \<and> ec_remain c' = ec_remain c" using low_remain_check [OF assms]
    by (cases rule: esiWrite_cases) auto
  then show ?thesis using CWrite g by simp
qed (simp add: sleepFor_def)

lemma poolStep_locked: "ec_remain (pl_user p u) \<le> 4
    \<Longrightarrow> ec_sent (pl_user (poolStep nets uop p) u) = ec_sent (pl_user p u)
      \<and> ec_remain (pl_user (poolStep nets uop p) u) = ec_remain (pl_user p u)"
  using clientStep_locked [of "(pl_user p u)\<lparr>ec_cache := pl_cache p\<rparr>"]
  by (auto simp: poolStep_def Let_def case_prod_unfold)


text \<open>A network that answers every request with status 200 and a remainder of four.\<close>

definition lowAnswer :: resp where
  "lowAnswer = \<lparr>rs_status = 200, rs_headers = [(''X-Esi-Error-Limit-Remain'', ''4''),
     (''X-Esi-Error-Limit-Reset'', ''60'')], rs_body = Inr ''[]''\<rparr>"

definition answerNet :: "resp \<Rightarrow> esinet" where
  "answerNet r = \<lparr>nt_send = (\<lambda>sent. (second, Inr r)), nt_rand = (\<lambda>sent. None), nt_newRequest = (\<lambda>c. None),
     nt_unmarshal = (\<lambda>s. if s = ''[]'' then Some (VSlice []) else None), nt_parseTime = (\<lambda>s. None),
     nt_parseFloat = (\<lambda>s. None), nt_trimSpace = (\<lambda>s. s),
     nt_fmt = \<lparr>fm_float = (\<lambda>q. None), fm_v = (\<lambda>v. []), fm_q = (\<lambda>s. s)\<rparr>,
     nt_rfc3339 = (\<lambda>t. []), nt_auth = Some (\<lambda>cid. Inr ''tok''), nt_UserAgent = ''ua'',
     nt_CompatDate = ''2025-01-01''\<rparr>"

definition markMail :: "nat \<times> callOp" where
  "markMail = (0, CWrite ''PUT'' ''/characters/7/mail/1'' (Some 7) [] (VBool True))"

lemma sample_low:
  "length (ec_sent (pl_user (poolRun (\<lambda>u. answerNet lowAnswer) [markMail] (newPool second)) 0)) = 1
   \<and> ec_remain (pl_user (poolRun (\<lambda>u. answerNet lowAnswer) [markMail] (newPool second)) 0) = 4"
  by (simp add: poolStep_def markMail_def newPool_def ForUser_def esiWrite_def checkErrorBudget_def
      checkBudget_def pruneLocked_def errorBudgetLimit_def errorBudgetCap_def errorBudgetShare_def
      errorLimitBudget_def esiHeaders_def answerNet_def request.simps attemptOnce_def awaitErrorBudget_def
      errorFloor_def takeToken_def refillLocked_def newUserBucket_def UserBucketCapacity_def Let_def
      requestBody_def transport_def afterSend_def lowAnswer_def noteErrorHeaders_def intHeader_def
      headerGet_def parseInt64_def isDigitChar_def digitsVal_def throttleOrLimit_def statusErrorLimited_def
      serverRetry_def readBody_def MethodGet_def decode_def maxResponseBody_def)


lemma user_request_rate_is_bounded_witness:
  "of_nat (length (ec_sent (pl_user (poolRun (\<lambda>u. answerNet lowAnswer) [markMail, markMail] (newPool second)) 0)))
    \<le> 400 + 2 * seconds (ec_now (pl_user (poolRun (\<lambda>u. answerNet lowAnswer) [markMail, markMail] (newPool second)) 0) - second)
      + (of_nat (renewed (answerNet lowAnswer) 0
           (ec_sent (pl_user (poolRun (\<lambda>u. answerNet lowAnswer) [markMail, markMail] (newPool second)) 0))) :: rat)"
  using user_request_rate_is_bounded [OF _ refl refl, of second "\<lambda>u. answerNet lowAnswer" "[markMail, markMail]" 0]
  by simp

text \<open>A network on which every connection fails before it is made.\<close>

definition downNet :: esinet where
  "downNet = (answerNet lowAnswer)\<lparr>nt_send := (\<lambda>sent. (second, Inl \<lparr>ne_op = True, ne_text = ''refused''\<rparr>))\<rparr>"

definition sampleCall :: httpCall where
  "sampleCall = \<lparr>hc_method = ''GET'', hc_path = ''/status'', hc_params = [], hc_headers = [], hc_jsonBody = VNil\<rparr>"

lemma request_is_sent_at_most_three_times_witness:
  "length (ec_sent (snd (request downNet sampleCall 0 (ForUser second newResponseCache)))) \<le> 3
   \<and> ec_cache (snd (request downNet sampleCall 0 (ForUser second newResponseCache))) = newResponseCache"
  using request_is_sent_at_most_three_times
    [of downNet sampleCall "ForUser second newResponseCache", OF surjective_pairing]
  by (auto simp: ForUser_def)

subsection \<open>Where a cached answer comes from\<close>

text \<open>
  \<open>fetched N sent key raw\<close>: among the requests \<open>sent\<close> over \<open>N\<close> is a GET with cache key \<open>key\<close>,
  carrying the headers of its character, that was answered with a status below 400 and a body
  whose decoded value is stored as \<open>raw\<close>.
\<close>

definition fetched :: "esinet \<Rightarrow> httpCall list \<Rightarrow> string \<Rightarrow> string \<Rightarrow> bool" where
  "fetched N sent key raw \<longleftrightarrow> (\<exists>i path cid params h cached x body.
     i < length sent \<and> sent ! i = getCall path params h cached
   \<and> esiHeaders N cid = Inr h \<and> cacheKey N path cid params = Inr key
   \<and> snd (nt_send N (take (Suc i) sent)) = Inr x \<and> rs_status x < 400 \<and> readBody x = Inr body
   \<and> marshal (nt_fmt N) (decode N (rs_status x) body) = Some raw)"

lemma fetched_mono: assumes "fetched N sent key raw" shows "fetched N (sent @ rest) key raw"
proof -
  obtain i path cid params h cached x body where f: "i < length sent" "sent ! i = getCall path params h cached"
    "esiHeaders N cid = Inr h" "cacheKey N path cid params = Inr key"
    "snd (nt_send N (take (Suc i) sent)) = Inr x" "rs_status x < 400" "readBody x = Inr body"
    "marshal (nt_fmt N) (decode N (rs_status x) body) = Some raw"
    using assms unfolding fetched_def by blast
  have "take (Suc i) (sent @ rest) = take (Suc i) sent" "(sent @ rest) ! i = sent ! i"
    using f(1) by (simp_all add: nth_append)
  then show ?thesis unfolding fetched_def using f
    by (intro exI [of _ i] exI [of _ path] exI [of _ cid] exI [of _ params] exI [of _ h]
        exI [of _ cached] exI [of _ x] exI [of _ body]) simp
qed

text \<open>A sound cache whose bodies all satisfy \<open>P\<close> of their key.\<close>

definition cacheIs :: "(string \<Rightarrow> string \<Rightarrow> bool) \<Rightarrow> responseCache \<Rightarrow> bool" where
  "cacheIs P cache \<longleftrightarrow> rcInv cache \<and> (\<forall>k c. rcLook cache k = Some c \<longrightarrow> P k (fst c))"

lemma cacheIs_use: "cacheIs P cache \<Longrightarrow> cacheIs P (rcUseOp k u cache)"
  by (simp add: cacheIs_def rcUse_inv rcUse_look)

lemma cacheIs_get: "cacheIs P cache \<Longrightarrow> cacheIs P (snd (rcGet k cache))"
  using cacheIs_use [of P cache k UGet] by (simp add: rcUseOp_def)

lemma cacheIs_touched: "cacheIs P cache \<Longrightarrow> touched now k cache cache' \<Longrightarrow> cacheIs P cache'"
proof -
  assume c: "cacheIs P cache" and "touched now k cache cache'"
  then obtain expires where "cache' = rcUseOp k (UTouch now expires) cache"
    by (auto simp: touched_def rcUseOp_def)
  then show ?thesis using cacheIs_use [OF c] by simp
qed

lemma cacheIs_put: "cacheIs P cache \<Longrightarrow> P k (cr_Body v) \<Longrightarrow> cacheIs P (rcPut now k v cache)"
proof -
  assume c: "cacheIs P cache" and P: "P k (cr_Body v)"
  have inv: "rcInv cache" using c by (simp add: cacheIs_def)
  have "P k' (fst w)" if "rcLook (rcPut now k v cache) k' = Some w" for k' w
    using rc.put_look_le [OF inv, of k "(now, v)" k' w] that c P
    by (cases w) (auto simp: cacheIs_def rcPutOp_def content_def split: if_splits)
  then show ?thesis using rc.put_inv [OF inv, of k "(now, v)"] by (simp add: cacheIs_def rcPutOp_def)
qed

lemma cacheIs_mono: "cacheIs P cache \<Longrightarrow> (\<And>k raw. P k raw \<Longrightarrow> Q k raw) \<Longrightarrow> cacheIs Q cache"
  by (simp add: cacheIs_def)

lemma cacheIs_hit: "cacheIs P cache \<Longrightarrow> fst (rcGet k cache) = Some v \<Longrightarrow> P k (cr_Body v)"
  by (auto simp: cacheIs_def rcLook_def rcGet_def content_def split: option.splits)

lemma cachedGet_cacheIs:
  assumes "cachedGet N path cid params ttl c = (res, c')" "cacheIs P (ec_cache c)"
    and "\<And>key raw. fetched N (ec_sent c') key raw \<Longrightarrow> P key raw"
  shows "cacheIs P (ec_cache c')"
  using assms(1)
proof (cases rule: cachedGet_cases)
  case (quiet b cache)
  then show ?thesis using assms(2) by (auto intro: cacheIs_get)
next
  case (asked key cached cache b h r c2)
  let ?call = "getCall path params h cached"
  let ?c1 = "c\<lparr>ec_cache := cache, ec_budget := b\<rparr>"
  from request_effect [OF asked(5)] obtain outs where outs: "exchanged N ?call ?c1 outs c2"
    "\<And>x. r = Inr x \<Longrightarrow> outs \<noteq> [] \<and> last outs = Inr x" by auto
  have cache2: "cacheIs P (ec_cache c2)"
    using assms(2) asked(2) outs(1) cacheIs_get [of P "ec_cache c" key] by (simp add: exchanged_def)
  from asked(6) show ?thesis
  proof (elim disjE exE conjE)
    fix e assume "c' = c2"
    then show ?thesis using cache2 by simp
  next
    fix x body assume x: "r = Inr x" "readBody x = Inr body" "finishGet N x body key cached path ttl c2 = (res, c')"
    note fin = finishGet_effect [OF x(3)]
    have sent: "ec_sent c2 = ec_sent c @ replicate (length outs) ?call" "outs \<noteq> []" "last outs = Inr x"
      using outs x(1) by (simp_all add: exchanged_def)
    have ans: "answersFrom N (length (ec_sent c)) (ec_sent c2) = outs" using exchangedD(2) [OF outs(1)] by simp
    define i where "i = length (ec_sent c) + (length outs - 1)"
    have i: "i < length (ec_sent c2)" "ec_sent c2 ! i = ?call" "Suc i = length (ec_sent c2)"
      using sent by (auto simp: i_def nth_append)
    have last_nth: "outs ! (length outs - 1) = Inr x" using sent(2,3) by (simp add: last_conv_nth)
    have "answersFrom N (length (ec_sent c)) (ec_sent c2) ! (length outs - 1) = snd (nt_send N (take (Suc i) (ec_sent c2)))"
      using sent(1,2) unfolding answersFrom_def i_def by (subst nth_map) auto
    then have last: "snd (nt_send N (take (Suc i) (ec_sent c2))) = Inr x" using last_nth ans by simp
    from fin(5) show ?thesis
    proof (elim disjE)
      assume "stored N (ec_now c2) key x body (ec_cache c2) (ec_cache c')"
      then obtain raw etag expires pages where st: "rs_status x < 400"
        "marshal (nt_fmt N) (decode N (rs_status x) body) = Some raw"
        "ec_cache c' = rcPut (ec_now c2) key \<lparr>cr_Body = raw, cr_ETag = etag,
              cr_ExpiresAt = expires, cr_StoredAt = 0, cr_Pages = pages\<rparr> (ec_cache c2)"
        by (auto simp: stored_def)
      have "fetched N (ec_sent c2) key raw"
        unfolding fetched_def using i(1,2) asked(1,4) last st x(2) by blast
      then have "P key raw" using assms(3) fin(1) by simp
      then show ?thesis using cacheIs_put [OF cache2] st(3) by simp
    qed (use cache2 cacheIs_touched in \<open>auto\<close>)
  qed
qed

text \<open>The users' requests together.\<close>

definition poolFetched :: "(nat \<Rightarrow> esinet) \<Rightarrow> pool \<Rightarrow> string \<Rightarrow> string \<Rightarrow> bool" where
  "poolFetched nets p key raw \<longleftrightarrow> (\<exists>u. fetched (nets u) (ec_sent (pl_user p u)) key raw)"

lemma clientStep_cacheIs:
  assumes "cacheIs P (ec_cache c)" "\<And>key raw. fetched N (ec_sent (clientStep N op c)) key raw \<Longrightarrow> P key raw"
  shows "cacheIs P (ec_cache (clientStep N op c))"
proof (cases op)
  case (CGet path cid params ttl)
  then show ?thesis
    using cachedGet_cacheIs [OF surjective_pairing assms(1), of N path cid params ttl] assms(2) by simp
next
  case (CWrite meth path cid params body)
  obtain res c' where g: "esiWrite N meth path cid params body c = (res, c')" by fastforce
  then have "ec_cache c' = ec_cache c"
  proof (cases rule: esiWrite_cases)
    case (asked b h r)
    then show ?thesis using request_effect [OF asked(2)] by (auto simp: exchanged_def)
  qed simp
  then show ?thesis using CWrite g assms(1) by simp
next
  case (CWait d)
  then show ?thesis using assms(1) by (simp add: sleepFor_def)
qed

lemma poolStep_cacheIs:
  assumes "cacheIs (poolFetched nets p) (pl_cache p)"
  shows "cacheIs (poolFetched nets (poolStep nets (u, op) p)) (pl_cache (poolStep nets (u, op) p))"
proof -
  let ?c = "(pl_user p u)\<lparr>ec_cache := pl_cache p\<rparr>"
  let ?c' = "clientStep (nets u) op ?c"
  let ?p' = "poolStep nets (u, op) p"
  have p': "?p' = \<lparr>pl_cache = ec_cache ?c', pl_user = (pl_user p)(u := ?c')\<rparr>"
    by (simp add: poolStep_def Let_def)
  have grow: "\<exists>rest. ec_sent ?c' = ec_sent (pl_user p u) @ rest"
    using clientStep_worked [of "nets u" ?c op] by (auto simp: worked_def)
  have "cacheIs (poolFetched nets ?p') (ec_cache ?c')"
  proof (rule clientStep_cacheIs)
    show "cacheIs (poolFetched nets ?p') (ec_cache ?c)"
    proof (rule cacheIs_mono)
      fix k raw assume "poolFetched nets p k raw"
      then obtain v where v: "fetched (nets v) (ec_sent (pl_user p v)) k raw" by (auto simp: poolFetched_def)
      then have "fetched (nets v) (ec_sent (pl_user ?p' v)) k raw"
        using grow fetched_mono by (cases "v = u") (auto simp: p')
      then show "poolFetched nets ?p' k raw" by (auto simp: poolFetched_def)
    qed (use assms in simp)
    fix key raw assume "fetched (nets u) (ec_sent ?c') key raw"
    then show "poolFetched nets ?p' key raw" by (auto simp: poolFetched_def p' intro!: exI [of _ u])
  qed
  then show ?thesis by (simp add: p')
qed

lemma poolRun_cacheIs:
  "cacheIs (poolFetched nets p) (pl_cache p)
    \<Longrightarrow> cacheIs (poolFetched nets (poolRun nets ops p)) (pl_cache (poolRun nets ops p))"
proof (induction ops arbitrary: p)
  case (Cons uop ops)
  then show ?case using poolStep_cacheIs [of nets p "fst uop" "snd uop"] by simp
qed simp

lemma newPool_cacheIs [simp]: "cacheIs P (pl_cache (newPool now))"
  by (simp add: newPool_def cacheIs_def newResponseCache_def rcLook_def
      rcInv_new [unfolded newResponseCache_def])

subsection \<open>Cache keys keep characters apart\<close>

lemma itoa_no_comma: "CHR '','' \<notin> set (itoa n)"
proof -
  have "CHR '','' \<notin> set (showNat k)" for k
    using showNat_facts [of k] by (auto simp: list_all_iff isDigitChar_def)
  then show ?thesis by (auto simp: itoa_def)
qed

definition cidText :: "int option \<Rightarrow> string" where
  "cidText cid = (case cid of None \<Rightarrow> ''null'' | Some n \<Rightarrow> itoa n)"

lemma cidText_no_comma: "CHR '','' \<notin> set (cidText cid)"
  using itoa_no_comma by (auto simp: cidText_def split: option.split)

lemma cidText_inj: assumes "cidText a = cidText b" shows "a = b"
proof -
  have "itoa n \<noteq> ''null''" for n
  proof
    assume n: "itoa n = ''null''"
    have "list_all isDigitChar (showNat (nat n))" "hd (itoa n) = CHR ''n''" using showNat_facts n by simp_all
    then show False using showNat_facts [of "nat n"] n
      by (cases "showNat (nat n)") (auto simp: itoa_def isDigitChar_def split: if_splits)
  qed
  then show ?thesis using assms itoa_inj
    by (cases a; cases b) (auto simp: cidText_def dest: sym)
qed

lemma upto_unique: "xs @ x # r1 = ys @ x # r2 \<Longrightarrow> x \<notin> set xs \<Longrightarrow> x \<notin> set ys \<Longrightarrow> xs = ys"
  by (induction xs arbitrary: ys) (metis append_Nil hd_append2 list.sel(1) list.set_sel(1) self_append_conv2,
    metis append_Cons append_Nil list.inject list.set_intros(1) list.set_intros(2) neq_Nil_conv)

lemma canonicalKey_shape:
  assumes "canonicalKey N path cid params = Some raw"
  obtains rest where "raw = ''{'' @ jsonString ''c'' @ '':'' @ cidText cid @ CHR '','' # rest"
proof -
  have sorted: "sort_key fst [(''p'', a), (''c'', b), (''q'', c), (''d'', d)]
      = [(''c'', b), (''d'', d), (''p'', a), (''q'', c)]" for a b c d :: "string option"
    by (simp add: sort_key_def)
  have c: "marshal F (case cid of None \<Rightarrow> VNil | Some n \<Rightarrow> VInt n) = Some (cidText cid)" for F
    by (auto simp: cidText_def split: option.split)
  show thesis
    using assms that
    by (auto simp: canonicalKey_def jsonObject_def sorted c joinStr_def simp del: sort_key_simps
        split: option.splits)
qed

text \<open>Equal canonical keys are keys of the same character, or of no character.\<close>

lemma canonicalKey_character:
  assumes "canonicalKey N path cid params = Some raw" "canonicalKey N' path' cid' params' = Some raw"
  shows "cid = cid'"
proof -
  obtain r1 where 1: "raw = ''{'' @ jsonString ''c'' @ '':'' @ cidText cid @ CHR '','' # r1"
    using canonicalKey_shape [OF assms(1)] .
  obtain r2 where 2: "raw = ''{'' @ jsonString ''c'' @ '':'' @ cidText cid' @ CHR '','' # r2"
    using canonicalKey_shape [OF assms(2)] .
  have "cidText cid @ CHR '','' # r1 = cidText cid' @ CHR '','' # r2" using 1 2 by simp
  then have "cidText cid = cidText cid'" by (rule upto_unique) (rule cidText_no_comma)+
  then show ?thesis by (rule cidText_inj)
qed

lemma finishGet_fromCache:
  "finishGet N x body key cached path ttl c = (Inr res, c') \<Longrightarrow> er_FromCache res
    \<Longrightarrow> \<exists>v. cached = Some v \<and> er_Data res = crData N v"
  by (auto simp: finishGet_def Let_def cachedResult_def split: option.splits if_splits)

lemma cachedGet_fromCache:
  assumes "cachedGet N path cid params ttl c = (Inr x, c')" "er_FromCache x"
  shows "\<exists>key v. cacheKey N path cid params = Inr key
    \<and> fst (rcGet key (ec_cache c)) = Some v \<and> er_Data x = crData N v"
  using assms(1)
proof (cases rule: cachedGet_cases)
  case (quiet b cache)
  then show ?thesis by blast
next
  case (asked key cached cache b h r c2)
  then obtain r body where "finishGet N r body key cached path ttl c2 = (Inr x, c')" by auto
  from finishGet_fromCache [OF this assms(2)] obtain v where "cached = Some v" "er_Data x = crData N v"
    by blast
  then show ?thesis using asked(1,2) by (intro exI [of _ key] exI [of _ v]) simp
qed

lemma cacheKey_canonical:
  "cacheKey N path cid params = Inr key \<Longrightarrow> \<exists>raw. canonicalKey N path cid params = Some raw"
  by (auto simp: cacheKey_def split: option.splits)

text \<open>
  No request of the pool with the cache key of another has another canonical key: the
  collision resistance of SHA-256, on the requests that were sent.
\<close>

definition noCollision :: "(nat \<Rightarrow> esinet) \<Rightarrow> pool \<Rightarrow> string \<Rightarrow> string \<Rightarrow> bool" where
  "noCollision nets p key raw \<longleftrightarrow> (\<forall>u i path cid params h cached raw'.
     i < length (ec_sent (pl_user p u)) \<and> ec_sent (pl_user p u) ! i = getCall path params h cached
     \<and> esiHeaders (nets u) cid = Inr h \<and> cacheKey (nets u) path cid params = Inr key
     \<and> canonicalKey (nets u) path cid params = Some raw' \<longrightarrow> raw' = raw)"

text \<open>C5. An answer out of the shared cache is a real one and belongs to the same character:
  whatever the users did before, if a read is answered from the cache, then some user sent a GET
  with the same cache key and the headers of the same character, CCP answered it with a status
  below 400, and the data are that answer's decoded body as it was stored.\<close>
theorem cached_answer_was_fetched_for_the_character:
  assumes "p = poolRun nets ops (newPool S)"
    and "cachedGet (nets u) path cid params ttl ((pl_user p u)\<lparr>ec_cache := pl_cache p\<rparr>) = (Inr x, c')"
    and "er_FromCache x"
    and "cacheKey (nets u) path cid params = Inr key" "canonicalKey (nets u) path cid params = Some raw"
    and "noCollision nets p key raw"
  shows "\<exists>v i path' params' h cached r body stored.
      i < length (ec_sent (pl_user p v)) \<and> ec_sent (pl_user p v) ! i = getCall path' params' h cached
    \<and> cacheKey (nets v) path' cid params' = Inr key \<and> esiHeaders (nets v) cid = Inr h
    \<and> snd (nt_send (nets v) (take (Suc i) (ec_sent (pl_user p v)))) = Inr r \<and> rs_status r < 400
    \<and> readBody r = Inr body \<and> marshal (nt_fmt (nets v)) (decode (nets v) (rs_status r) body) = Some stored
    \<and> (stored \<noteq> [] \<longrightarrow> (case nt_unmarshal (nets u) stored of Some d \<Rightarrow> er_Data x = d | None \<Rightarrow> er_Data x = VNil))"
proof -
  have "cacheIs (poolFetched nets p) (pl_cache p)"
    unfolding assms(1) by (rule poolRun_cacheIs) simp
  moreover obtain e where e: "fst (rcGet key (pl_cache p)) = Some e" "er_Data x = crData (nets u) e"
    using cachedGet_fromCache [OF assms(2,3)] assms(4) by auto
  ultimately have "poolFetched nets p key (cr_Body e)" using cacheIs_hit by blast
  then obtain v where "fetched (nets v) (ec_sent (pl_user p v)) key (cr_Body e)"
    by (auto simp: poolFetched_def)
  then obtain i path' cid' params' h cached r body where f:
    "i < length (ec_sent (pl_user p v))" "ec_sent (pl_user p v) ! i = getCall path' params' h cached"
    "esiHeaders (nets v) cid' = Inr h" "cacheKey (nets v) path' cid' params' = Inr key"
    "snd (nt_send (nets v) (take (Suc i) (ec_sent (pl_user p v)))) = Inr r" "rs_status r < 400"
    "readBody r = Inr body" "marshal (nt_fmt (nets v)) (decode (nets v) (rs_status r) body) = Some (cr_Body e)"
    unfolding fetched_def by blast
  obtain raw' where raw': "canonicalKey (nets v) path' cid' params' = Some raw'"
    using cacheKey_canonical [OF f(4)] by blast
  then have "raw' = raw" using assms(6) f(1-4) unfolding noCollision_def by blast
  then have "cid' = cid" using canonicalKey_character [OF raw'] assms(5) by blast
  note f' = f [unfolded this]
  have "cr_Body e \<noteq> [] \<longrightarrow>
      (case nt_unmarshal (nets u) (cr_Body e) of Some d \<Rightarrow> er_Data x = d | None \<Rightarrow> er_Data x = VNil)"
    by (simp add: e(2) crData_def split: option.split)
  with f' show ?thesis by blast
qed

definition okAnswer :: resp where
  "okAnswer = \<lparr>rs_status = 200, rs_headers = [], rs_body = Inr ''[]''\<rparr>"

definition statusRaw :: string where
  "statusRaw = the (canonicalKey (answerNet okAnswer) ''/status'' None [])"

definition statusKey :: string where
  "statusKey = hexEncode (sha256 statusRaw)"

definition statusEntry :: "time \<Rightarrow> cachedResponse" where
  "statusEntry now = \<lparr>cr_Body = ''[]'', cr_ETag = [], cr_ExpiresAt = ofUnix (unixOf now + 60),
     cr_StoredAt = now, cr_Pages = None\<rparr>"

lemma status_canonical: "canonicalKey (answerNet okAnswer) ''/status'' None [] = Some statusRaw"
proof -
  have "canonicalKey (answerNet okAnswer) ''/status'' None [] \<noteq> None"
    by (simp add: canonicalKey_def jsonObject_def sort_key_def)
  then show ?thesis by (auto simp: statusRaw_def)
qed

lemma status_key: "normalise params = [] \<Longrightarrow> cacheKey (answerNet okAnswer) ''/status'' None params = Inr statusKey"
  using status_canonical by (simp add: cacheKey_def canonicalKey_def statusKey_def)

lemmas client_run_defs = checkErrorBudget_def checkBudget_def pruneLocked_def errorBudgetLimit_def
  errorBudgetCap_def errorBudgetShare_def errorLimitBudget_def attemptOnce_def awaitErrorBudget_def
  errorFloor_def takeToken_def refillLocked_def newUserBucket_def UserBucketCapacity_def
  requestBody_def transport_def afterSend_def noteErrorHeaders_def intHeader_def headerGet_def
  throttleOrLimit_def statusErrorLimited_def serverRetry_def readBody_def maxResponseBody_def

lemma ForUser_simps: "ec_cache (ForUser now cache) = cache" "ec_sent (ForUser now cache) = []"
  by (simp_all add: ForUser_def)

lemma status_request:
  "request (answerNet okAnswer) \<lparr>hc_method = MethodGet, hc_path = ''/status'', hc_params = params,
      hc_headers = h, hc_jsonBody = VNil\<rparr> 0 (ForUser second cache)
    = (Inr okAnswer, (ForUser second cache)\<lparr>ec_now := 2 * second,
        ec_sent := [\<lparr>hc_method = MethodGet, hc_path = ''/status'', hc_params = params,
                     hc_headers = h, hc_jsonBody = VNil\<rparr>],
        ec_bucket := \<lparr>ub_tokens = 399, ub_last = second\<rparr>\<rparr>)"
  by (simp add: request.simps client_run_defs ForUser_def answerNet_def okAnswer_def Let_def)

lemma status_get_params:
  assumes "normalise params = []"
  shows "cachedGet (answerNet okAnswer) ''/status'' None params None (ForUser second newResponseCache)
    = (Inr \<lparr>er_Data = VSlice [], er_FromCache = False, er_AgeSeconds = 0,
            er_ExpiresAt = of_int (unixOf (2 * second)) + 60, er_Pages = None, er_Truncated = False\<rparr>,
       (ForUser second \<lparr>rc_ll = [(statusKey, statusEntry (2 * second))], rc_bytes = 2\<rparr>)\<lparr>ec_now := 2 * second,
        ec_sent := [getCall ''/status'' params (projr (esiHeaders (answerNet okAnswer) None)) None],
        ec_bucket := \<lparr>ub_tokens = 399, ub_last = second\<rparr>\<rparr>)"
proof -
  have c: "(ForUser second newResponseCache)\<lparr>ec_cache := newResponseCache\<rparr> = ForUser second newResponseCache"
    by (simp add: ForUser_def)
  have e: "checkErrorBudget (ForUser second newResponseCache) = (None, ForUser second newResponseCache)"
    by (simp add: checkErrorBudget_def checkBudget_def pruneLocked_def ForUser_def errorBudgetLimit_def
        errorBudgetCap_def errorBudgetShare_def errorLimitBudget_def)
  have g: "rcGet statusKey newResponseCache = (None, newResponseCache)"
    by (simp add: rcGet_def newResponseCache_def)
  have gc: "rcGet statusKey (ec_cache (ForUser second newResponseCache)) = (None, newResponseCache)"
    using g by (simp add: ForUser_def)
  have t: "truncInt (of_int k + 60) = k + 60" for k by (simp add: truncInt_def)
  have h: "esiHeaders (answerNet okAnswer) None = Inr (projr (esiHeaders (answerNet okAnswer) None))"
    by (simp add: esiHeaders_def Let_def)
  have rb: "readBody okAnswer = Inr ''[]''" by (simp add: readBody_def okAnswer_def maxResponseBody_def)
  let ?c2 = "(ForUser second newResponseCache)\<lparr>ec_now := 2 * second,
        ec_sent := [getCall ''/status'' params (projr (esiHeaders (answerNet okAnswer) None)) None],
        ec_bucket := \<lparr>ub_tokens = 399, ub_last = second\<rparr>\<rparr>"
  have "cachedGet (answerNet okAnswer) ''/status'' None params None (ForUser second newResponseCache)
      = finishGet (answerNet okAnswer) okAnswer ''[]'' statusKey None ''/status'' None ?c2"
    by (simp only: cachedGet_def status_key [OF assms] Let_def sum.case gc prod.case option.case c e) (subst h,
      simp only: sum.case withETag_def option.case status_request prod.case rb getCall_def)
  also have "decode (answerNet okAnswer) (rs_status okAnswer) ''[]'' = VSlice []"
    by (simp add: decode_def okAnswer_def answerNet_def)
  moreover have "expiresAt (answerNet okAnswer) (2 * second) okAnswer None = of_int (unixOf (2 * second)) + 60"
    by (simp add: expiresAt_def serverTTL_def headerDate_def headerGet_def maxAge_def hasPrefix_def
        maxCacheTTL_def okAnswer_def answerNet_def Let_def)
  ultimately show ?thesis
    by (simp add: finishGet_def okAnswer_def jsonArray_def joinStr_def intHeader_def headerGet_def
        ForUser_def rcPut_def newResponseCache_def bodyLen_def maxCachedBody_def stampStored_def
        statusEntry_def evictLocked.simps maxCacheEntries_def maxCacheBytes_def unixTime_def t Let_def)
qed

lemmas status_get = status_get_params [of "[]", OF normalise.simps(1)]

lemma status_hit:
  "cachedGet (answerNet okAnswer) ''/status'' None [] None
     ((ForUser second cache)\<lparr>ec_cache := \<lparr>rc_ll = [(statusKey, statusEntry (2 * second))], rc_bytes = 2\<rparr>\<rparr>)
   = (Inr (cachedResult (answerNet okAnswer) second (statusEntry (2 * second))),
      (ForUser second cache)\<lparr>ec_cache := \<lparr>rc_ll = [(statusKey, statusEntry (2 * second))], rc_bytes = 2\<rparr>\<rparr>)"
  by (simp add: cachedGet_def status_key rcGet_def MoveToFront_def dropKey_def Fresh_def statusEntry_def
      ofUnix_def unixOf_def ForUser_def Let_def)

lemma cached_answer_was_fetched_for_the_character_witness:
  "\<exists>v i path' params' h cached.
      i < length (ec_sent (pl_user (poolRun (\<lambda>u. answerNet okAnswer) [(0, CGet ''/status'' None [] None)] (newPool second)) v))
    \<and> ec_sent (pl_user (poolRun (\<lambda>u. answerNet okAnswer) [(0, CGet ''/status'' None [] None)] (newPool second)) v) ! i
        = getCall path' params' h cached
    \<and> cacheKey (answerNet okAnswer) path' None params' = Inr statusKey"
proof -
  let ?nets = "\<lambda>u :: nat. answerNet okAnswer"
  let ?p = "poolRun ?nets [(0, CGet ''/status'' None [] None)] (newPool second)"
  let ?h = "projr (esiHeaders (answerNet okAnswer) None)"
  have same: "(ForUser second newResponseCache)\<lparr>ec_cache := newResponseCache\<rparr> = ForUser second newResponseCache"
    by (simp add: ForUser_def)
  have p: "pl_cache ?p = \<lparr>rc_ll = [(statusKey, statusEntry (2 * second))], rc_bytes = 2\<rparr>"
    "pl_user ?p 1 = ForUser second newResponseCache"
    "\<And>u. ec_sent (pl_user ?p u) = (if u = 0 then [getCall ''/status'' [] ?h None] else [])"
    by (simp_all add: poolStep_def newPool_def same status_get Let_def ForUser_simps)
  have hit: "cachedGet (?nets 1) ''/status'' None [] None ((pl_user ?p 1)\<lparr>ec_cache := pl_cache ?p\<rparr>)
     = (Inr (cachedResult (answerNet okAnswer) second (statusEntry (2 * second))),
        (ForUser second newResponseCache)\<lparr>ec_cache := \<lparr>rc_ll = [(statusKey, statusEntry (2 * second))], rc_bytes = 2\<rparr>\<rparr>)"
    using status_hit unfolding p(1,2) .
  have nc: "noCollision ?nets ?p statusKey statusRaw"
    unfolding noCollision_def
  proof (intro allI impI, elim conjE)
    fix u i path cid params h cached raw'
    assume a: "i < length (ec_sent (pl_user ?p u))" "ec_sent (pl_user ?p u) ! i = getCall path params h cached"
      "esiHeaders (answerNet okAnswer) cid = Inr h" "canonicalKey (answerNet okAnswer) path cid params = Some raw'"
    have "u = 0 \<and> i = 0" using a(1) p(3) [of u] by (auto split: if_splits)
    then have c: "getCall path params h cached = getCall ''/status'' [] ?h None" using a(2) p(3) [of 0] by simp
    then have "path = ''/status''" "params = []" "withETag cached h = ?h"
      by (simp_all add: getCall_def withETag_def)
    moreover have "cid = None"
    proof (cases cid)
      case (Some n)
      then have "(''Authorization'', ''Bearer tok'') \<in> set h" using a(3) by (auto simp: esiHeaders_def answerNet_def Let_def)
      then have "(''Authorization'', ''Bearer tok'') \<in> set (withETag cached h)"
        by (auto simp: withETag_def split: option.split)
      then show ?thesis using \<open>withETag cached h = ?h\<close> by (simp add: esiHeaders_def Let_def)
    qed simp
    ultimately show "raw' = statusRaw" using a(4) status_canonical by simp
  qed
  from cached_answer_was_fetched_for_the_character [OF refl hit _ status_key [OF normalise.simps(1)] status_canonical nc]
  show ?thesis by (simp add: cachedResult_def) blast
qed

lemma cachedGet_hit:
  assumes "cacheKey N path cid params = Inr key" "fst (rcGet key (ec_cache c)) = Some v" "Fresh (ec_now c) v"
  shows "cachedGet N path cid params ttl c
    = (Inr (cachedResult N (ec_now c) v), c\<lparr>ec_cache := snd (rcGet key (ec_cache c))\<rparr>)"
proof -
  obtain cache where "rcGet key (ec_cache c) = (Some v, cache)" using assms(2) by (metis prod.collapse)
  then show ?thesis using assms(1,3) by (simp add: cachedGet_def Let_def)
qed

lemma finishGet_fresh:
  "finishGet N r body key cached path ttl c = (Inr x, c') \<Longrightarrow> \<not> er_FromCache x
    \<Longrightarrow> \<exists>raw etag. marshal (nt_fmt N) (er_Data x) = Some raw
      \<and> ec_cache c' = rcPut (ec_now c) key \<lparr>cr_Body = raw, cr_ETag = etag, cr_ExpiresAt = unixTime (er_ExpiresAt x),
          cr_StoredAt = 0, cr_Pages = er_Pages x\<rparr> (ec_cache c)"
  by (auto simp: finishGet_def Let_def cachedResult_def split: option.splits if_splits)

text \<open>A read is answered from the cache until it expires: after a successful read of an
  answer of at most 8 MiB, the same read by any user at any time before the expiry that the
  first reported sends no request and returns the same data and page count, provided decoding
  gives back the value that was encoded.\<close>
theorem second_read_costs_nothing:
  assumes "cachedGet N path cid params ttl c = (Inr x, c1)" "\<not> er_FromCache x" "rcInv (ec_cache c)"
    and "marshal (nt_fmt N) (er_Data x) = Some raw" "nt_unmarshal N' raw = Some (er_Data x)"
    and "raw \<noteq> []" "length raw \<le> 8 * 2 ^ 20"
    and "ec_cache c2 = ec_cache c1" "ec_now c2 < unixTime (er_ExpiresAt x)"
    and "cacheKey N' path cid params = cacheKey N path cid params"
  shows "\<exists>y c3. cachedGet N' path cid params ttl' c2 = (Inr y, c3) \<and> er_FromCache y
    \<and> er_Data y = er_Data x \<and> er_Pages y = er_Pages x
    \<and> ec_sent c3 = ec_sent c2 \<and> ec_bucket c3 = ec_bucket c2"
  using assms(1)
proof (cases rule: cachedGet_cases)
  case (quiet b cache)
  then show ?thesis using assms(2) by blast
next
  case (asked key cached cache b h r c0)
  obtain z body where fin: "finishGet N z body key cached path ttl c0 = (Inr x, c1)" using asked(6) by auto
  from finishGet_fresh [OF fin assms(2)] assms(4) obtain etag where
    put: "ec_cache c1 = rcPut (ec_now c0) key \<lparr>cr_Body = raw, cr_ETag = etag,
        cr_ExpiresAt = unixTime (er_ExpiresAt x), cr_StoredAt = 0, cr_Pages = er_Pages x\<rparr> (ec_cache c0)"
    by auto
  obtain outs where "exchanged N (getCall path params h cached) (c\<lparr>ec_cache := cache, ec_budget := b\<rparr>) outs c0"
    using request_effect [OF asked(5)] by auto
  from exchangedD(3) [OF this] have "ec_cache c0 = snd (rcGet key (ec_cache c))" using asked(2) by simp
  then have "rcInv (ec_cache c0)" using rcUse_inv [OF assms(3), of key UGet] by (simp add: rcUseOp_def)
  then have ok: "rcKeysOK (ec_cache c0)" by (simp add: rcInv_def)
  let ?v = "\<lparr>cr_Body = raw, cr_ETag = etag, cr_ExpiresAt = unixTime (er_ExpiresAt x), cr_StoredAt = 0,
      cr_Pages = er_Pages x\<rparr>"
  have "bodyLen ?v \<le> maxCachedBody" using assms(7) by (simp add: bodyLen_def maxCachedBody_def)
  from rcPut_result(2) [OF ok this, of "ec_now c0" key] put assms(8)
  have hit: "fst (rcGet key (ec_cache c2)) = Some (stampStored (ec_now c0) ?v)"
    by (auto simp: rcGet_def)
  have "Fresh (ec_now c2) (stampStored (ec_now c0) ?v)"
    using assms(9) by (simp add: Fresh_def stampStored_def)
  from cachedGet_hit [OF _ hit this, of N' path cid params ttl'] asked(1) assms(10)
  show ?thesis using assms(5,6) by (auto simp: cachedResult_def crData_def stampStored_def)
qed

lemma second_read_costs_nothing_witness:
  "\<exists>y c3. cachedGet (answerNet okAnswer) ''/status'' None [] None
      (snd (cachedGet (answerNet okAnswer) ''/status'' None [] None (ForUser second newResponseCache))) = (Inr y, c3)
    \<and> er_FromCache y \<and> er_Data y = VSlice [] \<and> length (ec_sent c3) = 1"
proof -
  define c1 where "c1 = snd (cachedGet (answerNet okAnswer) ''/status'' None [] None (ForUser second newResponseCache))"
  have now: "ec_now c1 < unixTime (of_int (unixOf (2 * second)) + 60)"
    by (simp add: c1_def status_get unixTime_def truncInt_def ofUnix_def unixOf_def)
  have sent: "length (ec_sent c1) = 1" by (simp add: c1_def status_get)
  obtain x where x: "cachedGet (answerNet okAnswer) ''/status'' None [] None (ForUser second newResponseCache) = (Inr x, c1)"
    "\<not> er_FromCache x" "er_Data x = VSlice []" "er_ExpiresAt x = of_int (unixOf (2 * second)) + 60"
    by (simp add: c1_def status_get)
  have lib: "marshal (nt_fmt (answerNet okAnswer)) (er_Data x) = Some ''[]''"
    "nt_unmarshal (answerNet okAnswer) ''[]'' = Some (er_Data x)"
    by (simp_all add: x(3) answerNet_def jsonArray_def joinStr_def)
  have "rcInv (ec_cache (ForUser second newResponseCache))" by (simp add: ForUser_simps)
  from second_read_costs_nothing [OF x(1,2) this lib _ _ refl _ refl, of None] now x(3,4) sent
  show ?thesis unfolding c1_def [symmetric] by auto
qed

end
