(* ===== verification/EsiPages.thy ===== *)
theory EsiPages
  imports EsiProps
begin

text \<open>
  Reads that span several pages (adapter/esi/http/pages.go). \<open>GetAllPages\<close> reads the first
  page, then the others concurrently; the model runs them one after the other in an arbitrary
  order, the argument \<open>arrival\<close>, which is also the order of their answers on the channel.
  \<open>GetCursorPages\<close> walks back through a log by a cursor. A run-time panic is \<open>None\<close>.
  The lemmas relate the walk to a reference that removes repeated rows from the pages read.
\<close>

definition mapSet :: "object \<Rightarrow> string \<Rightarrow> any \<Rightarrow> object" where
  \<comment> \<open>\<open>m[k] = v\<close> on a clone\<close>
  "mapSet m k v = (k, v) # removeWhere (\<lambda>e. fst e = k) m"

definition withPage :: "object \<Rightarrow> int \<Rightarrow> object" where
  "withPage params page = mapSet params ''page'' (VInt (if page < 1 then 1 else page))"

definition isSlice :: "any \<Rightarrow> bool" where
  "isSlice v = (case v of VSlice _ \<Rightarrow> True | _ \<Rightarrow> False)"

definition lessAny :: "esinet \<Rightarrow> any \<Rightarrow> any \<Rightarrow> bool" where
  "lessAny N a b \<longleftrightarrow> jFloat (nt_parseFloat N) a < jFloat (nt_parseFloat N) b"

subsection \<open>All pages\<close>

fun fetchPages :: "esinet \<Rightarrow> string \<Rightarrow> int option \<Rightarrow> object \<Rightarrow> int list \<Rightarrow> esi \<Rightarrow> (goerr + esiResult) list \<times> esi" where
  "fetchPages N path cid params [] c = ([], c)"
| "fetchPages N path cid params (page # pages) c =
    (let (r, c1) = cachedGet N path cid (withPage params page) None c;
         (rs, c2) = fetchPages N path cid params pages c1 in (r # rs, c2))"

text \<open>Rows, age and freshness, added up from the answers as they arrive.\<close>

fun gatherPages :: "any list \<times> rat \<times> bool \<Rightarrow> (goerr + esiResult) list \<Rightarrow> goerr + (any list \<times> rat \<times> bool)" where
  "gatherPages acc [] = Inr acc"
| "gatherPages (data, oldest, allCached) (b # bs) = (case b of Inl e \<Rightarrow> Inl e
     | Inr r \<Rightarrow> gatherPages (data @ rowsOf (er_Data r),
         (if oldest < er_AgeSeconds r then er_AgeSeconds r else oldest), allCached \<and> er_FromCache r) bs)"

definition GetAllPages :: "esinet \<Rightarrow> string \<Rightarrow> int option \<Rightarrow> object \<Rightarrow> int \<Rightarrow> (int \<Rightarrow> int list)
    \<Rightarrow> esi \<Rightarrow> (goerr + esiResult) option \<times> esi" where
  "GetAllPages N path cid params maxPages arrival c =
    (case cachedGet N path cid (withPage params 1) None c of
       (Inl e, c1) \<Rightarrow> (Some (Inl e), c1)
     | (Inr first, c1) \<Rightarrow>
         (let total = (case er_Pages first of Some n \<Rightarrow> n | None \<Rightarrow> 1) in
          if total \<le> 1 \<or> \<not> isSlice (er_Data first) then (Some (Inr first), c1)
          else let capped = min total maxPages in
            if capped - 1 < 0 then (None, c1)
            else let (rs, c2) = fetchPages N path cid params (arrival capped) c1 in
              (Some (case gatherPages (rowsOf (er_Data first), er_AgeSeconds first, er_FromCache first) rs of
                 Inl e \<Rightarrow> Inl e
               | Inr (data, oldest, allCached) \<Rightarrow> Inr
                   \<lparr>er_Data = VSlice data, er_FromCache = allCached, er_AgeSeconds = oldest,
                    er_ExpiresAt = er_ExpiresAt first, er_Pages = Some total, er_Truncated = capped < total\<rparr>), c2)))"

subsection \<open>A walk by cursor\<close>

record cursorWalk =
  cw_path :: string
  cw_cursorParam :: string
  cw_cursorKey :: string
  cw_characterID :: "int option"
  cw_batchSize :: int
  cw_maxPages :: int
  cw_cursor :: any
  cw_base :: object
  cw_data :: "object list"
  cw_seen :: "any list"
  cw_oldest :: rat
  cw_expiresAt :: rat
  cw_allCached :: bool
  cw_fetched :: int
  cw_truncated :: bool

record CursorQuery =
  cq_CharacterID :: "int option"
  cq_Params :: object
  cq_CursorParam :: string
  cq_CursorKey :: string
  cq_BatchSize :: int
  cq_MaxPages :: int

text \<open>A map key must be comparable: looking up a slice or a map panics.\<close>

definition hashable :: "any \<Rightarrow> bool" where
  "hashable v = (case v of VSlice _ \<Rightarrow> False | VMaps _ \<Rightarrow> False | VStrs _ \<Rightarrow> False | VInts _ \<Rightarrow> False
     | VMap _ \<Rightarrow> False | VNilSlice \<Rightarrow> False | _ \<Rightarrow> True)"

text \<open>The rows not seen before, the markers seen, and the least new marker; \<open>None\<close> is a panic.\<close>

fun mergeRows :: "esinet \<Rightarrow> string \<Rightarrow> object list \<Rightarrow> object list \<Rightarrow> any list \<Rightarrow> any
    \<Rightarrow> (object list \<times> any list \<times> any) option" where
  "mergeRows N key [] data seen nextCursor = Some (data, seen, nextCursor)"
| "mergeRows N key (row # rows) data seen nextCursor =
    (let marker = lookupAny row key in
     if marker = VNil then mergeRows N key rows (data @ [row]) seen nextCursor
     else if \<not> hashable marker then None
     else if marker \<in> set seen then mergeRows N key rows data seen nextCursor
     else mergeRows N key rows (data @ [row]) (marker # seen)
            (if nextCursor = VNil \<or> lessAny N marker nextCursor then marker else nextCursor))"

definition mergeCursorRows :: "esinet \<Rightarrow> cursorWalk \<Rightarrow> object list \<Rightarrow> (any \<times> cursorWalk) option" where
  "mergeCursorRows N w rows = (case mergeRows N (cw_cursorKey w) rows (cw_data w) (cw_seen w) VNil of
     None \<Rightarrow> None
   | Some (data, seen, nextCursor) \<Rightarrow> Some (nextCursor, w\<lparr>cw_data := data, cw_seen := seen\<rparr>))"

datatype stepOut = Panic | Failed goerr | Stop cursorWalk | Continue cursorWalk

definition countFetch :: "esiResult \<Rightarrow> cursorWalk \<Rightarrow> cursorWalk" where
  "countFetch r w = w\<lparr>cw_fetched := cw_fetched w + 1,
     cw_expiresAt := (if cw_fetched w + 1 = 1 then er_ExpiresAt r else cw_expiresAt w),
     cw_allCached := (cw_allCached w \<and> er_FromCache r),
     cw_oldest := (if cw_oldest w < er_AgeSeconds r then er_AgeSeconds r else cw_oldest w)\<rparr>"

definition stepCursor :: "esinet \<Rightarrow> cursorWalk \<Rightarrow> int \<Rightarrow> esi \<Rightarrow> stepOut \<times> esi" where
  "stepCursor N w0 index c =
    (case cachedGet N (cw_path w0) (cw_characterID w0)
            (mapSet (cw_base w0) (cw_cursorParam w0) (cw_cursor w0)) None c of
       (Inl e, c1) \<Rightarrow> (Failed e, c1)
     | (Inr result, c1) \<Rightarrow>
        (let w = countFetch result w0; rows = jMaps (er_Data result) in
         if rows = [] then (Stop w, c1)
         else let w1 = w\<lparr>cw_batchSize := max (cw_batchSize w) (int (length rows))\<rparr> in
           case mergeCursorRows N w1 rows of None \<Rightarrow> (Panic, c1)
           | Some (nextCursor, w2) \<Rightarrow>
             if int (length rows) < cw_batchSize w2 then (Stop w2, c1)
             else if index = cw_maxPages w2 - 1 then (Stop (w2\<lparr>cw_truncated := True\<rparr>), c1)
             else if nextCursor = VNil \<or> (cw_cursor w2 \<noteq> VNil \<and> \<not> lessAny N nextCursor (cw_cursor w2))
             then (Stop w2, c1)
             else (Continue (w2\<lparr>cw_cursor := nextCursor\<rparr>), c1)))"

text \<open>\<open>for index := range maxPages\<close>, with \<open>n\<close> indexes left.\<close>

fun cursorLoop :: "esinet \<Rightarrow> nat \<Rightarrow> int \<Rightarrow> cursorWalk \<Rightarrow> esi \<Rightarrow> stepOut \<times> esi" where
  "cursorLoop N 0 index w c = (Stop w, c)"
| "cursorLoop N (Suc n) index w c = (case stepCursor N w index c of
     (Continue w1, c1) \<Rightarrow> cursorLoop N n (index + 1) w1 c1
   | (out, c1) \<Rightarrow> (out, c1))"

definition startWalk :: "string \<Rightarrow> CursorQuery \<Rightarrow> cursorWalk" where
  "startWalk path q = \<lparr>cw_path = path, cw_cursorParam = cq_CursorParam q, cw_cursorKey = cq_CursorKey q,
     cw_characterID = cq_CharacterID q, cw_batchSize = max (cq_BatchSize q) 1,
     cw_maxPages = max (cq_MaxPages q) 1, cw_cursor = lookupAny (cq_Params q) (cq_CursorParam q),
     cw_base = cq_Params q, cw_data = [], cw_seen = [], cw_oldest = 0, cw_expiresAt = 0,
     cw_allCached = True, cw_fetched = 0, cw_truncated = False\<rparr>"

definition walkResult :: "cursorWalk \<Rightarrow> esiResult" where
  "walkResult w = \<lparr>er_Data = (if cw_data w = [] then VNilSlice else VSlice (map VMap (cw_data w))),
     er_FromCache = cw_allCached w, er_AgeSeconds = cw_oldest w, er_ExpiresAt = cw_expiresAt w,
     er_Pages = Some (cw_fetched w), er_Truncated = cw_truncated w\<rparr>"

definition GetCursorPages :: "esinet \<Rightarrow> string \<Rightarrow> CursorQuery \<Rightarrow> esi \<Rightarrow> (goerr + esiResult) option \<times> esi" where
  "GetCursorPages N path q c =
    (let w0 = startWalk path q in
     case cursorLoop N (nat (cw_maxPages w0)) 0 w0 c of
       (Panic, c1) \<Rightarrow> (None, c1)
     | (Failed e, c1) \<Rightarrow> (Some (Inl e), c1)
     | (Stop w, c1) \<Rightarrow> (Some (Inr (walkResult w)), c1)
     | (Continue w, c1) \<Rightarrow> (Some (Inr (walkResult w)), c1))"

subsection \<open>Work done by page reads\<close>

lemma fetchPages_worked:
  "fetchPages N path cid params pages c = (rs, c') \<Longrightarrow> worked N c c' \<and> length rs = length pages"
proof (induction pages arbitrary: c rs c')
  case Nil
  then show ?case by (auto intro: worked_refl)
next
  case (Cons page pages)
  obtain r c1 where g: "cachedGet N path cid (withPage params page) None c = (r, c1)" by fastforce
  obtain rs1 c2 where f: "fetchPages N path cid params pages c1 = (rs1, c2)" by fastforce
  then show ?case using Cons.prems Cons.IH [OF f] g worked_trans [OF cachedGet_worked [OF g]] by auto
qed

text \<open>The rows of the answers, none of which is an error.\<close>

lemma gatherPages_rows:
  "gatherPages (data, oldest, ac) rs = Inr (data', oldest', ac') \<Longrightarrow>
     (\<forall>r \<in> set rs. \<not> isl r) \<and> data' = data @ concat (map (\<lambda>r. rowsOf (er_Data (projr r))) rs)
   \<and> oldest \<le> oldest' \<and> (\<forall>r \<in> set rs. er_AgeSeconds (projr r) \<le> oldest')
   \<and> (ac' \<longleftrightarrow> ac \<and> (\<forall>r \<in> set rs. er_FromCache (projr r)))"
proof (induction rs arbitrary: data oldest ac)
  case (Cons b rs)
  show ?case
  proof (cases b)
    case (Inr r)
    with Cons.prems have "gatherPages (data @ rowsOf (er_Data r),
        (if oldest < er_AgeSeconds r then er_AgeSeconds r else oldest), ac \<and> er_FromCache r) rs = Inr (data', oldest', ac')"
      by simp
    from Cons.IH [OF this] show ?thesis using Inr by (auto split: if_splits)
  qed (use Cons.prems in simp)
qed simp

subsection \<open>The walk and its reference\<close>

text \<open>The rows without those whose marker an earlier row has; rows without a marker stay.\<close>

fun dedupRows :: "string \<Rightarrow> any set \<Rightarrow> object list \<Rightarrow> object list" where
  "dedupRows key seen [] = []"
| "dedupRows key seen (row # rows) = (let m = lookupAny row key in
     if m = VNil then row # dedupRows key seen rows
     else if m \<in> seen then dedupRows key seen rows
     else row # dedupRows key (insert m seen) rows)"

definition markers :: "string \<Rightarrow> object list \<Rightarrow> any set" where
  "markers key rows = {m. m \<noteq> VNil \<and> m \<in> (\<lambda>row. lookupAny row key) ` set rows}"

lemma markers_simps [simp]:
  "markers key [] = {}"
  "markers key (row # rows) = (if lookupAny row key = VNil then markers key rows
      else insert (lookupAny row key) (markers key rows))"
  "markers key (xs @ ys) = markers key xs \<union> markers key ys"
  by (auto simp: markers_def)

lemma dedupRows_append:
  "dedupRows key seen (xs @ ys) = dedupRows key seen xs @ dedupRows key (seen \<union> markers key xs) ys"
  by (induction xs arbitrary: seen) (auto simp: Let_def insert_absorb)

lemma dedupRows_distinct:
  "distinct (filter (\<lambda>m. m \<noteq> VNil) (map (\<lambda>row. lookupAny row key) (dedupRows key seen rows)))
   \<and> (\<forall>row \<in> set (dedupRows key seen rows). lookupAny row key \<noteq> VNil \<longrightarrow> lookupAny row key \<notin> seen)"
proof (induction rows arbitrary: seen)
  case (Cons row rows)
  note IH = Cons.IH [of seen] Cons.IH [of "insert (lookupAny row key) seen"]
  show ?case
  proof (cases "lookupAny row key = VNil \<or> lookupAny row key \<in> seen")
    case True
    then show ?thesis using IH(1) by (auto simp: Let_def)
  next
    case False
    then show ?thesis using IH(2) by (auto simp: Let_def)
  qed
qed simp

lemma mergeRows_dedup:
  "mergeRows N key rows data seen nc = Some (data', seen', nc')
    \<Longrightarrow> data' = data @ dedupRows key (set seen) rows \<and> set seen' = set seen \<union> markers key rows"
  by (induction N key rows data seen nc rule: mergeRows.induct) (auto simp: Let_def split: if_splits)

text \<open>
  A trace of a walk: the cursor of each read and the rows it returned. It fits a walk when the
  rows are answers to those reads, the walk's data are the reference's, and the cursors, the
  next one included, go down strictly; only the first may be absent.
\<close>

definition goesDown :: "esinet \<Rightarrow> any list \<Rightarrow> bool" where
  "goesDown N cs \<longleftrightarrow> sorted_wrt (\<lambda>a b. a = VNil \<or> lessAny N b a) cs \<and> VNil \<notin> set (tl cs)"

definition wasRead :: "esinet \<Rightarrow> cursorWalk \<Rightarrow> any \<times> object list \<Rightarrow> bool" where
  "wasRead N w e \<longleftrightarrow> (\<exists>(c::esi) r c'. cachedGet N (cw_path w) (cw_characterID w)
      (mapSet (cw_base w) (cw_cursorParam w) (fst e)) None c = (Inr r, c') \<and> snd e = jMaps (er_Data r))"

definition fitsTrace :: "esinet \<Rightarrow> (any \<times> object list) list \<Rightarrow> cursorWalk \<Rightarrow> bool" where
  "fitsTrace N tr w \<longleftrightarrow> (\<forall>e \<in> set tr. wasRead N w e)
     \<and> cw_data w = dedupRows (cw_cursorKey w) {} (concat (map snd tr))
     \<and> set (cw_seen w) = markers (cw_cursorKey w) (concat (map snd tr))
     \<and> cw_fetched w = int (length tr)"

definition sameQuery :: "cursorWalk \<Rightarrow> cursorWalk \<Rightarrow> bool" where
  "sameQuery w w' \<longleftrightarrow> cw_path w' = cw_path w \<and> cw_characterID w' = cw_characterID w
     \<and> cw_base w' = cw_base w \<and> cw_cursorParam w' = cw_cursorParam w \<and> cw_cursorKey w' = cw_cursorKey w
     \<and> cw_maxPages w' = cw_maxPages w"

lemma goesDown_step:
  assumes "goesDown N (cs @ [a])" "b \<noteq> VNil" "a = VNil \<or> lessAny N b a"
  shows "goesDown N (cs @ [a, b])"
proof -
  have "x = VNil \<or> lessAny N b x" if "x \<in> set cs" for x
  proof (cases "a = VNil")
    case True
    then show ?thesis using assms(1) that by (cases cs) (auto simp: goesDown_def)
  next
    case False
    then show ?thesis using assms that by (auto simp: goesDown_def sorted_wrt_append lessAny_def)
  qed
  then show ?thesis using assms by (cases cs) (auto simp: goesDown_def sorted_wrt_append)
qed

lemma goesDown_prefix: "goesDown N (cs @ ds) \<Longrightarrow> goesDown N cs"
  by (cases cs) (auto simp: goesDown_def sorted_wrt_append)

lemma countFetch_simps [simp]:
  "cw_path (countFetch r w) = cw_path w" "cw_characterID (countFetch r w) = cw_characterID w"
  "cw_base (countFetch r w) = cw_base w" "cw_cursorParam (countFetch r w) = cw_cursorParam w"
  "cw_cursorKey (countFetch r w) = cw_cursorKey w" "cw_maxPages (countFetch r w) = cw_maxPages w"
  "cw_data (countFetch r w) = cw_data w" "cw_seen (countFetch r w) = cw_seen w"
  "cw_cursor (countFetch r w) = cw_cursor w" "cw_batchSize (countFetch r w) = cw_batchSize w"
  "cw_truncated (countFetch r w) = cw_truncated w" "cw_fetched (countFetch r w) = cw_fetched w + 1"
  by (simp_all add: countFetch_def)

text \<open>One step adds one entry, and stops or goes on to a lower cursor.\<close>

lemma countFetch_fits:
  assumes "fitsTrace N tr w" "wasRead N w (cw_cursor w, rows)"
    "cw_data w' = cw_data w @ dedupRows (cw_cursorKey w) (set (cw_seen w)) rows"
    "set (cw_seen w') = set (cw_seen w) \<union> markers (cw_cursorKey w) rows"
    "cw_fetched w' = cw_fetched w + 1" "sameQuery w w'"
  shows "fitsTrace N (tr @ [(cw_cursor w, rows)]) w'"
  using assms by (auto simp: fitsTrace_def sameQuery_def wasRead_def dedupRows_append)

lemma stepCursor_fits:
  assumes "fitsTrace N tr w" "goesDown N (map fst tr @ [cw_cursor w])" "\<not> cw_truncated w"
    and "stepCursor N w index c = (out, c1)" "out = Stop w' \<or> out = Continue w'"
  shows "\<exists>e. fitsTrace N (tr @ [e]) w' \<and> sameQuery w w' \<and> goesDown N (map fst (tr @ [e]))
    \<and> (out = Continue w' \<longrightarrow> goesDown N (map fst (tr @ [e]) @ [cw_cursor w']) \<and> \<not> cw_truncated w'
        \<and> index \<noteq> cw_maxPages w - 1)
    \<and> (cw_truncated w' \<longrightarrow> index = cw_maxPages w - 1)"
proof -
  obtain result where g: "cachedGet N (cw_path w) (cw_characterID w)
      (mapSet (cw_base w) (cw_cursorParam w) (cw_cursor w)) None c = (Inr result, c1)"
    using assms(4,5) by (auto simp: stepCursor_def Let_def split: prod.splits sum.splits if_splits option.splits)
  let ?rows = "jMaps (er_Data result)"
  have read: "wasRead N w (cw_cursor w, ?rows)" unfolding wasRead_def fst_conv snd_conv using g by blast
  show ?thesis
  proof (cases "?rows = []")
    case True
    then have w': "w' = countFetch result w" "out = Stop w'"
      using assms(4,5) g by (auto simp: stepCursor_def Let_def)
    have "fitsTrace N (tr @ [(cw_cursor w, ?rows)]) w'"
      by (rule countFetch_fits [OF assms(1) read]) (auto simp: w' True sameQuery_def)
    then show ?thesis using w' assms(2,3)
      by (intro exI [of _ "(cw_cursor w, ?rows)"]) (auto simp: sameQuery_def)
  next
    case False
    have merged: "mergeRows N (cw_cursorKey w) ?rows (cw_data w) (cw_seen w) VNil \<noteq> None"
    proof
      assume "mergeRows N (cw_cursorKey w) ?rows (cw_data w) (cw_seen w) VNil = None"
      then have "stepCursor N w index c = (Panic, c1)"
        by (simp add: stepCursor_def g Let_def False mergeCursorRows_def)
      then show False using assms(4,5) by auto
    qed
    then obtain data seen nc where m: "mergeRows N (cw_cursorKey w) ?rows (cw_data w) (cw_seen w) VNil = Some (data, seen, nc)"
      by auto
    let ?w2 = "(countFetch result w)\<lparr>cw_batchSize := max (cw_batchSize w) (int (length ?rows)),
        cw_data := data, cw_seen := seen\<rparr>"
    have "stepCursor N w index c = ((if int (length ?rows) < cw_batchSize ?w2 then Stop ?w2
        else if index = cw_maxPages w - 1 then Stop (?w2\<lparr>cw_truncated := True\<rparr>)
        else if nc = VNil \<or> (cw_cursor w \<noteq> VNil \<and> \<not> lessAny N nc (cw_cursor w)) then Stop ?w2
        else Continue (?w2\<lparr>cw_cursor := nc\<rparr>)), c1)"
      by (simp add: stepCursor_def g Let_def False mergeCursorRows_def m)
    then have out: "out = (if int (length ?rows) < cw_batchSize ?w2 then Stop ?w2
        else if index = cw_maxPages w - 1 then Stop (?w2\<lparr>cw_truncated := True\<rparr>)
        else if nc = VNil \<or> (cw_cursor w \<noteq> VNil \<and> \<not> lessAny N nc (cw_cursor w)) then Stop ?w2
        else Continue (?w2\<lparr>cw_cursor := nc\<rparr>))"
      using assms(4) by simp
    note dd = mergeRows_dedup [OF m]
    have fits: "fitsTrace N (tr @ [(cw_cursor w, ?rows)]) v"
      if "cw_data v = data" "cw_seen v = seen" "cw_fetched v = cw_fetched w + 1" "sameQuery w v" for v
      using that dd by (intro countFetch_fits [OF assms(1) read]) auto
    have shape: "cw_data w' = data \<and> cw_seen w' = seen \<and> cw_fetched w' = cw_fetched w + 1 \<and> sameQuery w w'
      \<and> (out = Continue w' \<longrightarrow> cw_cursor w' = nc \<and> nc \<noteq> VNil \<and> (cw_cursor w = VNil \<or> lessAny N nc (cw_cursor w))
           \<and> \<not> cw_truncated w' \<and> index \<noteq> cw_maxPages w - 1)
      \<and> (cw_truncated w' \<longrightarrow> index = cw_maxPages w - 1)"
      using out assms(3,5) by (auto simp: sameQuery_def split: if_splits)
    then show ?thesis using fits [of w'] assms(2) goesDown_step [OF assms(2), of nc]
      by (intro exI [of _ "(cw_cursor w, ?rows)"]) auto
  qed
qed

lemma cursorLoop_fits:
  assumes "fitsTrace N tr w" "goesDown N (map fst tr @ [cw_cursor w])" "\<not> cw_truncated w"
    and "cursorLoop N n index w c = (Stop w', c')" "cw_maxPages w = index + int n" "index = int (length tr)" "0 < n"
  shows "\<exists>tr'. fitsTrace N tr' w' \<and> sameQuery w w' \<and> goesDown N (map fst tr')
    \<and> length tr < length tr' \<and> int (length tr') \<le> cw_maxPages w
    \<and> (cw_truncated w' \<longrightarrow> int (length tr') = cw_maxPages w)"
  using assms
proof (induction n arbitrary: index w c tr)
  case (Suc n)
  obtain out c1 where s: "stepCursor N w index c = (out, c1)" by fastforce
  show ?case
  proof (cases out)
    case (Continue v)
    then obtain e where e: "fitsTrace N (tr @ [e]) v" "sameQuery w v"
      "goesDown N (map fst (tr @ [e]) @ [cw_cursor v])" "\<not> cw_truncated v" "index \<noteq> cw_maxPages w - 1"
      using stepCursor_fits [OF Suc.prems(1-3) s, of v] by auto
    have loop: "cursorLoop N n (index + 1) v c1 = (Stop w', c')" using Suc.prems(4) s Continue by simp
    have "0 < n" using e(5) Suc.prems(5) by (cases n) auto
    moreover have "cw_maxPages v = index + 1 + int n" using e(2) Suc.prems(5) by (simp add: sameQuery_def)
    moreover have "index + 1 = int (length (tr @ [e]))" using Suc.prems(6) by simp
    ultimately obtain tr' where "fitsTrace N tr' w'" "sameQuery v w'" "goesDown N (map fst tr')"
      "length (tr @ [e]) < length tr'" "int (length tr') \<le> cw_maxPages v"
      "cw_truncated w' \<longrightarrow> int (length tr') = cw_maxPages v"
      using Suc.IH [OF e(1,3,4) loop] by blast
    then show ?thesis using e(2) by (intro exI [of _ tr']) (auto simp: sameQuery_def)
  next
    case (Stop v)
    then have "w' = v" using Suc.prems(4) s by simp
    then obtain e where "fitsTrace N (tr @ [e]) w'" "sameQuery w w'" "goesDown N (map fst (tr @ [e]))"
      "cw_truncated w' \<longrightarrow> index = cw_maxPages w - 1"
      using stepCursor_fits [OF Suc.prems(1-3) s, of v] Stop by auto
    then show ?thesis using Suc.prems(5,6) by (intro exI [of _ "tr @ [e]"]) auto
  qed (use Suc.prems(4) s in auto)
qed simp

lemma cursorLoop_never_continues: "fst (cursorLoop N n k w c) \<noteq> Continue w'"
proof (induction n arbitrary: k w c)
  case (Suc n)
  obtain out c1 where "stepCursor N w k c = (out, c1)" by fastforce
  then show ?case using Suc.IH by (cases out) auto
qed simp

text \<open>C21. A walk by cursor returns what a reference does: the rows of the pages it read, in
  order, without those whose marker an earlier row has, so no marker appears twice. Each page was
  read at its cursor, the cursors go strictly down, at most \<open>MaxPages\<close> pages are read and at
  least one, and a result that says it is truncated read all of them.\<close>
theorem cursor_walk_equals_reference:
  assumes "GetCursorPages N path q c = (Some (Inr x), c')"
  shows "\<exists>tr. rowsOf (er_Data x) = map VMap (dedupRows (cq_CursorKey q) {} (concat (map snd tr)))
    \<and> distinct (filter (\<lambda>m. m \<noteq> VNil) (map (\<lambda>row. lookupAny row (cq_CursorKey q)) (jMaps (er_Data x))))
    \<and> (\<forall>(cursor, rows) \<in> set tr. \<exists>(c::esi) r c'. cachedGet N path (cq_CharacterID q)
          (mapSet (cq_Params q) (cq_CursorParam q) cursor) None c = (Inr r, c') \<and> rows = jMaps (er_Data r))
    \<and> goesDown N (map fst tr)
    \<and> er_Pages x = Some (int (length tr)) \<and> 1 \<le> length tr \<and> int (length tr) \<le> max (cq_MaxPages q) 1
    \<and> (er_Truncated x \<longrightarrow> int (length tr) = max (cq_MaxPages q) 1)"
proof -
  let ?w0 = "startWalk path q"
  obtain out c1 where loop: "cursorLoop N (nat (cw_maxPages ?w0)) 0 ?w0 c = (out, c1)" by fastforce
  have start: "fitsTrace N [] ?w0" "goesDown N (map fst ([] :: (any \<times> object list) list) @ [cw_cursor ?w0])"
    "\<not> cw_truncated ?w0" "cw_maxPages ?w0 = 0 + int (nat (cw_maxPages ?w0))"
    "(0::int) = int (length ([] :: (any \<times> object list) list))" "0 < nat (cw_maxPages ?w0)"
    by (auto simp: fitsTrace_def startWalk_def goesDown_def)
  have "out \<noteq> Continue w" for w using cursorLoop_never_continues loop by (metis fst_conv)
  then obtain w where w: "out = Stop w" "x = walkResult w"
    using assms loop by (cases out) (auto simp: GetCursorPages_def Let_def)
  from cursorLoop_fits [OF start(1-3) loop [unfolded w(1)] start(4-6)] obtain tr where
    tr: "fitsTrace N tr w" "sameQuery ?w0 w" "goesDown N (map fst tr)" "0 < length tr"
      "int (length tr) \<le> cw_maxPages ?w0" "cw_truncated w \<longrightarrow> int (length tr) = cw_maxPages ?w0" by auto
  have data: "cw_data w = dedupRows (cq_CursorKey q) {} (concat (map snd tr))"
    using tr(1,2) by (simp add: fitsTrace_def sameQuery_def startWalk_def)
  have read: "wasRead N w e" if "e \<in> set tr" for e using tr(1) that by (simp add: fitsTrace_def)
  have rows: "rowsOf (er_Data x) = map VMap (cw_data w)" "jMaps (er_Data x) = cw_data w"
    by (auto simp: w(2) walkResult_def rowsOf_def jSlice_def jMaps_def)
  have q: "cw_path w = path" "cw_characterID w = cq_CharacterID q" "cw_base w = cq_Params q"
    "cw_cursorParam w = cq_CursorParam q" "cw_maxPages ?w0 = max (cq_MaxPages q) 1"
    using tr(2) by (simp_all add: sameQuery_def startWalk_def)
  have "rowsOf (er_Data x) = map VMap (dedupRows (cq_CursorKey q) {} (concat (map snd tr)))"
    using rows(1) data by simp
  moreover have "distinct (filter (\<lambda>m. m \<noteq> VNil) (map (\<lambda>row. lookupAny row (cq_CursorKey q)) (jMaps (er_Data x))))"
    unfolding rows(2) data using dedupRows_distinct by blast
  moreover have "\<forall>(cursor, rows) \<in> set tr. \<exists>(c::esi) r c'. cachedGet N path (cq_CharacterID q)
          (mapSet (cq_Params q) (cq_CursorParam q) cursor) None c = (Inr r, c') \<and> rows = jMaps (er_Data r)"
    using read unfolding wasRead_def q(1-4) by fastforce
  moreover have "er_Pages x = Some (int (length tr))" "1 \<le> length tr"
    "int (length tr) \<le> max (cq_MaxPages q) 1"
    "er_Truncated x \<longrightarrow> int (length tr) = max (cq_MaxPages q) 1"
    using tr(1,4,5,6) q(5) Suc_leI [of 0 "length tr"] by (simp_all add: w(2) walkResult_def fitsTrace_def)
  ultimately show ?thesis using tr(3) by (intro exI [of _ tr] conjI)
qed

definition sampleQuery :: CursorQuery where
  "sampleQuery = \<lparr>cq_CharacterID = None, cq_Params = [], cq_CursorParam = ''from_id'', cq_CursorKey = ''id'',
     cq_BatchSize = 50, cq_MaxPages = 3\<rparr>"

lemma sample_walk:
  "\<exists>x c'. GetCursorPages (answerNet okAnswer) ''/status'' sampleQuery (ForUser second newResponseCache)
     = (Some (Inr x), c') \<and> er_Truncated x = False"
proof -
  have n: "normalise (mapSet [] ''from_id'' VNil) = []" by (simp add: mapSet_def)
  have "nat (max 3 1) = Suc (Suc (Suc 0))" by simp
  then show ?thesis
    by (simp add: GetCursorPages_def startWalk_def sampleQuery_def stepCursor_def status_get_params [OF n]
        jMaps_def rowsOf_def jSlice_def Let_def walkResult_def countFetch_def numeral_3_eq_3)
qed

lemma cursor_walk_equals_reference_witness:
  "\<exists>x c'. GetCursorPages (answerNet okAnswer) ''/status'' sampleQuery (ForUser second newResponseCache)
      = (Some (Inr x), c') \<and> (\<exists>n. er_Pages x = Some n \<and> 1 \<le> n \<and> n \<le> 3)"
proof -
  obtain x c' where x: "GetCursorPages (answerNet okAnswer) ''/status'' sampleQuery
      (ForUser second newResponseCache) = (Some (Inr x), c')" using sample_walk by blast
  from cursor_walk_equals_reference [OF x] obtain n where "er_Pages x = Some n" "1 \<le> n" "n \<le> 3"
    by (auto simp: sampleQuery_def)
  then show ?thesis using x by blast
qed

lemma gatherPages_error: "gatherPages acc rs = Inl e \<Longrightarrow> Inl e \<in> set rs"
  by (induction acc rs rule: gatherPages.induct) (auto split: sum.splits)

text \<open>Reading all pages returns every row: a result of several pages has the rows of the
  first page followed by those of the pages 2 up to the limit in the order in which they
  arrived, and nothing else; it is fresh only if every page is; it says it is truncated exactly
  when there are more pages than the limit; and the error of any page is the error of the
  whole.\<close>
theorem all_pages_are_added_up:
  assumes "cachedGet N path cid (withPage params 1) None c = (Inr first, c1)"
    and "er_Pages first = Some pages" "1 < pages" "isSlice (er_Data first)" "1 \<le> maxPages"
    and "fetchPages N path cid params (arrival (min pages maxPages)) c1 = (rs, c2)"
    and "mset (arrival (min pages maxPages)) = mset [2..min pages maxPages]"
  shows "snd (GetAllPages N path cid params maxPages arrival c) = c2
    \<and> int (length rs) = min pages maxPages - 1
    \<and> (if \<exists>r \<in> set rs. isl r
       then \<exists>e. fst (GetAllPages N path cid params maxPages arrival c) = Some (Inl e) \<and> Inl e \<in> set rs
       else \<exists>x. fst (GetAllPages N path cid params maxPages arrival c) = Some (Inr x)
         \<and> er_Data x = VSlice (concat (map (\<lambda>r. rowsOf (er_Data r)) (first # map projr rs)))
         \<and> er_FromCache x = (\<forall>r \<in> set (first # map projr rs). er_FromCache r)
         \<and> (\<forall>r \<in> set (first # map projr rs). er_AgeSeconds r \<le> er_AgeSeconds x)
         \<and> er_Truncated x = (maxPages < pages) \<and> er_Pages x = Some pages)"
proof -
  let ?acc = "(rowsOf (er_Data first), er_AgeSeconds first, er_FromCache first)"
  have unf: "GetAllPages N path cid params maxPages arrival c =
     (Some (case gatherPages ?acc rs of Inl e \<Rightarrow> Inl e
        | Inr (data, oldest, allCached) \<Rightarrow> Inr
            \<lparr>er_Data = VSlice data, er_FromCache = allCached, er_AgeSeconds = oldest,
             er_ExpiresAt = er_ExpiresAt first, er_Pages = Some pages,
             er_Truncated = min pages maxPages < pages\<rparr>), c2)"
    using assms(2-5) by (simp add: GetAllPages_def assms(1,6) Let_def)
  have "length rs = length (arrival (min pages maxPages))" using fetchPages_worked [OF assms(6)] by simp
  also have "\<dots> = length [2..min pages maxPages]" using assms(7) by (metis size_mset)
  finally have len: "int (length rs) = min pages maxPages - 1" using assms(3,5) by simp
  show ?thesis
  proof (cases "gatherPages ?acc rs")
    case (Inl e)
    then show ?thesis using unf len gatherPages_error [OF Inl] by (auto intro!: bexI [of _ "Inl e"])
  next
    case (Inr a)
    obtain data oldest ac where a: "a = (data, oldest, ac)" by (cases a) auto
    note rows = gatherPages_rows [OF Inr [unfolded a]]
    have "er_Truncated x = (maxPages < pages)" if "er_Truncated x = (min pages maxPages < pages)" for x :: esiResult
      using that by auto
    then show ?thesis using unf len rows Inr a by (auto simp: comp_def min_less_iff_disj)
  qed
qed

definition pagedAnswer :: resp where
  "pagedAnswer = \<lparr>rs_status = 200, rs_headers = [(''X-Pages'', ''2'')], rs_body = Inr ''[]''\<rparr>"

lemma paged_first:
  "\<exists>first c1. cachedGet (answerNet pagedAnswer) ''/p'' None (withPage [] 1) None (ForUser second newResponseCache)
      = (Inr first, c1) \<and> er_Pages first = Some 2 \<and> isSlice (er_Data first)"
proof -
  have "canonicalKey (answerNet pagedAnswer) ''/p'' None (withPage [] 1) \<noteq> None"
    by (simp add: canonicalKey_def jsonObject_def sort_key_def withPage_def mapSet_def)
  then obtain key where key: "cacheKey (answerNet pagedAnswer) ''/p'' None (withPage [] 1) = Inr key"
    by (auto simp: cacheKey_def)
  have g: "rcGet key (ec_cache (ForUser second newResponseCache)) = (None, newResponseCache)"
    by (simp add: ForUser_simps rcGet_def newResponseCache_def)
  have c: "(ForUser second newResponseCache)\<lparr>ec_cache := newResponseCache\<rparr> = ForUser second newResponseCache"
    by (simp add: ForUser_def)
  have rq: "\<exists>c2. request (answerNet pagedAnswer) call 0 (ForUser second newResponseCache) = (Inr pagedAnswer, c2)"
    if "hc_jsonBody call = VNil" for call
    using that by (simp add: request.simps client_run_defs ForUser_def answerNet_def pagedAnswer_def Let_def)
  have e: "checkErrorBudget (ForUser second newResponseCache) = (None, ForUser second newResponseCache)"
    by (simp add: client_run_defs ForUser_def)
  have h: "esiHeaders (answerNet pagedAnswer) None = Inr (projr (esiHeaders (answerNet pagedAnswer) None))"
    by (simp add: esiHeaders_def Let_def)
  let ?call = "\<lparr>hc_method = MethodGet, hc_path = ''/p'', hc_params = withPage [] 1,
     hc_headers = projr (esiHeaders (answerNet pagedAnswer) None), hc_jsonBody = VNil\<rparr>"
  obtain c2 where c2: "request (answerNet pagedAnswer) ?call 0 (ForUser second newResponseCache) = (Inr pagedAnswer, c2)"
    using rq [of ?call] by auto
  have rb: "readBody pagedAnswer = Inr ''[]''" by (simp add: readBody_def pagedAnswer_def maxResponseBody_def)
  have "cachedGet (answerNet pagedAnswer) ''/p'' None (withPage [] 1) None (ForUser second newResponseCache)
      = finishGet (answerNet pagedAnswer) pagedAnswer ''[]'' key None ''/p'' None c2"
    by (simp only: cachedGet_def key Let_def sum.case g prod.case option.case c e) (subst h,
      simp only: sum.case withETag_def option.case c2 prod.case rb)
  then show ?thesis
    by (simp add: finishGet_def pagedAnswer_def decode_def answerNet_def jsonArray_def joinStr_def Let_def
        intHeader_def headerGet_def parseInt64_def isDigitChar_def digitsVal_def isSlice_def)
qed

lemma all_pages_are_added_up_witness:
  "\<exists>rs. int (length (rs :: (goerr + esiResult) list)) = 1
     \<and> snd (GetAllPages (answerNet pagedAnswer) ''/p'' None [] 5 (\<lambda>n. [2..n]) (ForUser second newResponseCache))
       = snd (fetchPages (answerNet pagedAnswer) ''/p'' None [] [2]
           (snd (cachedGet (answerNet pagedAnswer) ''/p'' None (withPage [] 1) None (ForUser second newResponseCache))))"
proof -
  obtain first c1 where f: "cachedGet (answerNet pagedAnswer) ''/p'' None (withPage [] 1) None
      (ForUser second newResponseCache) = (Inr first, c1)" "er_Pages first = Some 2" "isSlice (er_Data first)"
    using paged_first by blast
  obtain rs c2 where fp: "fetchPages (answerNet pagedAnswer) ''/p'' None [] [2..min 2 5] c1 = (rs, c2)" by fastforce
  have one: "[2..min 2 5] = [2 :: int]" by (simp add: upto.simps)
  from all_pages_are_added_up [where arrival = "\<lambda>n. [2..n]" and maxPages = 5, OF f(1,2) _ f(3) _ fp refl]
  have "snd (GetAllPages (answerNet pagedAnswer) ''/p'' None [] 5 (\<lambda>n. [2..n]) (ForUser second newResponseCache)) = c2
     \<and> int (length rs) = 1" by simp
  then show ?thesis using f(1) fp unfolding one by (intro exI [of _ rs]) simp
qed

end
