(* ===== verification/Resolver.thy ===== *)
theory Resolver
  imports EsiPages "HOL-Library.Product_Lexorder"
begin

text \<open>
  Names, item types and prices behind the tools (adapter/esi/http/resolver.go), with the routes
  (adapter/esi/path.go) and the name matches (adapter/esi/names.go) they use. The resolver keeps
  a name cache, a cache of static data and the reference prices; it asks ESI for the rest.

  The orders Go leaves open are arguments: \<open>gl_ids\<close> and \<open>gl_keys\<close> are the order in which a map
  or a set is ranged over, \<open>gl_ids\<close> also the order in which concurrent lookups run and answer.
  \<open>gl_toLower\<close> is \<open>strings.ToLower\<close>. A Go map built key by key is an association list with
  \<open>mapPut\<close> for the assignment.
\<close>

record goLib =
  gl_toLower :: "string \<Rightarrow> string"
  gl_ids :: "int list \<Rightarrow> int list"
  gl_keys :: "string list \<Rightarrow> string list"

definition mapPut :: "'k \<Rightarrow> 'v \<Rightarrow> ('k \<times> 'v) list \<Rightarrow> ('k \<times> 'v) list" where
  "mapPut k v m = (k, v) # dropKey k m"

lemma map_of_dropKey: "map_of (dropKey k m) = (map_of m)(k := None)"
  by (rule ext) (use entry_dropKey [of _ k m] in \<open>auto simp: entry_def split: if_splits\<close>)

lemma map_of_mapPut [simp]: "map_of (mapPut k v m) = (map_of m)(k \<mapsto> v)"
  by (simp add: mapPut_def map_of_dropKey)

subsection \<open>Routes\<close>

definition unreservedByte :: "char \<Rightarrow> bool" where
  \<comment> \<open>what \<open>url.PathEscape\<close> leaves alone\<close>
  "unreservedByte c \<longleftrightarrow> (CHR ''a'' \<le> c \<and> c \<le> CHR ''z'') \<or> (CHR ''A'' \<le> c \<and> c \<le> CHR ''Z'')
     \<or> (CHR ''0'' \<le> c \<and> c \<le> CHR ''9'') \<or> List.member ''-_.~$&+=:@'' c"

definition upperHex :: "nat \<Rightarrow> char" where
  "upperHex n = ''0123456789ABCDEF'' ! n"

definition pathEscape :: "string \<Rightarrow> string" where
  "pathEscape s = concat (map (\<lambda>c. if unreservedByte c then [c]
     else [CHR ''%'', upperHex (of_char c div 16), upperHex (of_char c mod 16)]) s)"

datatype pathElem = Arg string | Seg string

record Route =
  rt_raw :: string
  rt_pattern :: string

definition ID :: "int \<Rightarrow> pathElem" where "ID i = Arg (itoa i)"

definition idPattern :: string where "idPattern = ''{id}''"

definition segment :: "pathElem \<Rightarrow> string \<times> string" where
  "segment e = (case e of Arg v \<Rightarrow> (pathEscape v, idPattern)
     | Seg s \<Rightarrow> (let esc = pathEscape s in (esc, esc)))"

definition staticRoute :: "pathElem list \<Rightarrow> Route option" where
  "staticRoute es = (case es of [Seg s] \<Rightarrow>
     if hasPrefix s ''/'' then Some \<lparr>rt_raw = s, rt_pattern = s\<rparr> else None | _ \<Rightarrow> None)"

definition Path :: "pathElem list \<Rightarrow> Route" where
  "Path es = (case staticRoute es of Some r \<Rightarrow> r
     | None \<Rightarrow> \<lparr>rt_raw = ''/'' @ joinStr ''/'' (map (fst \<circ> segment) es),
               rt_pattern = ''/'' @ joinStr ''/'' (map (snd \<circ> segment) es)\<rparr>)"

subsection \<open>Matches of a name\<close>

record NameMatch =
  nm_ID :: int
  nm_Name :: string
  nm_Category :: string
  nm_Kind :: string

record NameResolution =
  nr_Query :: string
  nr_Chosen :: "NameMatch option"
  nr_Alternatives :: "NameMatch list"

definition Ambiguous :: "NameResolution \<Rightarrow> bool" where
  "Ambiguous r \<longleftrightarrow> nr_Alternatives r \<noteq> []"

definition article :: "goLib \<Rightarrow> string \<Rightarrow> string" where
  "article L kind = (if kind = [] then ''a thing''
     else if List.member [''a'', ''e'', ''i'', ''o'', ''u''] (gl_toLower L (take 1 kind)) then ''an '' @ kind
     else ''a '' @ kind)"

definition Describe :: "fmtlib \<Rightarrow> goLib \<Rightarrow> NameResolution \<Rightarrow> string" where
  "Describe F L r = (case nr_Chosen r of None \<Rightarrow> fm_q F (nr_Query r) @ '' matched nothing''
     | Some m \<Rightarrow>
        (let say = (\<lambda>m. article L (nm_Kind m) @ '' (#'' @ itoa (nm_ID m) @ '')'') in
         fm_q F (nr_Query r) @ '' is '' @ say m @ '' and also '' @ joinStr '', '' (map say (nr_Alternatives r))))"

definition CategoryKind :: "string \<Rightarrow> string" where
  "CategoryKind key = (case map_of
     [(''agents'', ''agent''), (''alliances'', ''alliance''), (''characters'', ''character''),
      (''constellations'', ''constellation''), (''corporations'', ''corporation''),
      (''factions'', ''faction''), (''inventory_types'', ''item type''), (''regions'', ''region''),
      (''stations'', ''station''), (''systems'', ''solar system'')] key of
     Some kind \<Rightarrow> kind | None \<Rightarrow> [])"

text \<open>\<open>buckets[k] = append(buckets[k], m)\<close> is one more pair; a bucket is read with \<open>bucketOf\<close>.\<close>

definition bucketOf :: "string \<Rightarrow> (string \<times> NameMatch) list \<Rightarrow> NameMatch list" where
  "bucketOf k bs = map snd (filter (\<lambda>e. fst e = k) bs)"

definition fold_name :: "esinet \<Rightarrow> goLib \<Rightarrow> string \<Rightarrow> string" where
  \<comment> \<open>\<open>strings.ToLower(strings.TrimSpace(s))\<close>\<close>
  "fold_name N L s = gl_toLower L (nt_trimSpace N s)"

definition bucketEntries :: "esinet \<Rightarrow> goLib \<Rightarrow> string \<Rightarrow> any \<Rightarrow> (string \<times> NameMatch) list" where
  "bucketEntries N L key entries =
    (let kind = (if CategoryKind key = [] then key else CategoryKind key) in
     concat (map (\<lambda>e. let i = jInt (nt_parseFloat N) (lookupAny e ''id''); name = jStr (lookupAny e ''name'') in
       if i = 0 \<or> name = [] then []
       else [(fold_name N L name, \<lparr>nm_ID = i, nm_Name = name, nm_Category = key, nm_Kind = kind\<rparr>)])
       (jMaps entries)))"

definition collectNameBuckets :: "esinet \<Rightarrow> goLib \<Rightarrow> object \<Rightarrow> string list \<Rightarrow> (string \<times> NameMatch) list" where
  "collectNameBuckets N L lookup only =
    concat (map (\<lambda>key. if only \<noteq> [] \<and> \<not> List.member only key then []
                       else bucketEntries N L key (lookupAny lookup key))
      (gl_keys L (map fst lookup)))"

definition preferRank :: "string list \<Rightarrow> (string \<times> nat) list" where
  "preferRank prefer = foldl (\<lambda>m (i, key). mapPut key i m) [] (zip [0..<length prefer] prefer)"

definition rankOf :: "(string \<times> nat) list \<Rightarrow> NameMatch \<Rightarrow> nat" where
  "rankOf rank m = (case map_of rank (nm_Category m) of Some r \<Rightarrow> r | None \<Rightarrow> length rank)"

definition lessNameMatch :: "(string \<times> nat) list \<Rightarrow> NameMatch \<Rightarrow> NameMatch \<Rightarrow> bool" where
  "lessNameMatch rank a b =
    (if rankOf rank a \<noteq> rankOf rank b then rankOf rank a < rankOf rank b
     else if nm_Category a \<noteq> nm_Category b then nm_Category a < nm_Category b
     else nm_ID a < nm_ID b)"

text \<open>\<open>sort.Slice\<close>: the order of elements neither of which is less is open in Go, stable here.\<close>

fun insertBy :: "('a \<Rightarrow> 'a \<Rightarrow> bool) \<Rightarrow> 'a \<Rightarrow> 'a list \<Rightarrow> 'a list" where
  "insertBy lt x [] = [x]"
| "insertBy lt x (y # ys) = (if lt y x then y # insertBy lt x ys else x # y # ys)"

definition sortSlice :: "('a \<Rightarrow> 'a \<Rightarrow> bool) \<Rightarrow> 'a list \<Rightarrow> 'a list" where
  "sortSlice lt xs = foldr (insertBy lt) xs []"

definition resolution :: "esinet \<Rightarrow> string \<Rightarrow> NameMatch list \<Rightarrow> NameResolution" where
  "resolution N asked ms = (case ms of
     [] \<Rightarrow> \<lparr>nr_Query = nt_trimSpace N asked, nr_Chosen = None, nr_Alternatives = []\<rparr>
   | m # rest \<Rightarrow> \<lparr>nr_Query = nt_trimSpace N asked, nr_Chosen = Some m, nr_Alternatives = rest\<rparr>)"

definition pickNameResolutions :: "esinet \<Rightarrow> goLib \<Rightarrow> string list \<Rightarrow> (string \<times> NameMatch) list
    \<Rightarrow> (string \<times> nat) list \<Rightarrow> (string \<times> NameResolution) list" where
  "pickNameResolutions N L names buckets rank =
    foldl (\<lambda>out asked. mapPut (fold_name N L asked)
        (resolution N asked (sortSlice (lessNameMatch rank) (bucketOf (fold_name N L asked) buckets))) out)
      [] names"

definition resolved :: "(string \<times> NameResolution) list \<Rightarrow> string \<Rightarrow> NameResolution" where
  \<comment> \<open>\<open>resolutions[k]\<close>, the zero value for a missing key\<close>
  "resolved rs k = (case map_of rs k of Some r \<Rightarrow> r
     | None \<Rightarrow> \<lparr>nr_Query = [], nr_Chosen = None, nr_Alternatives = []\<rparr>)"

subsection \<open>The resolver's state and its reads of ESI\<close>

record rdr =
  rd_esi :: esi
  rd_names :: nameCache
  rd_blobs :: "(string \<times> (any \<times> time)) list"
  rd_prices :: "((int \<times> (rat \<times> rat)) list \<times> time) option"

definition ForUserRdr :: "esi \<Rightarrow> rdr \<Rightarrow> rdr" where
  \<comment> \<open>\<open>Resolver.ForUser\<close>: another client, the same caches\<close>
  "ForUserRdr c d = d\<lparr>rd_esi := c\<rparr>"

definition NewResolver :: "esi \<Rightarrow> rdr" where
  "NewResolver c = \<lparr>rd_esi = c, rd_names = [], rd_blobs = [], rd_prices = None\<rparr>"

definition onEsi :: "(esi \<Rightarrow> 'a \<times> esi) \<Rightarrow> rdr \<Rightarrow> 'a \<times> rdr" where
  "onEsi f d = (let (r, c) = f (rd_esi d) in (r, d\<lparr>rd_esi := c\<rparr>))"

definition ask :: "esinet \<Rightarrow> Route \<Rightarrow> int option \<Rightarrow> object \<Rightarrow> rdr \<Rightarrow> (goerr + esiResult) \<times> rdr" where
  \<comment> \<open>\<open>r.esi.Get(ctx, route, characterID, params, nil)\<close>\<close>
  "ask N route cid params = onEsi (esiGet N (rt_raw route) cid params None)"

definition post :: "esinet \<Rightarrow> Route \<Rightarrow> int option \<Rightarrow> object \<Rightarrow> any \<Rightarrow> rdr \<Rightarrow> (goerr + any) \<times> rdr" where
  "post N route cid params body = onEsi (esiPost N (rt_raw route) cid params body)"

text \<open>
  The panic of a page count below one is an error here that no caller meets: all pass constant
  counts, and then \<open>GetAllPages\<close> does not panic (\<open>GetAllPages_returns\<close>).
\<close>

definition askAll :: "esinet \<Rightarrow> goLib \<Rightarrow> Route \<Rightarrow> int option \<Rightarrow> object \<Rightarrow> int \<Rightarrow> rdr \<Rightarrow> (goerr + esiResult) \<times> rdr" where
  "askAll N L route cid params maxPages d =
    (case onEsi (GetAllPages N (rt_raw route) cid params maxPages (\<lambda>n. gl_ids L [2..n])) d of
       (None, d1) \<Rightarrow> (Inl (External ''panic''), d1)
     | (Some r, d1) \<Rightarrow> (r, d1))"

lemma GetAllPages_returns: "1 \<le> maxPages \<Longrightarrow> fst (GetAllPages N path cid params maxPages arrival c) \<noteq> None"
  by (auto simp: GetAllPages_def Let_def split: prod.splits sum.splits option.splits)

subsection \<open>Names\<close>

definition nameBatch :: nat where "nameBatch = 900"
definition idsBatch :: nat where "idsBatch = 500"
definition structureIDFloor :: int where "structureIDFloor = 1000000000000"
definition staticBlobAge :: duration where "staticBlobAge = 30 * day"
definition priceTTL :: duration where "priceTTL = 3600 * second"
definition hubOrderPages :: int where "hubOrderPages = 10"

definition uniquePositive :: "int list \<Rightarrow> int list" where
  \<comment> \<open>the elements of the set\<close>
  "uniquePositive ids = remdups (filter (\<lambda>i. i \<noteq> 0) ids)"

fun learnNames :: "esinet \<Rightarrow> object list \<Rightarrow> (int \<times> string) list \<Rightarrow> nameCache \<Rightarrow> (int \<times> string) list \<times> nameCache" where
  "learnNames N [] out nc = (out, nc)"
| "learnNames N (row # rows) out nc =
    (let i = jInt (nt_parseFloat N) (lookupAny row ''id''); name = jStr (lookupAny row ''name'') in
     if i = 0 \<or> name = [] then learnNames N rows out nc
     else learnNames N rows (mapPut i name out) (ncPut i name nc))"

function fillUniverseNames :: "esinet \<Rightarrow> (int \<times> string) list \<Rightarrow> int list \<Rightarrow> rdr \<Rightarrow> (int \<times> string) list \<times> rdr" where
  "fillUniverseNames N out universal d =
    (if universal = [] then (out, d)
     else case post N (Path [Seg ''/universe/names'']) None [] (VInts (take nameBatch universal)) d of
       (Inl e, d1) \<Rightarrow> fillUniverseNames N out (drop nameBatch universal) d1
     | (Inr res, d1) \<Rightarrow> (let (out1, nc) = learnNames N (jMaps res) out (rd_names d1) in
         fillUniverseNames N out1 (drop nameBatch universal) (d1\<lparr>rd_names := nc\<rparr>)))"
  by pat_completeness auto
termination by (relation "measure (\<lambda>(N, out, universal, d). length universal)") (auto simp: nameBatch_def)

declare fillUniverseNames.simps [simp del]

definition structureName :: "esinet \<Rightarrow> int \<Rightarrow> int \<Rightarrow> rdr \<Rightarrow> (goerr + string) \<times> rdr" where
  "structureName N structureID characterID d =
    (case ask N (Path [Seg ''universe'', Seg ''structures'', ID structureID]) (Some characterID) [] d of
       (Inl e, d1) \<Rightarrow> (Inl (Wrap (esiOp ''structureName'') e), d1)
     | (Inr res, d1) \<Rightarrow> (let name = jStr (lookupAny (jMap (er_Data res)) ''name'') in
         (Inr (if name = [] then ''Structure #'' @ itoa structureID else name), d1)))"

fun fillStructures :: "esinet \<Rightarrow> int \<Rightarrow> int list \<Rightarrow> (int \<times> string) list \<Rightarrow> rdr \<Rightarrow> (int \<times> string) list \<times> rdr" where
  "fillStructures N cid [] out d = (out, d)"
| "fillStructures N cid (sid # sids) out d = (case structureName N sid cid d of
     (Inl e, d1) \<Rightarrow> fillStructures N cid sids out d1
   | (Inr name, d1) \<Rightarrow> fillStructures N cid sids (mapPut sid name out)
        (d1\<lparr>rd_names := ncPut sid name (rd_names d1)\<rparr>))"

definition fillStructureNames :: "esinet \<Rightarrow> goLib \<Rightarrow> (int \<times> string) list \<Rightarrow> int list \<Rightarrow> int \<Rightarrow> rdr
    \<Rightarrow> (int \<times> string) list \<times> rdr" where
  "fillStructureNames N L out structures cid d = fillStructures N cid (gl_ids L structures) out d"

definition fillMissingNames :: "esinet \<Rightarrow> goLib \<Rightarrow> (int \<times> string) list \<Rightarrow> int list \<Rightarrow> int option \<Rightarrow> rdr
    \<Rightarrow> (int \<times> string) list \<times> rdr" where
  "fillMissingNames N L out missing cid d =
    (let structures = filter (\<lambda>i. structureIDFloor \<le> i) missing;
         universal = filter (\<lambda>i. i < structureIDFloor) missing;
         (out1, d1) = fillUniverseNames N out universal d
     in case cid of None \<Rightarrow> (out1, d1)
        | Some c \<Rightarrow> if structures = [] then (out1, d1) else fillStructureNames N L out1 structures c d1)"

definition unknownName :: "int \<Rightarrow> string" where "unknownName i = ''Unknown #'' @ itoa i"

definition nameTheRest :: "int list \<Rightarrow> (int \<times> string) list \<Rightarrow> (int \<times> string) list" where
  "nameTheRest wanted names =
    foldl (\<lambda>m i. if map_of m i = None then mapPut i (unknownName i) m else m) names wanted"

definition Names :: "esinet \<Rightarrow> goLib \<Rightarrow> int list \<Rightarrow> int option \<Rightarrow> rdr \<Rightarrow> (goerr + (int \<times> string) list) \<times> rdr" where
  "Names N L ids cid d =
    (let wanted = uniquePositive ids in
     if wanted = [] then (Inr [], d)
     else let ((names, missing), nc) = ncGet (gl_ids L wanted) (rd_names d);
              d1 = d\<lparr>rd_names := nc\<rparr> in
       if missing = [] then (Inr names, d1)
       else let (names1, d2) = fillMissingNames N L names missing cid d1 in
         (Inr (nameTheRest (gl_ids L wanted) names1), d2))"

definition NameOf :: "esinet \<Rightarrow> goLib \<Rightarrow> int \<Rightarrow> int option \<Rightarrow> rdr \<Rightarrow> (goerr + string) \<times> rdr" where
  \<comment> \<open>\<open>Resolver.Name\<close>; every caller drops the text that comes with an error\<close>
  "NameOf N L i cid d = (case Names N L [i] cid d of
     (Inl e, d1) \<Rightarrow> (Inl e, d1)
   | (Inr m, d1) \<Rightarrow> (Inr (case map_of m i of Some n \<Rightarrow> n | None \<Rightarrow> unknownName i), d1))"

subsection \<open>Ids from names\<close>

fun uniqueNames :: "esinet \<Rightarrow> string list \<Rightarrow> string list \<Rightarrow> string list" where
  "uniqueNames N seen [] = []"
| "uniqueNames N seen (n # ns) = (let t = nt_trimSpace N n in
     if t = [] \<or> List.member seen t then uniqueNames N seen ns
     else t # uniqueNames N (t # seen) ns)"

definition addPart :: "object \<Rightarrow> object \<Rightarrow> object" where
  "addPart out part = foldl (\<lambda>m (key, rows). mapPut key (VSlice (rowsOf (lookupAny m key) @ rowsOf rows)) m) out part"

function idsLoop :: "esinet \<Rightarrow> string list \<Rightarrow> object \<Rightarrow> rdr \<Rightarrow> (goerr + object) \<times> rdr" where
  "idsLoop N unique out d =
    (if unique = [] then (Inr out, d)
     else case post N (Path [Seg ''/universe/ids'']) None [] (VStrs (take idsBatch unique)) d of
       (Inl e, d1) \<Rightarrow> (Inl (Wrap (esiOp ''IDsFromNames'') e), d1)
     | (Inr part, d1) \<Rightarrow> idsLoop N (drop idsBatch unique) (addPart out (jMap part)) d1)"
  by pat_completeness auto
termination by (relation "measure (\<lambda>(N, unique, out, d). length unique)") (auto simp: idsBatch_def)

declare idsLoop.simps [simp del]

definition IDsFromNames :: "esinet \<Rightarrow> string list \<Rightarrow> rdr \<Rightarrow> (goerr + object) \<times> rdr" where
  "IDsFromNames N names d = idsLoop N (uniqueNames N [] names) [] d"

definition ResolveNames :: "esinet \<Rightarrow> goLib \<Rightarrow> string list \<Rightarrow> string list \<Rightarrow> string list \<Rightarrow> rdr
    \<Rightarrow> (goerr + (string \<times> NameResolution) list) \<times> rdr" where
  "ResolveNames N L names prefer only d = (case IDsFromNames N names d of
     (Inl e, d1) \<Rightarrow> (Inl e, d1)
   | (Inr lookup, d1) \<Rightarrow>
       (Inr (pickNameResolutions N L names (collectNameBuckets N L lookup only) (preferRank prefer)), d1))"

subsection \<open>Types, groups and prices\<close>

definition blob :: "string \<Rightarrow> duration \<Rightarrow> rdr \<Rightarrow> any" where
  "blob key age d = (case entry key (rd_blobs d) of None \<Rightarrow> VNil
     | Some (v, since) \<Rightarrow> if age < ec_now (rd_esi d) - since then VNil else v)"

definition putBlob :: "string \<Rightarrow> any \<Rightarrow> rdr \<Rightarrow> rdr" where
  "putBlob key v d = d\<lparr>rd_blobs := mapPut key (v, ec_now (rd_esi d)) (rd_blobs d)\<rparr>"

definition TypeInfo :: "esinet \<Rightarrow> int \<Rightarrow> rdr \<Rightarrow> (goerr + object) \<times> rdr" where
  "TypeInfo N typeID d =
    (let key = ''type:'' @ itoa typeID; cached = blob key staticBlobAge d in
     if cached \<noteq> VNil then (Inr (jMap cached), d)
     else case ask N (Path [Seg ''universe'', Seg ''types'', ID typeID]) None [] d of
       (Inl e, d1) \<Rightarrow> (Inl (Wrap (esiOp ''TypeInfo'') e), d1)
     | (Inr res, d1) \<Rightarrow> (let data = jMap (er_Data res) in (Inr data, putBlob key (VMap data) d1)))"

definition GroupName :: "esinet \<Rightarrow> int \<Rightarrow> rdr \<Rightarrow> string \<times> rdr" where
  "GroupName N groupID d =
    (if groupID = 0 then (''unknown'', d)
     else let key = ''group:'' @ itoa groupID; cached = blob key staticBlobAge d;
              text = (\<lambda>v. let name = jStr (lookupAny (jMap v) ''name'') in
                          if name = [] then ''Group #'' @ itoa groupID else name) in
       if cached \<noteq> VNil then (text cached, d)
       else case ask N (Path [Seg ''universe'', Seg ''groups'', ID groupID]) None [] d of
         (Inl e, d1) \<Rightarrow> (''Group #'' @ itoa groupID, d1)
       | (Inr res, d1) \<Rightarrow> (text (er_Data res), putBlob key (er_Data res) d1))"

fun typeInfoLoop :: "esinet \<Rightarrow> int list \<Rightarrow> rdr \<Rightarrow> (int \<times> object) list \<times> rdr" where
  "typeInfoLoop N [] d = ([], d)"
| "typeInfoLoop N (t # ts) d =
    (let (r, d1) = TypeInfo N t d; (out, d2) = typeInfoLoop N ts d1 in
     (case r of Inl _ \<Rightarrow> out | Inr info \<Rightarrow> (t, info) # out, d2))"

definition TypeInfos :: "esinet \<Rightarrow> goLib \<Rightarrow> int list \<Rightarrow> rdr \<Rightarrow> (int \<times> object) list \<times> rdr" where
  "TypeInfos N L typeIDs d = typeInfoLoop N (gl_ids L (uniquePositive typeIDs)) d"

text \<open>The prices of a type: average and adjusted.\<close>

definition priceRow :: "esinet \<Rightarrow> object \<Rightarrow> int \<times> (rat \<times> rat)" where
  "priceRow N row = (jInt (nt_parseFloat N) (lookupAny row ''type_id''),
     (jFloat (nt_parseFloat N) (lookupAny row ''average_price''),
      jFloat (nt_parseFloat N) (lookupAny row ''adjusted_price'')))"

definition pricesOf :: "esinet \<Rightarrow> object list \<Rightarrow> (int \<times> (rat \<times> rat)) list" where
  "pricesOf N rows = foldl (\<lambda>m row. case priceRow N row of (i, p) \<Rightarrow> mapPut i p m) [] rows"

definition ReferencePrices :: "esinet \<Rightarrow> rdr \<Rightarrow> (goerr + (int \<times> (rat \<times> rat)) list) \<times> rdr" where
  "ReferencePrices N d =
    (case (case rd_prices d of None \<Rightarrow> None
           | Some (ps, since) \<Rightarrow> if ec_now (rd_esi d) - since < priceTTL then Some ps else None) of
       Some ps \<Rightarrow> (Inr ps, d)
     | None \<Rightarrow> (case ask N (Path [Seg ''/markets/prices'']) None [] d of
         (Inl e, d1) \<Rightarrow> (Inl (Wrap (esiOp ''ReferencePrices'') e), d1)
       | (Inr res, d1) \<Rightarrow> (let ps = pricesOf N (jMaps (er_Data res)) in
           (Inr ps, d1\<lparr>rd_prices := Some (ps, ec_now (rd_esi d1))\<rparr>))))"

definition unitPrice :: "(int \<times> (rat \<times> rat)) list \<Rightarrow> int \<Rightarrow> rat" where
  "unitPrice prices typeID = (case map_of prices typeID of None \<Rightarrow> 0
     | Some (average, adjusted) \<Rightarrow> if average \<noteq> 0 then average else adjusted)"

definition ReferencePrice :: "esinet \<Rightarrow> int \<Rightarrow> rdr \<Rightarrow> rat \<times> rdr" where
  "ReferencePrice N typeID d = (case ReferencePrices N d of
     (Inl e, d1) \<Rightarrow> (0, d1) | (Inr ps, d1) \<Rightarrow> (unitPrice ps typeID, d1))"

text \<open>\<open>fmt.Sprintf("%.nf")\<close>: the decimal rounded to the nearest, a tie to the even digit.\<close>

definition roundEven :: "rat \<Rightarrow> int" where
  "roundEven q = (let f = \<lfloor>q\<rfloor>; r = q - of_int f in
     if r < 1 / 2 then f else if 1 / 2 < r then f + 1 else if even f then f else f + 1)"

definition padZeros :: "nat \<Rightarrow> string \<Rightarrow> string" where
  "padZeros n s = replicate (n - length s) (CHR ''0'') @ s"

definition fixedFmt :: "nat \<Rightarrow> rat \<Rightarrow> string" where
  "fixedFmt n q =
    (let k = nat (roundEven (\<bar>q\<bar> * 10 ^ n)) in
     (if q < 0 then ''-'' else []) @ itoa (int (k div 10 ^ n)) @
     (if n = 0 then [] else ''.'' @ padZeros n (itoa (int (k mod 10 ^ n)))))"

definition StaleNote :: "rat \<Rightarrow> string" where
  "StaleNote age =
    (if age < 60 then itoa (truncInt age) @ ''s old''
     else if age < 3600 then itoa (truncInt (age / 60)) @ ''m old''
     else fixedFmt 1 (age / 3600) @ ''h old'')"

definition PageCount :: "esiResult \<Rightarrow> int" where
  "PageCount r = (case er_Pages r of Some n \<Rightarrow> if 0 < n then n else 1 | None \<Rightarrow> 1)"

definition isBuy :: "object \<Rightarrow> bool" where "isBuy o1 = jBool (lookupAny o1 ''is_buy_order'')"

definition atStation :: "esinet \<Rightarrow> int option \<Rightarrow> object list \<Rightarrow> object list" where
  "atStation N stationID orders = (case stationID of None \<Rightarrow> orders
     | Some s \<Rightarrow> (let atHub = filter (\<lambda>o1. jInt (nt_parseFloat N) (lookupAny o1 ''location_id'') = s) orders in
         if atHub = [] then orders else atHub))"

definition hubQuote :: "esinet \<Rightarrow> int \<Rightarrow> int \<Rightarrow> int option \<Rightarrow> object list \<Rightarrow> rat \<Rightarrow> object" where
  "hubQuote N typeID regionID stationID rows age =
    (let orders = atStation N stationID rows;
         price = (\<lambda>o1. jFloat (nt_parseFloat N) (lookupAny o1 ''price''));
         vol = (\<lambda>o1. jFloat (nt_parseFloat N) (lookupAny o1 ''volume_remain''));
         buyers = filter isBuy orders; sellers = filter (\<lambda>o1. \<not> isBuy o1) orders;
         sells = sort (map price sellers); buys = rev (sort (map price buyers)) in
     [(''type_id'', VInt typeID), (''region_id'', VInt regionID),
      (''best_sell'', case sells of [] \<Rightarrow> VNil | p # _ \<Rightarrow> VFloat p),
      (''best_buy'', case buys of [] \<Rightarrow> VNil | p # _ \<Rightarrow> VFloat p),
      (''sell_order_count'', VInt (int (length sells))), (''buy_order_count'', VInt (int (length buys))),
      (''sell_volume'', VFloat (sum_list (map vol sellers))),
      (''buy_volume'', VFloat (sum_list (map vol buyers))), (''data_age'', VStr (StaleNote age))]
     @ (case stationID of None \<Rightarrow> [] | Some s \<Rightarrow> [(''station_id'', VInt s)]))"

definition HubQuotes :: "esinet \<Rightarrow> goLib \<Rightarrow> int \<Rightarrow> int \<Rightarrow> int option \<Rightarrow> rdr \<Rightarrow> (goerr + object) \<times> rdr" where
  "HubQuotes N L typeID regionID stationID d =
    (case askAll N L (Path [Seg ''markets'', ID regionID, Seg ''orders'']) None
            [(''type_id'', VInt typeID), (''order_type'', VStr ''all'')] hubOrderPages d of
       (Inl e, d1) \<Rightarrow> (Inl (Wrap (esiOp ''HubQuotes'') e), d1)
     | (Inr res, d1) \<Rightarrow> (Inr (hubQuote N typeID regionID stationID (jMaps (er_Data res)) (er_AgeSeconds res)), d1))"

end
