(* ===== verification/EveCommon.thy ===== *)
theory EveCommon
  imports Resolver ErrorMap
begin

text \<open>
  What the tools share (usecase/eve/common.go, enum.go, and the results of errors.go): limits
  and pages of rows, projections, numbers and texts, enumerated arguments, and the roots of
  nested asset locations. A row is an object; \<open>float64\<close> is rational, so no number is NaN.
\<close>

definition limitDefault :: int where "limitDefault = 15"
definition esiCursorPage :: nat where "esiCursorPage = 50"

definition limitOr :: "int \<Rightarrow> int \<Rightarrow> int" where
  "limitOr v d = (if v \<le> 0 then d else v)"

definition boolDef :: "bool option \<Rightarrow> bool \<Rightarrow> bool" where
  "boolDef p d = (case p of None \<Rightarrow> d | Some b \<Rightarrow> b)"

definition concise :: "string \<Rightarrow> bool" where
  "concise format \<longleftrightarrow> format \<noteq> ''detailed''"

definition emDash :: string where "emDash = [CHR 0xE2, CHR 0x80, CHR 0x94]"

subsection \<open>Numbers and texts\<close>

definition isk :: "esinet \<Rightarrow> any \<Rightarrow> string" where
  "isk N v = (if v = VNil then emDash
     else let amount = jFloat (nt_parseFloat N) v; a = \<bar>amount\<bar> in
       if 1000000000000 \<le> a then fixedFmt 2 (amount / 1000000000000) @ ''t''
       else if 1000000000 \<le> a then fixedFmt 2 (amount / 1000000000) @ ''b''
       else if 1000000 \<le> a then fixedFmt 2 (amount / 1000000) @ ''m''
       else if 1000 \<le> a then fixedFmt 2 (amount / 1000) @ ''k''
       else fixedFmt 2 amount)"

definition lineValue :: "(int \<times> (rat \<times> rat)) list \<Rightarrow> int \<Rightarrow> int \<Rightarrow> rat" where
  "lineValue prices typeID qty = unitPrice prices typeID * of_int qty"

definition mathRound :: "rat \<Rightarrow> nat \<Rightarrow> rat" where
  "mathRound v places = (let p = 10 ^ places in of_int (truncInt (v * p + 1 / 2)) / p)"

definition roman :: "int \<Rightarrow> string" where
  "roman level = (if 0 \<le> level \<and> level < 6 then [''0'', ''I'', ''II'', ''III'', ''IV'', ''V''] ! nat level
     else itoa level)"

definition humanDelta :: "duration \<Rightarrow> string" where
  "humanDelta d =
    (let sec = truncInt (of_int d / of_int second) in
     if sec < 0 then ''done''
     else let days = sec div 86400; rem1 = sec mod 86400;
              hours = rem1 div 3600; minutes = rem1 mod 3600 div 60 in
       if 0 < days then itoa days @ ''d '' @ itoa hours @ ''h''
       else if 0 < hours then itoa hours @ ''h '' @ itoa minutes @ ''m''
       else itoa minutes @ ''m'')"

definition oldestAge :: "rat list \<Rightarrow> rat" where
  "oldestAge ages = (case ages of [] \<Rightarrow> 0 | a # rest \<Rightarrow> foldl (\<lambda>oldest x. if oldest < x then x else oldest) a rest)"

definition staleNote :: "rat list \<Rightarrow> string" where
  "staleNote ages = StaleNote (oldestAge ages)"

definition idsFrom :: "esinet \<Rightarrow> any list \<Rightarrow> int list" where
  "idsFrom N vs = filter (\<lambda>i. i \<noteq> 0) (map (jInt (nt_parseFloat N)) vs)"

definition intersect :: "string list \<Rightarrow> string list \<Rightarrow> string list" where
  "intersect have_ss want = filter (\<lambda>s. List.member want s) have_ss"

subsection \<open>Rows and pages\<close>

definition emptyVal :: "any \<Rightarrow> bool" where
  "emptyVal v = (case v of VNil \<Rightarrow> True | VNilSlice \<Rightarrow> True | VStr s \<Rightarrow> s = [] | VSlice xs \<Rightarrow> xs = []
     | VStrs xs \<Rightarrow> xs = [] | VMap m \<Rightarrow> m = [] | _ \<Rightarrow> False)"

definition project :: "object list \<Rightarrow> string list \<Rightarrow> bool \<Rightarrow> object list" where
  "project rows keep conc =
    map (filter (\<lambda>(k, v). (conc \<longrightarrow> List.member keep k) \<and> \<not> emptyVal v)) rows"

definition compact :: "object \<Rightarrow> object" where
  "compact m = filter (\<lambda>(k, v). \<not> emptyVal v) m"

definition merge_maps :: "object \<Rightarrow> object \<Rightarrow> object" where
  \<comment> \<open>\<open>maps.Copy(dst, extra)\<close>\<close>
  "merge_maps dst extra = foldl (\<lambda>m (k, v). mapPut k v m) dst extra"

record limitedPage =
  lp_Rows :: "object list"
  lp_fields :: object

record cursorPage =
  cp_Rows :: "object list"
  cp_NextCursor :: int
  cp_fields :: object

record numberedPage =
  np_Rows :: "object list"
  np_Page :: int
  np_TotalPages :: int
  np_fields :: object

record foldedPage =
  fp_Rows :: "object list"
  fp_Total :: int
  fp_fields :: object

definition raiseLimit :: "int \<Rightarrow> string" where
  "raiseLimit limit = ''Raise `limit` (currently '' @ itoa limit @ '').''"

definition applyLimit :: "object list \<Rightarrow> int \<Rightarrow> string \<Rightarrow> limitedPage" where
  "applyLimit rows limit0 hint =
    (let limit = limitOr limit0 limitDefault; n = int (length rows) in
     if n \<le> limit
     then \<lparr>lp_Rows = rows, lp_fields = [(''returned'', VInt n), (''truncated'', VBool False)]\<rparr>
     else \<lparr>lp_Rows = take (nat limit) rows,
           lp_fields = [(''returned'', VInt limit), (''total_available'', VInt n), (''truncated'', VBool True),
             (''how_to_see_more'', VStr (if hint = [] then raiseLimit limit else hint))]\<rparr>)"

record cursorPageIn =
  ci_Shown :: "object list"
  ci_Limit :: int
  ci_Key :: string
  ci_Hint :: string
  ci_ESI :: "object list"

definition pageByCursor :: "esinet \<Rightarrow> cursorPageIn \<Rightarrow> cursorPage" where
  "pageByCursor N pin =
    (let clipped = applyLimit (ci_Shown pin) (ci_Limit pin) (ci_Hint pin);
         key = (\<lambda>row. jInt (nt_parseFloat N) (lookupAny row (ci_Key pin)));
         nxt = (if int (length (lp_Rows clipped)) = limitOr (ci_Limit pin) limitDefault \<and> lp_Rows clipped \<noteq> []
                then key (last (lp_Rows clipped))
                else if esiCursorPage \<le> length (ci_ESI pin) \<and> ci_ESI pin \<noteq> [] then key (last (ci_ESI pin))
                else 0)
     in \<lparr>cp_Rows = lp_Rows clipped, cp_NextCursor = nxt,
         cp_fields = (if nxt \<noteq> 0 then mapPut ''next_cursor'' (VInt nxt) (lp_fields clipped) else lp_fields clipped)\<rparr>)"

definition pageOr :: "int \<Rightarrow> int" where "pageOr n = (if n < 1 then 1 else n)"

definition pageByNumber :: "object list \<Rightarrow> int \<Rightarrow> int \<Rightarrow> int \<Rightarrow> numberedPage" where
  "pageByNumber rows page0 totalPages0 limit =
    (let page = pageOr page0; totalPages = (if totalPages0 < 1 then 1 else totalPages0);
         clipped = applyLimit rows limit []
     in \<lparr>np_Rows = lp_Rows clipped, np_Page = page, np_TotalPages = totalPages,
         np_fields = mapPut ''total_pages'' (VInt totalPages) (mapPut ''page'' (VInt page) (lp_fields clipped))\<rparr>)"

definition pageByOffset :: "object list \<Rightarrow> int \<Rightarrow> int \<Rightarrow> string \<Rightarrow> foldedPage" where
  "pageByOffset rows offset0 limit0 hint =
    (let limit = limitOr limit0 limitDefault; n = int (length rows);
         offset = min (if offset0 < 0 then 0 else offset0) n;
         rest = drop (nat offset) rows
     in if limit < int (length rest)
        then \<lparr>fp_Rows = take (nat limit) rest, fp_Total = n,
              fp_fields = [(''returned'', VInt limit), (''truncated'', VBool True), (''total'', VInt n),
                (''how_to_see_more'', VStr (if hint = []
                   then ''Pass offset='' @ itoa (offset + limit) @ '', or raise `limit` (currently '' @ itoa limit @ '').''
                   else hint))]\<rparr>
        else \<lparr>fp_Rows = rest, fp_Total = n,
              fp_fields = [(''returned'', VInt (int (length rest))), (''truncated'', VBool False), (''total'', VInt n)]\<rparr>)"

definition esiPageQuery :: "int \<Rightarrow> object \<Rightarrow> object" where
  "esiPageQuery page extra = mapPut ''page'' (VInt (pageOr page)) extra"

definition esiCursorQuery :: "string \<Rightarrow> int \<Rightarrow> object" where
  "esiCursorQuery name v = (if v < 1 then [] else [(name, VInt v)])"

subsection \<open>Enumerated arguments and refusals\<close>

definition enumInvariant :: "string list \<Rightarrow> string" where
  "enumInvariant allowed = ''must be one of '' @ joinStr '', '' allowed"

definition pickEnum :: "esinet \<Rightarrow> goLib \<Rightarrow> string \<Rightarrow> string \<Rightarrow> string \<Rightarrow> string list \<Rightarrow> goerr + string" where
  "pickEnum N L field raw fallback allowed = (let v = fold_name N L raw in
     if v = [] then Inr fallback
     else if List.member allowed v then Inr v
     else Inl (ValidationError field (enumInvariant allowed)))"

definition requireEnum :: "esinet \<Rightarrow> goLib \<Rightarrow> string \<Rightarrow> string \<Rightarrow> string list \<Rightarrow> goerr + string" where
  "requireEnum N L field raw allowed = (let v = fold_name N L raw in
     if v = [] \<or> \<not> List.member allowed v then Inl (ValidationError field (enumInvariant allowed)) else Inr v)"

definition unresolvedResult :: "string list \<Rightarrow> object" where
  "unresolvedResult names = [(''error'', VStr sentenceUnresolved), (''kind'', VStr kindError), (''names'', VStrs names)]"

definition ambiguousResult :: "string list \<Rightarrow> object" where
  "ambiguousResult matches =
    [(''error'', VStr ''More than one match; confirm which one is meant with eve_universe_search.''),
     (''kind'', VStr kindError), (''matches'', VStrs matches)]"

definition eveOp :: "string \<Rightarrow> string" where "eveOp op = ''eve: '' @ op"

subsection \<open>Root locations\<close>

definition itemID :: "esinet \<Rightarrow> object \<Rightarrow> int" where
  "itemID N row = jInt (nt_parseFloat N) (lookupAny row ''item_id'')"

definition locationID :: "esinet \<Rightarrow> object \<Rightarrow> int" where
  "locationID N row = jInt (nt_parseFloat N) (lookupAny row ''location_id'')"

definition itemsByID :: "esinet \<Rightarrow> object list \<Rightarrow> (int \<times> object) list" where
  "itemsByID N items = foldl (\<lambda>m row. mapPut (itemID N row) row m) [] items"

text \<open>The inner loop: the root found, and the ids walked through on the way.\<close>

function rootWalk :: "esinet \<Rightarrow> (int \<times> int) list \<Rightarrow> (int \<times> object) list \<Rightarrow> int list \<Rightarrow> object \<Rightarrow> int \<times> int list" where
  "rootWalk N roots byID chain current =
    (case map_of roots (itemID N current) of Some r \<Rightarrow> (r, chain)
     | None \<Rightarrow> (case map_of byID (locationID N current) of None \<Rightarrow> (locationID N current, chain)
       | Some parent \<Rightarrow>
           if itemID N current \<in> set chain then (locationID N current, chain)
           else rootWalk N roots byID (itemID N current # chain) parent))"
  by pat_completeness auto
termination
proof (relation "measure (\<lambda>(N, roots, byID, chain, current).
    card (itemID N ` insert current (snd ` set byID) - set chain))", goal_cases)
  case (2 N roots byID chain current parent)
  have p: "parent \<in> snd ` set byID" using 2(2) by (force dest: map_of_SomeD)
  have "itemID N ` insert parent (snd ` set byID) - set (itemID N current # chain)
      \<subset> itemID N ` insert current (snd ` set byID) - set chain"
    using p 2(3) by auto
  then show ?case by (simp add: psubset_card_mono)
qed simp

declare rootWalk.simps [simp del]

definition rootStep :: "esinet \<Rightarrow> (int \<times> object) list \<Rightarrow> (int \<times> int) list \<Rightarrow> object \<Rightarrow> (int \<times> int) list" where
  "rootStep N byID roots item =
    (let (res, chain) = rootWalk N roots byID [] item in
     mapPut (itemID N item) res (foldl (\<lambda>m n. mapPut n res m) roots chain))"

definition rootLocations :: "esinet \<Rightarrow> object list \<Rightarrow> (int \<times> int) list" where
  "rootLocations N items = foldl (rootStep N (itemsByID N items)) [] items"

end
