(* ===== verification/EveCommonProps.thy ===== *)
theory EveCommonProps
  imports EveCommon
begin

text \<open>
  What the shared helpers of the tools guarantee: a client that follows the offsets a page
  names sees every row once and in order; the root of a nested location is the place reached by
  following \<open>location_id\<close> until it names no item, and the search for it ends on cyclic data
  too; and rounding is to the nearest only for values that are not negative.
\<close>

subsection \<open>Pages by offset\<close>

definition isTruncated :: "object \<Rightarrow> bool" where
  "isTruncated m \<longleftrightarrow> lookupAny m ''truncated'' = VBool True"

lemma pageByOffset_page:
  "fp_Rows (pageByOffset rows off limit hint)
     = take (nat (limitOr limit limitDefault)) (drop (nat off) rows)"
  "isTruncated (fp_fields (pageByOffset rows off limit hint))
     \<longleftrightarrow> nat off + nat (limitOr limit limitDefault) < length rows"
proof -
  have lim: "0 < limitOr limit limitDefault" by (simp add: limitOr_def limitDefault_def)
  let ?o = "min (if off < 0 then 0 else off) (int (length rows))"
  have d: "drop (nat ?o) rows = drop (nat off) rows"
    by (cases "off \<le> int (length rows)") (auto simp: min_def)
  have o: "nat ?o = min (nat off) (length rows)" by (auto simp: min_def)
  show "fp_Rows (pageByOffset rows off limit hint) = take (nat (limitOr limit limitDefault)) (drop (nat off) rows)"
    by (auto simp: pageByOffset_def Let_def d)
  show "isTruncated (fp_fields (pageByOffset rows off limit hint))
     \<longleftrightarrow> nat off + nat (limitOr limit limitDefault) < length rows"
    using lim by (auto simp: pageByOffset_def Let_def d isTruncated_def)
qed

text \<open>A client that asks again, at the offset the hint names, as long as a page is truncated.\<close>

function readByOffset :: "object list \<Rightarrow> int \<Rightarrow> int \<Rightarrow> object list list" where
  "readByOffset rows off limit =
    (let p = pageByOffset rows off limit [] in
     fp_Rows p # (if isTruncated (fp_fields p)
       then readByOffset rows (max off 0 + limitOr limit limitDefault) limit else []))"
  by auto
termination
  by (relation "measure (\<lambda>(rows, off, limit). length rows - nat off)")
    (auto simp: pageByOffset_page limitOr_def limitDefault_def max_def split: if_splits)

declare readByOffset.simps [simp del]

lemma readByOffset_concat: "concat (readByOffset rows off limit) = drop (nat off) rows"
proof (induction rows off limit rule: readByOffset.induct)
  case (1 rows off limit)
  let ?l = "limitOr limit limitDefault"
  have l: "0 < ?l" by (simp add: limitOr_def limitDefault_def)
  show ?case
  proof (cases "isTruncated (fp_fields (pageByOffset rows off limit []))")
    case True
    have "nat (max off 0 + ?l) = nat off + nat ?l" using l by (auto simp: max_def nat_add_distrib)
    moreover have "concat (readByOffset rows (max off 0 + ?l) limit) = drop (nat (max off 0 + ?l)) rows"
      using "1.IH" True by simp
    ultimately have "concat (readByOffset rows (max off 0 + ?l) limit) = drop (nat ?l) (drop (nat off) rows)"
      by (simp add: add.commute)
    then show ?thesis using True
      by (subst readByOffset.simps) (simp only: Let_def pageByOffset_page(1) if_True concat.simps append_take_drop_id)
  next
    case False
    then show ?thesis
      by (subst readByOffset.simps) (simp add: Let_def pageByOffset_page)
  qed
qed

lemma readByOffset_small: "\<forall>page \<in> set (readByOffset rows off limit). length page \<le> nat (limitOr limit limitDefault)"
proof (induction rows off limit rule: readByOffset.induct)
  case (1 rows off limit)
  then show ?case by (subst readByOffset.simps) (auto simp: Let_def pageByOffset_page(1))
qed

text \<open>Reading a list page by page, at the offset each truncated page names, shows every row
  exactly once and in order, no page exceeds the limit, and a page says it is truncated exactly
  when rows are left.\<close>
theorem offset_pages_show_every_row_once:
  "concat (readByOffset rows 0 limit) = rows
   \<and> (\<forall>page \<in> set (readByOffset rows 0 limit). int (length page) \<le> limitOr limit limitDefault)
   \<and> (isTruncated (fp_fields (pageByOffset rows off limit hint))
        \<longleftrightarrow> nat off + nat (limitOr limit limitDefault) < length rows)"
  using readByOffset_concat [of rows 0 limit] readByOffset_small [of rows 0 limit]
    pageByOffset_page(2) [of rows off limit hint]
  by (force simp: limitOr_def limitDefault_def)

theorem offset_pages_show_every_row_once_witness:
  "concat (readByOffset [[(''a'', VNil)], [(''b'', VNil)], [(''c'', VNil)]] 0 2) = [[(''a'', VNil)], [(''b'', VNil)], [(''c'', VNil)]]
   \<and> int (length (hd (readByOffset [[(''a'', VNil)], [(''b'', VNil)], [(''c'', VNil)]] 0 2))) \<le> 2"
proof -
  let ?rows = "[[(''a'', VNil)], [(''b'', VNil)], [(''c'', VNil)]] :: object list"
  have "readByOffset ?rows 0 2 \<noteq> []" by (subst readByOffset.simps) (simp add: Let_def)
  then show ?thesis
    using offset_pages_show_every_row_once [of ?rows 2 0 "[]"] by (simp add: limitOr_def)
qed

subsection \<open>Roots\<close>

text \<open>
  \<open>lies p a b\<close>: item \<open>a\<close> lies in item \<open>b\<close>, where \<open>p\<close> is the location of each item. The root
  of an item is the first location on its way that is no item; an item on a cycle has none.
\<close>

definition lies :: "(int \<Rightarrow> int option) \<Rightarrow> (int \<times> int) set" where
  "lies p = {(a, b). p a = Some b \<and> p b \<noteq> None}"

inductive rootedAt :: "(int \<Rightarrow> int option) \<Rightarrow> int \<Rightarrow> int \<Rightarrow> bool" for p where
  outermost: "p a = Some l \<Longrightarrow> p l = None \<Longrightarrow> rootedAt p a l"
| nested: "p a = Some l \<Longrightarrow> rootedAt p l r \<Longrightarrow> rootedAt p a r"

inductive_cases rootedAtE: "rootedAt p a r"

lemma rootedAt_item: "rootedAt p a r \<Longrightarrow> p a \<noteq> None"
  by (auto elim: rootedAtE)

lemma rootedAt_next: "rootedAt p a r \<Longrightarrow> (a, b) \<in> lies p \<Longrightarrow> rootedAt p b r"
  by (auto simp: lies_def elim: rootedAtE)

lemma rootedAt_along: "(a, b) \<in> (lies p)\<^sup>+ \<Longrightarrow> rootedAt p a r \<Longrightarrow> rootedAt p b r"
  by (induction rule: trancl_induct) (auto dest: rootedAt_next)

lemma rootedAt_unique: "rootedAt p a r \<Longrightarrow> rootedAt p a r' \<Longrightarrow> r = r'"
proof (induction rule: rootedAt.induct)
  case (outermost a l)
  from outermost.prems show ?case
    by (cases rule: rootedAt.cases) (use outermost.hyps in \<open>auto dest: rootedAt_item\<close>)
next
  case (nested a l r)
  from nested.prems nested.hyps(1) have "rootedAt p l r'"
    by (cases rule: rootedAt.cases) (use nested.hyps(2) in \<open>auto dest: rootedAt_item\<close>)
  then show ?case by (rule nested.IH)
qed

lemma rootedAt_acyclic: "rootedAt p a r \<Longrightarrow> (a, a) \<notin> (lies p)\<^sup>+"
proof (induction rule: rootedAt.induct)
  case (outermost a l)
  then show ?case by (auto simp: lies_def dest!: tranclD)
next
  case (nested a l r)
  show ?case
  proof
    assume "(a, a) \<in> (lies p)\<^sup>+"
    then obtain b where b: "(a, b) \<in> lies p" "(b, a) \<in> (lies p)\<^sup>*" by (blast dest: tranclD)
    then have "b = l" using nested.hyps(1) by (simp add: lies_def)
    then have "(l, l) \<in> (lies p)\<^sup>+" using b by (metis rtrancl_into_trancl1)
    then show False using nested.IH by simp
  qed
qed

definition placeOf :: "esinet \<Rightarrow> (int \<times> object) list \<Rightarrow> int \<Rightarrow> int option" where
  "placeOf N byID i = map_option (locationID N) (map_of byID i)"

definition byIDok :: "esinet \<Rightarrow> (int \<times> object) list \<Rightarrow> bool" where
  "byIDok N byID \<longleftrightarrow> (\<forall>i row. map_of byID i = Some row \<longrightarrow> itemID N row = i)"

definition rootsOK :: "esinet \<Rightarrow> (int \<times> object) list \<Rightarrow> (int \<times> int) list \<Rightarrow> bool" where
  "rootsOK N byID roots \<longleftrightarrow> (\<forall>i r r'. map_of roots i = Some r \<longrightarrow> rootedAt (placeOf N byID) i r' \<longrightarrow> r = r')"

lemma rootWalk_ok:
  assumes "byIDok N byID" "rootsOK N byID roots"
  shows "map_of byID (itemID N current) = Some current \<Longrightarrow>
     \<forall>n \<in> set chain. (n, itemID N current) \<in> (lies (placeOf N byID))\<^sup>+ \<Longrightarrow>
     rootWalk N roots byID chain current = (res, chain') \<Longrightarrow>
     \<forall>n \<in> insert (itemID N current) (set chain'). \<forall>r. rootedAt (placeOf N byID) n r \<longrightarrow> res = r"
  using assms
proof (induction N roots byID chain current rule: rootWalk.induct)
  case (1 N roots byID chain current)
  let ?p = "placeOf N byID" let ?i = "itemID N current" let ?l = "locationID N current"
  have pi: "?p ?i = Some ?l" using "1.prems"(1) by (simp add: placeOf_def)
  have chainI: "\<forall>n \<in> insert ?i (set chain). \<forall>r. rootedAt ?p n r \<longrightarrow> x = r"
    if "\<And>r. rootedAt ?p ?i r \<Longrightarrow> x = r" for x
    using that "1.prems"(2) rootedAt_along by blast
  show ?case
  proof (cases "map_of roots ?i")
    case (Some r)
    then have "res = r" "chain' = chain" using "1.prems"(3) by (simp_all add: rootWalk.simps [of N roots])
    moreover have "rootedAt ?p ?i r' \<Longrightarrow> r = r'" for r' using Some "1.prems"(5) by (auto simp: rootsOK_def)
    ultimately show ?thesis using chainI by blast
  next
    case None
    note none = None
    show ?thesis
    proof (cases "map_of byID ?l")
      case None
      then have eq: "res = ?l" "chain' = chain" using "1.prems"(3) none by (simp_all add: rootWalk.simps [of N roots])
      have "rootedAt ?p ?i ?l" using pi None by (intro outermost) (simp_all add: placeOf_def)
      then show ?thesis using chainI [of ?l] rootedAt_unique eq by blast
    next
      case (Some parent)
      have pl: "itemID N parent = ?l" using Some "1.prems"(4) by (simp add: byIDok_def)
      have step: "(?i, ?l) \<in> lies ?p" using pi Some by (simp add: lies_def placeOf_def)
      show ?thesis
      proof (cases "?i \<in> set chain")
        case True
        then have eq: "res = ?l" "chain' = chain" using "1.prems"(3) none Some by (simp_all add: rootWalk.simps [of N roots])
        have "\<not> rootedAt ?p ?i r" for r using True "1.prems"(2) rootedAt_acyclic by blast
        then show ?thesis using chainI [of ?l] eq by blast
      next
        case False
        have w: "rootWalk N roots byID (?i # chain) parent = (res, chain')"
          using "1.prems"(3) none Some False by (simp add: rootWalk.simps [of N roots])
        have ch: "\<forall>n \<in> set (?i # chain). (n, itemID N parent) \<in> (lies ?p)\<^sup>+"
          using "1.prems"(2) step by (auto simp: pl intro: trancl_into_trancl)
        have "map_of byID (itemID N parent) = Some parent" using Some pl by simp
        from "1.IH" [OF none Some False this ch w "1.prems"(4,5)]
        have all: "\<forall>n \<in> insert (itemID N parent) (set chain'). \<forall>r. rootedAt ?p n r \<longrightarrow> res = r" .
        have own: "res = r" if "rootedAt ?p ?i r" for r
        proof -
          have "rootedAt ?p (itemID N parent) r" using rootedAt_next [OF that step] pl by simp
          then show ?thesis using all by simp
        qed
        show ?thesis
        proof (intro ballI allI impI)
          fix n r assume "n \<in> insert ?i (set chain')" "rootedAt ?p n r"
          then show "res = r" using own all by (cases "n = ?i") simp_all
        qed
      qed
    qed
  qed
qed

lemma map_of_foldl_put: "map_of (foldl (\<lambda>m n. mapPut n res m) roots chain) i
    = (if i \<in> set chain then Some res else map_of roots i)"
  by (induction chain arbitrary: roots) auto

lemma rootStep_ok:
  assumes "byIDok N byID" "rootsOK N byID roots" "map_of byID (itemID N item) = Some item"
  shows "rootsOK N byID (rootStep N byID roots item)"
    "map_of (rootStep N byID roots item) i \<noteq> None \<longleftrightarrow> i = itemID N item \<or> map_of roots i \<noteq> None
       \<or> i \<in> set (snd (rootWalk N roots byID [] item))"
proof -
  obtain res chain where w: "rootWalk N roots byID [] item = (res, chain)" by fastforce
  have all: "\<forall>n \<in> insert (itemID N item) (set chain). \<forall>r. rootedAt (placeOf N byID) n r \<longrightarrow> res = r"
    using rootWalk_ok [OF assms(1,2,3) _ w] by simp
  show "rootsOK N byID (rootStep N byID roots item)"
    using all assms(2) by (auto simp: rootStep_def w rootsOK_def map_of_foldl_put)
  show "map_of (rootStep N byID roots item) i \<noteq> None \<longleftrightarrow> i = itemID N item \<or> map_of roots i \<noteq> None
       \<or> i \<in> set (snd (rootWalk N roots byID [] item))"
    by (auto simp: rootStep_def w map_of_foldl_put)
qed

lemma map_of_itemsByID:
  "distinct (map (itemID N) items) \<Longrightarrow> row \<in> set items \<Longrightarrow> map_of (itemsByID N items) (itemID N row) = Some row"
  "map_of (itemsByID N items) i = Some row \<Longrightarrow> row \<in> set items \<and> itemID N row = i"
proof -
  have gen: "map_of (foldl (\<lambda>m row. mapPut (itemID N row) row m) m items) i
      = (case find (\<lambda>row. itemID N row = i) (rev items) of Some row \<Rightarrow> Some row | None \<Rightarrow> map_of m i)" for m i
    by (induction items arbitrary: m) (auto simp: find_append split: option.splits)
  show "map_of (itemsByID N items) i = Some row \<Longrightarrow> row \<in> set items \<and> itemID N row = i"
    by (auto simp: itemsByID_def gen split: option.splits dest: find_SomeD)
  assume d: "distinct (map (itemID N) items)" "row \<in> set items"
  then have "find (\<lambda>y. itemID N y = itemID N row) (rev items) = Some row"
    by (intro find_Some_iff_distinct) (simp_all add: rev_map [symmetric])
  then show "map_of (itemsByID N items) (itemID N row) = Some row" by (simp add: itemsByID_def gen)
qed

lemma rootsLoop_ok:
  assumes "byIDok N byID" "\<forall>item \<in> set items. map_of byID (itemID N item) = Some item" "rootsOK N byID roots"
  shows "rootsOK N byID (foldl (rootStep N byID) roots items)
    \<and> (\<forall>item \<in> set items. map_of (foldl (rootStep N byID) roots items) (itemID N item) \<noteq> None)
    \<and> (\<forall>i. map_of roots i \<noteq> None \<longrightarrow> map_of (foldl (rootStep N byID) roots items) i \<noteq> None)"
  using assms
proof (induction items arbitrary: roots)
  case (Cons item items)
  have i: "map_of byID (itemID N item) = Some item" using Cons.prems(2) by simp
  note s = rootStep_ok [OF Cons.prems(1,3) i]
  have "\<forall>item \<in> set items. map_of byID (itemID N item) = Some item" using Cons.prems(2) by simp
  from Cons.IH [OF Cons.prems(1) this s(1)] s(2) show ?case by simp
qed simp

text \<open>C38. \<open>rootLocations\<close> gives every item a root, and the root of an item that is not inside a
  cycle is the place reached by following \<open>location_id\<close> from item to item until it names no
  item. It returns on cyclic data too.\<close>
theorem root_is_the_outermost_location:
  assumes "distinct (map (itemID N) items)" "item \<in> set items"
  shows "\<exists>r. map_of (rootLocations N items) (itemID N item) = Some r
     \<and> (\<forall>r'. rootedAt (placeOf N (itemsByID N items)) (itemID N item) r' \<longrightarrow> r = r')"
proof -
  have ok: "byIDok N (itemsByID N items)" using map_of_itemsByID(2) by (auto simp: byIDok_def)
  have "\<forall>item \<in> set items. map_of (itemsByID N items) (itemID N item) = Some item"
    using map_of_itemsByID(1) [OF assms(1)] by blast
  moreover have "rootsOK N (itemsByID N items) []" by (simp add: rootsOK_def)
  ultimately show ?thesis using rootsLoop_ok [OF ok, of items "[]"] assms(2)
    by (fastforce simp: rootLocations_def rootsOK_def)
qed

text \<open>A ship in a station: the module in the ship has the station as its root.\<close>

definition moduleRow :: object where "moduleRow = [(''item_id'', VInt 2), (''location_id'', VInt 1)]"
definition shipRow :: object where "shipRow = [(''item_id'', VInt 1), (''location_id'', VInt 60003760)]"

lemma asset_ids: "itemID N moduleRow = 2" "itemID N shipRow = 1" "locationID N moduleRow = 1"
    "locationID N shipRow = 60003760"
  by (simp_all add: itemID_def locationID_def moduleRow_def shipRow_def jInt_def jFloat_def truncInt_def)

lemma sample_places: "placeOf N (itemsByID N [moduleRow, shipRow]) 2 = Some 1"
   "placeOf N (itemsByID N [moduleRow, shipRow]) 1 = Some 60003760"
   "placeOf N (itemsByID N [moduleRow, shipRow]) 60003760 = None"
  by (simp_all add: placeOf_def itemsByID_def asset_ids)

theorem root_is_the_outermost_location_witness:
  "map_of (rootLocations (answerNet okAnswer) [moduleRow, shipRow]) 2 = Some 60003760"
proof -
  let ?N = "answerNet okAnswer"
  let ?p = "placeOf ?N (itemsByID ?N [moduleRow, shipRow])"
  have "rootedAt ?p 2 60003760"
    by (rule nested [where p = ?p, OF sample_places(1)], rule outermost [where p = ?p, OF sample_places(2,3)])
  then show ?thesis
    using root_is_the_outermost_location [of ?N "[moduleRow, shipRow]" moduleRow] by (auto simp: asset_ids)
qed

subsection \<open>Rounding\<close>

lemma truncInt_nonneg: "0 \<le> x \<Longrightarrow> of_int (truncInt x) \<le> x \<and> x < of_int (truncInt x) + 1"
  by (simp add: truncInt_def) linarith

text \<open>\<open>mathRound\<close> rounds a value that is not negative to the nearest multiple of the unit; a
  negative one it does not: -9.999 becomes -9.99.\<close>
theorem rounding_is_to_nearest_above_zero:
  "\<bar>mathRound \<bar>v\<bar> n - \<bar>v\<bar>\<bar> \<le> 1 / 2 / 10 ^ n
   \<and> mathRound (- 9999 / 1000) 2 = - 999 / 100
   \<and> 1 / 2 / 10 ^ 2 < \<bar>mathRound (- 9999 / 1000) 2 - (- 9999 / 1000)\<bar>"
proof -
  let ?p = "10 ^ n :: rat" let ?t = "of_int (truncInt (\<bar>v\<bar> * ?p + 1 / 2)) :: rat"
  have "?t \<le> \<bar>v\<bar> * ?p + 1 / 2 \<and> \<bar>v\<bar> * ?p + 1 / 2 < ?t + 1" by (intro truncInt_nonneg) simp
  then have "\<bar>?t - \<bar>v\<bar> * ?p\<bar> \<le> 1 / 2" by linarith
  then have "\<bar>?t - \<bar>v\<bar> * ?p\<bar> / ?p \<le> 1 / 2 / ?p" by (intro divide_right_mono) simp_all
  moreover have "\<bar>?t - \<bar>v\<bar> * ?p\<bar> / ?p = \<bar>(?t - \<bar>v\<bar> * ?p) / ?p\<bar>" by (simp add: abs_divide)
  moreover have "(?t - \<bar>v\<bar> * ?p) / ?p = ?t / ?p - \<bar>v\<bar>" by (simp add: diff_divide_distrib)
  moreover have neg: "mathRound (- 9999 / 1000) 2 = - 999 / 100"
  proof -
    have "\<lceil>- (4997 / 5) :: rat\<rceil> = - 999" by (rule ceiling_unique) simp_all
    then show ?thesis by (simp add: mathRound_def truncInt_def Let_def)
  qed
  ultimately show ?thesis by (simp add: neg mathRound_def Let_def)
qed

end
