(* ===== verification/EveWrites.thy ===== *)
theory EveWrites
  imports EveCommon SessionUse
begin

text \<open>
  The tools that change something in EVE (usecase/eve/writes_*.go, record.go). Each resolves
  what it needs, asks the write guard, sends one request (setting contacts: up to four) and
  reports to the audit log. A tool runs on the database, the session with its guard, and the
  resolver with its ESI client; one clock serves all. The records of arguments keep the order of
  the Go structs; a nil map, slice or pointer argument is \<open>[]\<close>, \<open>VNil\<close> or \<open>None\<close>.

  \<open>te_errText\<close> is \<open>error.Error\<close>: of message texts the model keeps those of ESI errors only.
\<close>

record toolEnv =
  te_net :: esinet
  te_lib :: goLib
  te_errText :: "goerr \<Rightarrow> string"

record toolState =
  ts_w :: world
  ts_sess :: Sess
  ts_rdr :: rdr

type_synonym 'a tool = "toolState \<Rightarrow> (goerr + 'a) \<times> toolState"

definition onWorld :: "(world \<Rightarrow> 'a \<times> world) \<Rightarrow> toolState \<Rightarrow> 'a \<times> toolState" where
  "onWorld f t = (let (r, w) = f (ts_w t) in (r, t\<lparr>ts_w := w\<rparr>))"

definition onRdr :: "(rdr \<Rightarrow> 'a \<times> rdr) \<Rightarrow> toolState \<Rightarrow> 'a \<times> toolState" where
  "onRdr f t =
    (let d0 = (ts_rdr t)\<lparr>rd_esi := (rd_esi (ts_rdr t))\<lparr>ec_now := w_now (ts_w t)\<rparr>\<rparr>; (r, d) = f d0 in
     (r, t\<lparr>ts_rdr := d, ts_w := (ts_w t)\<lparr>w_now := ec_now (rd_esi d)\<rparr>\<rparr>))"

definition thenT :: "'a tool \<Rightarrow> (goerr \<Rightarrow> goerr) \<Rightarrow> ('a \<Rightarrow> 'b tool) \<Rightarrow> 'b tool" where
  \<comment> \<open>\<open>x, err := m; if err != nil { return nil, f(err) }; k(x)\<close>\<close>
  "thenT m f k t = (case m t of (Inl e, t1) \<Rightarrow> (Inl (f e), t1) | (Inr x, t1) \<Rightarrow> k x t1)"

definition characterT :: "CharacterToken tool" where
  "characterT t = onWorld (Character (ts_sess t)) t"

definition getT :: "toolEnv \<Rightarrow> Route \<Rightarrow> int option \<Rightarrow> object \<Rightarrow> esiResult tool" where
  "getT E route cid params = onRdr (ask (te_net E) route cid params)"

definition postT :: "toolEnv \<Rightarrow> Route \<Rightarrow> int option \<Rightarrow> object \<Rightarrow> any \<Rightarrow> any tool" where
  "postT E route cid params body = onRdr (post (te_net E) route cid params body)"

definition putT :: "toolEnv \<Rightarrow> Route \<Rightarrow> int option \<Rightarrow> object \<Rightarrow> any \<Rightarrow> any tool" where
  "putT E route cid params body = onRdr (onEsi (esiPut (te_net E) (rt_raw route) cid params body))"

definition deleteT :: "toolEnv \<Rightarrow> Route \<Rightarrow> int option \<Rightarrow> object \<Rightarrow> any \<Rightarrow> any tool" where
  "deleteT E route cid params body = onRdr (onEsi (esiDelete (te_net E) (rt_raw route) cid params body))"

definition resolveT :: "toolEnv \<Rightarrow> string list \<Rightarrow> string list \<Rightarrow> string list \<Rightarrow> (string \<times> NameResolution) list tool" where
  "resolveT E names prefer only = onRdr (ResolveNames (te_net E) (te_lib E) names prefer only)"

definition nameT :: "toolEnv \<Rightarrow> int \<Rightarrow> int option \<Rightarrow> string tool" where
  "nameT E i cid = onRdr (NameOf (te_net E) (te_lib E) i cid)"

definition authorizeT :: "toolEnv \<Rightarrow> Authz \<Rightarrow> Decision tool" where
  "authorizeT E az t =
    (case Authorize (nt_fmt (te_net E)) guardPersist (so_Guard (ts_sess t)) az (ts_w t) of
       (r, g, w) \<Rightarrow> (r, t\<lparr>ts_sess := (ts_sess t)\<lparr>so_Guard := g\<rparr>, ts_w := w\<rparr>))"

subsection \<open>The audit log\<close>

definition esiWriteOutcome :: "toolEnv \<Rightarrow> goerr \<Rightarrow> int \<times> string" where
  "esiWriteOutcome E err =
    (case errors_as asEsiError err of Some (msg, status) \<Rightarrow> (status, msg)
     | None \<Rightarrow> (case errors_as asRateLimited err of
         Some (status, retryAt, retrySec, remain, reset) \<Rightarrow>
           (status, te_errText E (RateLimitedError status retryAt retrySec remain reset))
       | None \<Rightarrow> (0, te_errText E err)))"

definition writeRecord :: "toolEnv \<Rightarrow> string \<Rightarrow> string \<Rightarrow> object \<Rightarrow> goerr option \<Rightarrow> Record" where
  "writeRecord E toolName capability args err =
    (case err of
       None \<Rightarrow> \<lparr>rec_Tool = toolName, rec_Capability = capability, rec_Args = args, rec_Outcome = OutcomeOK,
                rec_ESIStatus = 0, rec_Error = []\<rparr>
     | Some e \<Rightarrow> (case esiWriteOutcome E e of (status, msg) \<Rightarrow>
         \<lparr>rec_Tool = toolName, rec_Capability = capability, rec_Args = args, rec_Outcome = OutcomeError,
          rec_ESIStatus = status, rec_Error = msg\<rparr>))"

definition recordWrite :: "toolEnv \<Rightarrow> string \<Rightarrow> string \<Rightarrow> object \<Rightarrow> goerr option \<Rightarrow> toolState \<Rightarrow> toolState" where
  "recordWrite E toolName capability args err t =
    (case RecordWrite (nt_fmt (te_net E)) guardPersist (so_Guard (ts_sess t))
            (writeRecord E toolName capability args err) (ts_w t) of
       (_, g, w) \<Rightarrow> t\<lparr>ts_sess := (ts_sess t)\<lparr>so_Guard := g\<rparr>, ts_w := w\<rparr>)"

definition authz :: "string \<Rightarrow> string \<Rightarrow> object \<Rightarrow> object \<Rightarrow> string \<Rightarrow> CharacterToken \<Rightarrow> Authz" where
  "authz toolName capability args preview confirmToken token =
     \<lparr>az_Tool = toolName, az_Capability = capability, az_Args = args, az_Preview = preview,
      az_Token = confirmToken, az_Scopes = tk_Scopes token\<rparr>"

text \<open>
  The end of every tool but the one that sets contacts: ask the guard, return its preview, or
  send the request, report it, and answer.
\<close>

definition guardedWrite :: "toolEnv \<Rightarrow> string \<Rightarrow> Authz \<Rightarrow> any tool \<Rightarrow> (any \<Rightarrow> object) \<Rightarrow> any tool" where
  "guardedWrite E op az call answer =
    thenT (authorizeT E az) (Wrap (eveOp op)) (\<lambda>decision t. case decision of
      Some required \<Rightarrow> (Inr (VMap required), t)
    | None \<Rightarrow> (case call t of (r, t1) \<Rightarrow>
        (let t2 = recordWrite E (az_Tool az) (az_Capability az) (az_Args az) (errOf r) t1 in
         case r of Inl e \<Rightarrow> (Inl (Wrap (eveOp op) e), t2) | Inr v \<Rightarrow> (Inr (VMap (answer v)), t2))))"

definition statusDone :: "string \<times> any" where "statusDone = (''status'', VStr ''done'')"

definition clientCaveat :: string where
  "clientCaveat = ''Takes effect only while the EVE client is running and logged in on this character. With the client closed the call reports success and nothing visible happens.''"

definition charRoute :: "int \<Rightarrow> pathElem list \<Rightarrow> Route" where
  "charRoute cid rest = Path ([Seg ''characters'', ID cid] @ rest)"

subsection \<open>Mail: read flag and deletion\<close>

record mailMarkIn =
  mm_MailID :: int
  mm_Read :: "bool option"
  mm_ConfirmToken :: string

definition eveMailMark :: "toolEnv \<Rightarrow> mailMarkIn \<Rightarrow> any tool" where
  "eveMailMark E inp =
    thenT characterT (Wrap (eveOp ''eveMailMark'')) (\<lambda>token.
     (let rd = boolDef (mm_Read inp) True; cid = tk_CharacterID token;
          args = [(''mail_id'', VInt (mm_MailID inp)), (''read'', VBool rd), (''character_id'', VInt cid)];
          label = (if rd then ''read'' else ''unread'');
          preview = [(''action'', VStr (''Mark mail #'' @ itoa (mm_MailID inp) @ '' as '' @ label)),
                     (''character'', VStr (tk_CharacterName token))]
      in guardedWrite E ''eveMailMark''
           (authz ToolMailMark CapMailOrganize args preview (mm_ConfirmToken inp) token)
           (putT E (charRoute cid [Seg ''mail'', ID (mm_MailID inp)]) (Some cid) [] (VMap [(''read'', VBool rd)]))
           (\<lambda>_. [statusDone, (''mail_id'', VInt (mm_MailID inp)), (''read'', VBool rd)])))"

record mailDeleteIn =
  md_MailID :: int
  md_ConfirmToken :: string

definition eveMailDelete :: "toolEnv \<Rightarrow> mailDeleteIn \<Rightarrow> any tool" where
  "eveMailDelete E inp =
    (let failed = Wrap (eveOp ''eveMailDelete'') in
     thenT characterT failed (\<lambda>token.
      (let cid = tk_CharacterID token; route = charRoute cid [Seg ''mail'', ID (md_MailID inp)] in
       thenT (getT E route (Some cid) []) failed (\<lambda>header.
        (let mail = jMap (er_Data header) in
         thenT (nameT E (jInt (nt_parseFloat (te_net E)) (lookupAny mail ''from'')) None) failed (\<lambda>sender.
          (let args = [(''mail_id'', VInt (md_MailID inp)), (''character_id'', VInt cid)];
               preview = [(''action'', VStr ''Permanently delete a mail''),
                 (''character'', VStr (tk_CharacterName token)), (''subject'', lookupAny mail ''subject''),
                 (''from'', VStr sender), (''timestamp'', lookupAny mail ''timestamp'')]
           in guardedWrite E ''eveMailDelete''
                (authz ToolMailDelete CapMailOrganize args preview (md_ConfirmToken inp) token)
                (deleteT E route (Some cid) [] VNil)
                (\<lambda>_. [statusDone, (''deleted_subject'', lookupAny mail ''subject'')]))))))))"

subsection \<open>Names into recipients\<close>

text \<open>
  The loop over the names asked for: the matches, each id once, the names that matched nothing,
  and the ambiguous ones. The three resolvers of mail.go and contacts.go share it.
\<close>

fun sortAsked :: "toolEnv \<Rightarrow> (string \<times> NameResolution) list \<Rightarrow> int list \<Rightarrow> string list
    \<Rightarrow> NameMatch list \<times> string list \<times> NameResolution list" where
  "sortAsked E rs seen [] = ([], [], [])"
| "sortAsked E rs seen (asked # rest) =
    (let match = resolved rs (fold_name (te_net E) (te_lib E) asked) in
     case nr_Chosen match of
       None \<Rightarrow> (case sortAsked E rs seen rest of (ms, un, am) \<Rightarrow> (ms, asked # un, am))
     | Some m \<Rightarrow>
         if Ambiguous match then (case sortAsked E rs seen rest of (ms, un, am) \<Rightarrow> (ms, un, match # am))
         else if List.member seen (nm_ID m) then sortAsked E rs seen rest
         else (case sortAsked E rs (nm_ID m # seen) rest of (ms, un, am) \<Rightarrow> (m # ms, un, am)))"

definition nameResolveFail :: "toolEnv \<Rightarrow> string list \<Rightarrow> NameResolution list \<Rightarrow> object option" where
  "nameResolveFail E unknown ambiguous =
    (if unknown \<noteq> [] then Some (unresolvedResult unknown)
     else if ambiguous = [] then None
     else Some (ambiguousResult (map (Describe (nt_fmt (te_net E)) (te_lib E)) ambiguous)))"

definition recipientType :: "string \<Rightarrow> string" where
  "recipientType category = (case map_of [(''characters'', ''character''), (''corporations'', ''corporation''),
     (''alliances'', ''alliance'')] category of Some t \<Rightarrow> t | None \<Rightarrow> [])"

text \<open>A slice that was never appended to is nil.\<close>

definition mapsOf :: "object list \<Rightarrow> any" where "mapsOf ms = (if ms = [] then VNilSlice else VMaps ms)"
definition intsOf :: "int list \<Rightarrow> any" where "intsOf ns = (if ns = [] then VNilSlice else VInts ns)"
definition strsOf :: "string list \<Rightarrow> any" where "strsOf ss = (if ss = [] then VNilSlice else VStrs ss)"

record mailRecipients =
  mr_recipients :: "object list"
  mr_resolvedNames :: "string list"
  mr_characterIDs :: "int list"
  mr_fail :: "object option"

definition mailCategories :: "string list" where
  "mailCategories = [''characters'', ''corporations'', ''alliances'']"

definition recipientRow :: "NameMatch \<Rightarrow> object" where
  "recipientRow m = [(''recipient_id'', VInt (nm_ID m)), (''recipient_type'', VStr (recipientType (nm_Category m)))]"

definition resolveMailRecipients :: "toolEnv \<Rightarrow> string list \<Rightarrow> mailRecipients tool" where
  "resolveMailRecipients E to =
    thenT (resolveT E to [] mailCategories) (Wrap (eveOp ''resolveMailRecipients'')) (\<lambda>rs t.
      (case sortAsked E rs [] to of (ms, unknown, ambiguous) \<Rightarrow>
        (Inr (case nameResolveFail E unknown ambiguous of
           Some fail \<Rightarrow> \<lparr>mr_recipients = [], mr_resolvedNames = [], mr_characterIDs = [], mr_fail = Some fail\<rparr>
         | None \<Rightarrow> \<lparr>mr_recipients = map recipientRow ms,
             mr_resolvedNames = map (\<lambda>m. nm_Name m @ '' ('' @ nm_Kind m @ '')'') ms,
             mr_characterIDs = map nm_ID (filter (\<lambda>m. nm_Category m = ''characters'') ms), mr_fail = None\<rparr>), t)))"

subsection \<open>Sending a mail\<close>

definition mailRecipientsMax :: nat where "mailRecipientsMax = 20"
definition mailComposeRecipientsMax :: nat where "mailComposeRecipientsMax = 50"
definition mailSubjectMax :: nat where "mailSubjectMax = 1000"
definition mailBodyMax :: nat where "mailBodyMax = 10000"
definition cspaRecipientsMax :: nat where "cspaRecipientsMax = 100"

definition cspaCharge :: "any \<Rightarrow> rat option" where
  "cspaCharge body = (case body of VFloat f \<Rightarrow> Some f | VInt n \<Rightarrow> Some (of_int n) | _ \<Rightarrow> None)"

definition cspaTooMany :: goerr where
  "cspaTooMany = ValidationError ''to'' ''must have at most 100 character recipients to price CSPA''"

definition priceCSPA :: "toolEnv \<Rightarrow> int \<Rightarrow> int list \<Rightarrow> rat tool" where
  "priceCSPA E cid ids t =
    (if ids = [] then (Inr 0, t)
     else if cspaRecipientsMax < length ids then (Inl cspaTooMany, t)
     else thenT (postT E (charRoute cid [Seg ''cspa'']) (Some cid) [] (VInts ids))
       (\<lambda>e. PreviewReadError ''CSPA charge'' (Wrap (eveOp ''priceCSPA'') e))
       (\<lambda>body t. (case cspaCharge body of
          None \<Rightarrow> Inl (Wrap (eveOp ''priceCSPA'') (Sentinel ErrCSPAUnpriced))
        | Some cost \<Rightarrow> Inr cost, t)) t)"

definition clipMail :: "string \<Rightarrow> string \<Rightarrow> string \<times> string" where
  "clipMail subject body = (take mailSubjectMax subject, take mailBodyMax body)"

record mailSendIn =
  ms_To :: "string list"
  ms_Subject :: string
  ms_Body :: string
  ms_ApprovedCost :: int
  ms_ConfirmToken :: string

definition tooManyRecipients :: "nat \<Rightarrow> string" where
  "tooManyRecipients n = ''Refusing to mail '' @ itoa (int n) @ '' recipients at once; the cap is ''
     @ itoa (int mailRecipientsMax) @ ''. Send in smaller batches.''"

definition mailPayload :: "mailSendIn \<Rightarrow> mailRecipients \<Rightarrow> object" where
  "mailPayload inp res = (case clipMail (ms_Subject inp) (ms_Body inp) of (subject, body) \<Rightarrow>
     [(''recipients'', mapsOf (mr_recipients res)), (''subject'', VStr subject), (''body'', VStr body),
      (''approved_cost'', VInt (ms_ApprovedCost inp))])"

definition sendPreview :: "string \<Rightarrow> mailSendIn \<Rightarrow> mailRecipients \<Rightarrow> rat \<Rightarrow> object" where
  "sendPreview name inp res cost = (case clipMail (ms_Subject inp) (ms_Body inp) of (subject, body) \<Rightarrow>
     [(''action'', VStr (''SEND AN IN-GAME MAIL '' @ emDash @ '' another player will receive this and it cannot be recalled'')),
      (''from'', VStr name), (''to'', strsOf (mr_resolvedNames res)), (''subject'', VStr subject),
      (''body'', VStr body), (''approved_cspa_cost_isk'', VInt (ms_ApprovedCost inp)),
      (''priced_cspa_cost_isk'', VFloat cost)])"

definition eveMailSend :: "toolEnv \<Rightarrow> mailSendIn \<Rightarrow> any tool" where
  "eveMailSend E inp =
    thenT characterT (Wrap (eveOp ''eveMailSend'')) (\<lambda>token t.
     if mailRecipientsMax < length (ms_To inp)
     then (Inr (VMap [(''error'', VStr (tooManyRecipients (length (ms_To inp))))]), t)
     else thenT (resolveMailRecipients E (ms_To inp)) id (\<lambda>res t.
      (case mr_fail res of Some fail \<Rightarrow> (Inr (VMap fail), t)
       | None \<Rightarrow>
         thenT (priceCSPA E (tk_CharacterID token) (mr_characterIDs res)) id (\<lambda>cost t.
          if of_int (ms_ApprovedCost inp) < cost
          then (Inl (CSPAExceedsError cost (ms_ApprovedCost inp)), t)
          else let cid = tk_CharacterID token; payload = mailPayload inp res in
            guardedWrite E ''eveMailSend''
              (authz ToolMailSend CapMailSend (payload @ [(''character_id'', VInt cid)])
                 (sendPreview (tk_CharacterName token) inp res cost) (ms_ConfirmToken inp) token)
              (postT E (charRoute cid [Seg ''mail'']) (Some cid) [] (VMap payload))
              (\<lambda>mailID. [(''status'', VStr ''sent''), (''mail_id'', mailID),
                 (''to'', strsOf (mr_resolvedNames res))]) t) t)) t)"

subsection \<open>The compose window\<close>

record mailComposeIn =
  mc_To :: "string list"
  mc_ToGroup :: string
  mc_Subject :: string
  mc_Body :: string
  mc_ConfirmToken :: string

record composeRecipients =
  cr_characterIDs :: "int list"
  cr_names :: "string list"
  cr_groupID :: int
  cr_groupName :: string
  cr_fail :: "object option"

definition composeFailed :: "object \<Rightarrow> composeRecipients" where
  "composeFailed fail = \<lparr>cr_characterIDs = [], cr_names = [], cr_groupID = 0, cr_groupName = [], cr_fail = Some fail\<rparr>"

definition rejectComposeBounds :: "mailComposeIn \<Rightarrow> goerr option" where
  "rejectComposeBounds inp =
    (if mc_To inp = [] then Some (ValidationError ''to'' ''is required'')
     else if mailComposeRecipientsMax < length (mc_To inp) then Some (ValidationError ''to'' ''must have at most 50 names'')
     else if mailSubjectMax < length (mc_Subject inp) then Some (ValidationError ''subject'' ''must be at most 1000 characters'')
     else if mailBodyMax < length (mc_Body inp) then Some (ValidationError ''body'' ''must be at most 10000 characters'')
     else None)"

text \<open>
  \<open>groupOf\<close>: the single recipient the group name resolved to, when it is one and of a kind that
  can be a group.
\<close>

definition groupOf :: "toolEnv \<Rightarrow> mailRecipients \<Rightarrow> (int \<times> string) option" where
  "groupOf E res = (case mr_recipients res of
     [row] \<Rightarrow> (let kind = jStr (lookupAny row ''recipient_type'') in
        if kind \<noteq> ''corporation'' \<and> kind \<noteq> ''alliance'' then None
        else Some (jInt (nt_parseFloat (te_net E)) (lookupAny row ''recipient_id''), mr_resolvedNames res ! 0))
   | _ \<Rightarrow> None)"

definition resolveComposeRecipients :: "toolEnv \<Rightarrow> string list \<Rightarrow> string \<Rightarrow> composeRecipients tool" where
  "resolveComposeRecipients E to toGroup =
    thenT (resolveT E to [] [''characters'']) (Wrap (eveOp ''resolveComposeRecipients'')) (\<lambda>rs t.
      (case sortAsked E rs [] to of (ms, unknown, ambiguous) \<Rightarrow>
       (case nameResolveFail E unknown ambiguous of
          Some fail \<Rightarrow> (Inr (composeFailed fail), t)
        | None \<Rightarrow>
          (let out = \<lparr>cr_characterIDs = map nm_ID ms, cr_names = map nm_Name ms, cr_groupID = 0,
                      cr_groupName = [], cr_fail = None\<rparr> in
           if nt_trimSpace (te_net E) toGroup = [] then (Inr out, t)
           else thenT (resolveMailRecipients E [toGroup]) id (\<lambda>grp t.
             (Inr (case mr_fail grp of Some fail \<Rightarrow> composeFailed fail
              | None \<Rightarrow> (case groupOf E grp of None \<Rightarrow> composeFailed (unresolvedResult [toGroup])
                 | Some (i, name) \<Rightarrow> out\<lparr>cr_groupID := i, cr_groupName := name\<rparr>)), t)) t))))"

definition composeWindowBody :: "composeRecipients \<Rightarrow> string \<Rightarrow> string \<Rightarrow> object" where
  "composeWindowBody res subject body =
    [(''recipients'', intsOf (cr_characterIDs res)), (''subject'', VStr subject), (''body'', VStr body)]
    @ (if cr_groupID res \<noteq> 0 then [(''to_corp_or_alliance_id'', VInt (cr_groupID res))] else [])"

definition composePreview :: "string \<Rightarrow> composeRecipients \<Rightarrow> string \<Rightarrow> string \<Rightarrow> object" where
  "composePreview character res subject body =
    [(''action'', VStr ''Open a pre-filled mail compose window in the game client''),
     (''character'', VStr character), (''to'', strsOf (cr_names res)), (''subject'', VStr subject),
     (''body'', VStr body), (''note'', VStr ''The player still has to press Send. This does not send a mail.'')]
    @ (if cr_groupName res \<noteq> [] then [(''to_group'', VStr (cr_groupName res))] else [])"

definition eveMailCompose :: "toolEnv \<Rightarrow> mailComposeIn \<Rightarrow> any tool" where
  "eveMailCompose E inp t =
    (case rejectComposeBounds inp of Some e \<Rightarrow> (Inl e, t)
     | None \<Rightarrow>
       thenT characterT (Wrap (eveOp ''eveMailCompose'')) (\<lambda>token.
       thenT (resolveComposeRecipients E (mc_To inp) (mc_ToGroup inp)) id (\<lambda>res t.
         (case cr_fail res of Some fail \<Rightarrow> (Inr (VMap fail), t)
          | None \<Rightarrow>
            (let cid = tk_CharacterID token; body = composeWindowBody res (mc_Subject inp) (mc_Body inp) in
             guardedWrite E ''eveMailCompose''
               (authz ToolMailCompose CapOpenWindow (body @ [(''character_id'', VInt cid)])
                  (composePreview (tk_CharacterName token) res (mc_Subject inp) (mc_Body inp))
                  (mc_ConfirmToken inp) token)
               (postT E (Path [Seg ''/ui/openwindow/newmail'']) (Some cid) [] (VMap body))
               (\<lambda>_. [statusDone, (''opened'', VStr ''compose window''),
                  (''note'', VStr (clientCaveat @ '' The window was requested; this did not send a mail.''))]) t)))) t)"

subsection \<open>Calendar\<close>

record calendarRespondIn =
  cal_EventID :: int
  cal_Response :: string
  cal_ConfirmToken :: string

definition eveCalendarRespond :: "toolEnv \<Rightarrow> calendarRespondIn \<Rightarrow> any tool" where
  "eveCalendarRespond E inp t =
    (case requireEnum (te_net E) (te_lib E) ''response'' (cal_Response inp) [''accepted'', ''declined'', ''tentative''] of
       Inl e \<Rightarrow> (Inl e, t)
     | Inr response \<Rightarrow>
       (let failed = Wrap (eveOp ''eveCalendarRespond'') in
        thenT characterT failed (\<lambda>token.
         (let cid = tk_CharacterID token; route = charRoute cid [Seg ''calendar'', ID (cal_EventID inp)] in
          thenT (getT E route (Some cid) []) failed (\<lambda>detail.
           (let event = jMap (er_Data detail);
                args = [(''event_id'', VInt (cal_EventID inp)), (''response'', VStr response), (''character_id'', VInt cid)];
                preview = [(''action'', VStr (''Respond to a calendar invitation '' @ emDash @ '' the organiser is notified'')),
                  (''character'', VStr (tk_CharacterName token)), (''event'', lookupAny event ''title''),
                  (''date'', lookupAny event ''date''), (''owner'', lookupAny event ''owner_name''),
                  (''response'', VStr response)]
            in guardedWrite E ''eveCalendarRespond''
                 (authz ToolCalendarRespond CapCalendar args preview (cal_ConfirmToken inp) token)
                 (putT E route (Some cid) [] (VMap [(''response'', VStr response)]))
                 (\<lambda>_. [statusDone, (''event'', lookupAny event ''title''), (''response'', VStr response)]))))) t))"

subsection \<open>Fittings\<close>

definition fittingNameMax :: nat where "fittingNameMax = 50"
definition fittingDescMax :: nat where "fittingDescMax = 500"

record fittingModule =
  fm_Name :: string
  fm_Flag :: string
  fm_Quantity :: int

record fittingSaveIn =
  fs_Name :: string
  fs_Ship :: string
  fs_Modules :: "fittingModule list"
  fs_Description :: string
  fs_ConfirmToken :: string

record fittingResolved =
  fr_shipID :: int
  fr_items :: "object list"
  fr_previewMods :: "string list"
  fr_fail :: "object option"

definition typeNamed :: "toolEnv \<Rightarrow> (string \<times> NameResolution) list \<Rightarrow> string \<Rightarrow> int" where
  \<comment> \<open>\<open>byName[strings.ToLower(strings.TrimSpace(name))]\<close>\<close>
  "typeNamed E rs name = (case nr_Chosen (resolved rs (fold_name (te_net E) (te_lib E) name)) of
     Some m \<Rightarrow> nm_ID m | None \<Rightarrow> 0)"

text \<open>The items, the preview lines and the unknown names of the modules.\<close>

fun fittingModules :: "toolEnv \<Rightarrow> (string \<times> NameResolution) list \<Rightarrow> fittingModule list
    \<Rightarrow> object list \<times> string list \<times> string list" where
  "fittingModules E rs [] = ([], [], [])"
| "fittingModules E rs (m # ms) =
    (let name = nt_trimSpace (te_net E) (fm_Name m); tid = typeNamed E rs (fm_Name m);
         qty = (if fm_Quantity m = 0 then 1 else fm_Quantity m);
         flag = (if fm_Flag m = [] then ''Cargo'' else fm_Flag m) in
     case fittingModules E rs ms of (items, mods, unknown) \<Rightarrow>
       if tid = 0 then (items, mods, name # unknown)
       else ([(''type_id'', VInt tid), (''flag'', VStr flag), (''quantity'', VInt qty)] # items,
             (name @ '' x'' @ itoa qty @ '' ['' @ flag @ '']'') # mods, unknown))"

definition fittingFailed :: "string list \<Rightarrow> fittingResolved" where
  "fittingFailed names = \<lparr>fr_shipID = 0, fr_items = [], fr_previewMods = [], fr_fail = Some (unresolvedResult names)\<rparr>"

definition resolveFittingModules :: "toolEnv \<Rightarrow> string \<Rightarrow> fittingModule list \<Rightarrow> fittingResolved tool" where
  "resolveFittingModules E ship modules =
    thenT (resolveT E (ship # map fm_Name modules) [] [''inventory_types'']) (Wrap (eveOp ''resolveFittingModules''))
      (\<lambda>rs t.
        (Inr (let shipID = typeNamed E rs ship in
          if shipID = 0 then fittingFailed [ship]
          else case fittingModules E rs modules of (items, mods, unknown) \<Rightarrow>
            if unknown \<noteq> [] then fittingFailed unknown
            else \<lparr>fr_shipID = shipID, fr_items = items, fr_previewMods = mods, fr_fail = None\<rparr>), t))"

definition eveFittingSave :: "toolEnv \<Rightarrow> fittingSaveIn \<Rightarrow> any tool" where
  "eveFittingSave E inp =
    thenT characterT (Wrap (eveOp ''eveFittingSave'')) (\<lambda>token.
    thenT (resolveFittingModules E (fs_Ship inp) (fs_Modules inp)) id (\<lambda>res t.
      (case fr_fail res of Some fail \<Rightarrow> (Inr (VMap fail), t)
       | None \<Rightarrow>
         (let cid = tk_CharacterID token; name = take fittingNameMax (fs_Name inp);
              body = [(''name'', VStr name), (''description'', VStr (take fittingDescMax (fs_Description inp))),
                      (''ship_type_id'', VInt (fr_shipID res)), (''items'', mapsOf (fr_items res))];
              preview = [(''action'', VStr ''Save a new fitting to the in-game fitting list''),
                (''character'', VStr (tk_CharacterName token)), (''fitting_name'', VStr name),
                (''hull'', VStr (fs_Ship inp)), (''modules'', strsOf (fr_previewMods res))]
          in guardedWrite E ''eveFittingSave''
               (authz ToolFittingSave CapFittings (body @ [(''character_id'', VInt cid)]) preview (fs_ConfirmToken inp) token)
               (postT E (charRoute cid [Seg ''fittings'']) (Some cid) [] (VMap body))
               (\<lambda>v. [statusDone, (''fitting_id'', lookupAny (jMap v) ''fitting_id''), (''name'', VStr name)]) t))))"

record fittingDeleteIn =
  fd_FittingID :: int
  fd_ConfirmToken :: string

definition noFitting :: "int \<Rightarrow> object" where
  "noFitting i = [(''error'', VStr ''No fitting with that id. Call eve_fitting_list.''),
     (''kind'', VStr kindError), (''fitting_id'', VInt i)]"

definition eveFittingDelete :: "toolEnv \<Rightarrow> fittingDeleteIn \<Rightarrow> any tool" where
  "eveFittingDelete E inp =
    (let failed = Wrap (eveOp ''eveFittingDelete'') in
     thenT characterT failed (\<lambda>token.
      (let cid = tk_CharacterID token in
       thenT (getT E (charRoute cid [Seg ''fittings'']) (Some cid) []) failed (\<lambda>existing t.
        (case find (\<lambda>f. jInt (nt_parseFloat (te_net E)) (lookupAny f ''fitting_id'') = fd_FittingID inp)
                (jMaps (er_Data existing)) of
           None \<Rightarrow> (Inr (VMap (noFitting (fd_FittingID inp))), t)
         | Some match \<Rightarrow>
           (let args = [(''fitting_id'', VInt (fd_FittingID inp)), (''character_id'', VInt cid)];
                preview = [(''action'', VStr ''Permanently delete a saved fitting''),
                  (''character'', VStr (tk_CharacterName token)), (''fitting_name'', lookupAny match ''name''),
                  (''modules'', VInt (int (length (rowsOf (lookupAny match ''items'')))))]
            in guardedWrite E ''eveFittingDelete''
                 (authz ToolFittingDelete CapFittings args preview (fd_ConfirmToken inp) token)
                 (deleteT E (charRoute cid [Seg ''fittings'', ID (fd_FittingID inp)]) (Some cid) [] VNil)
                 (\<lambda>_. [statusDone, (''deleted'', lookupAny match ''name'')]) t))))))"

subsection \<open>Contacts\<close>

record contactsSetIn =
  cs_Names :: "string list"
  cs_Standing :: rat
  cs_Watched :: "bool option"
  cs_ConfirmToken :: string

record contactsDeleteIn =
  cd_Names :: "string list"
  cd_ConfirmToken :: string

record contactResolved =
  cr_matches :: "NameMatch list"
  cr_failure :: "object option"

record contactPlan =
  pl_ids :: "int list"
  pl_updating :: "int list"
  pl_neu :: "int list"
  pl_names :: "string list"
  pl_watchable :: "int list"

record contactOp =
  op_verb :: string
  op_ids :: "int list"
  op_flag :: bool

definition resolveContacts :: "toolEnv \<Rightarrow> string list \<Rightarrow> contactResolved tool" where
  "resolveContacts E names =
    thenT (resolveT E names [] mailCategories) (Wrap (eveOp ''resolveContacts'')) (\<lambda>rs t.
      (case sortAsked E rs [] names of (ms, unknown, ambiguous) \<Rightarrow>
        (Inr (case nameResolveFail E unknown ambiguous of
           Some fail \<Rightarrow> \<lparr>cr_matches = [], cr_failure = Some fail\<rparr>
         | None \<Rightarrow> \<lparr>cr_matches = ms, cr_failure = None\<rparr>), t)))"

definition knownContactIDs :: "toolEnv \<Rightarrow> any \<Rightarrow> int list" where
  "knownContactIDs E data = map (\<lambda>c. jInt (nt_parseFloat (te_net E)) (lookupAny c ''contact_id'')) (jMaps data)"

definition planContactSet :: "NameMatch list \<Rightarrow> int list \<Rightarrow> contactPlan" where
  "planContactSet ms known =
    \<lparr>pl_ids = map nm_ID ms, pl_updating = filter (List.member known) (map nm_ID ms),
     pl_neu = filter (\<lambda>i. \<not> List.member known i) (map nm_ID ms), pl_names = map nm_Name ms,
     pl_watchable = map nm_ID (filter (\<lambda>m. nm_Category m = ''characters'') ms)\<rparr>"

definition contactSetPreview :: "string \<Rightarrow> contactPlan \<Rightarrow> rat \<Rightarrow> bool \<Rightarrow> object" where
  "contactSetPreview character plan standing watched =
    (let watchable = length (remdups (pl_watchable plan)) in
     [(''action'', VStr (''Set contact standings (visible in the character'' @ [CHR 0x27] @ ''s overview)'')),
      (''character'', VStr character), (''contacts'', strsOf (pl_names plan)), (''standing'', VFloat standing),
      (''watched'', VBool watched), (''new_contacts'', VInt (int (length (pl_neu plan)))),
      (''updated_contacts'', VInt (int (length (pl_updating plan))))]
     @ (if watched \<and> watchable \<noteq> length (pl_ids plan)
        then [(''watched_note'', VStr (''Only '' @ itoa (int watchable) @ '' of '' @ itoa (int (length (pl_ids plan)))
               @ '' are characters; the rest are corporations or alliances, which cannot be watched.''))]
        else []))"

definition contactOpsFor :: "string \<Rightarrow> int list \<Rightarrow> bool \<Rightarrow> int list \<Rightarrow> contactOp list" where
  "contactOpsFor verb ids watched watchable =
    (if ids = [] then []
     else if \<not> watched then [\<lparr>op_verb = verb, op_ids = ids, op_flag = False\<rparr>]
     else let yes = filter (List.member watchable) ids; no = filter (\<lambda>i. \<not> List.member watchable i) ids in
       (if yes \<noteq> [] then [\<lparr>op_verb = verb, op_ids = yes, op_flag = True\<rparr>] else [])
       @ (if no \<noteq> [] then [\<lparr>op_verb = verb, op_ids = no, op_flag = False\<rparr>] else []))"

definition buildContactOps :: "int list \<Rightarrow> int list \<Rightarrow> bool \<Rightarrow> int list \<Rightarrow> contactOp list" where
  "buildContactOps updating neu watched watchable =
    contactOpsFor ''update'' updating watched watchable @ contactOpsFor ''add'' neu watched watchable"

definition runContactOp :: "toolEnv \<Rightarrow> int \<Rightarrow> rat \<Rightarrow> contactOp \<Rightarrow> unit tool" where
  "runContactOp E cid standing op t =
    (let route = charRoute cid [Seg ''contacts''];
         params = [(''standing'', VFloat standing), (''watched'', VBool (op_flag op))];
         args = [(''contact_ids'', VInts (op_ids op)), (''standing'', VFloat standing), (''watched'', VBool (op_flag op)),
                 (''character_id'', VInt cid), (''phase'', VStr (op_verb op))] in
     case (if op_verb op = ''update'' then putT E route (Some cid) params (VInts (op_ids op))
           else postT E route (Some cid) params (VInts (op_ids op))) t of
       (r, t1) \<Rightarrow> (case r of Inl e \<Rightarrow> Inl e | Inr _ \<Rightarrow> Inr (),
                   recordWrite E ToolContactsSet CapContacts args (errOf r) t1))"

definition partiallyApplied :: "goerr \<Rightarrow> rat \<Rightarrow> int list \<Rightarrow> int list \<Rightarrow> object" where
  "partiallyApplied err standing appliedU appliedA =
    [(''error'', VStr ''Partially applied. Call eve_contacts_set again with the same arguments.''),
     (''kind'', VStr ''EsiError''),
     (''status'', VInt (case errors_as asEsiError err of Some (_, status) \<Rightarrow> status | None \<Rightarrow> 0)),
     (''standing'', VFloat standing), (''updated'', VInt (int (length appliedU))), (''added'', VInt (int (length appliedA)))]"

text \<open>\<open>Inr (Some fail)\<close> is a result that only part of the changes was made.\<close>

fun applyContactOps :: "toolEnv \<Rightarrow> int \<Rightarrow> rat \<Rightarrow> int list \<Rightarrow> int list \<Rightarrow> contactOp list \<Rightarrow> object option tool" where
  "applyContactOps E cid standing appliedU appliedA [] t = (Inr None, t)"
| "applyContactOps E cid standing appliedU appliedA (op # ops) t =
    (case runContactOp E cid standing op t of
       (Inl err, t1) \<Rightarrow>
         (if length appliedU + length appliedA = 0 then (Inl err, t1)
          else (Inr (Some (partiallyApplied err standing appliedU appliedA)), t1))
     | (Inr _, t1) \<Rightarrow>
         if op_verb op = ''update'' then applyContactOps E cid standing (appliedU @ op_ids op) appliedA ops t1
         else applyContactOps E cid standing appliedU (appliedA @ op_ids op) ops t1)"

definition pagesESI :: int where "pagesESI = 40"

definition eveContactsSet :: "toolEnv \<Rightarrow> contactsSetIn \<Rightarrow> any tool" where
  "eveContactsSet E inp =
    (let failed = Wrap (eveOp ''eveContactsSet'') in
     thenT characterT failed (\<lambda>token.
     thenT (resolveContacts E (cs_Names inp)) id (\<lambda>found t.
      (case cr_failure found of Some fail \<Rightarrow> (Inr (VMap fail), t)
       | None \<Rightarrow>
         (let cid = tk_CharacterID token in
          thenT (onRdr (askAll (te_net E) (te_lib E) (charRoute cid [Seg ''contacts'']) (Some cid) [] pagesESI)) failed
           (\<lambda>existing.
            (let plan = planContactSet (cr_matches found) (knownContactIDs E (er_Data existing));
                 watched = boolDef (cs_Watched inp) False; standing = cs_Standing inp;
                 args = [(''contact_ids'', intsOf (pl_ids plan)), (''standing'', VFloat standing),
                         (''watched'', VBool watched), (''character_id'', VInt cid)]
             in thenT (authorizeT E (authz ToolContactsSet CapContacts args
                    (contactSetPreview (tk_CharacterName token) plan standing watched) (cs_ConfirmToken inp) token)) failed
                 (\<lambda>decision t. case decision of Some required \<Rightarrow> (Inr (VMap required), t)
                  | None \<Rightarrow>
                    thenT (applyContactOps E cid standing [] []
                        (buildContactOps (pl_updating plan) (pl_neu plan) watched (pl_watchable plan))) id
                      (\<lambda>fail t. (Inr (VMap (case fail of Some f \<Rightarrow> f
                         | None \<Rightarrow> [statusDone, (''contacts'', strsOf (pl_names plan)), (''standing'', VFloat standing)])), t)) t))) t)))))"

definition eveContactsDelete :: "toolEnv \<Rightarrow> contactsDeleteIn \<Rightarrow> any tool" where
  "eveContactsDelete E inp =
    thenT characterT (Wrap (eveOp ''eveContactsDelete'')) (\<lambda>token.
    thenT (resolveContacts E (cd_Names inp)) id (\<lambda>found t.
      (case cr_failure found of Some fail \<Rightarrow> (Inr (VMap fail), t)
       | None \<Rightarrow>
         (let cid = tk_CharacterID token; ids = map nm_ID (cr_matches found); names = map nm_Name (cr_matches found);
              args = [(''contact_ids'', intsOf ids), (''character_id'', VInt cid)];
              preview = [(''action'', VStr ''Delete contacts and the standings set on them''),
                (''character'', VStr (tk_CharacterName token)), (''contacts'', strsOf names)]
          in guardedWrite E ''eveContactsDelete''
               (authz ToolContactsDelete CapContacts args preview (cd_ConfirmToken inp) token)
               (deleteT E (charRoute cid [Seg ''contacts'']) (Some cid) [(''contact_ids'', intsOf ids)] VNil)
               (\<lambda>_. [statusDone, (''removed'', strsOf names)]) t))))"

subsection \<open>The game client's windows and route\<close>

record waypointIn =
  wp_Destination :: string
  wp_ClearOtherWaypoints :: "bool option"
  wp_AddToBeginning :: "bool option"
  wp_ConfirmToken :: string

record openWindowIn =
  ow_Window :: string
  ow_Target :: string
  ow_ConfirmToken :: string

definition chosenTarget :: "toolEnv \<Rightarrow> NameResolution \<Rightarrow> NameMatch \<Rightarrow> object" where
  "chosenTarget E match m =
    [(''id'', VInt (nm_ID m)), (''name'', VStr (nm_Name m)), (''kind'', VStr (nm_Kind m))]
    @ (if Ambiguous match then [(''ambiguity'', VStr (Describe (nt_fmt (te_net E)) (te_lib E) match))] else [])"

definition resolveDestination :: "toolEnv \<Rightarrow> string \<Rightarrow> int \<Rightarrow> object tool" where
  "resolveDestination E name cid =
    (let failed = Wrap (eveOp ''resolveDestination''); order = [''stations'', ''systems''] in
     thenT (resolveT E [name] order order) failed (\<lambda>rs t.
      (let match = resolved rs (fold_name (te_net E) (te_lib E) name) in
       case nr_Chosen match of Some m \<Rightarrow> (Inr (chosenTarget E match m), t)
       | None \<Rightarrow>
         thenT (getT E (charRoute cid [Seg ''search'']) (Some cid)
             [(''categories'', VStrs [''structure'']), (''search'', VStr name), (''strict'', VBool False)]) failed
           (\<lambda>found t. (case rowsOf (lookupAny (jMap (er_Data found)) ''structure'') of
              [] \<Rightarrow> (Inr (unresolvedResult [name]), t)
            | s # _ \<Rightarrow> (let sid = jInt (nt_parseFloat (te_net E)) s in
                thenT (nameT E sid (Some cid)) failed (\<lambda>sname t.
                  (Inr [(''id'', VInt sid), (''name'', VStr sname), (''kind'', VStr ''structure'')], t)) t))) t)))"

text \<open>The text \<open>%v (%v)\<close> of a target's name and kind, which are strings.\<close>

definition targetText :: "object \<Rightarrow> string" where
  "targetText target = jStr (lookupAny target ''name'') @ '' ('' @ jStr (lookupAny target ''kind'') @ '')''"

definition eveUISetWaypoint :: "toolEnv \<Rightarrow> waypointIn \<Rightarrow> any tool" where
  "eveUISetWaypoint E inp =
    thenT characterT (Wrap (eveOp ''eveUISetWaypoint'')) (\<lambda>token.
    thenT (resolveDestination E (wp_Destination inp) (tk_CharacterID token)) id (\<lambda>target t.
      (if jHas target ''error'' then (Inr (VMap target), t)
       else let cid = tk_CharacterID token; clearOthers = boolDef (wp_ClearOtherWaypoints inp) True;
                addFirst = boolDef (wp_AddToBeginning inp) False;
                params = [(''destination_id'', lookupAny target ''id''), (''clear_other_waypoints'', VBool clearOthers),
                          (''add_to_beginning'', VBool addFirst)];
                amb = jStr (lookupAny target ''ambiguity'');
                preview = [(''action'', VStr ''Set an autopilot waypoint in the game client''),
                  (''character'', VStr (tk_CharacterName token)), (''destination'', VStr (targetText target)),
                  (''clears_existing_route'', VBool clearOthers),
                  (''position'', VStr (if addFirst then ''next hop'' else ''final stop''))]
                  @ (if amb \<noteq> [] then [(''ambiguous_name'', VStr (amb @ '' '' @ emDash
                       @ '' this routes to the first. Cancel and use eve_universe_search if the other one was meant.''))] else [])
            in guardedWrite E ''eveUISetWaypoint''
                 (authz ToolUISetWaypoint CapWaypoint (params @ [(''character_id'', VInt cid)]) preview (wp_ConfirmToken inp) token)
                 (postT E (Path [Seg ''/ui/autopilot/waypoint'']) (Some cid) params VNil)
                 (\<lambda>_. [statusDone, (''waypoint_set_to'', lookupAny target ''name''), (''note'', VStr clientCaveat)]) t)))"

definition entityPreference :: "string list" where
  "entityPreference = [''characters'', ''corporations'', ''alliances'', ''inventory_types'', ''systems'', ''stations'']"

definition resolveEntity :: "toolEnv \<Rightarrow> string \<Rightarrow> int \<Rightarrow> string \<Rightarrow> object tool" where
  "resolveEntity E name cid kind t =
    (let failed = Wrap (eveOp ''resolveEntity'') in
     if parseInt64 (nt_trimSpace (te_net E) name) \<noteq> None
     then let i = jInt (nt_parseFloat (te_net E)) (VStr name) in
       thenT (nameT E i (Some cid)) failed
         (\<lambda>n t. (Inr [(''id'', VInt i), (''name'', VStr n), (''kind'', VStr ''id'')], t)) t
     else let prefer = (if kind = ''market'' then [''inventory_types''] else entityPreference);
              only = (if kind = ''market'' then prefer else []) in
       thenT (resolveT E [name] prefer only) failed (\<lambda>rs t.
        (let match = resolved rs (fold_name (te_net E) (te_lib E) name) in
         (Inr (case nr_Chosen match of Some m \<Rightarrow> chosenTarget E match m | None \<Rightarrow> unresolvedResult [name]), t))) t)"

record windowPlan =
  wd_route :: Route
  wd_params :: object
  wd_label :: string
  wd_resolved :: "object option"
  wd_refuse :: "object option"

definition planContractWindow :: "toolEnv \<Rightarrow> string \<Rightarrow> windowPlan tool" where
  "planContractWindow E target t =
    (case parseInt64 (nt_trimSpace (te_net E) target) of
       None \<Rightarrow> (Inl (ValidationError ''target'' ''must be the numeric contract_id from eve_market_contracts''), t)
     | Some i \<Rightarrow> (Inr \<lparr>wd_route = Path [Seg ''/ui/openwindow/contract''], wd_params = [(''contract_id'', VInt i)],
          wd_label = ''contract #'' @ nt_trimSpace (te_net E) target, wd_resolved = None, wd_refuse = None\<rparr>, t))"

definition planNamedWindow :: "toolEnv \<Rightarrow> string \<Rightarrow> string \<Rightarrow> int \<Rightarrow> Route \<Rightarrow> string \<Rightarrow> windowPlan tool" where
  "planNamedWindow E kind target cid route idKey =
    thenT (resolveEntity E target cid kind) id (\<lambda>res t.
      (Inr (if jHas res ''error''
        then \<lparr>wd_route = Path [], wd_params = [], wd_label = [], wd_resolved = None, wd_refuse = Some res\<rparr>
        else let k = jStr (lookupAny res ''kind''); label = jStr (lookupAny res ''name'') in
          \<lparr>wd_route = route, wd_params = [(idKey, lookupAny res ''id'')],
           wd_label = (if k \<noteq> [] \<and> k \<noteq> ''id'' then label @ '' ('' @ k @ '')'' else label),
           wd_resolved = Some res, wd_refuse = None\<rparr>), t))"

definition windowKinds :: "string list" where "windowKinds = [''market'', ''info'', ''contract'']"

definition planOpenWindow :: "toolEnv \<Rightarrow> string \<Rightarrow> string \<Rightarrow> int \<Rightarrow> windowPlan tool" where
  "planOpenWindow E kind target cid t =
    (if kind = ''contract'' then planContractWindow E target t
     else if kind = ''market''
     then planNamedWindow E kind target cid (Path [Seg ''/ui/openwindow/marketdetails'']) ''type_id'' t
     else if kind = ''info''
     then planNamedWindow E kind target cid (Path [Seg ''/ui/openwindow/information'']) ''target_id'' t
     else (Inl (ValidationError ''window'' (enumInvariant windowKinds)), t))"

definition eveUIOpenWindow :: "toolEnv \<Rightarrow> openWindowIn \<Rightarrow> any tool" where
  "eveUIOpenWindow E inp t =
    (case requireEnum (te_net E) (te_lib E) ''window'' (ow_Window inp) windowKinds of
       Inl e \<Rightarrow> (Inl e, t)
     | Inr kind \<Rightarrow>
       thenT characterT (Wrap (eveOp ''eveUIOpenWindow'')) (\<lambda>token.
       thenT (planOpenWindow E kind (ow_Target inp) (tk_CharacterID token)) id (\<lambda>plan t.
         (case wd_refuse plan of Some refuse \<Rightarrow> (Inr (VMap refuse), t)
          | None \<Rightarrow>
            (let cid = tk_CharacterID token;
                 args = [(''window'', VStr kind), (''params'', VMap (wd_params plan)), (''character_id'', VInt cid)];
                 amb = (case wd_resolved plan of None \<Rightarrow> [] | Some res \<Rightarrow> jStr (lookupAny res ''ambiguity''));
                 preview = [(''action'', VStr (''Open the '' @ kind @ '' window in the game client'')),
                   (''character'', VStr (tk_CharacterName token)), (''target'', VStr (wd_label plan))]
                   @ (if amb \<noteq> [] then [(''ambiguous_name'', VStr (amb @ '' '' @ emDash
                        @ '' this opens the first. Cancel and use eve_universe_search if the other one was meant.''))] else [])
             in guardedWrite E ''eveUIOpenWindow''
                  (authz ToolUIOpenWindow CapOpenWindow args preview (ow_ConfirmToken inp) token)
                  (postT E (wd_route plan) (Some cid) (wd_params plan) VNil)
                  (\<lambda>_. [statusDone, (''opened'', VStr (wd_label plan)), (''note'', VStr clientCaveat)]) t)))) t)"

subsection \<open>A call of a tool\<close>

datatype toolCall =
    MailMark mailMarkIn
  | MailDelete mailDeleteIn
  | MailSend mailSendIn
  | MailCompose mailComposeIn
  | CalendarRespond calendarRespondIn
  | FittingSave fittingSaveIn
  | FittingDelete fittingDeleteIn
  | ContactsSet contactsSetIn
  | ContactsDelete contactsDeleteIn
  | UISetWaypoint waypointIn
  | UIOpenWindow openWindowIn

fun runTool :: "toolEnv \<Rightarrow> toolCall \<Rightarrow> any tool" where
  "runTool E (MailMark inp) = eveMailMark E inp"
| "runTool E (MailDelete inp) = eveMailDelete E inp"
| "runTool E (MailSend inp) = eveMailSend E inp"
| "runTool E (MailCompose inp) = eveMailCompose E inp"
| "runTool E (CalendarRespond inp) = eveCalendarRespond E inp"
| "runTool E (FittingSave inp) = eveFittingSave E inp"
| "runTool E (FittingDelete inp) = eveFittingDelete E inp"
| "runTool E (ContactsSet inp) = eveContactsSet E inp"
| "runTool E (ContactsDelete inp) = eveContactsDelete E inp"
| "runTool E (UISetWaypoint inp) = eveUISetWaypoint E inp"
| "runTool E (UIOpenWindow inp) = eveUIOpenWindow E inp"

fun toolOf :: "toolCall \<Rightarrow> string" where
  "toolOf (MailMark _) = ToolMailMark"
| "toolOf (MailDelete _) = ToolMailDelete"
| "toolOf (MailSend _) = ToolMailSend"
| "toolOf (MailCompose _) = ToolMailCompose"
| "toolOf (CalendarRespond _) = ToolCalendarRespond"
| "toolOf (FittingSave _) = ToolFittingSave"
| "toolOf (FittingDelete _) = ToolFittingDelete"
| "toolOf (ContactsSet _) = ToolContactsSet"
| "toolOf (ContactsDelete _) = ToolContactsDelete"
| "toolOf (UISetWaypoint _) = ToolUISetWaypoint"
| "toolOf (UIOpenWindow _) = ToolUIOpenWindow"

fun tokenOf :: "toolCall \<Rightarrow> string" where
  "tokenOf (MailMark inp) = mm_ConfirmToken inp"
| "tokenOf (MailDelete inp) = md_ConfirmToken inp"
| "tokenOf (MailSend inp) = ms_ConfirmToken inp"
| "tokenOf (MailCompose inp) = mc_ConfirmToken inp"
| "tokenOf (CalendarRespond inp) = cal_ConfirmToken inp"
| "tokenOf (FittingSave inp) = fs_ConfirmToken inp"
| "tokenOf (FittingDelete inp) = fd_ConfirmToken inp"
| "tokenOf (ContactsSet inp) = cs_ConfirmToken inp"
| "tokenOf (ContactsDelete inp) = cd_ConfirmToken inp"
| "tokenOf (UISetWaypoint inp) = wp_ConfirmToken inp"
| "tokenOf (UIOpenWindow inp) = ow_ConfirmToken inp"

definition Call :: "toolEnv \<Rightarrow> toolCall \<Rightarrow> toolState \<Rightarrow> any \<times> toolState" where
  \<comment> \<open>\<open>sessionTool\<close> and \<open>Call\<close>: an error becomes the object of \<open>Handle\<close>\<close>
  "Call E call t = (case runTool E call t of
     (Inl e, t1) \<Rightarrow> (VMap (Handle (nt_rfc3339 (te_net E)) e), t1)
   | (Inr v, t1) \<Rightarrow> (v, t1))"

end
