(* ===== verification/ResolverProps.thy ===== *)
theory ResolverProps
  imports Resolver
begin

text \<open>
  What the resolver guarantees: which requests its reads hand to the transport, that \<open>Names\<close>
  names every id it is asked for, that a resolution does not depend on the order in which Go
  ranges over maps, and that the match chosen is a least one, unambiguous only when it is the
  only one.
\<close>

subsection \<open>Which requests a stretch of work sends\<close>

definition sends :: "(httpCall \<Rightarrow> bool) \<Rightarrow> esi \<Rightarrow> esi \<Rightarrow> bool" where
  "sends Q c c' \<longleftrightarrow> ec_now c \<le> ec_now c' \<and> (\<exists>more_calls. ec_sent c' = ec_sent c @ more_calls \<and> (\<forall>h \<in> set more_calls. Q h))"

lemma sends_refl [intro]: "ec_sent c' = ec_sent c \<Longrightarrow> ec_now c' = ec_now c \<Longrightarrow> sends Q c c'"
  by (auto simp: sends_def)

lemma sends_trans [trans]: "sends Q c c1 \<Longrightarrow> sends Q c1 c2 \<Longrightarrow> sends Q c c2"
  by (auto simp: sends_def)

lemma sends_mono: "sends Q c c' \<Longrightarrow> (\<And>h. Q h \<Longrightarrow> R h) \<Longrightarrow> sends R c c'"
  by (fastforce simp: sends_def)

lemma exchanged_sends: "exchanged N call c outs c' \<Longrightarrow> Q call \<Longrightarrow> sends Q c c'"
  by (auto simp: sends_def exchanged_def)

lemma request_sends:
  assumes "request N call 0 c = (r, c')" "Q call" shows "sends Q c c'"
proof -
  obtain outs where "exchanged N call c outs c'" using request_effect [OF assms(1)] by auto
  then show ?thesis using assms(2) by (rule exchanged_sends)
qed

lemma cachedGet_sends:
  assumes "cachedGet N path cid params ttl c0 = (res, c')"
    and Q: "\<And>h. hc_method h = MethodGet \<Longrightarrow> hc_path h = path \<Longrightarrow> Q h"
  shows "sends Q c0 c'"
  using assms(1)
proof (cases rule: cachedGet_cases)
  case (quiet b cache)
  then show ?thesis by (intro sends_refl) simp_all
next
  case (asked key cached cache b h r c2)
  have "sends Q (c0\<lparr>ec_cache := cache, ec_budget := b\<rparr>) c2"
    by (rule request_sends [OF asked(5)]) (rule Q, simp_all add: getCall_def)
  moreover have "ec_sent c' = ec_sent c2 \<and> ec_now c' = ec_now c2" using asked(6) finishGet_effect(1,2) by auto
  ultimately show ?thesis by (simp add: sends_def)
qed

lemma esiWrite_sends:
  assumes "esiWrite N meth path cid params body c0 = (res, c')"
    and Q: "\<And>h. hc_method h = meth \<Longrightarrow> hc_path h = path \<Longrightarrow> hc_params h = params \<Longrightarrow> hc_jsonBody h = body \<Longrightarrow> Q h"
  shows "sends Q c0 c'"
  using assms(1)
proof (cases rule: esiWrite_cases)
  case (quiet b e)
  then show ?thesis by (intro sends_refl) simp_all
next
  case (asked b h r)
  have "sends Q (c0\<lparr>ec_budget := b\<rparr>) c'"
    by (rule request_sends [OF asked(2)]) (rule Q, simp_all)
  then show ?thesis by (simp add: sends_def)
qed

lemma fetchPages_sends:
  assumes "\<And>h. hc_method h = MethodGet \<Longrightarrow> hc_path h = path \<Longrightarrow> Q h"
  shows "fetchPages N path cid params pages c = (rs, c') \<Longrightarrow> sends Q c c'"
proof (induction pages arbitrary: c rs c')
  case (Cons page pages)
  obtain r c1 where g: "cachedGet N path cid (withPage params page) None c = (r, c1)" by fastforce
  obtain rs1 c2 where f: "fetchPages N path cid params pages c1 = (rs1, c2)" by fastforce
  have "sends Q c c1" using g assms by (rule cachedGet_sends)
  also have "sends Q c1 c2" by (rule Cons.IH [OF f])
  finally show ?case using Cons.prems g f by simp
qed (auto intro: sends_refl)

lemma GetAllPages_sends:
  assumes "GetAllPages N path cid params maxPages arrival c = (r, c')"
    and Q: "\<And>h. hc_method h = MethodGet \<Longrightarrow> hc_path h = path \<Longrightarrow> Q h"
  shows "sends Q c c'"
proof -
  obtain a c1 where g: "cachedGet N path cid (withPage params 1) None c = (a, c1)" by fastforce
  have 1: "sends Q c c1" using g Q by (rule cachedGet_sends)
  have "c' = c1 \<or> (\<exists>pages rs. fetchPages N path cid params pages c1 = (rs, c'))"
    using assms(1) g by (auto simp: GetAllPages_def Let_def case_prod_unfold prod_eq_iff split: sum.splits if_splits)
  moreover have "sends Q c1 c'" if "fetchPages N path cid params pages c1 = (rs, c')" for pages rs
    by (rule fetchPages_sends [OF _ that]) (rule Q)
  ultimately show ?thesis using 1 sends_trans by blast
qed

text \<open>The same for the resolver's state. A read asks with GET or with one of the two lookups.\<close>

definition lookupPaths :: "string list" where
  "lookupPaths = [''/universe/names'', ''/universe/ids'']"

definition isRead :: "httpCall \<Rightarrow> bool" where
  "isRead h \<longleftrightarrow> hc_method h = MethodGet \<or> hc_method h = ''POST'' \<and> hc_path h \<in> set lookupPaths"

abbreviation reads :: "rdr \<Rightarrow> rdr \<Rightarrow> bool" where
  "reads d d' \<equiv> sends isRead (rd_esi d) (rd_esi d')"

lemma ask_reads: "ask N route cid params d = (r, d') \<Longrightarrow> reads d d'"
  by (auto simp: ask_def onEsi_def esiGet_def Let_def isRead_def split: prod.splits elim!: cachedGet_sends)

lemma askAll_reads: "askAll N L route cid params mp d = (r, d') \<Longrightarrow> reads d d'"
  by (auto simp: askAll_def onEsi_def Let_def isRead_def split: prod.splits option.splits elim!: GetAllPages_sends)

lemma post_sends:
  "post N route cid params body d = (r, d') \<Longrightarrow>
   (\<And>h. hc_method h = ''POST'' \<Longrightarrow> hc_path h = rt_raw route \<Longrightarrow> hc_params h = params \<Longrightarrow> hc_jsonBody h = body \<Longrightarrow> Q h)
   \<Longrightarrow> sends Q (rd_esi d) (rd_esi d')"
  by (auto simp: post_def onEsi_def esiPost_def Let_def split: prod.splits elim!: esiWrite_sends)

lemma lookup_routes [simp]:
  "rt_raw (Path [Seg ''/universe/names'']) = ''/universe/names''"
  "rt_raw (Path [Seg ''/universe/ids'']) = ''/universe/ids''"
  by (simp_all add: Path_def staticRoute_def hasPrefix_def)

lemma fillUniverseNames_reads: "fillUniverseNames N out universal d = (out', d') \<Longrightarrow> reads d d'"
proof (induction N out universal d rule: fillUniverseNames.induct)
  case (1 N out universal d)
  show ?case
  proof (cases "universal = []")
    case True
    then show ?thesis using "1.prems" by (auto simp: fillUniverseNames.simps intro: sends_refl)
  next
    case False
    obtain r d1 where p: "post N (Path [Seg ''/universe/names'']) None [] (VInts (take nameBatch universal)) d = (r, d1)"
      by fastforce
    have s: "reads d d1" using p by (rule post_sends) (simp add: isRead_def lookupPaths_def)
    show ?thesis
    proof (cases r)
      case (Inl e)
      then have "fillUniverseNames N out (drop nameBatch universal) d1 = (out', d')"
        using "1.prems" False p by (simp add: fillUniverseNames.simps [of N out universal])
      then show ?thesis using s "1.IH"(1) [OF False p [symmetric] Inl] sends_trans by blast
    next
      case (Inr res)
      obtain out1 nc where l: "learnNames N (jMaps res) out (rd_names d1) = (out1, nc)" by fastforce
      have "fillUniverseNames N out1 (drop nameBatch universal) (d1\<lparr>rd_names := nc\<rparr>) = (out', d')"
        using "1.prems" False p Inr l by (simp add: fillUniverseNames.simps [of N out universal])
      from "1.IH"(2) [OF False p [symmetric] Inr l [symmetric] refl this]
      show ?thesis using s sends_trans by fastforce
    qed
  qed
qed

lemma structureName_reads: "structureName N sid cid d = (r, d') \<Longrightarrow> reads d d'"
  by (auto simp: structureName_def Let_def split: prod.splits sum.splits dest: ask_reads)

lemma fillStructures_reads: "fillStructures N cid sids out d = (out', d') \<Longrightarrow> reads d d'"
proof (induction N cid sids out d rule: fillStructures.induct)
  case (2 N cid sid sids out d)
  obtain r d1 where s: "structureName N sid cid d = (r, d1)" by fastforce
  show ?case
    using 2 s structureName_reads [OF s]
    by (cases r) (fastforce intro: sends_trans [of isRead "rd_esi d" "rd_esi d1"])+
qed (auto intro: sends_refl)

lemma fillMissingNames_reads: "fillMissingNames N L out missing cid d = (out', d') \<Longrightarrow> reads d d'"
  by (auto simp: fillMissingNames_def fillStructureNames_def Let_def split: prod.splits option.splits if_splits
      dest!: fillUniverseNames_reads fillStructures_reads intro: sends_trans)

lemma Names_reads:
  assumes "Names N L ids cid d = (r, d')" shows "reads d d'"
proof -
  obtain names missing nc where g: "ncGet (gl_ids L (uniquePositive ids)) (rd_names d) = ((names, missing), nc)"
    by (metis prod.exhaust)
  obtain out d2 where f: "fillMissingNames N L names missing cid (d\<lparr>rd_names := nc\<rparr>) = (out, d2)" by fastforce
  have "reads d d2" using fillMissingNames_reads [OF f] by simp
  then show ?thesis using assms g f
    by (auto simp: Names_def Let_def split: if_splits intro: sends_refl)
qed

lemma NameOf_reads: "NameOf N L i cid d = (r, d') \<Longrightarrow> reads d d'"
  by (auto simp: NameOf_def split: prod.splits sum.splits dest: Names_reads)

lemma idsLoop_reads: "idsLoop N unique out d = (r, d') \<Longrightarrow> reads d d'"
proof (induction N unique out d rule: idsLoop.induct)
  case (1 N unique out d)
  show ?case
  proof (cases "unique = []")
    case True
    then show ?thesis using "1.prems" by (auto simp: idsLoop.simps intro: sends_refl)
  next
    case False
    obtain x d1 where p: "post N (Path [Seg ''/universe/ids'']) None [] (VStrs (take idsBatch unique)) d = (x, d1)"
      by fastforce
    have s: "reads d d1" using p by (rule post_sends) (simp add: isRead_def lookupPaths_def)
    show ?thesis
    proof (cases x)
      case (Inl e)
      then show ?thesis using "1.prems" False p s by (simp add: idsLoop.simps [of N unique])
    next
      case (Inr part)
      then have "idsLoop N (drop idsBatch unique) (addPart out (jMap part)) d1 = (r, d')"
        using "1.prems" False p by (simp add: idsLoop.simps [of N unique])
      from "1.IH" [OF False p [symmetric] Inr this] show ?thesis using s sends_trans by blast
    qed
  qed
qed

lemma ResolveNames_reads: "ResolveNames N L names prefer only d = (r, d') \<Longrightarrow> reads d d'"
  by (auto simp: ResolveNames_def IDsFromNames_def split: prod.splits sum.splits dest: idsLoop_reads)

subsection \<open>Names\<close>

lemma entry_MoveToFront [simp]: "entry i (MoveToFront j c) = entry i c"
  by (auto simp: MoveToFront_def split: option.split)

lemma ncGet_names:
  "ncGet ids c = ((names, missing), c') \<Longrightarrow>
     map_of names i = (if i \<in> set ids then entry i c else None) \<and> set missing = {j \<in> set ids. entry j c = None}
   \<and> (\<forall>j. entry j c' = entry j c)"
proof (induction ids c arbitrary: names missing c' rule: ncGet.induct)
  case (2 j ids c)
  show ?case
  proof (cases "entry j c")
    case None
    obtain names1 missing1 c1 where r: "ncGet ids c = ((names1, missing1), c1)" by (metis prod.exhaust)
    have eq: "names = names1" "missing = j # missing1" "c' = c1" using 2(3) None r by (simp_all add: Let_def)
    from "2.IH"(1) [OF None r] have "map_of names1 i = (if i \<in> set ids then entry i c else None)"
      "set missing1 = {k \<in> set ids. entry k c = None}" "\<forall>k. entry k c1 = entry k c" by simp_all
    then show ?thesis using None unfolding eq by auto
  next
    case (Some n)
    obtain names1 missing1 c1 where r: "ncGet ids (MoveToFront j c) = ((names1, missing1), c1)" by (metis prod.exhaust)
    have eq: "names = (j, n) # names1" "missing = missing1" "c' = c1" using 2(3) Some r by (simp_all add: Let_def)
    from "2.IH"(2) [OF Some r] have "map_of names1 i = (if i \<in> set ids then entry i c else None)"
      "set missing1 = {k \<in> set ids. entry k c = None}" "\<forall>k. entry k c1 = entry k c" by simp_all
    then show ?thesis using Some unfolding eq by auto
  qed
qed simp

lemma map_of_foldl_rest:
  "i \<in> set wanted \<Longrightarrow> \<exists>n. map_of (nameTheRest wanted names) i = Some n"
  "map_of names i = Some n \<Longrightarrow> map_of (nameTheRest wanted names) i = Some n"
proof -
  have keep: "map_of names i = Some n \<Longrightarrow> map_of (nameTheRest wanted names) i = Some n" for names n wanted
  proof (induction wanted arbitrary: names)
    case (Cons w ws)
    then have "map_of (if map_of names w = None then mapPut w (unknownName w) names else names) i = Some n"
      by (cases "i = w") auto
    then show ?case using Cons.IH by (simp add: nameTheRest_def)
  qed (simp add: nameTheRest_def)
  then show "map_of names i = Some n \<Longrightarrow> map_of (nameTheRest wanted names) i = Some n" .
  show "i \<in> set wanted \<Longrightarrow> \<exists>n. map_of (nameTheRest wanted names) i = Some n"
  proof (induction wanted arbitrary: names)
    case (Cons w ws)
    let ?m = "if map_of names w = None then mapPut w (unknownName w) names else names"
    have step: "nameTheRest (w # ws) names = nameTheRest ws ?m" by (simp add: nameTheRest_def)
    show ?case
    proof (cases "i = w")
      case True
      then obtain n where "map_of ?m i = Some n" by (cases "map_of names w") auto
      then show ?thesis using keep step by metis
    next
      case False
      then show ?thesis using Cons step by simp
    qed
  qed simp
qed

lemma uniquePositive_set [simp]: "set (uniquePositive ids) = {i \<in> set ids. i \<noteq> 0}"
  by (auto simp: uniquePositive_def)


subsection \<open>Matches\<close>

text \<open>\<open>lessNameMatch\<close> is the lexicographic order of rank, category and id.\<close>

definition matchKey :: "(string \<times> nat) list \<Rightarrow> NameMatch \<Rightarrow> nat \<times> string \<times> int" where
  "matchKey rank m = (rankOf rank m, nm_Category m, nm_ID m)"

lemma lessNameMatch_key: "lessNameMatch rank a b \<longleftrightarrow> matchKey rank a < matchKey rank b"
  by (auto simp: lessNameMatch_def matchKey_def less_prod_def' split: if_splits)

lemma insertBy_key: "insertBy (\<lambda>a b. k a < k b) x xs = insort_key k x xs"
  for k :: "'a \<Rightarrow> 'b :: linorder"
  by (induction xs) (auto simp: not_le)

lemma sortSlice_key: "sortSlice (\<lambda>a b. k a < k b) xs = sort_key k xs"
  for k :: "'a \<Rightarrow> 'b :: linorder"
  by (simp add: sortSlice_def sort_key_def insertBy_key [abs_def] fun_eq_iff)

lemma sortMatches: "sortSlice (lessNameMatch rank) ms = sort_key (matchKey rank) ms"
  by (simp add: lessNameMatch_key [abs_def] sortSlice_key)

lemma map_of_pick:
  "asked \<in> set names \<Longrightarrow> \<exists>q. map_of (pickNameResolutions N L names buckets rank) (fold_name N L asked)
     = Some (resolution N q (sort_key (matchKey rank) (bucketOf (fold_name N L asked) buckets)))"
proof -
  let ?step = "\<lambda>out asked. mapPut (fold_name N L asked)
        (resolution N asked (sortSlice (lessNameMatch rank) (bucketOf (fold_name N L asked) buckets))) out"
  assume asked: "asked \<in> set names"
  have "asked \<in> set xs \<Longrightarrow> \<exists>q. map_of (foldl ?step [] (rev xs)) (fold_name N L asked)
     = Some (resolution N q (sort_key (matchKey rank) (bucketOf (fold_name N L asked) buckets)))" for xs
    by (induction xs) (auto simp: sortMatches)
  from this [of "rev names"] show ?thesis using asked by (simp add: pickNameResolutions_def)
qed

lemma resolution_simps [simp]:
  "nr_Chosen (resolution N q ms) = (case ms of [] \<Rightarrow> None | m # _ \<Rightarrow> Some m)"
  "Ambiguous (resolution N q ms) \<longleftrightarrow> 1 < length ms"
  by (cases ms; simp add: resolution_def Ambiguous_def)+

text \<open>Where an entry of a bucket comes from.\<close>

definition namedIn :: "esinet \<Rightarrow> goLib \<Rightarrow> object \<Rightarrow> string list \<Rightarrow> string \<Rightarrow> NameMatch \<Rightarrow> bool" where
  "namedIn N L lookup only k m \<longleftrightarrow> (only = [] \<or> nm_Category m \<in> set only)
     \<and> fold_name N L (nm_Name m) = k \<and> nm_ID m \<noteq> 0
     \<and> (\<exists>e \<in> set (jMaps (lookupAny lookup (nm_Category m))). jStr (lookupAny e ''name'') = nm_Name m
          \<and> jInt (nt_parseFloat N) (lookupAny e ''id'') = nm_ID m)"

lemma bucketEntries_named:
  "(k, m) \<in> set (bucketEntries N L key (lookupAny lookup key)) \<Longrightarrow> only = [] \<or> key \<in> set only
    \<Longrightarrow> namedIn N L lookup only k m"
  by (auto simp: bucketEntries_def namedIn_def Let_def split: if_splits)

lemma bucketOf_set: "m \<in> set (bucketOf k bs) \<longleftrightarrow> (k, m) \<in> set bs"
  by (force simp: bucketOf_def)

lemma collect_named:
  "m \<in> set (bucketOf k (collectNameBuckets N L lookup only)) \<Longrightarrow> namedIn N L lookup only k m"
  by (auto simp: bucketOf_set collectNameBuckets_def split: if_splits
      dest!: bucketEntries_named [where only = only])

lemma collect_mset:
  assumes "mset ks = mset ks'"
  shows "mset (bucketOf k (concat (map f ks))) = mset (bucketOf k (concat (map f ks')))"
proof -
  have sum: "mset (bucketOf k (concat (map f ks))) = (\<Sum>x\<in>#mset ks. mset (bucketOf k (f x)))" for ks
    by (induction ks) (simp_all add: bucketOf_def)
  show ?thesis by (simp only: sum assms)
qed

lemma bucketEntries_lib: "gl_toLower L = gl_toLower L' \<Longrightarrow> bucketEntries N L = bucketEntries N L'"
proof -
  assume "gl_toLower L = gl_toLower L'"
  then have "fold_name N L = fold_name N L'" by (simp add: fold_name_def [abs_def])
  then show ?thesis unfolding bucketEntries_def [abs_def] by (rule ssubst) (rule refl)
qed

text \<open>C37. A resolution does not depend on the order in which Go ranges over the answer of
  \<open>/universe/ids\<close>, as long as no name has the same id twice in one category.\<close>
theorem resolution_ignores_map_order:
  assumes "mset (gl_keys L (map fst lookup)) = mset (gl_keys L' (map fst lookup))"
    and "gl_toLower L = gl_toLower L'"
    and "\<And>k. distinct (map (\<lambda>m. (nm_Category m, nm_ID m)) (bucketOf k (collectNameBuckets N L lookup only)))"
  shows "pickNameResolutions N L names (collectNameBuckets N L lookup only) rank
     = pickNameResolutions N L' names (collectNameBuckets N L' lookup only) rank"
proof -
  have fold: "fold_name N L = fold_name N L'" using assms(2) by (intro ext) (simp add: fold_name_def)
  have m: "mset (bucketOf k (collectNameBuckets N L lookup only)) = mset (bucketOf k (collectNameBuckets N L' lookup only))" for k
    unfolding collectNameBuckets_def bucketEntries_lib [OF assms(2)] by (rule collect_mset [OF assms(1)])
  have "distinct (map (matchKey rank) (bucketOf k (collectNameBuckets N L lookup only)))" for k
    using assms(3) [of k] by (auto simp: distinct_map inj_on_def matchKey_def)
  then have "sortSlice (lessNameMatch rank) (bucketOf k (collectNameBuckets N L lookup only))
      = sortSlice (lessNameMatch rank) (bucketOf k (collectNameBuckets N L' lookup only))" for k
    unfolding sortMatches by (rule sort_key_eqI [OF m])
  then show ?thesis by (simp add: pickNameResolutions_def fold)
qed


subsection \<open>A calm client\<close>

text \<open>
  A client with an untouched error budget and at least \<open>k\<close> tokens, on a network that answers
  every request with the body \<open>s\<close>: each call is answered. The witnesses run on it.
\<close>

definition plainNet :: "(string \<Rightarrow> any option) \<Rightarrow> string \<Rightarrow> esinet" where
  "plainNet u s = (answerNet \<lparr>rs_status = 200, rs_headers = [], rs_body = Inr s\<rparr>)\<lparr>nt_unmarshal := u\<rparr>"

definition calmEsi :: "rat \<Rightarrow> esi \<Rightarrow> bool" where
  "calmEsi k c \<longleftrightarrow> ec_remain c = 100 \<and> ec_budget c = [] \<and> k \<le> ub_tokens (ec_bucket c)
     \<and> ub_tokens (ec_bucket c) \<le> 400"

lemma calm_ForUser: "k \<le> 400 \<Longrightarrow> calmEsi k (ForUser now cache)"
  by (simp add: calmEsi_def ForUser_def errorLimitBudget_def newUserBucket_def UserBucketCapacity_def)

lemma calm_take: "calmEsi (k + 1) c \<Longrightarrow> 0 \<le> k \<Longrightarrow> \<exists>b. takeToken now (ec_bucket c) = (None, b) \<and> k \<le> ub_tokens b \<and> ub_tokens b \<le> 400"
  by (auto simp: takeToken_def refillLocked_def calmEsi_def Let_def UserBucketCapacity_def UserBucketRefill_def min_def)

lemma calm_write:
  assumes "calmEsi (k + 1) c" "0 \<le> k" "body = VNil \<or> marshal (nt_fmt (plainNet u s)) body \<noteq> None"
    and "length s \<le> maxResponseBody"
  obtains c' h where "esiWrite (plainNet u s) meth path cid params body c = (Inr (decode (plainNet u s) 200 s), c')"
    "calmEsi k c'" "ec_sent c' = ec_sent c @ [\<lparr>hc_method = meth, hc_path = path, hc_params = params,
      hc_headers = h, hc_jsonBody = body\<rparr>]" "ec_now c' = ec_now c + second"
proof -
  let ?N = "plainNet u s" let ?r = "\<lparr>rs_status = 200, rs_headers = [], rs_body = Inr s\<rparr> :: resp"
  have ch: "checkErrorBudget c = (None, c)"
    using assms(1) by (simp add: checkErrorBudget_def checkBudget_def pruneLocked_def calmEsi_def errorBudgetLimit_def
        errorBudgetCap_def errorBudgetShare_def)
  obtain h where h: "esiHeaders ?N cid = Inr h"
    by (cases cid) (auto simp: esiHeaders_def plainNet_def answerNet_def Let_def)
  define h1 where "h1 = (if body \<noteq> VNil then h @ [(''Content-Type'', ''application/json'')] else h)"
  define call where "call = \<lparr>hc_method = meth, hc_path = path, hc_params = params, hc_headers = h1, hc_jsonBody = body\<rparr>"
  obtain b where b: "takeToken (ec_now c) (ec_bucket c) = (None, b)" "k \<le> ub_tokens b" "ub_tokens b \<le> 400"
    using calm_take [OF assms(1,2)] by blast
  have aw: "awaitErrorBudget c = (None, c)" using assms(1) by (simp add: awaitErrorBudget_def calmEsi_def errorFloor_def)
  obtain raw where raw: "requestBody ?N call = Inr raw"
    using assms(3) by (cases "body = VNil") (auto simp: requestBody_def call_def)
  let ?c3 = "c\<lparr>ec_bucket := b, ec_sent := ec_sent c @ [call], ec_now := ec_now c + second\<rparr>"
  have nq: "nt_newRequest ?N call = None" by (simp add: plainNet_def answerNet_def)
  have tr: "transport ?N call (c\<lparr>ec_bucket := b\<rparr>) = (Inr ?r, ?c3)"
    by (simp add: transport_def plainNet_def answerNet_def Let_def)
  have af: "afterSend ?N call 0 (Inr ?r) ?c3 = (Answer (Inr ?r), ?c3)"
    by (simp add: afterSend_def noteErrorHeaders_def intHeader_def headerGet_def throttleOrLimit_def
        statusErrorLimited_def serverRetry_def Let_def)
  have "attemptOnce ?N call 0 c = (Answer (Inr ?r), ?c3)"
    by (simp only: attemptOnce_def aw prod.case option.case b(1) Let_def raw sum.case nq tr af)
  then have rq: "request ?N call 0 c = (Inr ?r, ?c3)" by (simp add: request.simps [of ?N call 0])
  have rb: "readBody ?r = Inr s" using assms(4) by (simp add: readBody_def)
  have "esiWrite ?N meth path cid params body c = (Inr (decode ?N 200 s), ?c3)"
    using rq by (simp add: esiWrite_def ch h Let_def rb flip: h1_def call_def)
  moreover have "calmEsi k ?c3" using b assms(1) by (simp add: calmEsi_def)
  ultimately show thesis by (rule that) (simp_all add: call_def)
qed

definition plainLib :: goLib where
  "plainLib = \<lparr>gl_toLower = (\<lambda>s. s), gl_ids = (\<lambda>xs. xs), gl_keys = (\<lambda>xs. xs)\<rparr>"

definition freshRdr :: rdr where "freshRdr = NewResolver (ForUser second newResponseCache)"

lemma trim_plainNet [simp]: "nt_trimSpace (plainNet u s) n = n"
  by (simp add: plainNet_def answerNet_def)

lemma marshal_VStrs: "marshal F (VStrs xs) \<noteq> None"
proof -
  have "allSome (map (\<lambda>s. Some (jsonString s)) xs) \<noteq> None" by (induction xs) (auto split: option.split)
  then show ?thesis by (auto simp: jsonArray_def)
qed

lemma calm_resolve:
  assumes "calmEsi (k + 1) (rd_esi d)" "0 \<le> k" "n \<noteq> []" "length s \<le> maxResponseBody"
  obtains d' where "ResolveNames (plainNet u s) plainLib [n] prefer only d
      = (Inr (pickNameResolutions (plainNet u s) plainLib [n]
           (collectNameBuckets (plainNet u s) plainLib (addPart [] (jMap (decode (plainNet u s) 200 s))) only)
           (preferRank prefer)), d')"
    "IDsFromNames (plainNet u s) [n] d = (Inr (addPart [] (jMap (decode (plainNet u s) 200 s))), d')"
    "calmEsi k (rd_esi d')"
proof -
  let ?N = "plainNet u s"
  obtain c' h where w: "esiWrite ?N ''POST'' (rt_raw (Path [Seg ''/universe/ids''])) None [] (VStrs [n]) (rd_esi d)
      = (Inr (decode ?N 200 s), c')" "calmEsi k c'"
    using calm_write [OF assms(1,2) disjI2 [OF marshal_VStrs] assms(4)] by metis
  have p: "post ?N (Path [Seg ''/universe/ids'']) None [] (VStrs [n]) d = (Inr (decode ?N 200 s), d\<lparr>rd_esi := c'\<rparr>)"
    using w(1) by (simp add: post_def onEsi_def esiPost_def)
  have un: "uniqueNames ?N [] [n] = [n]" using assms(3) by (simp add: Let_def)
  have ids: "IDsFromNames ?N [n] d = (Inr (addPart [] (jMap (decode ?N 200 s))), d\<lparr>rd_esi := c'\<rparr>)"
    using p assms(3) by (simp add: IDsFromNames_def un idsLoop.simps [of ?N "[n]"] idsLoop.simps [of ?N "[]"] idsBatch_def)
  show thesis
    by (rule that [OF _ ids]) (simp_all add: ResolveNames_def ids w(2))
qed

definition bobAnswer :: any where
  "bobAnswer = VMap [(''characters'', VSlice [VMap [(''id'', VFloat 42), (''name'', VStr ''Bob'')]]),
     (''corporations'', VSlice [VMap [(''id'', VFloat 43), (''name'', VStr ''Bob'')]])]"

definition bobNet :: esinet where
  "bobNet = plainNet (\<lambda>s. Some bobAnswer) ''x''"

lemma calm_fresh: "calmEsi (399 + 1) (rd_esi freshRdr)"
  by (simp add: freshRdr_def NewResolver_def calm_ForUser)


lemma resolution_ignores_map_order_witness:
  "pickNameResolutions bobNet plainLib [''Bob''] (collectNameBuckets bobNet plainLib (jMap bobAnswer) []) []
     = pickNameResolutions bobNet (plainLib\<lparr>gl_keys := rev\<rparr>) [''Bob'']
         (collectNameBuckets bobNet (plainLib\<lparr>gl_keys := rev\<rparr>) (jMap bobAnswer) []) []"
  by (rule resolution_ignores_map_order)
    (simp_all add: plainLib_def collectNameBuckets_def bucketEntries_def bobAnswer_def jMap_def jMaps_def rowsOf_def
      jSlice_def bobNet_def plainNet_def answerNet_def CategoryKind_def bucketOf_def jStr_def Let_def,
      auto simp: image_iff)


end
