(* ===== verification/EveWriteProps.thy ===== *)
theory EveWriteProps
  imports EveWrites ResolverProps MailCap SessionProps
begin

text \<open>
  What the changing tools guarantee as a whole, guard, resolver and ESI client together: a
  request that changes something in EVE is sent only for a call whose confirm token stands for
  this session, this tool and the digest of arguments that determine the request; a call
  without such a token only reads. The locale \<open>write_gate\<close> states what a tool relies on in the
  guard and the audit log; it is interpreted on \<open>Authorize\<close> and \<open>Record\<close>.
\<close>

subsection \<open>The gate in front of a change\<close>

locale write_gate =
  fixes gate :: "'a \<Rightarrow> 's \<Rightarrow> ('e + 'd option) \<times> 's"
    and report :: "'r \<Rightarrow> 's \<Rightarrow> 's"
    and trace :: "'s \<Rightarrow> 'h list"
    and armed :: "'a \<Rightarrow> 's \<Rightarrow> bool"
  assumes gate_armed: "gate az s = (Inr None, s') \<Longrightarrow> armed az s"
    and gate_silent: "gate az s = (d, s') \<Longrightarrow> trace s' = trace s"
    and report_silent: "trace (report r s) = trace s"
begin

lemma nothing_new: "gate az s = (d, s') \<Longrightarrow> \<exists>new. trace s' = trace s @ new \<and> (\<forall>h \<in> set new. Q h)"
  by (auto dest: gate_silent)

lemma behind_gate:
  assumes "gate az s = (Inr None, s1)" "\<exists>new. trace s2 = trace s1 @ new \<and> (\<forall>h \<in> set new. Q h)"
  shows "\<exists>new. trace s2 = trace s @ new \<and> (\<forall>h \<in> set new. Q h \<and> armed az s)"
  using assms(2) gate_silent [OF assms(1)] gate_armed [OF assms(1)] by auto

lemma reported_behind_gate:
  assumes "gate az s = (Inr None, s1)" "\<exists>new. trace s2 = trace s1 @ new \<and> (\<forall>h \<in> set new. Q h)"
  shows "\<exists>new. trace (report r s2) = trace s @ new \<and> (\<forall>h \<in> set new. Q h \<and> armed az s)"
  using behind_gate [OF assms] by (simp add: report_silent)

end

subsection \<open>What stretches of a tool's work send\<close>

abbreviation esiOf :: "toolState \<Rightarrow> esi" where "esiOf t \<equiv> rd_esi (ts_rdr t)"

definition mayAsk :: "httpCall \<Rightarrow> bool" where
  \<comment> \<open>reads, name lookups and the pricing of a mail\<close>
  "mayAsk h \<longleftrightarrow> isRead h \<or> hc_method h = ''POST'' \<and> (\<exists>cid. hc_path h = rt_raw (charRoute cid [Seg ''cspa'']))"

definition sentBy :: "(httpCall \<Rightarrow> bool) \<Rightarrow> toolState \<Rightarrow> toolState \<Rightarrow> bool" where
  "sentBy Q t t' \<longleftrightarrow> (\<exists>new. ec_sent (esiOf t') = ec_sent (esiOf t) @ new \<and> (\<forall>h \<in> set new. Q h))"

definition quiet :: "toolState \<Rightarrow> toolState \<Rightarrow> bool" where
  "quiet t t' \<longleftrightarrow> sentBy mayAsk t t' \<and> w_db (ts_w t') = w_db (ts_w t) \<and> ts_sess t' = ts_sess t
     \<and> w_now (ts_w t) \<le> w_now (ts_w t')"

definition quietAt :: "toolState \<Rightarrow> (goerr + 'a) \<times> toolState \<Rightarrow> bool" where
  "quietAt t rt \<longleftrightarrow> (case rt of (Inl e, t1) \<Rightarrow> sentBy mayAsk t t1 | (Inr x, t1) \<Rightarrow> quiet t t1)"

lemma sentBy_refl [simp]: "sentBy Q t t"
  by (simp add: sentBy_def)

lemma sentBy_trans: "sentBy Q t t1 \<Longrightarrow> sentBy Q t1 t2 \<Longrightarrow> sentBy Q t t2"
  by (auto simp: sentBy_def)

lemma sentBy_mono: "sentBy Q t t' \<Longrightarrow> (\<And>h. Q h \<Longrightarrow> R h) \<Longrightarrow> sentBy R t t'"
  by (fastforce simp: sentBy_def)

lemma quiet_refl [simp]: "quiet t t"
  by (simp add: quiet_def)

lemma quiet_trans: "quiet t t1 \<Longrightarrow> quiet t1 t2 \<Longrightarrow> quiet t t2"
  by (auto simp: quiet_def intro: sentBy_trans)

lemma quiet_sentBy: "quiet t t' \<Longrightarrow> sentBy mayAsk t t'"
  by (simp add: quiet_def)

lemma onRdr_sends:
  assumes "onRdr f t = (r, t')" "\<And>d r d'. f d = (r, d') \<Longrightarrow> sends Q (rd_esi d) (rd_esi d')"
  shows "sentBy Q t t'" "w_db (ts_w t') = w_db (ts_w t)" "ts_sess t' = ts_sess t" "w_now (ts_w t) \<le> w_now (ts_w t')"
proof -
  let ?d = "(ts_rdr t)\<lparr>rd_esi := (rd_esi (ts_rdr t))\<lparr>ec_now := w_now (ts_w t)\<rparr>\<rparr>"
  obtain r1 d where f: "f ?d = (r1, d)" by fastforce
  then have t': "t' = t\<lparr>ts_rdr := d, ts_w := (ts_w t)\<lparr>w_now := ec_now (rd_esi d)\<rparr>\<rparr>"
    using assms(1) by (simp add: onRdr_def Let_def)
  have "sends Q (rd_esi ?d) (rd_esi d)" by (rule assms(2) [OF f])
  then show "sentBy Q t t'" "w_db (ts_w t') = w_db (ts_w t)" "ts_sess t' = ts_sess t" "w_now (ts_w t) \<le> w_now (ts_w t')"
    by (auto simp: t' sends_def sentBy_def)
qed

lemma quietAt_onRdr:
  assumes "\<And>d r d'. f d = (r, d') \<Longrightarrow> sends mayAsk (rd_esi d) (rd_esi d')" shows "quietAt t (onRdr f t)"
proof -
  obtain r t1 where o: "onRdr f t = (r, t1)" by fastforce
  note e = onRdr_sends [OF o, of mayAsk, OF assms]
  show ?thesis using e by (cases r) (simp_all add: o quiet_def quietAt_def)
qed

lemma reads_mayAsk: "reads d d' \<Longrightarrow> sends mayAsk (rd_esi d) (rd_esi d')"
  by (erule sends_mono) (simp add: mayAsk_def)

lemma quietAt_lookups [intro]:
  "quietAt t (getT E route cid params t)" "quietAt t (resolveT E names prefer only t)" "quietAt t (nameT E i cid t)"
  "quietAt t (onRdr (askAll N L route cid params mp) t)"
  unfolding getT_def resolveT_def nameT_def
  by (rule quietAt_onRdr, rule reads_mayAsk, erule ask_reads ResolveNames_reads NameOf_reads askAll_reads)+

lemma Character_now: assumes "Character s w = (Inr tok, w')" shows "w_now w' = w_now w"
proof -
  obtain row w1 where 1: "LiveByID (so_SessionID s) w = (Inr row, w1)"
    using assms by (auto simp: Character_def split: if_splits prod.splits sum.splits)
  obtain ident w2 where 2: "Characters_Get (so_CharacterID s) w1 = (Inr ident, w2)"
    using assms 1 by (auto simp: Character_def split: if_splits prod.splits sum.splits)
  have "w' = w2" using assms 1 2
    by (auto simp: Character_def wrapA_def wrapR_def revokeIfScopesFallShort_def split: if_splits prod.splits sum.splits)
  moreover have "w_now w1 = w_now w" using LiveByID_ok [OF 1] by blast
  moreover have "w_now w2 = w_now w1" using Characters_Get_ok [OF 2] by blast
  ultimately show ?thesis by simp
qed

lemma quietAt_characterT [intro]: "quietAt t (characterT t)"
proof -
  obtain r w where c: "Character (ts_sess t) (ts_w t) = (r, w)" by fastforce
  show ?thesis
  proof (cases r)
    case (Inl e)
    then show ?thesis by (simp add: quietAt_def characterT_def onWorld_def c sentBy_def)
  next
    case (Inr tok)
    have "w_db w = w_db (ts_w t)" "w_now w = w_now (ts_w t)"
      using character_needs_live_session_db [OF c [unfolded Inr]] Character_now [OF c [unfolded Inr]] by simp_all
    then show ?thesis using Inr by (simp add: quietAt_def characterT_def onWorld_def c quiet_def sentBy_def)
  qed
qed

lemma quietAt_pure: "quietAt t (r, t)"
  by (auto simp: quietAt_def split: sum.split)

lemma quietAt_thenT:
  assumes "quietAt t (m t)" "\<And>x t1. quietAt t1 (k x t1)" shows "quietAt t (thenT m f k t)"
proof -
  obtain r t1 where m: "m t = (r, t1)" by fastforce
  show ?thesis
  proof (cases r)
    case (Inl e)
    then show ?thesis using m assms(1) by (simp add: thenT_def quietAt_def)
  next
    case (Inr x)
    then have q: "quiet t t1" using m assms(1) by (simp add: quietAt_def)
    obtain r2 t2 where k: "k x t1 = (r2, t2)" by fastforce
    show ?thesis
    proof (cases r2)
      case e: (Inl e)
      then have "sentBy mayAsk t1 t2" using k assms(2) [of t1 x] by (simp add: quietAt_def)
      then show ?thesis using m Inr k e sentBy_trans [OF quiet_sentBy [OF q]] by (simp add: thenT_def quietAt_def)
    next
      case y: (Inr y)
      then have "quiet t1 t2" using k assms(2) [of t1 x] by (simp add: quietAt_def)
      then show ?thesis using m Inr k y quiet_trans [OF q] by (simp add: thenT_def quietAt_def)
    qed
  qed
qed

lemmas quiet_intros = quietAt_pure quietAt_thenT quietAt_lookups quietAt_characterT

lemma quietAt_resolvers [intro]:
  "quietAt t (resolveMailRecipients E to t)" "quietAt t (resolveContacts E names t)"
  "quietAt t (resolveFittingModules E ship modules t)"
  unfolding resolveMailRecipients_def resolveContacts_def resolveFittingModules_def
  by (auto simp: case_prod_unfold intro!: quiet_intros)

lemma quietAt_priceCSPA [intro]: "quietAt t (priceCSPA E cid ids t)"
proof -
  have "quietAt t (postT E (charRoute cid [Seg ''cspa'']) (Some cid) [] (VInts ids) t)" for t
    unfolding postT_def by (rule quietAt_onRdr, erule post_sends) (auto simp: mayAsk_def)
  then show ?thesis unfolding priceCSPA_def by (auto intro!: quiet_intros)
qed

lemma quietAt_resolveComposeRecipients [intro]: "quietAt t (resolveComposeRecipients E to toGroup t)"
  unfolding resolveComposeRecipients_def
  by (rule quietAt_thenT) (auto simp: case_prod_unfold Let_def intro!: quiet_intros split: option.split)

lemma quietAt_resolveDestination [intro]: "quietAt t (resolveDestination E name cid t)"
  unfolding resolveDestination_def Let_def
  by (rule quietAt_thenT) (auto intro!: quiet_intros split: option.split list.split)

lemma quietAt_resolveEntity [intro]: "quietAt t (resolveEntity E name cid kind t)"
  unfolding resolveEntity_def Let_def by (auto intro!: quiet_intros)

lemma quietAt_planOpenWindow [intro]: "quietAt t (planOpenWindow E kind target cid t)"
  unfolding planOpenWindow_def planContractWindow_def planNamedWindow_def
  by (auto intro!: quiet_intros split: option.split)

subsection \<open>The guard is such a gate\<close>

text \<open>
  \<open>armed\<close>: the token of the call stands for this session, this tool and the digest of these
  arguments, and is at most 300 seconds old.
\<close>

definition armedFor :: "toolEnv \<Rightarrow> string \<Rightarrow> string \<Rightarrow> object \<Rightarrow> toolState \<Rightarrow> bool" where
  "armedFor E toolName token args t \<longleftrightarrow> token \<noteq> [] \<and> (\<exists>c. confirmRow (w_db (ts_w t)) token = Some c
     \<and> ct_session_id c = g_sessionID (so_Guard (ts_sess t)) \<and> ct_tool c = toolName
     \<and> digestArgs (nt_fmt (te_net E)) args = Inr (ct_args_digest c)
     \<and> w_now (ts_w t) - ct_created_at c \<le> 300 * second)"

definition armed :: "toolEnv \<Rightarrow> Authz \<Rightarrow> toolState \<Rightarrow> bool" where
  "armed E az t = armedFor E (az_Tool az) (az_Token az) (az_Args az) t"

definition reportT :: "toolEnv \<Rightarrow> string \<times> string \<times> object \<times> goerr option \<Rightarrow> toolState \<Rightarrow> toolState" where
  "reportT E r = (case r of (toolName, capability, args, err) \<Rightarrow> recordWrite E toolName capability args err)"

definition traceOf :: "toolState \<Rightarrow> httpCall list" where "traceOf t = ec_sent (esiOf t)"

lemma recordWrite_rdr [simp]: "ts_rdr (recordWrite E toolName capability args err t) = ts_rdr t"
  by (simp add: recordWrite_def split: prod.split)

lemma authorizeT_rdr: "authorizeT E az t = (d, t') \<Longrightarrow> ts_rdr t' = ts_rdr t"
  by (auto simp: authorizeT_def split: prod.splits)

lemma authorizeT_armed:
  assumes "authorizeT E az t = (Inr None, t')" shows "armed E az t"
proof -
  obtain g w where "Authorize (nt_fmt (te_net E)) guardPersist (so_Guard (ts_sess t)) az (ts_w t) = (Inr None, g, w)"
    using assms by (auto simp: authorizeT_def split: prod.splits)
  from authorize_matches [OF this] show ?thesis by (auto simp: armed_def armedFor_def)
qed

interpretation gate: write_gate "authorizeT E" "reportT E" traceOf "armed E"
  by unfold_locales (auto simp: traceOf_def reportT_def authorizeT_armed split: prod.splits dest: authorizeT_rdr)

lemma armed_quiet: "quiet t t1 \<Longrightarrow> armedFor E toolName token args t1 \<Longrightarrow> armedFor E toolName token args t"
  by (fastforce simp: armedFor_def quiet_def)

subsection \<open>What the arguments say about the request\<close>

definition argInt :: "object \<Rightarrow> string \<Rightarrow> int" where
  "argInt args k = (case lookupAny args k of VInt n \<Rightarrow> n | _ \<Rightarrow> 0)"

definition argInts :: "object \<Rightarrow> string \<Rightarrow> int list" where
  "argInts args k = (case lookupAny args k of VInts ns \<Rightarrow> ns | _ \<Rightarrow> [])"

definition withoutCharacter :: "object \<Rightarrow> object" where
  "withoutCharacter args = removeWhere (\<lambda>e. fst e = ''character_id'') args"

definition charPath :: "object \<Rightarrow> pathElem list \<Rightarrow> string" where
  "charPath args rest = rt_raw (charRoute (argInt args ''character_id'') rest)"

definition windowPath :: "string \<Rightarrow> string" where
  "windowPath kind = (if kind = ''contract'' then ''/ui/openwindow/contract''
     else if kind = ''market'' then ''/ui/openwindow/marketdetails'' else ''/ui/openwindow/information'')"

text \<open>The request, by tool, that the arguments shown to the user describe.\<close>

definition fits :: "string \<Rightarrow> object \<Rightarrow> httpCall \<Rightarrow> bool" where
  "fits toolName args h \<longleftrightarrow>
    (let m = hc_method h; p = hc_path h; q = hc_params h; b = hc_jsonBody h;
         mailPath = charPath args [Seg ''mail'', ID (argInt args ''mail_id'')] in
     if toolName = ToolMailMark then m = ''PUT'' \<and> p = mailPath \<and> q = [] \<and> b = VMap [(''read'', lookupAny args ''read'')]
     else if toolName = ToolMailDelete then m = ''DELETE'' \<and> p = mailPath \<and> q = [] \<and> b = VNil
     else if toolName = ToolMailSend
     then m = ''POST'' \<and> p = charPath args [Seg ''mail''] \<and> q = [] \<and> b = VMap (withoutCharacter args)
     else if toolName = ToolMailCompose
     then m = ''POST'' \<and> p = ''/ui/openwindow/newmail'' \<and> q = [] \<and> b = VMap (withoutCharacter args)
     else if toolName = ToolCalendarRespond
     then m = ''PUT'' \<and> p = charPath args [Seg ''calendar'', ID (argInt args ''event_id'')] \<and> q = []
        \<and> b = VMap [(''response'', lookupAny args ''response'')]
     else if toolName = ToolFittingSave
     then m = ''POST'' \<and> p = charPath args [Seg ''fittings''] \<and> q = [] \<and> b = VMap (withoutCharacter args)
     else if toolName = ToolFittingDelete
     then m = ''DELETE'' \<and> p = charPath args [Seg ''fittings'', ID (argInt args ''fitting_id'')] \<and> q = [] \<and> b = VNil
     else if toolName = ToolContactsSet
     then (m = ''PUT'' \<or> m = ''POST'') \<and> p = charPath args [Seg ''contacts'']
        \<and> (\<exists>flag ids. q = [(''standing'', lookupAny args ''standing''), (''watched'', VBool flag)] \<and> b = VInts ids
             \<and> (flag \<longrightarrow> lookupAny args ''watched'' = VBool True) \<and> ids \<noteq> [] \<and> set ids \<subseteq> set (argInts args ''contact_ids''))
     else if toolName = ToolContactsDelete
     then m = ''DELETE'' \<and> p = charPath args [Seg ''contacts''] \<and> b = VNil \<and> q = withoutCharacter args
     else if toolName = ToolUISetWaypoint
     then m = ''POST'' \<and> p = ''/ui/autopilot/waypoint'' \<and> b = VNil \<and> q = withoutCharacter args
     else m = ''POST'' \<and> p = windowPath (jStr (lookupAny args ''window'')) \<and> b = VNil
        \<and> VMap q = lookupAny args ''params'')"

definition safe :: "toolEnv \<Rightarrow> string \<Rightarrow> string \<Rightarrow> toolState \<Rightarrow> toolState \<Rightarrow> bool" where
  "safe E toolName token t t' \<longleftrightarrow>
     sentBy (\<lambda>h. mayAsk h \<or> (\<exists>args. armedFor E toolName token args t \<and> fits toolName args h)) t t'"

lemma safe_asks: "sentBy mayAsk t t' \<Longrightarrow> safe E toolName token t t'"
  unfolding safe_def by (erule sentBy_mono) simp

lemma safe_after: "quiet t t1 \<Longrightarrow> safe E toolName token t1 t' \<Longrightarrow> safe E toolName token t t'"
  unfolding safe_def
  by (rule sentBy_trans [where ?t1.0 = t1], rule sentBy_mono [OF quiet_sentBy], assumption, simp)
    (erule sentBy_mono, blast intro: armed_quiet)

lemma safe_pure [simp]: "safe E toolName token t (snd (r, t))"
  by (simp add: safe_def)

lemma safe_refl [simp]: "safe E toolName token t t"
  by (simp add: safe_def)

lemma safe_thenT_knowing:
  assumes "quietAt t (m t)" "\<And>x t1. m t = (Inr x, t1) \<Longrightarrow> safe E toolName token t1 (snd (k x t1))"
  shows "safe E toolName token t (snd (thenT m f k t))"
proof -
  obtain r t1 where m: "m t = (r, t1)" by fastforce
  show ?thesis
  proof (cases r)
    case (Inl e)
    then show ?thesis using assms(1) m by (simp add: thenT_def quietAt_def safe_asks)
  next
    case (Inr x)
    then have "quiet t t1" using assms(1) m by (simp add: quietAt_def)
    then show ?thesis using safe_after [OF _ assms(2) [of x t1]] m Inr by (simp add: thenT_def)
  qed
qed

lemma safe_thenT:
  "quietAt t (m t) \<Longrightarrow> (\<And>x t1. safe E toolName token t1 (snd (k x t1)))
    \<Longrightarrow> safe E toolName token t (snd (thenT m f k t))"
  by (rule safe_thenT_knowing)

lemma safe_guarded:
  assumes "\<And>t. sentBy (fits (az_Tool az) (az_Args az)) t (snd (call t))"
  shows "safe E (az_Tool az) (az_Token az) t (snd (guardedWrite E op az call answer t))"
proof -
  obtain d t1 where a: "authorizeT E az t = (d, t1)" by fastforce
  have none: "safe E (az_Tool az) (az_Token az) t t1"
    using gate.gate_silent [OF a] by (simp add: safe_def sentBy_def traceOf_def)
  show ?thesis
  proof (cases "d = Inr None")
    case False
    then have "snd (guardedWrite E op az call answer t) = t1"
      using a by (cases d) (auto simp: guardedWrite_def thenT_def split: option.split)
    then show ?thesis using none by simp
  next
    case True
    obtain r t2 where c: "call t1 = (r, t2)" by fastforce
    let ?rep = "(az_Tool az, az_Capability az, az_Args az, errOf r)"
    have new: "\<exists>new. traceOf t2 = traceOf t1 @ new \<and> (\<forall>h \<in> set new. fits (az_Tool az) (az_Args az) h)"
      using assms [of t1] c by (simp add: sentBy_def traceOf_def)
    have "snd (guardedWrite E op az call answer t) = reportT E ?rep t2"
      using a c True by (cases r) (simp_all add: guardedWrite_def thenT_def reportT_def Let_def)
    moreover have "\<exists>new. traceOf (reportT E ?rep t2) = traceOf t @ new
        \<and> (\<forall>h \<in> set new. fits (az_Tool az) (az_Args az) h \<and> armed E az t)"
      by (rule gate.reported_behind_gate [OF a [unfolded True] new])
    ultimately show ?thesis
      by (auto simp: safe_def sentBy_def traceOf_def armed_def intro: exI [of _ "az_Args az"])
  qed
qed

lemma authz_simps [simp]:
  "az_Tool (authz toolName capability args preview confirmToken token) = toolName"
  "az_Args (authz toolName capability args preview confirmToken token) = args"
  "az_Token (authz toolName capability args preview confirmToken token) = confirmToken"
  by (simp_all add: authz_def)

lemma safe_guarded_authz:
  assumes "\<And>t. sentBy (fits toolName args) t (snd (call t))"
  shows "safe E toolName confirmToken t
     (snd (guardedWrite E op (authz toolName capability args preview confirmToken token) call answer t))"
  using safe_guarded [of "authz toolName capability args preview confirmToken token" call] assms by simp

text \<open>The single requests.\<close>

lemma write_sentBy:
  assumes "\<And>h. hc_method h = meth \<Longrightarrow> hc_path h = path \<Longrightarrow> hc_params h = params \<Longrightarrow> hc_jsonBody h = body \<Longrightarrow> Q h"
  shows "sentBy Q t (snd (onRdr (onEsi (esiWrite N meth path cid params body)) t))"
proof -
  obtain r t1 where o: "onRdr (onEsi (esiWrite N meth path cid params body)) t = (r, t1)" by fastforce
  have "sentBy Q t t1"
    by (rule onRdr_sends(1) [OF o])
      (auto simp: onEsi_def Let_def split: prod.splits elim!: esiWrite_sends intro: assms)
  then show ?thesis using o by simp
qed

lemma call_sentBy:
  "(\<And>h. hc_method h = ''POST'' \<Longrightarrow> hc_path h = rt_raw route \<Longrightarrow> hc_params h = params \<Longrightarrow> hc_jsonBody h = body \<Longrightarrow> Q h)
    \<Longrightarrow> sentBy Q t (snd (postT E route cid params body t))"
  "(\<And>h. hc_method h = ''PUT'' \<Longrightarrow> hc_path h = rt_raw route \<Longrightarrow> hc_params h = params \<Longrightarrow> hc_jsonBody h = body \<Longrightarrow> Q h)
    \<Longrightarrow> sentBy Q t (snd (putT E route cid params body t))"
  "(\<And>h. hc_method h = ''DELETE'' \<Longrightarrow> hc_path h = rt_raw route \<Longrightarrow> hc_params h = params \<Longrightarrow> hc_jsonBody h = body \<Longrightarrow> Q h)
    \<Longrightarrow> sentBy Q t (snd (deleteT E route cid params body t))"
  unfolding postT_def post_def putT_def deleteT_def esiPost_def [abs_def] esiPut_def [abs_def] esiDelete_def [abs_def]
  by (rule write_sentBy, simp)+

subsection \<open>Each tool\<close>

lemmas fits_simps = fits_def Tool_defs charPath_def argInt_def withoutCharacter_def Let_def

lemma safe_eveMailMark: "safe E ToolMailMark (mm_ConfirmToken inp) t (snd (eveMailMark E inp t))"
  unfolding eveMailMark_def Let_def
  by (intro safe_thenT quietAt_characterT safe_guarded_authz call_sentBy) (simp add: fits_simps)

lemma safe_eveMailDelete: "safe E ToolMailDelete (md_ConfirmToken inp) t (snd (eveMailDelete E inp t))"
  unfolding eveMailDelete_def Let_def
  by (intro safe_thenT quietAt_characterT quietAt_lookups safe_guarded_authz call_sentBy) (simp add: fits_simps)

lemma without_payload: "withoutCharacter (mailPayload inp res @ [(''character_id'', v)]) = mailPayload inp res"
  "lookupAny (mailPayload inp res @ [(''character_id'', v)]) ''character_id'' = v"
  by (auto simp: withoutCharacter_def mailPayload_def clipMail_def)

lemma safe_eveMailSend: "safe E ToolMailSend (ms_ConfirmToken inp) t (snd (eveMailSend E inp t))"
  unfolding eveMailSend_def
  by (intro safe_thenT quietAt_characterT)
    (auto intro!: safe_thenT safe_guarded_authz call_sentBy quietAt_priceCSPA split: option.split
      simp: Let_def fits_def Tool_defs charPath_def argInt_def without_payload)

lemma without_window: "withoutCharacter (composeWindowBody res subject body @ [(''character_id'', v)]) = composeWindowBody res subject body"
  by (auto simp: withoutCharacter_def composeWindowBody_def)

lemma static_routes [simp]:
  "rt_raw (Path [Seg ''/ui/openwindow/newmail'']) = ''/ui/openwindow/newmail''"
  "rt_raw (Path [Seg ''/ui/autopilot/waypoint'']) = ''/ui/autopilot/waypoint''"
  "rt_raw (Path [Seg ''/ui/openwindow/contract'']) = ''/ui/openwindow/contract''"
  "rt_raw (Path [Seg ''/ui/openwindow/marketdetails'']) = ''/ui/openwindow/marketdetails''"
  "rt_raw (Path [Seg ''/ui/openwindow/information'']) = ''/ui/openwindow/information''"
  by (simp_all add: Path_def staticRoute_def hasPrefix_def)

lemma safe_eveMailCompose: "safe E ToolMailCompose (mc_ConfirmToken inp) t (snd (eveMailCompose E inp t))"
  unfolding eveMailCompose_def
  by (auto intro!: safe_thenT safe_guarded_authz call_sentBy split: option.split
      simp: Let_def fits_def Tool_defs without_window)

lemma safe_eveCalendarRespond: "safe E ToolCalendarRespond (cal_ConfirmToken inp) t (snd (eveCalendarRespond E inp t))"
  unfolding eveCalendarRespond_def
  by (auto intro!: safe_thenT safe_guarded_authz call_sentBy split: sum.split simp: Let_def fits_simps)

lemma safe_eveFittingSave: "safe E ToolFittingSave (fs_ConfirmToken inp) t (snd (eveFittingSave E inp t))"
  unfolding eveFittingSave_def
  by (intro safe_thenT quietAt_characterT)
    (auto intro!: safe_thenT safe_guarded_authz call_sentBy split: option.split simp: fits_simps)

lemma safe_eveFittingDelete: "safe E ToolFittingDelete (fd_ConfirmToken inp) t (snd (eveFittingDelete E inp t))"
  unfolding eveFittingDelete_def Let_def
  by (intro safe_thenT quietAt_characterT)
    (auto intro!: safe_thenT safe_guarded_authz call_sentBy split: option.split simp: fits_simps)

lemma safe_eveContactsDelete: "safe E ToolContactsDelete (cd_ConfirmToken inp) t (snd (eveContactsDelete E inp t))"
  unfolding eveContactsDelete_def
  by (intro safe_thenT quietAt_characterT)
    (auto intro!: safe_thenT safe_guarded_authz call_sentBy split: option.split simp: fits_simps)

lemma safe_eveUISetWaypoint: "safe E ToolUISetWaypoint (wp_ConfirmToken inp) t (snd (eveUISetWaypoint E inp t))"
  unfolding eveUISetWaypoint_def
  by (intro safe_thenT quietAt_characterT)
    (auto intro!: safe_thenT safe_guarded_authz call_sentBy simp: fits_simps)

lemma planned_path:
  assumes "planOpenWindow E kind target cid t = (Inr plan, t1)" "wd_refuse plan = None"
  shows "rt_raw (wd_route plan) = windowPath kind"
  using assms
  by (auto simp: planOpenWindow_def planContractWindow_def planNamedWindow_def windowPath_def thenT_def Let_def
      split: if_splits option.splits prod.splits sum.splits)

lemma safe_eveUIOpenWindow: "safe E ToolUIOpenWindow (ow_ConfirmToken inp) t (snd (eveUIOpenWindow E inp t))"
proof -
  have plan: "safe E ToolUIOpenWindow (ow_ConfirmToken inp) t2 (snd (guardedWrite E op (authz ToolUIOpenWindow cap
       [(''window'', VStr kind), (''params'', VMap (wd_params plan)), (''character_id'', VInt cid)] preview (ow_ConfirmToken inp) token)
       (postT E (wd_route plan) (Some cid) (wd_params plan) VNil) answer t2))"
    if "planOpenWindow E kind (ow_Target inp) (tk_CharacterID token) t1 = (Inr plan, t2)" "wd_refuse plan = None"
    for kind t1 t2 plan preview cap op cid token answer
    using planned_path [OF that]
    by (intro safe_guarded_authz call_sentBy) (simp add: fits_def Tool_defs jStr_def Let_def)
  have inner: "safe E ToolUIOpenWindow (ow_ConfirmToken inp) t1 (snd (thenT (planOpenWindow E kind (ow_Target inp) (tk_CharacterID token)) id
      (\<lambda>plan t. case wd_refuse plan of Some refuse \<Rightarrow> (Inr (VMap refuse), t)
          | None \<Rightarrow> guardedWrite E op (authz ToolUIOpenWindow cap
       [(''window'', VStr kind), (''params'', VMap (wd_params plan)), (''character_id'', VInt cid)] (preview plan) (ow_ConfirmToken inp) token)
       (postT E (wd_route plan) (Some cid) (wd_params plan) VNil) (answer plan) t) t1))"
    for kind t1 preview cap op cid token answer
    by (rule safe_thenT_knowing [OF quietAt_planOpenWindow]) (auto split: option.split intro: plan)
  show ?thesis
    unfolding eveUIOpenWindow_def Let_def
    by (cases "requireEnum (te_net E) (te_lib E) ''window'' (ow_Window inp) windowKinds")
      (auto intro!: safe_thenT inner)
qed

text \<open>Setting contacts: the operations cover the planned ids, each once.\<close>

lemma contactOpsFor_ids:
  "mset (concat (map op_ids (contactOpsFor verb ids watched watchable))) = mset ids"
  "op \<in> set (contactOpsFor verb ids watched watchable) \<Longrightarrow> op_verb op = verb \<and> op_ids op \<noteq> []
     \<and> set (op_ids op) \<subseteq> set ids \<and> (\<forall>i \<in> set (op_ids op). op_flag op \<longleftrightarrow> watched \<and> i \<in> set watchable)"
  "length (contactOpsFor verb ids watched watchable) \<le> 2"
proof -
  have "concat (map op_ids (contactOpsFor verb ids watched watchable)) = (if watched
      then filter (List.member watchable) ids @ filter (\<lambda>i. \<not> List.member watchable i) ids else ids)"
    by (simp add: contactOpsFor_def Let_def)
  moreover have "mset (filter P ids @ filter (\<lambda>i. \<not> P i) ids) = mset ids" for P
    by (induction ids) auto
  ultimately show "mset (concat (map op_ids (contactOpsFor verb ids watched watchable))) = mset ids"
    by (simp only: if_distrib [of mset] if_cancel)
  show "op \<in> set (contactOpsFor verb ids watched watchable) \<Longrightarrow> op_verb op = verb \<and> op_ids op \<noteq> []
     \<and> set (op_ids op) \<subseteq> set ids \<and> (\<forall>i \<in> set (op_ids op). op_flag op \<longleftrightarrow> watched \<and> i \<in> set watchable)"
    by (auto simp: contactOpsFor_def Let_def split: if_splits)
  show "length (contactOpsFor verb ids watched watchable) \<le> 2"
    by (simp add: contactOpsFor_def Let_def)
qed

lemma buildContactOps_ids:
  "op \<in> set (buildContactOps updating neu watched watchable) \<Longrightarrow> op_ids op \<noteq> []
     \<and> set (op_ids op) \<subseteq> set updating \<union> set neu \<and> (op_flag op \<longrightarrow> watched)"
  unfolding buildContactOps_def set_append Un_iff
proof (elim disjE)
  assume "op \<in> set (contactOpsFor ''update'' updating watched watchable)"
  from contactOpsFor_ids(2) [OF this] show ?thesis by (cases "op_ids op") auto
next
  assume "op \<in> set (contactOpsFor ''add'' neu watched watchable)"
  from contactOpsFor_ids(2) [OF this] show ?thesis by (cases "op_ids op") auto
qed



subsection \<open>The requests of setting contacts\<close>

lemma applyContactOps_sentBy:
  assumes "\<And>h op. op \<in> set ops \<Longrightarrow> hc_method h = ''PUT'' \<or> hc_method h = ''POST'' \<Longrightarrow>
     hc_path h = rt_raw (charRoute cid [Seg ''contacts'']) \<Longrightarrow>
     hc_params h = [(''standing'', VFloat standing), (''watched'', VBool (op_flag op))] \<Longrightarrow>
     hc_jsonBody h = VInts (op_ids op) \<Longrightarrow> Q h"
  shows "sentBy Q t (snd (applyContactOps E cid standing u a ops t))"
  using assms
proof (induction ops arbitrary: t u a)
  case (Cons op ops)
  obtain r t1 where run: "runContactOp E cid standing op t = (r, t1)" by fastforce
  have "sentBy Q t (snd ((if op_verb op = ''update'' then putT E (charRoute cid [Seg ''contacts'']) (Some cid)
            [(''standing'', VFloat standing), (''watched'', VBool (op_flag op))] (VInts (op_ids op))
           else postT E (charRoute cid [Seg ''contacts'']) (Some cid)
            [(''standing'', VFloat standing), (''watched'', VBool (op_flag op))] (VInts (op_ids op))) t))"
    using Cons.prems by (auto intro!: call_sentBy)
  then have s: "sentBy Q t t1"
    using run by (auto simp: runContactOp_def Let_def sentBy_def split: prod.splits)
  have rest: "sentBy Q t1 (snd (applyContactOps E cid standing u' a' ops t1))" for u' a'
    by (rule Cons.IH) (use Cons.prems in auto)
  show ?case using run s sentBy_trans [OF s rest] by (cases r) auto
qed simp

lemma safe_eveContactsSet: "safe E ToolContactsSet (cs_ConfirmToken inp) t (snd (eveContactsSet E inp t))"
proof -
  have ops: "safe E ToolContactsSet (cs_ConfirmToken inp) t
     (snd (thenT (authorizeT E (authz ToolContactsSet CapContacts args preview (cs_ConfirmToken inp) token)) failed
       (\<lambda>decision t. case decision of Some required \<Rightarrow> (Inr (VMap required), t)
        | None \<Rightarrow> thenT (applyContactOps E cid standing [] [] (buildContactOps (pl_updating plan) (pl_neu plan) watched (pl_watchable plan))) id
            (\<lambda>fail t. (Inr (answer fail), t)) t) t))"
    if args: "args = [(''contact_ids'', intsOf (pl_ids plan)), (''standing'', VFloat standing),
                 (''watched'', VBool watched), (''character_id'', VInt cid)]" and plan: "plan = planContactSet ms known"
    for args preview token failed cid standing plan watched ms known answer t
  proof -
    let ?az = "authz ToolContactsSet CapContacts args preview (cs_ConfirmToken inp) token"
    let ?ops = "buildContactOps (pl_updating plan) (pl_neu plan) watched (pl_watchable plan)"
    obtain d t1 where a: "authorizeT E ?az t = (d, t1)" by fastforce
    have none: "safe E ToolContactsSet (cs_ConfirmToken inp) t t1"
      using gate.gate_silent [OF a] by (simp add: safe_def sentBy_def traceOf_def)
    show ?thesis
    proof (cases "d = Inr None")
      case False
      then show ?thesis using a none by (cases d) (auto simp: thenT_def split: option.split)
    next
      case True
      let ?t2 = "snd (applyContactOps E cid standing [] [] ?ops t1)"
      have ids: "set (pl_updating plan) \<union> set (pl_neu plan) \<subseteq> set (pl_ids plan)"
        by (auto simp: plan planContactSet_def)
      have "sentBy (fits ToolContactsSet args) t1 ?t2"
      proof (rule applyContactOps_sentBy)
        fix h :: httpCall and op assume op: "op \<in> set ?ops" and h: "hc_method h = ''PUT'' \<or> hc_method h = ''POST''"
          "hc_path h = rt_raw (charRoute cid [Seg ''contacts''])"
          "hc_params h = [(''standing'', VFloat standing), (''watched'', VBool (op_flag op))]"
          "hc_jsonBody h = VInts (op_ids op)"
        note o = buildContactOps_ids [OF op]
        have "pl_ids plan \<noteq> []" using o ids by (cases "op_ids op") auto
        then show "fits ToolContactsSet args h" using h o ids
          by (auto simp: fits_simps args argInts_def intsOf_def)
      qed
      then have "\<exists>new. traceOf ?t2 = traceOf t1 @ new \<and> (\<forall>h \<in> set new. fits ToolContactsSet args h)"
        by (simp add: sentBy_def traceOf_def)
      from gate.behind_gate [OF a [unfolded True] this]
      have "safe E ToolContactsSet (cs_ConfirmToken inp) t ?t2"
        by (auto simp: safe_def sentBy_def traceOf_def armed_def)
      then show ?thesis using a True by (auto simp: thenT_def split: prod.split sum.split)
    qed
  qed
  show ?thesis
    unfolding eveContactsSet_def Let_def
    by (intro safe_thenT quietAt_characterT quietAt_resolvers)
      (auto intro!: safe_thenT ops split: option.split)
qed

text \<open>
  C2. Whatever a tool is called with, every request it sends is a read, a lookup of names, the
  pricing of a mail, or a change for which the call's confirm token stands for this session,
  this tool and the digest of arguments, at most 300 seconds old; and these arguments determine
  the request: its method, path, parameters and body. A call without such a token changes
  nothing in EVE.
\<close>
theorem changes_are_what_was_confirmed:
  "\<exists>new. ec_sent (esiOf (snd (Call E call t))) = ec_sent (esiOf t) @ new
     \<and> (\<forall>h \<in> set new. mayAsk h \<or>
          (\<exists>args. armedFor E (toolOf call) (tokenOf call) args t \<and> fits (toolOf call) args h))"
proof -
  have "safe E (toolOf call) (tokenOf call) t (snd (runTool E call t))"
    by (cases call)
      (simp_all add: safe_eveMailMark safe_eveMailDelete safe_eveMailSend safe_eveMailCompose
        safe_eveCalendarRespond safe_eveFittingSave safe_eveFittingDelete safe_eveContactsSet
        safe_eveContactsDelete safe_eveUISetWaypoint safe_eveUIOpenWindow)
  moreover have "snd (Call E call t) = snd (runTool E call t)"
    by (simp add: Call_def split: prod.split sum.split)
  ultimately show ?thesis by (simp add: safe_def sentBy_def)
qed


text \<open>
  One confirmed call on sample data: mail 1 is marked read for pilot 7, whose session 1 confirmed
  exactly that four seconds ago.
\<close>

definition markArgs :: object where
  "markArgs = [(''mail_id'', VInt 1), (''read'', VBool True), (''character_id'', VInt 7)]"

definition markDigest :: string where
  "markDigest = (case digestArgs sampleF markArgs of Inr d \<Rightarrow> d | Inl _ \<Rightarrow> [])"

definition markRow :: confirm_row where
  "markRow = \<lparr>ct_token = sampleTok, ct_session_id = 1, ct_tool = ToolMailMark, ct_args_digest = markDigest,
     ct_created_at = 5, ct_expires_at = 5 + 300 * second\<rparr>"

definition markEnv :: toolEnv where
  "markEnv = \<lparr>te_net = plainNet (\<lambda>_. None) ''x'', te_lib = plainLib, te_errText = (\<lambda>_. [])\<rparr>"

definition markState :: toolState where
  "markState = \<lparr>ts_w = fullW\<lparr>w_db := (w_db fullW)\<lparr>t_confirms := [markRow]\<rparr>\<rparr>, ts_sess = sampleSess,
     ts_rdr = freshRdr\<rparr>"

definition markCall :: toolCall where
  "markCall = MailMark \<lparr>mm_MailID = 1, mm_Read = None, mm_ConfirmToken = sampleTok\<rparr>"

lemma mark_digest: "digestArgs sampleF markArgs = Inr markDigest"
  by (simp add: markDigest_def markArgs_def digestArgs_def jsonObject_def split: option.split)

lemma mark_fmt: "nt_fmt (te_net markEnv) = sampleF"
  by (simp add: markEnv_def plainNet_def answerNet_def sampleF_def)

lemma mark_character:
  "\<exists>tok w'. Character sampleSess (ts_w markState) = (Inr tok, w') \<and> tk_CharacterID tok = 7
     \<and> tk_Scopes tok = RequestedScopes \<and> w_db w' = w_db (ts_w markState) \<and> w_now w' = 9 \<and> w_faults w' = [] \<and> \<not> w_tx w'"
  by (simp add: Character_def sampleSess_def fullW_def world0_def LiveByID_def runStmt_ok liveStmt_def markState_def
      sampleDb_def empty_db_def liveAt_def unrevoked_def scanSession_def Characters_Get_def characterRow_def
      Live_def revokeIfScopesFallShort_def wrapA_def wrapR_def)

lemma mark_caps:
  "CheckCapability sampleF CapMailOrganize = Inr ()" "CheckScope CapMailOrganize RequestedScopes = Inr ()"
  "CapMailOrganize \<noteq> CapMailSend"
proof -
  have "set (capScopes CapMailOrganize) \<subseteq> set RequestedScopes"
    by (auto simp: set_RequestedScopes capScopes_union [symmetric] CapabilityNames_def Capabilities_def Cap_defs)
  then show "CheckScope CapMailOrganize RequestedScopes = Inr ()" by auto
qed (simp_all add: Capabilities_def Cap_defs)

lemma mark_sends:
  "\<exists>h. ec_sent (esiOf (snd (Call markEnv markCall markState))) = [h] \<and> hc_method h = ''PUT''"
proof -
  obtain tok w1 where ch: "Character sampleSess (ts_w markState) = (Inr tok, w1)" and tok: "tk_CharacterID tok = 7"
    "tk_Scopes tok = RequestedScopes" and w1: "w_db w1 = w_db (ts_w markState)" "w_now w1 = 9" "w_faults w1 = []" "\<not> w_tx w1"
    using mark_character by blast
  let ?az = "\<lambda>pv. authz ToolMailMark CapMailOrganize markArgs pv sampleTok tok"
  let ?t1 = "markState\<lparr>ts_w := w1\<rparr>"
  have row: "confirmRow (w_db w1) sampleTok = Some markRow"
    by (simp add: w1 markState_def confirmRow_def markRow_def)
  have auth: "\<exists>t2. authorizeT markEnv (?az pv) ?t1 = (Inr None, t2)" for pv
    using confirm_stored [of w1 "?az pv" markRow "NewGuard 7 1" sampleF markDigest] row w1 tok mark_digest mark_caps
    by (auto simp: authz_def markRow_def NewGuard_def authorizeT_def mark_fmt sampleSess_def markState_def sampleTok_def)
  have put: "\<exists>v t3 h. putT markEnv route (Some 7) [] (VMap [(''read'', VBool True)]) t2 = (Inr v, t3)
      \<and> ec_sent (esiOf t3) = [h] \<and> hc_method h = ''PUT''" if t2: "ts_rdr t2 = freshRdr" for t2 route
  proof -
    have "calmEsi (399 + 1) ((rd_esi freshRdr)\<lparr>ec_now := w_now (ts_w t2)\<rparr>)"
      using calm_fresh by (simp add: calmEsi_def)
    then obtain c' h where w: "esiWrite (plainNet (\<lambda>_. None) ''x'') ''PUT'' (rt_raw route) (Some 7) []
          (VMap [(''read'', VBool True)]) ((rd_esi freshRdr)\<lparr>ec_now := w_now (ts_w t2)\<rparr>)
        = (Inr (decode (plainNet (\<lambda>_. None) ''x'') 200 ''x''), c')"
      and s: "ec_sent c' = ec_sent ((rd_esi freshRdr)\<lparr>ec_now := w_now (ts_w t2)\<rparr>) @ [\<lparr>hc_method = ''PUT'',
          hc_path = rt_raw route, hc_params = [], hc_headers = h, hc_jsonBody = VMap [(''read'', VBool True)]\<rparr>]"
      by (rule calm_write [where s = "''x''" and body = "VMap [(''read'', VBool True)]"])
        (auto simp: jsonObject_def maxResponseBody_def)
    have "ec_sent (rd_esi freshRdr) = []" by (simp add: freshRdr_def NewResolver_def ForUser_def)
    then show ?thesis using w s t2
      by (simp add: putT_def onRdr_def onEsi_def esiPut_def markEnv_def)
  qed
  show ?thesis
  proof -
    let ?pv = "[(''action'', VStr (''Mark mail #'' @ itoa 1 @ '' as '' @ ''read'')), (''character'', VStr (tk_CharacterName tok))]"
    obtain t2 where a: "authorizeT markEnv (?az ?pv) ?t1 = (Inr None, t2)" using auth by blast
    have "ts_rdr t2 = freshRdr" using authorizeT_rdr [OF a] by (simp add: markState_def)
    then obtain v t3 h where "putT markEnv (charRoute 7 [Seg ''mail'', ID 1]) (Some 7) [] (VMap [(''read'', VBool True)]) t2
        = (Inr v, t3)" "ec_sent (esiOf t3) = [h]" "hc_method h = ''PUT''"
      using put by blast
    moreover have "characterT markState = (Inr tok, ?t1)"
      using ch by (simp add: characterT_def onWorld_def markState_def)
    ultimately show ?thesis using a
      by (simp add: Call_def markCall_def eveMailMark_def boolDef_def thenT_def guardedWrite_def authz_def
          markArgs_def [symmetric] tok Let_def)
  qed
qed

theorem changes_are_what_was_confirmed_witness:
  "\<exists>h args. h \<in> set (ec_sent (esiOf (snd (Call markEnv markCall markState)))) \<and> \<not> mayAsk h
     \<and> armedFor markEnv ToolMailMark sampleTok args markState \<and> fits ToolMailMark args h"
proof -
  obtain h where h: "ec_sent (esiOf (snd (Call markEnv markCall markState))) = [h]" "hc_method h = ''PUT''"
    using mark_sends by blast
  have "ec_sent (esiOf markState) = []"
    by (simp add: markState_def freshRdr_def NewResolver_def ForUser_def)
  moreover have "\<not> mayAsk h" using h(2) by (simp add: mayAsk_def isRead_def MethodGet_def)
  ultimately show ?thesis
    using changes_are_what_was_confirmed [of markEnv markCall markState] h by (auto simp: markCall_def)
qed

end
