(* ===== verification/SsoClient.thy ===== *)
theory SsoClient
  imports Tokens Resolver
begin

text \<open>
  The client of CCP's sign-in service (adapter/sso/http/client.go, tokens.go): the URL of a
  login with its proof key, the exchange of a code, refreshing with a cache of access tokens by
  refresh token, revoking, and the check of an access token against CCP's published keys.

  The network and the JWT library are arguments: \<open>so_do\<close> is the outcome of a request given all
  requests sent so far, it last; \<open>so_parseUnverified\<close> reads header and claims,
  \<open>so_parse\<close> is \<open>jwt.Parse\<close> with the parser options of \<open>decode\<close> (RS256 or ES256, the audience,
  30 seconds of leeway) and a key. JSON decoding is an argument as for ESI. A form is kept as its
  values. The lock per refresh token serialises the calls for it, so a call is one step.
\<close>

subsection \<open>Constants, requests, answers\<close>

definition ssoHost :: string where "ssoHost = ''login.eveonline.com''"
definition pathAuthorize :: string where "pathAuthorize = ''/v2/oauth/authorize''"
definition pathOAuthToken :: string where "pathOAuthToken = ''/v2/oauth/token''"
definition pathRevoke :: string where "pathRevoke = ''/v2/oauth/revoke''"
definition pathJWKS :: string where "pathJWKS = ''/oauth/jwks''"
definition eveCharacterSubject :: string where "eveCharacterSubject = ''CHARACTER:EVE:''"

definition ssoMargin :: duration where "ssoMargin = 60 * second"
definition pkceVerifierBytes :: nat where "pkceVerifierBytes = 32"
definition oauthStateBytes :: nat where "oauthStateBytes = 16"
definition maxTokenBody :: nat where "maxTokenBody = 1048576"
definition errorBodyPreview :: nat where "errorBodyPreview = 200"

type_synonym urlValues = "(string \<times> string) list"

record ssoReq =
  rq_method :: string
  rq_url :: string
  rq_form :: urlValues
  rq_headers :: "(string \<times> string) list"
  rq_basic :: "(string \<times> string) option"

record ssoResp =
  sr_status :: int
  sr_contentType :: string
  sr_body :: "string + string"

record rsaKey =
  rk_N :: nat
  rk_E :: "64 word"

record ssoOptions =
  oo_ClientID :: string
  oo_ClientSecret :: string
  oo_CallbackURL :: string
  oo_UserAgent :: string
  oo_Scopes :: "string list"

record ssonet =
  so_opts :: ssoOptions
  so_do :: "ssoReq list \<Rightarrow> duration \<times> (string + ssoResp)"
  so_newRequest :: "ssoReq \<Rightarrow> goerr option"
  so_unmarshal :: "string \<Rightarrow> any option"
  so_decodeKeys :: "string \<Rightarrow> (goerr + object list)"
  so_parseUnverified :: "string \<Rightarrow> goerr + object \<times> object"
  so_parse :: "rsaKey \<Rightarrow> string \<Rightarrow> time \<Rightarrow> goerr + object"
  so_errText :: "goerr \<Rightarrow> string"
  so_quote :: "string \<Rightarrow> string"

subsection \<open>URLs\<close>

definition queryUnreserved :: "char \<Rightarrow> bool" where
  \<comment> \<open>what \<open>url.QueryEscape\<close> leaves alone\<close>
  "queryUnreserved c \<longleftrightarrow> (CHR ''a'' \<le> c \<and> c \<le> CHR ''z'') \<or> (CHR ''A'' \<le> c \<and> c \<le> CHR ''Z'')
     \<or> (CHR ''0'' \<le> c \<and> c \<le> CHR ''9'') \<or> List.member ''-_.~'' c"

definition queryEscape :: "string \<Rightarrow> string" where
  "queryEscape s = concat (map (\<lambda>c. if queryUnreserved c then [c] else if c = CHR '' '' then ''+''
     else [CHR ''%'', upperHex (of_char c div 16), upperHex (of_char c mod 16)]) s)"

definition encodeValues :: "urlValues \<Rightarrow> string" where
  \<comment> \<open>\<open>url.Values.Encode\<close>: sorted by key\<close>
  "encodeValues q = joinStr ''&'' (map (\<lambda>(k, v). queryEscape k @ ''='' @ queryEscape v) (sort_key fst q))"

definition endpoint :: "string \<Rightarrow> urlValues \<Rightarrow> string" where
  "endpoint path q = ''https://'' @ ssoHost @ path @ (if q = [] then [] else ''?'' @ encodeValues q)"

definition knownIssuer :: "string \<Rightarrow> bool" where
  "knownIssuer iss \<longleftrightarrow> iss = ssoHost \<or> iss = ''https://'' @ ssoHost"

definition ssoFail :: "string \<Rightarrow> goerr" where "ssoFail msg = SsoError msg"

definition ssoOp :: "string \<Rightarrow> string" where "ssoOp op = ''sso: '' @ op"

subsection \<open>State\<close>

record accessMem =
  am_AccessToken :: string
  am_AccessExpiresAt :: time

type_synonym accessCache = "(string \<times> accessMem) list"

record ssoClient =
  sc_now :: time
  sc_sent :: "ssoReq list"
  sc_access :: accessCache
  sc_keys :: "(string \<times> rsaKey) list option"
  sc_keysAt :: time
  sc_rand :: "string list"

definition NewClient :: "time \<Rightarrow> string list \<Rightarrow> ssoClient" where
  "NewClient now rand = \<lparr>sc_now = now, sc_sent = [], sc_access = [], sc_keys = None, sc_keysAt = 0, sc_rand = rand\<rparr>"

subsection \<open>The cache of access tokens\<close>

definition acGet :: "string \<Rightarrow> accessCache \<Rightarrow> accessMem option" where
  "acGet refreshToken c = map_of c refreshToken"

definition acPut :: "string \<Rightarrow> accessMem \<Rightarrow> accessCache \<Rightarrow> accessCache" where
  "acPut refreshToken mem c =
    (if refreshToken = [] \<or> am_AccessToken mem = [] then c else mapPut refreshToken mem c)"

definition acDrop :: "string \<Rightarrow> accessCache \<Rightarrow> accessCache" where
  "acDrop refreshToken c = dropKey refreshToken c"

definition acLive :: "string \<Rightarrow> duration \<Rightarrow> time \<Rightarrow> accessCache \<Rightarrow> accessMem option" where
  "acLive refreshToken margin now c =
    (case acGet refreshToken c of None \<Rightarrow> None
     | Some mem \<Rightarrow> if am_AccessToken mem = [] then None
         else if now > am_AccessExpiresAt mem - margin then None else Some mem)"

subsection \<open>Sending\<close>

definition sendSSO :: "ssonet \<Rightarrow> ssoReq \<Rightarrow> ssoClient \<Rightarrow> (string + ssoResp) \<times> ssoClient" where
  \<comment> \<open>\<open>c.http.Do\<close>; the clock does not run backwards meanwhile\<close>
  "sendSSO N rq c =
    (let sent = sc_sent c @ [rq]; (dt, r) = so_do N sent in
     (r, c\<lparr>sc_sent := sent, sc_now := sc_now c + max 0 dt\<rparr>))"

definition unmarshalMap :: "ssonet \<Rightarrow> string \<Rightarrow> object option" where
  "unmarshalMap N s = (case so_unmarshal N s of Some (VMap m) \<Rightarrow> Some m | Some VNil \<Rightarrow> Some [] | _ \<Rightarrow> None)"

definition ssoJSONDetail :: "ssonet \<Rightarrow> string \<Rightarrow> string \<Rightarrow> string" where
  "ssoJSONDetail N contentType body =
    (if \<not> strContains contentType ''json'' then []
     else (case unmarshalMap N body of None \<Rightarrow> []
       | Some payload \<Rightarrow>
           let e = jStr (lookupAny payload ''error'');
               errS = (if e = [] then jStr (lookupAny payload ''message'') else e);
               desc = jStr (lookupAny payload ''error_description'')
           in joinStr '' - '' (filter (\<lambda>p. p \<noteq> []) [errS, desc])))"

definition ssoDetail :: "ssonet \<Rightarrow> string \<Rightarrow> string \<Rightarrow> string" where
  "ssoDetail N contentType body =
    (let d = ssoJSONDetail N contentType body in
     if d \<noteq> [] then d
     else if strContains contentType ''html''
     then ''the SSO rejected the request (bad client_id, wrong callback URL, or a refresh token that is no longer valid)''
     else take errorBodyPreview body)"

definition formRequest :: "ssonet \<Rightarrow> string \<Rightarrow> urlValues \<Rightarrow> (string \<times> string) list \<Rightarrow> string \<Rightarrow> ssoReq" where
  "formRequest N path data headers secret =
     \<lparr>rq_method = ''POST'', rq_url = endpoint path [], rq_form = data,
      rq_headers = (''Content-Type'', ''application/x-www-form-urlencoded'') # headers
        @ [(''User-Agent'', oo_UserAgent (so_opts N))],
      rq_basic = (if secret \<noteq> [] then Some (oo_ClientID (so_opts N), secret) else None)\<rparr>"

definition tokenAnswer :: "ssonet \<Rightarrow> ssoResp \<Rightarrow> goerr + object" where
  "tokenAnswer N resp =
    (case sr_body resp of
       Inl e \<Rightarrow> Inl (ssoFail (''SSO token request failed: '' @ e))
     | Inr raw \<Rightarrow>
       let body = take maxTokenBody raw in
       if sr_status resp \<ge> 400
       then (let detail = ssoDetail N (sr_contentType resp) body in
         if strContains detail ''invalid_grant'' then Inl (Wrap detail (Sentinel ErrInvalidGrant))
         else Inl (ssoFail (''SSO token request failed ('' @ itoa (sr_status resp) @ ''): '' @ detail)))
       else (case unmarshalMap N body of
           None \<Rightarrow> Inl (ssoFail ''SSO returned a malformed token payload'')
         | Some payload \<Rightarrow> Inr payload))"

definition tokenRequest :: "ssonet \<Rightarrow> urlValues \<Rightarrow> string \<Rightarrow> ssoClient \<Rightarrow> (goerr + object) \<times> ssoClient" where
  "tokenRequest N data0 secret c =
    (let data = (if secret \<noteq> [] then dropKey ''client_id'' data0 else data0);
         rq = formRequest N pathOAuthToken data [(''Host'', ''login.eveonline.com'')] secret
     in case so_newRequest N rq of
        Some e \<Rightarrow> (Inl (Wrap (ssoOp ''tokenRequest'') e), c)
      | None \<Rightarrow> (case sendSSO N rq c of
          (Inl e, c1) \<Rightarrow> (Inl (ssoFail (''SSO token request failed: '' @ e)), c1)
        | (Inr resp, c1) \<Rightarrow> (tokenAnswer N resp, c1)))"

subsection \<open>Keys\<close>

definition b64Val :: "char \<Rightarrow> nat option" where
  "b64Val c = find (\<lambda>n. b64Digit n = c) [0..<64]"

fun b64Bytes :: "nat list \<Rightarrow> string" where
  "b64Bytes (a # b # c # d # r) =
    (let n = ((a * 64 + b) * 64 + c) * 64 + d in
     char_of (n div 65536) # char_of (n div 256 mod 256) # char_of (n mod 256) # b64Bytes r)"
| "b64Bytes [a, b, c] =
    (let n = (a * 64 + b) * 64 + c in [char_of (n div 1024), char_of (n div 4 mod 256)])"
| "b64Bytes [a, b] = [char_of ((a * 64 + b) div 16)]"
| "b64Bytes _ = []"

definition rawURLDecode :: "string \<Rightarrow> string option" where
  \<comment> \<open>\<open>base64.RawURLEncoding.DecodeString\<close>: line ends are skipped, one digit left over is an error\<close>
  "rawURLDecode s =
    (let cs = filter (\<lambda>c. c \<noteq> CHR 0x0A \<and> c \<noteq> CHR 0x0D) s; vs = map b64Val cs in
     if None \<in> set vs \<or> length vs mod 4 = 1 then None else Some (b64Bytes (map the vs)))"

definition bigEndian :: "string \<Rightarrow> nat" where
  \<comment> \<open>\<open>new(big.Int).SetBytes\<close>\<close>
  "bigEndian bs = foldl (\<lambda>n c. n * 256 + of_char c) 0 bs"

definition intShifted :: "string \<Rightarrow> 64 word" where
  \<comment> \<open>\<open>for _, b := range eBytes { e = e<<bitsPerByte | int(b) }\<close>\<close>
  "intShifted bs = foldl (\<lambda>e c. or (push_bit 8 e) (word_of_nat (of_char c))) 0 bs"

definition rsaFromJWK :: "object \<Rightarrow> goerr + rsaKey" where
  "rsaFromJWK k =
    (let nStr = jStr (lookupAny k ''n''); eStr = jStr (lookupAny k ''e'') in
     if nStr = [] \<or> eStr = [] then Inl (External ''not rsa'')
     else (case rawURLDecode nStr of None \<Rightarrow> Inl (Wrap (ssoOp ''rsaFromJWK'') (External ''base64''))
       | Some nBytes \<Rightarrow> (case rawURLDecode eStr of None \<Rightarrow> Inl (Wrap (ssoOp ''rsaFromJWK'') (External ''base64''))
         | Some eBytes \<Rightarrow> Inr \<lparr>rk_N = bigEndian nBytes, rk_E = intShifted eBytes\<rparr>)))"

fun jwksKeys :: "object list \<Rightarrow> (string \<times> rsaKey) list \<Rightarrow> (string \<times> rsaKey) list" where
  "jwksKeys [] out = out"
| "jwksKeys (k # ks) out =
    (let kid = jStr (lookupAny k ''kid'') in
     if kid = [] then jwksKeys ks out
     else jwksKeys ks (case rsaFromJWK k of Inl _ \<Rightarrow> out | Inr pub \<Rightarrow> mapPut kid pub out))"

definition jwksRequest :: ssoReq where
  "jwksRequest = \<lparr>rq_method = ''GET'', rq_url = endpoint pathJWKS [], rq_form = [], rq_headers = [], rq_basic = None\<rparr>"

definition fetchJWKS :: "ssonet \<Rightarrow> ssoClient \<Rightarrow> (goerr + (string \<times> rsaKey) list) \<times> ssoClient" where
  "fetchJWKS N c =
    (case so_newRequest N jwksRequest of
       Some e \<Rightarrow> (Inl (Wrap (ssoOp ''fetchJWKS'') e), c)
     | None \<Rightarrow> (case sendSSO N jwksRequest c of
         (Inl e, c1) \<Rightarrow> (Inl (Wrap (ssoOp ''fetchJWKS'') (External e)), c1)
       | (Inr resp, c1) \<Rightarrow>
           (case sr_body resp of
              Inl e \<Rightarrow> (Inl (Wrap (ssoOp ''fetchJWKS'') (External e)), c1)
            | Inr body \<Rightarrow> (case so_decodeKeys N body of
                Inl e \<Rightarrow> (Inl (Wrap (ssoOp ''fetchJWKS'') e), c1)
              | Inr ks \<Rightarrow> (Inr (jwksKeys ks []), c1)))))"

definition keyNamed :: "string \<Rightarrow> ssoClient \<Rightarrow> goerr + rsaKey" where
  "keyNamed kid c = (case sc_keys c of
     None \<Rightarrow> Inl (Wrap kid (External ''kid not in JWKS''))
   | Some ks \<Rightarrow> (case map_of ks kid of None \<Rightarrow> Inl (Wrap kid (External ''kid not in JWKS'')) | Some key \<Rightarrow> Inr key))"

definition signingKey :: "ssonet \<Rightarrow> string \<Rightarrow> ssoClient \<Rightarrow> (goerr + rsaKey) \<times> ssoClient" where
  "signingKey N accessToken c =
    (case so_parseUnverified N accessToken of
       Inl e \<Rightarrow> (Inl (Wrap (ssoOp ''signingKey'') e), c)
     | Inr (header, _) \<Rightarrow>
       let kid = jStr (lookupAny header ''kid'') in
       if sc_keys c = None \<or> sc_now c - sc_keysAt c > 3600 * second
       then (case fetchJWKS N c of (Inl e, c1) \<Rightarrow> (Inl e, c1)
         | (Inr ks, c1) \<Rightarrow> (let c2 = c1\<lparr>sc_keys := Some ks, sc_keysAt := sc_now c1\<rparr> in (keyNamed kid c2, c2)))
       else (keyNamed kid c, c))"

definition checkIssuer :: "ssonet \<Rightarrow> object \<Rightarrow> goerr + object" where
  "checkIssuer N claims =
    (let iss = jStr (lookupAny claims ''iss'') in
     if knownIssuer iss then Inr claims
     else Inl (ssoFail (''Unexpected token issuer: '' @ so_quote N iss)))"

definition decodeToken :: "ssonet \<Rightarrow> string \<Rightarrow> ssoClient \<Rightarrow> (goerr + object) \<times> ssoClient" where
  \<comment> \<open>both parsers yield \<open>MapClaims\<close>, so \<open>jwtMapClaims\<close> returns them\<close>
  "decodeToken N accessToken c =
    (case signingKey N accessToken c of
       (Inl _, c1) \<Rightarrow>
         ((case so_parseUnverified N accessToken of
             Inl e \<Rightarrow> Inl (ssoFail (''Malformed token from the SSO: '' @ so_errText N e))
           | Inr (_, claims) \<Rightarrow> checkIssuer N claims), c1)
     | (Inr key, c1) \<Rightarrow>
         ((case so_parse N key accessToken (sc_now c1) of
             Inl e \<Rightarrow> Inl (ssoFail (''The SSO token failed verification ('' @ so_errText N e @ ''). Nothing was stored.''))
           | Inr claims \<Rightarrow> checkIssuer N claims), c1))"

subsection \<open>From the answer to a character token\<close>

definition fmtSpace :: "nat \<Rightarrow> bool" where
  "fmtSpace r \<longleftrightarrow> 9 \<le> r \<and> r \<le> 13 \<or> List.member [0x20, 0x85, 0xA0, 0x1680, 0x2028, 0x2029, 0x202F, 0x205F, 0x3000] r
     \<or> 0x2000 \<le> r \<and> r \<le> 0x200A"

function skipSpace :: "nat list \<Rightarrow> nat list option" where
  "skipSpace [] = Some []"
| "skipSpace (b # bs) =
    (let (r, width) = decodeRune b bs in
     if r = 10 then None else if fmtSpace r then skipSpace (drop (width - 1) bs) else Some (b # bs))"
  by pat_completeness auto
termination by (relation "measure length") auto

definition scanInt :: "string \<Rightarrow> int option" where
  \<comment> \<open>\<open>fmt.Sscanf(s, "%d", &n)\<close>; what follows the digits is not read\<close>
  "scanInt s = (case skipSpace (map of_char s) of None \<Rightarrow> None
     | Some bs \<Rightarrow>
         let cs = map char_of bs;
             sign = (case cs of c # _ \<Rightarrow> if c = CHR ''+'' \<or> c = CHR ''-'' then [c] else [] | [] \<Rightarrow> []);
             digits = takeWhile isDigitChar (drop (length sign) cs)
         in if digits = [] then None else parseInt64 (sign @ digits))"

definition characterIDFromClaims :: "ssonet \<Rightarrow> object \<Rightarrow> goerr + int" where
  "characterIDFromClaims N claims =
    (let subject = jStr (lookupAny claims ''sub'');
         refused = ssoFail (''Unexpected token subject: '' @ so_quote N subject) in
     if \<not> hasPrefix subject eveCharacterSubject then Inl refused
     else (case scanInt (drop (length eveCharacterSubject) subject) of
         None \<Rightarrow> Inl refused
       | Some characterID \<Rightarrow> if characterID = 0 then Inl refused else Inr characterID))"

fun jStrings :: "any list \<Rightarrow> string list" where
  "jStrings [] = []"
| "jStrings (v # vs) = (case v of VStr s \<Rightarrow> s # jStrings vs | _ \<Rightarrow> jStrings vs)"

definition scopesFromClaims :: "object \<Rightarrow> string list" where
  "scopesFromClaims claims = (case lookupAny claims ''scp'' of
     VStr scp \<Rightarrow> [scp] | VSlice scp \<Rightarrow> jStrings scp | _ \<Rightarrow> [])"

definition expiresIn :: "object \<Rightarrow> rat" where
  "expiresIn payload = (case lookupAny payload ''expires_in'' of VFloat t \<Rightarrow> t | _ \<Rightarrow> 1200)"

definition tokenPair :: "object \<Rightarrow> CharacterToken option \<Rightarrow> goerr + string \<times> string" where
  "tokenPair payload fallback =
    (let access = jStr (lookupAny payload ''access_token''); r = jStr (lookupAny payload ''refresh_token'');
         rt = (if r = [] then (case fallback of None \<Rightarrow> [] | Some t \<Rightarrow> tk_RefreshToken t) else r) in
     if access = [] \<or> rt = [] then Inl (ssoFail ''SSO response was missing access_token or refresh_token.'')
     else Inr (access, rt))"

definition claimOr :: "string \<Rightarrow> object \<Rightarrow> string option \<Rightarrow> string" where
  "claimOr k claims fallback =
    (let v = jStr (lookupAny claims k) in if v = [] then (case fallback of None \<Rightarrow> [] | Some d \<Rightarrow> d) else v)"

definition tokenName :: "object \<Rightarrow> CharacterToken option \<Rightarrow> string" where
  "tokenName claims fallback = claimOr ''name'' claims (map_option tk_CharacterName fallback)"

definition tokenOwner :: "object \<Rightarrow> CharacterToken option \<Rightarrow> string" where
  "tokenOwner claims fallback = claimOr ''owner'' claims (map_option tk_OwnerHash fallback)"

definition tokenFromPayload ::
    "ssonet \<Rightarrow> object \<Rightarrow> CharacterToken option \<Rightarrow> ssoClient \<Rightarrow> (goerr + CharacterToken) \<times> ssoClient" where
  "tokenFromPayload N payload fallback c =
    (case tokenPair payload fallback of Inl e \<Rightarrow> (Inl e, c)
     | Inr (access, rt) \<Rightarrow> (case decodeToken N access c of (Inl e, c1) \<Rightarrow> (Inl e, c1)
       | (Inr claims, c1) \<Rightarrow> (case characterIDFromClaims N claims of Inl e \<Rightarrow> (Inl e, c1)
         | Inr characterID \<Rightarrow>
             (Inr \<lparr>tk_CharacterID = characterID, tk_CharacterName = tokenName claims fallback, tk_RefreshToken = rt,
                tk_Scopes = scopesFromClaims claims, tk_OwnerHash = tokenOwner claims fallback, tk_AddedAt = 0,
                tk_AccessToken = access,
                tk_AccessExpiresAt = sc_now c1 + truncInt (expiresIn payload * of_int second)\<rparr>, c1))))"

subsection \<open>The operations\<close>

definition ssoRandom :: "nat \<Rightarrow> ssoClient \<Rightarrow> string \<times> ssoClient" where
  \<comment> \<open>\<open>n\<close> random bytes; \<open>rand.Read\<close> fills the slice or ends the program\<close>
  "ssoRandom n c = (case sc_rand c of [] \<Rightarrow> (replicate n (char_of (0 :: nat)), c)
     | b # bs \<Rightarrow> (take n (b @ replicate n (char_of (0 :: nat))), c\<lparr>sc_rand := bs\<rparr>))"

definition b64url :: "string \<Rightarrow> string" where
  "b64url raw = trimRight (CHR ''='') (urlEncode raw)"

definition loginQuery :: "ssonet \<Rightarrow> string list \<Rightarrow> string \<Rightarrow> string \<Rightarrow> urlValues" where
  "loginQuery N scopes state challenge =
    [(''response_type'', ''code''), (''redirect_uri'', oo_CallbackURL (so_opts N)),
     (''client_id'', oo_ClientID (so_opts N)), (''scope'', joinStr '' '' scopes), (''state'', state),
     (''code_challenge'', challenge), (''code_challenge_method'', ''S256'')]"

definition clientPrepareLogin :: "ssonet \<Rightarrow> string list option \<Rightarrow> ssoClient \<Rightarrow> PreparedLogin \<times> ssoClient" where
  "clientPrepareLogin N scopes0 c =
    (let scopes = (case scopes0 of None \<Rightarrow> oo_Scopes (so_opts N) | Some xs \<Rightarrow> xs);
         (raw, c1) = ssoRandom pkceVerifierBytes c; verifier = b64url raw;
         challenge = b64url (sha256 verifier);
         (raw2, c2) = ssoRandom oauthStateBytes c1; state = b64url raw2
     in (\<lparr>pl_URL = endpoint pathAuthorize (loginQuery N scopes state challenge), pl_State = state,
          pl_Verifier = verifier, pl_Scopes = scopes\<rparr>, c2))"

definition clientExchangeCode :: "ssonet \<Rightarrow> string \<Rightarrow> string \<Rightarrow> ssoClient \<Rightarrow> (goerr + CharacterToken) \<times> ssoClient" where
  "clientExchangeCode N code verifier c =
    (let data = [(''grant_type'', ''authorization_code''), (''code'', code), (''client_id'', oo_ClientID (so_opts N)),
           (''code_verifier'', verifier), (''redirect_uri'', oo_CallbackURL (so_opts N))] in
     case tokenRequest N data (oo_ClientSecret (so_opts N)) c of (Inl e, c1) \<Rightarrow> (Inl e, c1)
     | (Inr payload, c1) \<Rightarrow> tokenFromPayload N payload None c1)"

definition exchangeRefresh ::
    "ssonet \<Rightarrow> string \<Rightarrow> CharacterToken option \<Rightarrow> ssoClient \<Rightarrow> (goerr + CharacterToken) \<times> ssoClient" where
  "exchangeRefresh N refreshToken fallback c =
    (let data = [(''grant_type'', ''refresh_token''), (''refresh_token'', refreshToken),
           (''client_id'', oo_ClientID (so_opts N))] in
     case tokenRequest N data (oo_ClientSecret (so_opts N)) c of (Inl e, c1) \<Rightarrow> (Inl e, c1)
     | (Inr payload, c1) \<Rightarrow> tokenFromPayload N payload fallback c1)"

definition clientRefresh :: "ssonet \<Rightarrow> string \<Rightarrow> ssoClient \<Rightarrow> (goerr + CharacterToken) \<times> ssoClient" where
  "clientRefresh N refreshToken c =
    (case exchangeRefresh N refreshToken None c of
       (Inl e, c1) \<Rightarrow> (Inl e, if errors_is e ErrInvalidGrant then c1\<lparr>sc_access := acDrop refreshToken (sc_access c1)\<rparr> else c1)
     | (Inr tok, c1) \<Rightarrow>
         (let a = acPut (tk_RefreshToken tok) \<lparr>am_AccessToken = tk_AccessToken tok,
                    am_AccessExpiresAt = tk_AccessExpiresAt tok\<rparr> (sc_access c1)
          in (Inr tok, c1\<lparr>sc_access := if tk_RefreshToken tok \<noteq> refreshToken then acDrop refreshToken a else a\<rparr>)))"

definition cachedToken :: "string \<Rightarrow> accessMem \<Rightarrow> CharacterToken" where
  "cachedToken refreshToken mem =
     \<lparr>tk_CharacterID = 0, tk_CharacterName = [], tk_RefreshToken = refreshToken, tk_Scopes = [], tk_OwnerHash = [],
      tk_AddedAt = 0, tk_AccessToken = am_AccessToken mem, tk_AccessExpiresAt = am_AccessExpiresAt mem\<rparr>"

definition clientAccessToken :: "ssonet \<Rightarrow> string \<Rightarrow> ssoClient \<Rightarrow> (goerr + CharacterToken) \<times> ssoClient" where
  "clientAccessToken N refreshToken c =
    (if refreshToken = []
     then (Inl (ssoFail ''Missing EVE refresh token. Re-authenticate the MCP server (Authentication required) and try again.''), c)
     else (case acLive refreshToken ssoMargin (sc_now c) (sc_access c) of
         Some mem \<Rightarrow> (Inr (cachedToken refreshToken mem), c)
       | None \<Rightarrow> clientRefresh N refreshToken c))"

definition clientRevoke :: "ssonet \<Rightarrow> string \<Rightarrow> ssoClient \<Rightarrow> ssoClient" where
  "clientRevoke N refreshToken c =
    (if refreshToken = [] then c
     else let data = [(''token_type_hint'', ''refresh_token''), (''token'', refreshToken),
                (''client_id'', oo_ClientID (so_opts N))];
              rq = formRequest N pathRevoke data [] (oo_ClientSecret (so_opts N));
              c1 = (case so_newRequest N rq of Some _ \<Rightarrow> c | None \<Rightarrow> snd (sendSSO N rq c))
          in c1\<lparr>sc_access := acDrop refreshToken (sc_access c1)\<rparr>)"

end
