(* ===== verification/SsoProps.thy ===== *)
theory SsoProps
  imports SsoClient
begin

text \<open>
  What the client of the sign-in service guarantees: where the identity of a token comes from,
  what a call for an access token sends and caches, and that a published key is read back as the
  numbers it was written from.
\<close>

subsection \<open>Base64 and keys\<close>

lemma b64Val_digit: "n < 64 \<Longrightarrow> b64Val (b64Digit n) = Some n"
proof -
  have "\<forall>n < 64. b64Val (b64Digit n) = Some n" unfolding b64Val_def b64Digit_def by code_simp
  then show "n < 64 \<Longrightarrow> b64Val (b64Digit n) = Some n" by blast
qed

lemma b64Digit_no_line_end: "n < 64 \<Longrightarrow> b64Digit n \<noteq> CHR 0x0A \<and> b64Digit n \<noteq> CHR 0x0D"
proof -
  have "\<forall>n < 64. b64Digit n \<noteq> CHR 0x0A \<and> b64Digit n \<noteq> CHR 0x0D" unfolding b64Digit_def by code_simp
  then show "n < 64 \<Longrightarrow> b64Digit n \<noteq> CHR 0x0A \<and> b64Digit n \<noteq> CHR 0x0D" by blast
qed

fun sextets :: "string \<Rightarrow> nat list" where
  \<comment> \<open>the six-bit groups \<open>rawURLEncode\<close> writes\<close>
  "sextets (a # b # c # cs) =
    (let n = (of_char a * 256 + of_char b) * 256 + of_char c :: nat in
     n div 262144 # n div 4096 mod 64 # n div 64 mod 64 # n mod 64 # sextets cs)"
| "sextets [a, b] =
    (let n = (of_char a * 256 + of_char b) * 4 :: nat in [n div 4096, n div 64 mod 64, n mod 64])"
| "sextets [a] = (let n = of_char a * 16 :: nat in [n div 64, n mod 64])"
| "sextets [] = []"

lemma rawURLEncode_sextets: "rawURLEncode s = map b64Digit (sextets s)"
  by (induction s rule: rawURLEncode.induct) (simp_all add: Let_def)

lemma byte_bound: "(of_char c :: nat) < 256"
  using of_char_le[of c] by simp

lemma pack_bound: "x < m \<Longrightarrow> z < 256 \<Longrightarrow> x * 256 + z < m * 256" for x z m :: nat
  by (rule less_le_trans [of _ "(x + 1) * 256"]) simp_all

lemma unpack: "z < 256 \<Longrightarrow> (x * 256 + z) div 256 = x" for x z :: nat
  by simp

lemma two_byte_bound: "(of_char a * 256 + of_char b :: nat) < 65536"
  using pack_bound[OF byte_bound[of a] byte_bound[of b]] by simp

lemma three_byte_bound: "((of_char a * 256 + of_char b) * 256 + of_char c :: nat) < 16777216"
  using pack_bound[OF two_byte_bound[of a b] byte_bound[of c]] by (simp only: mult_numeral_left)

lemma sextets_small: "n \<in> set (sextets s) \<Longrightarrow> n < 64"
proof (induction s rule: sextets.induct)
  case (1 a b c cs)
  then show ?case using three_byte_bound[of a b c] by (auto simp: Let_def)
next
  case (2 a b)
  then show ?case using two_byte_bound[of a b] by (auto simp: Let_def)
next
  case (3 a)
  have "(of_char a :: nat) div 4 < 64" using byte_bound[of a] by (simp add: div_less_iff_less_mult)
  then show ?case using 3 byte_bound[of a] by (auto simp: Let_def)
qed simp

lemma length_sextets: "length (sextets s) mod 4 \<noteq> 1"
proof -
  have "(4 + n) mod 4 = n mod 4" for n :: nat by (simp add: mod_add_left_eq [symmetric])
  then show ?thesis by (induction s rule: sextets.induct) (simp_all add: Let_def)
qed

lemma digits_64:
  fixes n :: nat
  shows "(n div 64 * 64 + n mod 64) = n" "n div 4096 * 64 + n div 64 mod 64 = n div 64"
    "n div 262144 * 64 + n div 4096 mod 64 = n div 4096"
  using div_mult_mod_eq[of "n div 64" 64] div_mult_mod_eq[of "n div 4096" 64]
  by (simp_all add: div_mult2_eq [symmetric])

lemma bytes_of:
  assumes "n = (of_char a * 256 + of_char b) * 256 + (of_char c :: nat)"
  shows "n div 65536 = of_char a" "n div 256 mod 256 = of_char b" "n mod 256 = of_char c"
proof -
  have "n div 256 = of_char a * 256 + of_char b" unfolding assms by (rule unpack [OF byte_bound])
  then show "n div 256 mod 256 = of_char b" "n div 65536 = of_char a"
    using byte_bound[of b] div_mult2_eq[of n 256 256] by simp_all
  show "n mod 256 = of_char c" using assms byte_bound[of c] by (simp only: mod_mult_self3 mod_less)
qed

lemma b64Bytes_sextets: "b64Bytes (sextets s) = s"
proof (induction s rule: sextets.induct)
  case (1 a b c cs)
  define n :: nat where n: "n = (of_char a * 256 + of_char b) * 256 + of_char c"
  have "b64Bytes (n div 262144 # n div 4096 mod 64 # n div 64 mod 64 # n mod 64 # sextets cs)
    = char_of (n div 65536) # char_of (n div 256 mod 256) # char_of (n mod 256) # b64Bytes (sextets cs)"
    by (simp only: b64Bytes.simps Let_def digits_64)
  also have "\<dots> = a # b # c # cs" using 1 [OF n] by (simp only: bytes_of [OF n] char_of_char)
  finally show ?case by (simp only: sextets.simps Let_def n)
next
  case (2 a b)
  define n :: nat where n: "n = (of_char a * 256 + of_char b) * 4"
  have "b64Bytes [n div 4096, n div 64 mod 64, n mod 64] = [char_of (n div 1024), char_of (n div 4 mod 256)]"
    by (simp only: b64Bytes.simps Let_def digits_64)
  also have "n div 4 = of_char a * 256 + of_char b" by (simp add: n)
  moreover from this have "n div 1024 = of_char a" using div_mult2_eq[of n 4 256] byte_bound[of b] by simp
  ultimately have "b64Bytes [n div 4096, n div 64 mod 64, n mod 64] = [a, b]"
    using byte_bound[of b] by (simp only: mod_mult_self3 mod_less char_of_char)
  then show ?case by (simp only: sextets.simps Let_def n)
next
  case (3 a)
  have "(of_char a * 16 div 64 * 64 + of_char a * 16 mod 64) div 16 = (of_char a :: nat)"
    by (subst div_mult_mod_eq) simp
  then show ?case by (simp add: Let_def)
qed simp

lemma rawURLDecode_encode: "rawURLDecode (rawURLEncode s) = Some s"
proof -
  have f: "filter (\<lambda>c. c \<noteq> CHR 0x0A \<and> c \<noteq> CHR 0x0D) (rawURLEncode s) = rawURLEncode s"
    using b64Digit_no_line_end[OF sextets_small[of _ s]]
    by (subst filter_id_conv) (auto simp: rawURLEncode_sextets)
  have v: "map b64Val (rawURLEncode s) = map Some (sextets s)"
    using b64Val_digit[OF sextets_small[of _ s]] by (simp add: rawURLEncode_sextets)
  have "map the (map Some xs) = xs" for xs :: "nat list" by (simp add: o_def)
  moreover have "None \<notin> set (map Some xs)" for xs :: "nat list" by auto
  ultimately show ?thesis using length_sextets[of s]
    by (simp only: rawURLDecode_def f v Let_def b64Bytes_sextets) (simp add: rawURLEncode_sextets)
qed

lemma bigEndian_snoc: "bigEndian (bs @ [b]) = bigEndian bs * 256 + of_char b"
  by (simp add: bigEndian_def)

lemma or_byte: "or (push_bit 8 e) (word_of_nat (of_char c)) = e * 256 + (word_of_nat (of_char c) :: 64 word)"
proof -
  have "\<not> bit (of_char c :: nat) n" if "8 \<le> n" for n
  proof -
    have "(2 :: nat) ^ 8 \<le> 2 ^ n" using that by (rule power_increasing) simp
    then have "256 \<le> (2 :: nat) ^ n" by simp
    with byte_bound have "(of_char c :: nat) < 2 ^ n" by (rule order_less_le_trans)
    then show ?thesis by (simp add: bit_iff_odd)
  qed
  then have "and (push_bit 8 e) (word_of_nat (of_char c)) = (0 :: 64 word)"
    by (intro bit_eqI) (auto simp: bit_and_iff bit_push_bit_iff bit_of_nat_iff)
  then show ?thesis using disjunctive_add_eq_or [of "push_bit 8 e" "word_of_nat (of_char c) :: 64 word"]
    by (simp add: push_bit_eq_mult)
qed

lemma intShifted_bigEndian: "intShifted bs = word_of_nat (bigEndian bs)"
  by (induction bs rule: rev_induct) (simp_all add: intShifted_def bigEndian_def or_byte)

lemma rawURLEncode_Nil_iff: "rawURLEncode s = [] \<longleftrightarrow> s = []"
  by (cases s rule: rawURLEncode.cases) (auto simp: Let_def)

lemma jwk_read:
  assumes "nb \<noteq> []" "eb \<noteq> []" "jStr (lookupAny k ''n'') = rawURLEncode nb" "jStr (lookupAny k ''e'') = rawURLEncode eb"
  shows "rsaFromJWK k = Inr \<lparr>rk_N = bigEndian nb, rk_E = word_of_nat (bigEndian eb)\<rparr>"
  using assms by (simp add: rsaFromJWK_def rawURLDecode_encode rawURLEncode_Nil_iff intShifted_bigEndian)

text \<open>
  C31. A published RSA key is read back as written: base64url digits of a big-endian modulus and
  exponent give exactly these numbers, the exponent as a 64-bit integer.
\<close>

theorem jwk_round_trip:
  assumes "nb \<noteq> []" "eb \<noteq> []"
  shows "rsaFromJWK [(''kty'', VStr ''RSA''), (''n'', VStr (rawURLEncode nb)), (''e'', VStr (rawURLEncode eb))]
    = Inr \<lparr>rk_N = bigEndian nb, rk_E = word_of_nat (bigEndian eb)\<rparr>"
  by (rule jwk_read [OF assms]) (simp_all add: jStr_def)

theorem jwk_round_trip_witness:
  "rsaFromJWK [(''kty'', VStr ''RSA''), (''n'', VStr (rawURLEncode [CHR 0x01, CHR 0x01])),
     (''e'', VStr (rawURLEncode [CHR 0x01, CHR 0x00, CHR 0x01]))] = Inr \<lparr>rk_N = 257, rk_E = 65537\<rparr>"
  using jwk_round_trip [of "[CHR 0x01, CHR 0x01]" "[CHR 0x01, CHR 0x00, CHR 0x01]"] by (simp add: bigEndian_def)

subsection \<open>What the calls send and keep\<close>

lemma sendSSO_keeps:
  assumes "sendSSO N rq c = (r, c1)"
  shows "sc_sent c1 = sc_sent c @ [rq] \<and> sc_access c1 = sc_access c \<and> sc_keys c1 = sc_keys c \<and> sc_keysAt c1 = sc_keysAt c"
  using assms by (auto simp: sendSSO_def Let_def split: prod.splits)

lemma sendSSO_now:
  assumes "sendSSO N rq c = (r, c1)"
  shows "sc_now c \<le> sc_now c1"
  using assms by (auto simp: sendSSO_def Let_def split: prod.splits)

lemma tokenRequest_sends:
  assumes "tokenRequest N data secret c = (r, c1)"
  shows "sc_access c1 = sc_access c \<and> sc_keys c1 = sc_keys c \<and> sc_keysAt c1 = sc_keysAt c \<and>
    (let rq = formRequest N pathOAuthToken (if secret \<noteq> [] then dropKey ''client_id'' data else data)
                [(''Host'', ''login.eveonline.com'')] secret in
     if so_newRequest N rq = None then sc_sent c1 = sc_sent c @ [rq] else sc_sent c1 = sc_sent c \<and> (\<exists>e. r = Inl e))"
  using assms by (auto simp: tokenRequest_def Let_def dest: sendSSO_keeps split: option.splits prod.splits sum.splits)

definition keyFor :: "ssoClient \<Rightarrow> string \<Rightarrow> rsaKey option" where
  \<comment> \<open>the published key of that name, known and at most an hour old\<close>
  "keyFor c kid = (if sc_now c - sc_keysAt c \<le> 3600 * second
     then (case sc_keys c of None \<Rightarrow> None | Some ks \<Rightarrow> map_of ks kid) else None)"

lemma fetchJWKS_keeps:
  assumes "fetchJWKS N c = (r, c1)"
  shows "sc_access c1 = sc_access c \<and> sc_keys c1 = sc_keys c \<and> sc_keysAt c1 = sc_keysAt c
    \<and> (sc_sent c1 = sc_sent c @ [jwksRequest] \<or> sc_sent c1 = sc_sent c \<and> (\<exists>e. r = Inl e))"
  using assms by (auto simp: fetchJWKS_def dest: sendSSO_keeps split: option.splits prod.splits sum.splits)

lemma signingKey_is_keyFor:
  assumes "signingKey N access c = (r, c1)" "so_parseUnverified N access = Inr (header, u)"
  shows "(case r of Inr key \<Rightarrow> keyFor c1 (jStr (lookupAny header ''kid'')) = Some key
      | Inl _ \<Rightarrow> keyFor c1 (jStr (lookupAny header ''kid'')) = None)
    \<and> sc_access c1 = sc_access c \<and> (\<exists>new. sc_sent c1 = sc_sent c @ new \<and> (new = [] \<or> new = [jwksRequest]))"
proof (cases "sc_keys c = None \<or> sc_now c - sc_keysAt c > 3600 * second")
  case False
  then show ?thesis using assms(1,2) by (auto simp: signingKey_def keyNamed_def keyFor_def Let_def split: option.splits sum.splits)
next
  case True
  obtain x c2 where f: "fetchJWKS N c = (x, c2)" by fastforce
  have now: "sc_now c \<le> sc_now c2"
    using f by (auto simp: fetchJWKS_def dest: sendSSO_now split: option.splits prod.splits sum.splits)
  note k = fetchJWKS_keeps [OF f]
  show ?thesis
  proof (cases x)
    case (Inl e)
    then have "r = Inl e" "c1 = c2" using assms(1,2) True f by (auto simp: signingKey_def Let_def)
    then show ?thesis using True now k by (auto simp: keyFor_def)
  next
    case (Inr ks)
    then have "r = keyNamed (jStr (lookupAny header ''kid'')) c1" "c1 = c2\<lparr>sc_keys := Some ks, sc_keysAt := sc_now c2\<rparr>"
      using assms(1,2) True f by (auto simp: signingKey_def Let_def)
    then show ?thesis using k Inr by (auto simp: keyFor_def keyNamed_def split: option.splits)
  qed
qed

subsection \<open>Where an identity comes from\<close>

definition vouched :: "ssonet \<Rightarrow> ssoClient \<Rightarrow> CharacterToken \<Rightarrow> bool" where
  \<comment> \<open>what the client, in its state \<open>c\<close> after the call, can say about a fresh token\<close>
  "vouched N c tok \<longleftrightarrow> (\<exists>header u claims.
     so_parseUnverified N (tk_AccessToken tok) = Inr (header, u)
     \<and> (case keyFor c (jStr (lookupAny header ''kid'')) of
          Some key \<Rightarrow> so_parse N key (tk_AccessToken tok) (sc_now c) = Inr claims
        | None \<Rightarrow> claims = u)
     \<and> knownIssuer (jStr (lookupAny claims ''iss''))
     \<and> characterIDFromClaims N claims = Inr (tk_CharacterID tok) \<and> tk_CharacterID tok \<noteq> 0
     \<and> tk_Scopes tok = scopesFromClaims claims \<and> tk_OwnerHash tok = jStr (lookupAny claims ''owner'')
     \<and> tk_CharacterName tok = jStr (lookupAny claims ''name''))"

lemma vouched_access [simp]: "vouched N (c\<lparr>sc_access := a\<rparr>) tok = vouched N c tok"
  by (simp add: vouched_def keyFor_def cong: option.case_cong)

lemma decodeToken_ok:
  assumes "decodeToken N access c = (Inr claims, c1)"
  shows "\<exists>header u. so_parseUnverified N access = Inr (header, u)
     \<and> (case keyFor c1 (jStr (lookupAny header ''kid'')) of
          Some key \<Rightarrow> so_parse N key access (sc_now c1) = Inr claims | None \<Rightarrow> claims = u)
     \<and> knownIssuer (jStr (lookupAny claims ''iss'')) \<and> sc_access c1 = sc_access c
     \<and> (\<exists>new. sc_sent c1 = sc_sent c @ new \<and> (new = [] \<or> new = [jwksRequest]))"
proof -
  obtain k c2 where k: "signingKey N access c = (k, c2)" by fastforce
  have c1: "c1 = c2" using assms(1) k by (auto simp: decodeToken_def split: sum.splits)
  obtain header u where p: "so_parseUnverified N access = Inr (header, u)"
  proof (cases "so_parseUnverified N access")
    case (Inl e)
    then have False using assms(1) by (simp add: decodeToken_def signingKey_def)
    then show ?thesis ..
  next
    case (Inr x) then show ?thesis using that by (cases x) auto
  qed
  have i: "checkIssuer N x = Inr claims \<Longrightarrow> x = claims \<and> knownIssuer (jStr (lookupAny claims ''iss''))" for x
    by (auto simp: checkIssuer_def Let_def split: if_splits)
  note s = signingKey_is_keyFor [OF k p]
  show ?thesis
  proof (cases k)
    case (Inl e)
    then have "checkIssuer N u = Inr claims" using assms(1) k p by (simp add: decodeToken_def)
    then show ?thesis using s i p Inl c1 by auto
  next
    case (Inr key)
    then obtain x where "so_parse N key access (sc_now c2) = Inr x" "checkIssuer N x = Inr claims"
      using assms(1) k by (auto simp: decodeToken_def split: sum.splits)
    then show ?thesis using s i p Inr c1 by auto
  qed
qed

lemma decodeToken_keeps:
  assumes "decodeToken N access c = (r, c1)"
  shows "sc_access c1 = sc_access c \<and> (\<exists>new. sc_sent c1 = sc_sent c @ new \<and> (new = [] \<or> new = [jwksRequest]))"
proof -
  obtain k c2 where k: "signingKey N access c = (k, c2)" by fastforce
  have "c1 = c2" using assms k by (auto simp: decodeToken_def split: sum.splits)
  moreover have "sc_access c2 = sc_access c \<and> (\<exists>new. sc_sent c2 = sc_sent c @ new \<and> (new = [] \<or> new = [jwksRequest]))"
    using k by (auto simp: signingKey_def Let_def dest: fetchJWKS_keeps split: sum.splits prod.splits if_splits)
  ultimately show ?thesis by simp
qed

lemma claimOr_None [simp]: "claimOr k claims None = jStr (lookupAny claims k)"
  by (simp add: claimOr_def Let_def)

lemma tokenFromPayload_ok:
  assumes "tokenFromPayload N payload None c = (Inr tok, c1)"
  shows "vouched N c1 tok \<and> tk_AccessToken tok \<noteq> [] \<and> tk_RefreshToken tok \<noteq> []"
proof -
  obtain access rt where a: "tokenPair payload None = Inr (access, rt)"
    using assms(1) by (auto simp: tokenFromPayload_def split: sum.splits)
  then obtain claims where d: "decodeToken N access c = (Inr claims, c1)" and t: "tk_AccessToken tok = access"
    "tk_RefreshToken tok = rt" "characterIDFromClaims N claims = Inr (tk_CharacterID tok)"
    "tk_Scopes tok = scopesFromClaims claims" "tk_OwnerHash tok = tokenOwner claims None"
    "tk_CharacterName tok = tokenName claims None"
    using assms(1) by (auto simp: tokenFromPayload_def split: sum.splits prod.splits)
  have "tk_CharacterID tok \<noteq> 0"
    using t(3) by (auto simp: characterIDFromClaims_def Let_def split: if_splits option.splits)
  moreover have "access \<noteq> [] \<and> rt \<noteq> []" using a by (auto simp: tokenPair_def Let_def split: if_splits)
  ultimately show ?thesis using decodeToken_ok [OF d] t
    unfolding vouched_def by (simp add: tokenOwner_def tokenName_def) metis
qed

lemma tokenFromPayload_keeps:
  assumes "tokenFromPayload N payload fallback c = (r, c1)"
  shows "sc_access c1 = sc_access c \<and> (\<exists>new. sc_sent c1 = sc_sent c @ new \<and> (new = [] \<or> new = [jwksRequest]))"
  using assms by (auto simp: tokenFromPayload_def dest: decodeToken_keeps split: sum.splits prod.splits)

definition codeRequest :: "ssonet \<Rightarrow> string \<Rightarrow> string \<Rightarrow> ssoReq" where
  "codeRequest N code verifier =
    (let o' = so_opts N; secret = oo_ClientSecret o';
         client = (if secret = [] then [(''client_id'', oo_ClientID o')] else []) in
     formRequest N pathOAuthToken
       ([(''grant_type'', ''authorization_code''), (''code'', code)] @ client
        @ [(''code_verifier'', verifier), (''redirect_uri'', oo_CallbackURL o')])
       [(''Host'', ''login.eveonline.com'')] secret)"

definition refreshRequest :: "ssonet \<Rightarrow> string \<Rightarrow> ssoReq" where
  "refreshRequest N refreshToken =
    (let o' = so_opts N; secret = oo_ClientSecret o';
         client = (if secret = [] then [(''client_id'', oo_ClientID o')] else []) in
     formRequest N pathOAuthToken
       ([(''grant_type'', ''refresh_token''), (''refresh_token'', refreshToken)] @ client)
       [(''Host'', ''login.eveonline.com'')] secret)"

lemma exchanged:
  assumes "clientExchangeCode N code verifier c = (Inr tok, c1)"
  shows "vouched N c1 tok \<and> tk_AccessToken tok \<noteq> [] \<and> tk_RefreshToken tok \<noteq> []
    \<and> (\<exists>new. sc_sent c1 = sc_sent c @ [codeRequest N code verifier] @ new \<and> (new = [] \<or> new = [jwksRequest]))"
proof -
  let ?data = "[(''grant_type'', ''authorization_code''), (''code'', code), (''client_id'', oo_ClientID (so_opts N)),
       (''code_verifier'', verifier), (''redirect_uri'', oo_CallbackURL (so_opts N))]"
  obtain payload c2 where t: "tokenRequest N ?data (oo_ClientSecret (so_opts N)) c = (Inr payload, c2)"
    and p: "tokenFromPayload N payload None c2 = (Inr tok, c1)"
    using assms(1) by (auto simp: clientExchangeCode_def split: prod.splits sum.splits)
  have "sc_sent c2 = sc_sent c @ [codeRequest N code verifier]"
    using tokenRequest_sends [OF t] by (auto simp: codeRequest_def Let_def dropKey_def split: if_splits)
  then show ?thesis using tokenFromPayload_ok [OF p] tokenFromPayload_keeps [OF p] by auto
qed

text \<open>
  The identity a login or a refresh yields is what CCP's access token says. The code and the
  verifier of this login were sent to the token endpoint; if the key the token names is among the
  published ones, known and no older than an hour, its claims are those the JWT library verified
  with that key; the issuer is CCP, the character is the nonzero number of the subject, scopes
  and owner are the claims'. Only where no such key is known are the claims taken as they stand.
\<close>

theorem signed_in_identity_is_vouched:
  assumes "clientExchangeCode N code verifier c = (Inr tok, c1)"
  shows "vouched N c1 tok \<and> tk_AccessToken tok \<noteq> [] \<and> tk_RefreshToken tok \<noteq> []
    \<and> (\<exists>new. sc_sent c1 = sc_sent c @ [codeRequest N code verifier] @ new \<and> (new = [] \<or> new = [jwksRequest]))"
  using assms by (rule exchanged)

text \<open>
  C29. A call for an access token, on every branch. Without a refresh token it is refused; while the
  cached token has 60 seconds left it is returned and nothing is sent; otherwise the refresh
  token is exchanged, once, and the answer is cached under the refresh token it came with, the
  old one forgotten when it was rotated. An invalid grant forgets the cached token; any other
  failure keeps the cache.
\<close>

theorem access_token_call:
  assumes "clientAccessToken N r c = (res, c1)"
  shows "if r = [] then (\<exists>m. res = Inl (SsoError m)) \<and> c1 = c
    else case acLive r (60 * second) (sc_now c) (sc_access c) of
      Some mem \<Rightarrow> res = Inr (cachedToken r mem) \<and> c1 = c
    | None \<Rightarrow>
        (\<exists>new. sc_sent c1 = sc_sent c @ new
           \<and> (new = [] \<and> res \<in> range Inl \<or> new = [refreshRequest N r] \<or> new = [refreshRequest N r, jwksRequest])) \<and>
        (case res of
           Inr tok \<Rightarrow> vouched N c1 tok \<and>
             (\<forall>k. acGet k (sc_access c1) =
               (if k = tk_RefreshToken tok
                then Some \<lparr>am_AccessToken = tk_AccessToken tok, am_AccessExpiresAt = tk_AccessExpiresAt tok\<rparr>
                else if k = r then None else acGet k (sc_access c)))
         | Inl e \<Rightarrow> (\<forall>k. acGet k (sc_access c1) =
             (if errors_is e ErrInvalidGrant \<and> k = r then None else acGet k (sc_access c))))"
proof (cases "r = [] \<or> acLive r (60 * second) (sc_now c) (sc_access c) \<noteq> None")
  case True
  then show ?thesis using assms(1) by (auto simp: clientAccessToken_def ssoMargin_def ssoFail_def split: option.splits)
next
  case False
  obtain x c2 where x: "exchangeRefresh N r None c = (x, c2)" by fastforce
  have run: "clientRefresh N r c = (res, c1)" using assms(1) False by (simp add: clientAccessToken_def ssoMargin_def)
  let ?data = "[(''grant_type'', ''refresh_token''), (''refresh_token'', r), (''client_id'', oo_ClientID (so_opts N))]"
  obtain p c3 where p: "tokenRequest N ?data (oo_ClientSecret (so_opts N)) c = (p, c3)" by fastforce
  have t: "sc_access c3 = sc_access c" "sc_sent c3 = sc_sent c @ [refreshRequest N r] \<or> sc_sent c3 = sc_sent c \<and> p \<in> range Inl"
    using tokenRequest_sends [OF p] by (auto simp: refreshRequest_def Let_def dropKey_def split: if_splits)
  have x2: "(case p of Inl e \<Rightarrow> x = Inl e \<and> c2 = c3 | Inr payload \<Rightarrow> tokenFromPayload N payload None c3 = (x, c2))"
    using x p by (auto simp: exchangeRefresh_def split: sum.splits)
  have e: "sc_access c2 = sc_access c" "\<exists>new. sc_sent c2 = sc_sent c @ new
     \<and> (new = [] \<and> x \<in> range Inl \<or> new = [refreshRequest N r] \<or> new = [refreshRequest N r, jwksRequest])"
    using x2 t by (cases p; auto dest: tokenFromPayload_keeps)+
  show ?thesis
  proof (cases x)
    case (Inl er)
    then have "res = Inl er" "sc_sent c1 = sc_sent c2" "sc_access c1 = (if errors_is er ErrInvalidGrant then acDrop r (sc_access c) else sc_access c)"
      using run x e(1) by (auto simp: clientRefresh_def split: if_splits)
    then show ?thesis using False e(2) Inl by (auto simp: acGet_def acDrop_def map_of_dropKey)
  next
    case (Inr tok)
    then obtain payload where "tokenFromPayload N payload None c3 = (Inr tok, c2)" using x2 by (cases p) auto
    note v = tokenFromPayload_ok [OF this]
    have "res = Inr tok" "sc_sent c1 = sc_sent c2" "c1 = c2\<lparr>sc_access := sc_access c1\<rparr>"
      using run x Inr by (auto simp: clientRefresh_def Let_def)
    moreover have "acGet k (sc_access c1) = (if k = tk_RefreshToken tok
         then Some \<lparr>am_AccessToken = tk_AccessToken tok, am_AccessExpiresAt = tk_AccessExpiresAt tok\<rparr>
         else if k = r then None else acGet k (sc_access c))" for k
      using run x Inr v e(1) by (auto simp: clientRefresh_def acPut_def acDrop_def acGet_def map_of_dropKey Let_def)
    moreover have "vouched N c1 tok"
      using \<open>c1 = _\<close> v by (metis vouched_access)
    ultimately show ?thesis using False e(2) Inr by auto
  qed
qed

subsection \<open>Concrete instances\<close>

text \<open>
  A sign-in service whose token endpoint answers with tokens for pilot 7, whose key endpoint fails
  with status 500 and a body without keys, and a JWT library that verifies no signature at all:
  the access token is a forgery.
\<close>

definition forgedClaims :: object where
  "forgedClaims = [(''iss'', VStr ssoHost), (''sub'', VStr ''CHARACTER:EVE:7''), (''name'', VStr ''Pilot''),
     (''owner'', VStr ''h''), (''scp'', VStr ''esi''), (''exp'', VInt 0)]"

definition tokenBody :: object where
  "tokenBody = [(''access_token'', VStr ''forged''), (''refresh_token'', VStr ''r2'')]"

definition forgedNet :: ssonet where
  "forgedNet = \<lparr>so_opts = \<lparr>oo_ClientID = ''c'', oo_ClientSecret = [], oo_CallbackURL = ''u'', oo_UserAgent = ''a'', oo_Scopes = []\<rparr>,
     so_do = (\<lambda>sent. (second, Inr \<lparr>sr_status = (if rq_method (last sent) = ''GET'' then 500 else 200),
        sr_contentType = ''application/json'', sr_body = Inr ''x''\<rparr>)),
     so_newRequest = (\<lambda>_. None), so_unmarshal = (\<lambda>_. Some (VMap tokenBody)), so_decodeKeys = (\<lambda>_. Inr []),
     so_parseUnverified = (\<lambda>_. Inr ([(''kid'', VStr ''k'')], forgedClaims)),
     so_parse = (\<lambda>_ _ _. Inl (External ''signature'')), so_errText = (\<lambda>_. []), so_quote = (\<lambda>s. s)\<rparr>"

lemma char_7 [simp]: "char_of (55 :: nat) = CHR ''7''"
proof -
  have "of_char (CHR ''7'') = (55 :: nat)" by simp
  then show ?thesis by (metis char_of_char)
qed

lemmas exchange_defs = clientExchangeCode_def tokenRequest_def sendSSO_def NewClient_def formRequest_def
  tokenAnswer_def unmarshalMap_def tokenBody_def tokenFromPayload_def tokenPair_def jStr_def decodeToken_def
  signingKey_def fetchJWKS_def jwksRequest_def keyNamed_def checkIssuer_def knownIssuer_def forgedClaims_def
  characterIDFromClaims_def hasPrefix_def eveCharacterSubject_def scanInt_def decodeRune_def fmtSpace_def
  isDigitChar_def parseInt64_def digitsVal_def maxTokenBody_def

lemma forged_exchange:
  "\<exists>tok c1. clientExchangeCode forgedNet ''x'' ''v'' (NewClient t []) = (Inr tok, c1) \<and> tk_CharacterID tok = 7
     \<and> sc_keys c1 = Some [] \<and> sc_keysAt c1 = t + 2 * second \<and> sc_now c1 = t + 2 * second"
  by (simp add: exchange_defs forgedNet_def Let_def)

text \<open>
  C30. A key endpoint that answers with an error and a body without keys turns the verification of
  signatures off: the empty set of keys is kept for an hour, and every token is taken as it
  stands, here one whose signature no key verifies and whose claims have expired.
\<close>

theorem failed_key_fetch_turns_the_check_off:
  "\<exists>tok c1 c2. clientExchangeCode forgedNet ''x'' ''v'' (NewClient t []) = (Inr tok, c1) \<and> tk_CharacterID tok = 7
     \<and> decodeToken forgedNet ''another'' (c1\<lparr>sc_now := sc_now c1 + 3600 * second\<rparr>) = (Inr forgedClaims, c2)
     \<and> sc_sent c2 = sc_sent c1"
proof -
  obtain tok c1 where c: "clientExchangeCode forgedNet ''x'' ''v'' (NewClient t []) = (Inr tok, c1)" "tk_CharacterID tok = 7"
    "sc_keys c1 = Some []" "sc_keysAt c1 = t + 2 * second" "sc_now c1 = t + 2 * second"
    using forged_exchange by blast
  have "decodeToken forgedNet ''another'' (c1\<lparr>sc_now := sc_now c1 + 3600 * second\<rparr>)
      = (Inr forgedClaims, c1\<lparr>sc_now := sc_now c1 + 3600 * second\<rparr>)"
    using c by (simp add: decodeToken_def signingKey_def keyNamed_def forgedNet_def checkIssuer_def knownIssuer_def
        forgedClaims_def jStr_def)
  then show ?thesis using c by (intro exI conjI) (assumption | simp)+
qed

definition goodJwk :: object where
  "goodJwk = [(''kid'', VStr ''k''), (''n'', VStr (rawURLEncode ''nn'')), (''e'', VStr (rawURLEncode ''e''))]"

definition goodNet :: ssonet where
  "goodNet = forgedNet\<lparr>so_decodeKeys := (\<lambda>_. Inr [goodJwk]), so_parse := (\<lambda>_ _ _. Inr forgedClaims)\<rparr>"

lemma good_keys: "\<exists>key. jwksKeys [goodJwk] [] = [(''k'', key)]"
proof -
  have "rsaFromJWK goodJwk = Inr \<lparr>rk_N = bigEndian ''nn'', rk_E = word_of_nat (bigEndian ''e'')\<rparr>"
    by (rule jwk_read) (simp_all add: goodJwk_def jStr_def)
  moreover have "jStr (lookupAny goodJwk ''kid'') = ''k''" by (simp add: goodJwk_def jStr_def)
  ultimately show ?thesis by (simp add: mapPut_def dropKey_def)
qed

lemma good_exchange:
  "\<exists>tok c1. clientExchangeCode goodNet ''x'' ''v'' (NewClient t []) = (Inr tok, c1) \<and> keyFor c1 ''k'' \<noteq> None"
proof -
  obtain key where k: "jwksKeys [goodJwk] [] = [(''k'', key)]" using good_keys by blast
  show ?thesis
    by (simp add: exchange_defs goodNet_def forgedNet_def k keyFor_def Let_def del: jwksKeys.simps)
qed

theorem signed_in_identity_is_vouched_witness:
  "\<exists>tok c1. clientExchangeCode goodNet ''x'' ''v'' (NewClient 5 []) = (Inr tok, c1) \<and> keyFor c1 ''k'' \<noteq> None
     \<and> vouched goodNet c1 tok"
proof -
  obtain tok c1 where c: "clientExchangeCode goodNet ''x'' ''v'' (NewClient 5 []) = (Inr tok, c1)" "keyFor c1 ''k'' \<noteq> None"
    using good_exchange by blast
  then show ?thesis using signed_in_identity_is_vouched [OF c(1)] by blast
qed

lemma good_refresh: "\<exists>tok c1. clientAccessToken goodNet ''r1'' (NewClient 5 []) = (Inr tok, c1)
    \<and> tk_RefreshToken tok = ''r2''"
proof -
  obtain key where k: "jwksKeys [goodJwk] [] = [(''k'', key)]" using good_keys by blast
  show ?thesis
    by (simp add: clientAccessToken_def clientRefresh_def exchangeRefresh_def acLive_def acGet_def exchange_defs
        goodNet_def forgedNet_def k Let_def del: jwksKeys.simps)
qed

theorem access_token_call_witness:
  "\<exists>tok c1. clientAccessToken goodNet ''r1'' (NewClient 5 []) = (Inr tok, c1) \<and> vouched goodNet c1 tok
     \<and> acGet ''r2'' (sc_access c1) \<noteq> None \<and> acGet ''r1'' (sc_access c1) = None"
proof -
  obtain tok c1 where c: "clientAccessToken goodNet ''r1'' (NewClient 5 []) = (Inr tok, c1)" "tk_RefreshToken tok = ''r2''"
    using good_refresh by blast
  have l: "acLive ''r1'' (60 * second) 5 [] = None" by (simp add: acLive_def acGet_def)
  show ?thesis using access_token_call [OF c(1)] c l by (auto simp: NewClient_def)
qed

end
