(* ===== verification/SignIn.thy ===== *)
theory SignIn
  imports LoginProps SsoProps
begin

text \<open>
  The authorization server on the client of CCP's sign-in service. The locale says what a login
  relies on in the service, that every token it hands out for a code is one it can vouch for; it is
  interpreted on the client of adapter/sso/http. So the character a login parks is the one CCP's
  access token names.
\<close>

definition ssoOf :: "ssonet \<Rightarrow> ssoClient \<Rightarrow> SSO" where
  \<comment> \<open>the client, in the state it has when it is called; a nil list of scopes is empty\<close>
  "ssoOf N c = \<lparr>
     PrepareLogin = (\<lambda>scopes now. Inr (fst (clientPrepareLogin N (if scopes = [] then None else Some scopes) (c\<lparr>sc_now := now\<rparr>)))),
     ExchangeCode = (\<lambda>code verifier now. fst (clientExchangeCode N code verifier (c\<lparr>sc_now := now\<rparr>))),
     AccessToken = (\<lambda>refreshToken now. fst (clientAccessToken N refreshToken (c\<lparr>sc_now := now\<rparr>)))\<rparr>"

definition vouchedNow :: "ssonet \<Rightarrow> ssoClient \<Rightarrow> string \<Rightarrow> string \<Rightarrow> time \<Rightarrow> CharacterToken \<Rightarrow> bool" where
  "vouchedNow N c code verifier now tok \<longleftrightarrow>
     vouched N (snd (clientExchangeCode N code verifier (c\<lparr>sc_now := now\<rparr>))) tok"

locale sign_in_service =
  fixes sso :: SSO and vouches :: "string \<Rightarrow> string \<Rightarrow> time \<Rightarrow> CharacterToken \<Rightarrow> bool"
  assumes exchange_vouched: "ExchangeCode sso code verifier now = Inr tok \<Longrightarrow> vouches code verifier now tok"
begin

lemma parked_identity:
  assumes "CompleteCallback L sso code st w = ((cb, None), w')"
  shows "\<exists>l tok p. loginRow (w_db w) st = Some l \<and> vouches code (ls_pkce_verifier l) (w_now w) tok
     \<and> t_codes (w_db w') = t_codes (w_db w) @ [p] \<and> ac_character_id p = tk_CharacterID tok
     \<and> ac_scopes p = tk_Scopes tok \<and> set RequestedScopes \<subseteq> set (ac_scopes p)
     \<and> (\<exists>r. characterRow (w_db w') (tk_CharacterID tok) = Some r \<and> ch_owner_hash r = tk_OwnerHash tok)"
proof -
  note p = callback_parked [OF assms]
  then obtain l tok c where "loginRow (w_db w) st = Some l" "ExchangeCode sso code (ls_pkce_verifier l) (w_now w) = Inr tok"
    "MissingScopes (tk_Scopes tok) = []" "t_codes (w_db w') = t_codes (w_db w) @ [c]"
    "ac_character_id c = tk_CharacterID tok" "ac_scopes c = tk_Scopes tok"
    "\<exists>r. characterRow (w_db w') (tk_CharacterID tok) = Some r \<and> ch_deleted_at r = None \<and> ch_owner_hash r = tk_OwnerHash tok"
    by blast
  then show ?thesis
    using exchange_vouched by (intro exI [of _ l] exI [of _ tok] exI [of _ c]) (auto simp: MissingScopes_Nil_iff)
qed

end

lemma client_vouches:
  "ExchangeCode (ssoOf N c) code verifier now = Inr tok \<Longrightarrow> vouchedNow N c code verifier now tok"
  using exchanged [of N code verifier "c\<lparr>sc_now := now\<rparr>"]
  by (cases "clientExchangeCode N code verifier (c\<lparr>sc_now := now\<rparr>)") (auto simp: ssoOf_def vouchedNow_def)

interpretation ccp: sign_in_service "ssoOf N c" "vouchedNow N c" for N c
  by unfold_locales (rule client_vouches)


subsection \<open>A concrete login\<close>

definition fullClaims :: object where
  "fullClaims = (''scp'', VSlice (map VStr RequestedScopes)) # forgedClaims"

definition fullNet :: ssonet where
  "fullNet = goodNet\<lparr>so_parse := (\<lambda>_ _ _. Inr fullClaims)\<rparr>"

lemma jStrings_map [simp]: "jStrings (map VStr xs) = xs"
  by (induction xs) auto

lemma full_exchange:
  "\<exists>tok. ExchangeCode (ssoOf fullNet (NewClient 5 [])) ''x'' v t = Inr tok \<and> tk_CharacterID tok = 7
     \<and> tk_Scopes tok = RequestedScopes \<and> tk_OwnerHash tok = ''h''"
proof -
  obtain key where k: "jwksKeys [goodJwk] [] = [(''k'', key)]" using good_keys by blast
  show ?thesis
    by (simp add: ssoOf_def exchange_defs fullNet_def fullClaims_def goodNet_def forgedNet_def k scopesFromClaims_def
        tokenOwner_def Let_def del: jwksKeys.simps)
qed

lemma full_callback:
  assumes "ExchangeCode sso ''x'' ''p'' 9 = Inr tok" "tk_CharacterID tok = 7" "tk_Scopes tok = RequestedScopes"
    "tk_OwnerHash tok = ''h''"
  shows "\<exists>cb w'. CompleteCallback sampleNet sso ''x'' ''s'' loginW = ((cb, None), w')"
  using assms
  by (simp add: CompleteCallback_def finishMCP_def revokeOnOwnerHashChange_def Logins_Take_def loginW_def sampleW_def
      world0_def runStmt_ok takeStmt_def sampleLogin_def loginstate_TTL_def Missing_all
      Characters_Get_def characterRow_def sampleDb_def empty_db_def
      Characters_Upsert_def wrapA_def wrapR_def upsertCharacterStmt_def revokeAtCCP_def randomID_def randRead_def
      Codes_Put_def putCodeStmt_def sampleNet_def)


end
