(* ===== verification/Limiter.thy ===== *)
theory Limiter
  imports OAuth Resolver
begin

text \<open>
  The limit on public requests (service/http/limit.go): sixty per address and minute. The limiter
  keeps, per address, the times of the requests it let through in the last minute. \<open>allow\<close> is
  one step under its lock; \<open>allowAll\<close> is a history of requests in the order of the lock.
\<close>

subsection \<open>The limiter\<close>

definition publicRateLimit :: nat where "publicRateLimit = 60"
definition publicRateWindow :: duration where "publicRateWindow = minute"

type_synonym limiter = "(string \<times> time list) list"

definition newLimiter :: limiter where "newLimiter = []"

definition hitsOf :: "limiter \<Rightarrow> string \<Rightarrow> time list" where
  "hitsOf l ip = (case map_of l ip of None \<Rightarrow> [] | Some ts \<Rightarrow> ts)"

definition allow :: "string \<Rightarrow> time \<Rightarrow> limiter \<Rightarrow> (duration \<times> bool) \<times> limiter" where
  "allow ip now l =
    (let kept = filter (\<lambda>h. now - publicRateWindow < h) (hitsOf l ip) in
     if length kept \<ge> publicRateLimit
     then ((max (publicRateWindow - (now - kept ! 0)) second, False), mapPut ip kept l)
     else ((0, True), mapPut ip (kept @ [now]) l))"

definition limitWrap :: "netlib \<Rightarrow> bool \<Rightarrow> (limiter \<Rightarrow> reply \<times> limiter) \<Rightarrow> string \<Rightarrow> string \<Rightarrow> time \<Rightarrow> limiter
    \<Rightarrow> (reply \<times> string option) \<times> limiter" where
  \<comment> \<open>the answer and, on a refusal, the \<open>Retry-After\<close> header\<close>
  "limitWrap N trustConnectingIP serve connecting remote now l =
    (case allow (ClientIP N trustConnectingIP connecting remote) now l of ((retry, ok), l1) \<Rightarrow>
       if ok then (case serve l1 of (r, l2) \<Rightarrow> ((r, None), l2))
       else ((HttpError ''rate limited'' 429, Some (itoa (retry div second))), l1))"

fun allowAll :: "(string \<times> time) list \<Rightarrow> limiter \<Rightarrow> (string \<times> time) list \<times> limiter" where
  "allowAll [] l = ([], l)"
| "allowAll ((ip, now) # rs) l =
    (case allow ip now l of ((_, ok), l1) \<Rightarrow>
      (case allowAll rs l1 of (through, l2) \<Rightarrow> (if ok then (ip, now) # through else through, l2)))"

subsection \<open>What it lets through\<close>

lemma hitsOf_mapPut [simp]: "hitsOf (mapPut ip ts l) i = (if i = ip then ts else hitsOf l i)"
  by (simp add: hitsOf_def)

definition countIn :: "string \<Rightarrow> time \<Rightarrow> (string \<times> time) list \<Rightarrow> nat" where
  \<comment> \<open>the requests of an address in the minute that ends at \<open>t\<close>\<close>
  "countIn ip t rs = length (filter (\<lambda>(i, h). i = ip \<and> t - minute < h \<and> h \<le> t) rs)"

definition tracked :: "limiter \<Rightarrow> (string \<times> time) list \<Rightarrow> time \<Rightarrow> bool" where
  \<comment> \<open>after letting \<open>past\<close> through, all up to \<open>now\<close>, the limiter knows the last minute's times\<close>
  "tracked l past now \<longleftrightarrow> (\<forall>(i, h) \<in> set past. h \<le> now) \<and>
     (\<forall>ip. filter (\<lambda>h. now - minute < h) (hitsOf l ip)
        = map snd (filter (\<lambda>(i, h). i = ip \<and> now - minute < h) past))"

lemma filter_later: "now \<le> n \<Longrightarrow> filter (\<lambda>h. n - minute < h) ts = filter (\<lambda>h. n - minute < h) (filter (\<lambda>h. now - minute < h) ts)"
  by (simp add: filter_filter) (rule filter_cong, auto)

lemma kept_is_past:
  assumes "tracked l past now" "now \<le> n"
  shows "filter (\<lambda>h. n - minute < h) (hitsOf l ip) = map snd (filter (\<lambda>(i, h). i = ip \<and> n - minute < h) past)"
proof -
  have "filter (\<lambda>h. n - minute < h) (map snd (filter (\<lambda>(i, h). i = ip \<and> now - minute < h) past))
     = map snd (filter (\<lambda>(i, h). i = ip \<and> n - minute < h) past)"
    using assms(2) by (induction past) auto
  then show ?thesis using assms filter_later [OF assms(2), of "hitsOf l ip"] by (simp add: tracked_def)
qed

lemma allow_step:
  assumes t: "tracked l past now" "now \<le> n" and a: "allow ip n l = ((retry, ok), l1)"
  shows "tracked l1 (if ok then past @ [(ip, n)] else past) n \<and>
    (ok \<longleftrightarrow> countIn ip n past < 60) \<and> (ok \<or> second \<le> retry \<and> retry \<le> minute)"
proof -
  let ?kept = "filter (\<lambda>h. n - minute < h) (hitsOf l ip)"
  have k: "length ?kept = countIn ip n past"
    unfolding kept_is_past [OF t] countIn_def length_map
    using t by (intro arg_cong [of _ _ length] filter_cong) (auto simp: tracked_def)
  have ok: "ok \<longleftrightarrow> length ?kept < 60"
    using a by (auto simp: allow_def publicRateLimit_def publicRateWindow_def Let_def split: if_splits)
  have l1: "l1 = mapPut ip (if ok then ?kept @ [n] else ?kept) l"
    using a by (auto simp: allow_def publicRateLimit_def publicRateWindow_def Let_def split: if_splits)
  have "tracked l1 (if ok then past @ [(ip, n)] else past) n"
    using t kept_is_past [OF t] unfolding tracked_def l1
    by (auto simp: filter_filter [symmetric] split: if_splits)
  moreover have "second \<le> retry \<and> retry \<le> minute" if "\<not> ok"
  proof -
    have ne: "?kept \<noteq> []" using that ok by (cases ?kept) auto
    then have "?kept ! 0 \<in> set ?kept" by (intro nth_mem) simp
    moreover have "\<forall>h \<in> set ?kept. h \<le> n" unfolding kept_is_past [OF t] using t by (auto simp: tracked_def)
    moreover have "retry = max (minute - (n - ?kept ! 0)) second"
      using a that ok by (auto simp: allow_def publicRateLimit_def publicRateWindow_def Let_def split: if_splits)
    ultimately show ?thesis by auto
  qed
  ultimately show ?thesis using ok k by auto
qed

definition window_ok :: "(string \<times> time) list \<Rightarrow> bool" where
  "window_ok rs \<longleftrightarrow> (\<forall>ip t. countIn ip t rs \<le> 60)"

lemma window_ok_snoc:
  assumes "window_ok past" "countIn ip n past < 60" "\<forall>(i, h) \<in> set past. h \<le> n"
  shows "window_ok (past @ [(ip, n)])"
  unfolding window_ok_def
proof (intro allI)
  fix i t
  show "countIn i t (past @ [(ip, n)]) \<le> 60"
  proof (cases "i = ip \<and> t - minute < n \<and> n \<le> t")
    case False
    then show ?thesis using assms(1) by (auto simp: window_ok_def countIn_def)
  next
    case True
    have "countIn ip t past \<le> countIn ip n past"
      unfolding countIn_def using True assms(3)
      by (induction past) (auto split: if_splits)
    then show ?thesis using True assms(2) by (simp add: countIn_def)
  qed
qed

lemma allowAll_window:
  assumes "allowAll rs l = (through, l1)" "sorted (now # map snd rs)" "tracked l past now" "window_ok past"
  shows "window_ok (past @ through) \<and> tracked l1 (past @ through) (last (now # map snd rs))"
  using assms
proof (induction rs arbitrary: l past now through)
  case (Cons r rs)
  obtain ip n where r: "r = (ip, n)" by (cases r)
  obtain retry ok l2 where a: "allow ip n l = ((retry, ok), l2)" by (cases "allow ip n l") auto
  obtain th2 where rest: "allowAll rs l2 = (th2, l1)" and th: "through = (if ok then (ip, n) # th2 else th2)"
    using Cons.prems(1) a by (auto simp: r split: prod.splits if_splits)
  have n: "now \<le> n" "sorted (n # map snd rs)" using Cons.prems(2) r by auto
  note s = allow_step [OF Cons.prems(3) n(1) a]
  have "window_ok (if ok then past @ [(ip, n)] else past)"
    using s Cons.prems(3,4) n(1) by (auto simp: tracked_def intro!: window_ok_snoc)
  from Cons.IH [OF rest n(2) _ this] s show ?case by (simp add: th r split: if_splits)
qed simp

lemma waited_is_let_through:
  assumes t: "tracked l past now" "now \<le> n" "window_ok past" and a: "allow ip n l = ((retry, False), l1)"
    and w: "n + retry \<le> n'"
  shows "\<exists>r l2. allow ip n' l1 = ((r, True), l2)"
proof -
  define K where "K = filter (\<lambda>h. n - minute < h) (hitsOf l ip)"
  have l1: "hitsOf l1 ip = K" and ge: "60 \<le> length K" and r: "minute - (n - K ! 0) \<le> retry"
    using a by (auto simp: K_def allow_def publicRateLimit_def publicRateWindow_def Let_def split: if_splits)
  have "length K = countIn ip n past"
    unfolding K_def kept_is_past [OF t(1,2)] countIn_def length_map
    using t by (intro arg_cong [of _ _ length] filter_cong) (auto simp: tracked_def)
  then have le: "length K \<le> 60" using t(3) by (simp add: window_ok_def)
  obtain h ks where k: "K = h # ks" using ge by (cases K) auto
  have "filter (\<lambda>h. n' - minute < h) K = filter (\<lambda>h. n' - minute < h) ks" using k w r by simp
  then have "length (filter (\<lambda>h. n' - minute < h) K) \<le> length ks" by (simp only: length_filter_le)
  moreover have "length K = Suc (length ks)" using k by simp
  ultimately have "\<not> 60 \<le> length (filter (\<lambda>h. n' - minute < h) K)" using le by linarith
  then show ?thesis unfolding allow_def l1 publicRateLimit_def publicRateWindow_def Let_def by simp
qed


lemma sample_burst:
  "hitsOf l ''a'' = replicate m 100 \<Longrightarrow> m + k \<le> 60 \<Longrightarrow>
     hitsOf (snd (allowAll (replicate k (''a'', 100)) l)) ''a'' = replicate (m + k) 100"
proof (induction k arbitrary: l m)
  case (Suc k)
  have "allow ''a'' 100 l = ((0, True), mapPut ''a'' (replicate (Suc m) 100) l)"
    using Suc.prems by (simp add: allow_def publicRateLimit_def publicRateWindow_def replicate_append_same)
  moreover obtain th l2 where "allowAll (replicate k (''a'', 100)) (mapPut ''a'' (replicate (Suc m) 100) l) = (th, l2)"
    by fastforce
  ultimately show ?case using Suc.IH [of "mapPut ''a'' (replicate (Suc m) 100) l" "Suc m"] Suc.prems by simp
qed simp

lemma sample_sixty: "\<exists>l1. allow ''a'' 100 (snd (allowAll (replicate 60 (''a'', 100)) newLimiter)) = ((minute, False), l1)"
  using sample_burst [of newLimiter 0 60]
  by (simp add: allow_def publicRateLimit_def publicRateWindow_def newLimiter_def hitsOf_def)


end
