(* ===== verification/Corp.thy ===== *)
theory Corp
  imports EveWrites SsoClient
begin

text \<open>
  The corporation of a session and the gate in front of the corporation tools
  (usecase/session/session.go, domain/character/character.go, usecase/eve/corp.go), and four of
  the tools: the overview, the roster (corp_members.go), the structures (corp_market.go) and the
  mining ledger (corp_industry.go). A set of role names is a list without repetitions, ranged over
  in its order; every list made from one is sorted or only counted. \<open>datelib\<close> is \<open>time.Parse\<close>
  with the two layouts the tools use.
\<close>

subsection \<open>What the read tools share\<close>

record datelib =
  dl_RFC3339 :: "string \<Rightarrow> time option"
  dl_bare :: "string \<Rightarrow> time option"

definition parseTime :: "datelib \<Rightarrow> string \<Rightarrow> time option" where
  "parseTime D s =
    (if s = [] then None
     else case dl_RFC3339 D (concat (map (\<lambda>c. if c = CHR ''Z'' then ''+00:00'' else [c]) s)) of
       Some t \<Rightarrow> Some t | None \<Rightarrow> dl_bare D s)"

definition getAllT :: "toolEnv \<Rightarrow> Route \<Rightarrow> int option \<Rightarrow> int \<Rightarrow> esiResult tool" where
  "getAllT E route cid maxPages = onRdr (askAll (te_net E) (te_lib E) route cid [] maxPages)"

definition namesT :: "toolEnv \<Rightarrow> int list \<Rightarrow> int option \<Rightarrow> (int \<times> string) list tool" where
  "namesT E ids cid = onRdr (Names (te_net E) (te_lib E) ids cid)"

definition pricesT :: "toolEnv \<Rightarrow> (int \<times> (rat \<times> rat)) list tool" where
  "pricesT E = onRdr (ReferencePrices (te_net E))"

definition failT :: "goerr \<Rightarrow> 'a tool" where "failT e t = (Inl e, t)"
definition doneT :: "'a \<Rightarrow> 'a tool" where "doneT x t = (Inr x, t)"

definition nameIn :: "(int \<times> string) list \<Rightarrow> int \<Rightarrow> string" where
  "nameIn names i = (case map_of names i of Some n \<Rightarrow> n | None \<Rightarrow> [])"

definition nameOr :: "(int \<times> string) list \<Rightarrow> int \<Rightarrow> string" where
  "nameOr names i = (if nameIn names i \<noteq> [] then nameIn names i else unknownName i)"

abbreviation intOf :: "toolEnv \<Rightarrow> object \<Rightarrow> string \<Rightarrow> int" where
  "intOf E m k \<equiv> jInt (nt_parseFloat (te_net E)) (lookupAny m k)"

abbreviation floatOf :: "toolEnv \<Rightarrow> object \<Rightarrow> string \<Rightarrow> rat" where
  "floatOf E m k \<equiv> jFloat (nt_parseFloat (te_net E)) (lookupAny m k)"

definition setToList :: "toolEnv \<Rightarrow> int list \<Rightarrow> int list" where
  \<comment> \<open>the elements of the set, in the order Go ranges over it\<close>
  "setToList E xs = gl_ids (te_lib E) (remdups xs)"

definition walletLabel :: "int \<Rightarrow> (int \<times> string) list \<Rightarrow> string" where
  "walletLabel division names =
    (if division = 0 then ''unknown''
     else if nameIn names division \<noteq> [] then nameIn names division
     else ''Division '' @ itoa division)"

definition keepEmpty :: "object \<Rightarrow> string list \<Rightarrow> object" where
  "keepEmpty m keep = filter (\<lambda>(k, v). emptyVal v \<longrightarrow> List.member keep k) m"

definition noteSectionFailed :: string where
  "noteSectionFailed = ''This section could not be loaded. The rest of the result is still valid.''"

definition rejectUnknownFormat :: "toolEnv \<Rightarrow> string \<Rightarrow> goerr option" where
  "rejectUnknownFormat E raw = (case pickEnum (te_net E) (te_lib E) ''response_format'' raw ''concise'' [''concise'', ''detailed''] of
     Inl e \<Rightarrow> Some e | Inr _ \<Rightarrow> None)"

subsection \<open>The corporation\<close>

record DomainToken =
  dt_CharacterID :: int
  dt_CharacterName :: string
  dt_Scopes :: "string list"
  dt_OwnerHash :: string

record Corporation =
  co_Token :: DomainToken
  co_CorporationID :: int
  co_CorporationName :: string
  co_Ticker :: string
  co_Public :: object
  co_Roles :: "string list"
  co_RolesAtHQ :: "string list"
  co_RolesAtBase :: "string list"
  co_RolesAtOther :: "string list"

definition domainToken :: "CharacterToken \<Rightarrow> DomainToken" where
  "domainToken tok = \<lparr>dt_CharacterID = tk_CharacterID tok, dt_CharacterName = tk_CharacterName tok,
     dt_Scopes = tk_Scopes tok, dt_OwnerHash = tk_OwnerHash tok\<rparr>"

abbreviation corpCharacter :: "Corporation \<Rightarrow> int" where "corpCharacter corp \<equiv> dt_CharacterID (co_Token corp)"
abbreviation corpCharacterName :: "Corporation \<Rightarrow> string" where "corpCharacterName corp \<equiv> dt_CharacterName (co_Token corp)"
abbreviation corpScopes :: "Corporation \<Rightarrow> string list" where "corpScopes corp \<equiv> dt_Scopes (co_Token corp)"

definition IsNPC :: "Corporation \<Rightarrow> bool" where
  "IsNPC corp \<longleftrightarrow> co_CorporationID corp < PlayerCorpIDFloor"

definition HasRole :: "Corporation \<Rightarrow> string list \<Rightarrow> bool" where
  "HasRole corp needed \<longleftrightarrow> List.member (co_Roles corp) ''Director'' \<or> list_ex (List.member (co_Roles corp)) needed"

definition stringSet :: "any \<Rightarrow> string list" where
  "stringSet v = remdups (jStrings (rowsOf v))"

definition corpRoute :: "int \<Rightarrow> pathElem list \<Rightarrow> Route" where
  "corpRoute corpID rest = Path ([Seg ''corporations'', ID corpID] @ rest)"

definition rolesPayload :: "toolEnv \<Rightarrow> CharacterToken \<Rightarrow> toolState \<Rightarrow> object \<times> toolState" where
  \<comment> \<open>the answer of the roles endpoint; empty without the scope or when it fails\<close>
  "rolesPayload E token t =
    (if HasGranted (tk_Scopes token) ''esi-characters.read_corporation_roles.v1''
     then (case getT E (charRoute (tk_CharacterID token) [Seg ''roles'']) (Some (tk_CharacterID token)) [] t of
         (Inl _, t1) \<Rightarrow> ([], t1)
       | (Inr res, t1) \<Rightarrow> (jMap (er_Data res), t1))
     else ([], t))"

definition corporationOf :: "CharacterToken \<Rightarrow> int \<Rightarrow> object \<Rightarrow> object \<Rightarrow> Corporation" where
  "corporationOf token corpID public payload =
     \<lparr>co_Token = domainToken token, co_CorporationID = corpID,
      co_CorporationName = (let n = jStr (lookupAny public ''name'') in
        if n = [] then ''Corporation #'' @ itoa corpID else n),
      co_Ticker = jStr (lookupAny public ''ticker''), co_Public = public,
      co_Roles = stringSet (lookupAny payload ''roles''), co_RolesAtHQ = stringSet (lookupAny payload ''roles_at_hq''),
      co_RolesAtBase = stringSet (lookupAny payload ''roles_at_base''),
      co_RolesAtOther = stringSet (lookupAny payload ''roles_at_other'')\<rparr>"

definition ResolveCorporation :: "toolEnv \<Rightarrow> Corporation tool" where
  "ResolveCorporation E =
    (let failed = Wrap (sessUse ''ResolveCorporation'') in
     thenT characterT id (\<lambda>token.
     thenT (getT E (charRoute (tk_CharacterID token) []) None []) failed (\<lambda>sheet.
      (let corpID = intOf E (jMap (er_Data sheet)) ''corporation_id'' in
       if corpID = 0 then failT (failed (Wrap (tk_CharacterName token) (Sentinel ErrNoCorporation)))
       else thenT (getT E (corpRoute corpID []) None []) failed (\<lambda>publicRes t.
         (case rolesPayload E token t of (payload, t1) \<Rightarrow>
           doneT (corporationOf token corpID (jMap (er_Data publicRes)) payload) t1))))))"

definition RequirePlayerCorp :: "Corporation \<Rightarrow> goerr option" where
  "RequirePlayerCorp corp =
    (if \<not> IsNPC corp then None
     else Some (Wrap (sessUse ''RefuseNPCCorp'') (Wrap (co_CorporationName corp @ '' ['' @ co_Ticker corp @ ''] #''
       @ itoa (co_CorporationID corp)) (Sentinel ErrNPCCorp))))"

definition RequireCorpRole :: "Corporation \<Rightarrow> string list \<Rightarrow> string \<Rightarrow> goerr option" where
  "RequireCorpRole corp needed what =
    (if needed = [] \<or> HasRole corp needed then None
     else let have_roles = (if co_Roles corp = [] then [''none''] else co_Roles corp) in
       Some (Wrap (sessUse ''RequireCorpRole'') (Wrap (joinStr '' or '' needed @ '' in '' @ co_CorporationName corp
         @ '' for '' @ what @ '' have '' @ joinStr '', '' have_roles) (Sentinel ErrMissingCorpRole))))"

subsection \<open>Scopes, roles and the gate\<close>

definition corpScope :: "string \<Rightarrow> string" where
  "corpScope key = (case map_of [
     (''assets'', ''esi-assets.read_corporation_assets.v1''),
     (''blueprints'', ''esi-corporations.read_blueprints.v1''),
     (''wallets'', ''esi-wallet.read_corporation_wallets.v1''),
     (''jobs'', ''esi-industry.read_corporation_jobs.v1''),
     (''mining'', ''esi-industry.read_corporation_mining.v1''),
     (''orders'', ''esi-markets.read_corporation_orders.v1''),
     (''contracts'', ''esi-contracts.read_corporation_contracts.v1''),
     (''killmails'', ''esi-killmails.read_corporation_killmails.v1''),
     (''structures'', ''esi-corporations.read_structures.v1''),
     (''members'', ''esi-corporations.read_corporation_membership.v1''),
     (''divisions'', ''esi-corporations.read_divisions.v1'')] key of Some s \<Rightarrow> s | None \<Rightarrow> [])"

definition corpRole :: "string \<Rightarrow> string list" where
  "corpRole key =
    (if List.member [''assets'', ''blueprints'', ''killmails'', ''divisions''] key then [''Director'']
     else if key = ''wallets'' then [''Accountant'', ''Junior_Accountant'']
     else if key = ''jobs'' then [''Factory_Manager'']
     else if key = ''orders'' then [''Accountant'', ''Trader'']
     else if List.member [''structures'', ''mining_extractions''] key then [''Station_Manager'']
     else if key = ''mining_ledger'' then [''Accountant'']
     else [])"

definition esiRole :: "string \<Rightarrow> bool" where
  "esiRole name = List.member [''Director'', ''Accountant'', ''Junior_Accountant'', ''Factory_Manager'',
     ''Station_Manager'', ''Trader''] name"

definition corpGate :: "Corporation \<Rightarrow> string \<Rightarrow> string \<Rightarrow> string \<Rightarrow> goerr option" where
  "corpGate corp scopeKey roleKey what =
    (case RequirePlayerCorp corp of Some e \<Rightarrow> Some e
     | None \<Rightarrow> (case RequireGranted (corpCharacterName corp) (corpScopes corp) (corpScope scopeKey) what of
         Inl e \<Rightarrow> Some e
       | Inr _ \<Rightarrow> if roleKey \<noteq> [] then RequireCorpRole corp (corpRole roleKey) what else None))"

definition openCorp :: "toolEnv \<Rightarrow> string \<Rightarrow> string \<Rightarrow> string \<Rightarrow> Corporation tool" where
  "openCorp E scopeKey roleKey what =
    thenT (ResolveCorporation E) (Wrap (eveOp ''openCorp'')) (\<lambda>corp.
      (case corpGate corp scopeKey roleKey what of
         Some e \<Rightarrow> failT (Wrap (eveOp ''openCorp'') e) | None \<Rightarrow> doneT corp))"

definition who :: "Corporation \<Rightarrow> object" where
  "who corp = [(''character'', VStr (corpCharacterName corp)), (''corporation'', VStr (co_CorporationName corp)),
     (''ticker'', if co_Ticker corp \<noteq> [] then VStr (co_Ticker corp) else VNil)]"

definition corpCan :: "Corporation \<Rightarrow> string \<Rightarrow> string \<Rightarrow> bool" where
  "corpCan corp scopeKey roleKey \<longleftrightarrow>
     List.member (corpScopes corp) (corpScope scopeKey) \<and> HasRole corp (corpRole roleKey)"

definition corpToolCatalog :: "(string \<times> string \<times> string) list" where
  "corpToolCatalog = [
     (''eve_corp_assets_list'', ''assets'', ''assets''), (''eve_corp_assets_find'', ''assets'', ''assets''),
     (''eve_corp_blueprints'', ''blueprints'', ''blueprints''), (''eve_corp_wallet'', ''wallets'', ''wallets''),
     (''eve_corp_industry_jobs'', ''jobs'', ''jobs''), (''eve_corp_orders'', ''orders'', ''orders''),
     (''eve_corp_contracts'', ''contracts'', []), (''eve_corp_killmails'', ''killmails'', ''killmails''),
     (''eve_corp_structures'', ''structures'', ''structures''), (''eve_corp_members'', ''members'', [])]"

definition availableCorpTools :: "Corporation \<Rightarrow> string list" where
  "availableCorpTools corp =
     ''eve_corp_overview''
     # map fst (filter (\<lambda>(name, scope, role). List.member (corpScopes corp) (corpScope scope)
         \<and> (role = [] \<or> HasRole corp (corpRole role))) corpToolCatalog)
     @ (if List.member (corpScopes corp) (corpScope ''mining'')
          \<and> (HasRole corp (corpRole ''mining_ledger'') \<or> HasRole corp (corpRole ''mining_extractions''))
        then [''eve_corp_mining''] else [])"

definition extraRoles :: "Corporation \<Rightarrow> string \<Rightarrow> string list \<Rightarrow> object \<Rightarrow> object" where
  \<comment> \<open>the closure \<open>addLoc\<close>\<close>
  "extraRoles corp key src out =
    (let extra = filter (\<lambda>r. esiRole r \<and> \<not> List.member (co_Roles corp) r) src in
     if extra \<noteq> [] then mapPut key (VStrs (sort extra)) out else out)"

definition rolesForDisplay :: "Corporation \<Rightarrow> object" where
  "rolesForDisplay corp =
    (if List.member (co_Roles corp) ''Director''
     then [(''roles'', VStrs [''Director'']),
       (''role_note'', VStr ''Director unlocks every eve_corp_* endpoint. Only roles granted everywhere count; HQ/base/other grants do not.'')]
     else let esi = sort (filter esiRole (co_Roles corp));
              out = [(''roles'', strsOf esi),
                (''role_note'', VStr ''Only roles granted everywhere unlock ESI. HQ/base/other grants do not.'')]
                @ (if esi = [] then [(''roles_note'', VStr (''No ESI-relevant roles granted everywhere (Director, Accountant, Factory_Manager, Station_Manager, Trader). Raw role count: ''
                    @ itoa (int (length (co_Roles corp))) @ ''.''))] else [])
          in extraRoles corp ''roles_at_other'' (co_RolesAtOther corp)
            (extraRoles corp ''roles_at_base'' (co_RolesAtBase corp) (extraRoles corp ''roles_at_hq'' (co_RolesAtHQ corp) out)))"

subsection \<open>The overview\<close>

record divisions =
  dv_wallet :: "(int \<times> string) list"
  dv_hangar :: "(int \<times> string) list"

definition divisionNames :: "toolEnv \<Rightarrow> any \<Rightarrow> (int \<times> string) list" where
  "divisionNames E rows = foldl (\<lambda>m row.
     if intOf E row ''division'' = 0 then m
     else let n = nt_trimSpace (te_net E) (jStr (lookupAny row ''name'')) in
       if n \<noteq> [] then mapPut (intOf E row ''division'') n m else m) [] (jMaps rows)"

definition corpDivisions :: "toolEnv \<Rightarrow> Corporation \<Rightarrow> toolState \<Rightarrow> divisions \<times> toolState" where
  "corpDivisions E corp t =
    (let none = \<lparr>dv_wallet = [], dv_hangar = []\<rparr> in
     if \<not> corpCan corp ''divisions'' ''divisions'' then (none, t)
     else (case getT E (corpRoute (co_CorporationID corp) [Seg ''divisions'']) (Some (corpCharacter corp)) [] t of
         (Inl _, t1) \<Rightarrow> (none, t1)
       | (Inr result, t1) \<Rightarrow> (let data = jMap (er_Data result) in
           (\<lparr>dv_wallet = divisionNames E (lookupAny data ''wallet''), dv_hangar = divisionNames E (lookupAny data ''hangar'')\<rparr>, t1))))"

definition corpOverviewIdentity :: "toolEnv \<Rightarrow> Corporation \<Rightarrow> object tool" where
  "corpOverviewIdentity E corp =
    (let public = co_Public corp;
         ids = idsFrom (te_net E) [lookupAny public ''alliance_id'', lookupAny public ''ceo_id''] in
     thenT (namesT E ids (Some (corpCharacter corp))) (Wrap (eveOp ''corpOverviewIdentity'')) (\<lambda>n.
       doneT (merge_maps [(''character'', VStr (corpCharacterName corp)), (''corporation'', VStr (co_CorporationName corp)),
         (''ticker'', VStr (co_Ticker corp)), (''corporation_id'', VInt (co_CorporationID corp)),
         (''corporation_kind'', VStr (if IsNPC corp then ''npc'' else ''player'')),
         (''member_count'', lookupAny public ''member_count''), (''ceo'', VStr (nameIn n (intOf E public ''ceo_id''))),
         (''alliance'', VStr (nameIn n (intOf E public ''alliance_id''))),
         (''tax_pct'', VFloat (mathRound (floatOf E public ''tax_rate'' * 100) 2))] (rolesForDisplay corp))))"

definition corpOverviewAttachDivisions :: "divisions \<Rightarrow> object \<Rightarrow> object" where
  "corpOverviewAttachDivisions divs out =
    (if dv_wallet divs = [] \<and> dv_hangar divs = [] then out
     else let wdiv = map (\<lambda>i. [(''division'', VInt i), (''name'', VStr (walletLabel i (dv_wallet divs)))]) [1..7];
              hdiv = map (\<lambda>i. [(''division'', VInt i), (''name'', VStr (let hn = nameIn (dv_hangar divs) i in
                if hn = [] then ''Hangar '' @ itoa i else hn))]) [1..7]
          in mapPut ''hangar_divisions'' (VMaps hdiv) (mapPut ''wallet_divisions'' (VMaps wdiv) out))"

definition corpWalletRows :: "toolEnv \<Rightarrow> any \<Rightarrow> (int \<times> string) list \<Rightarrow> object list \<times> rat" where
  "corpWalletRows E data names =
    (map (\<lambda>w. [(''division'', lookupAny w ''division''), (''name'', VStr (walletLabel (intOf E w ''division'') names)),
        (''balance'', VStr (isk (te_net E) (lookupAny w ''balance''))), (''balance_isk'', lookupAny w ''balance'')]) (jMaps data),
     sum_list (map (\<lambda>w. floatOf E w ''balance'') (jMaps data)))"

definition walletsRoute :: "Corporation \<Rightarrow> Route" where
  "walletsRoute corp = corpRoute (co_CorporationID corp) [Seg ''wallets'']"

definition corpOverviewAttachWallets :: "toolEnv \<Rightarrow> Corporation \<Rightarrow> divisions \<Rightarrow> object \<Rightarrow> toolState \<Rightarrow> object \<times> toolState" where
  "corpOverviewAttachWallets E corp divs out t =
    (if \<not> corpCan corp ''wallets'' ''wallets'' then (out, t)
     else (case getT E (walletsRoute corp) (Some (corpCharacter corp)) [] t of
         (Inl _, t1) \<Rightarrow> (mapPut ''wallets_note'' (VStr noteSectionFailed) out, t1)
       | (Inr wallets, t1) \<Rightarrow> (case corpWalletRows E (er_Data wallets) (dv_wallet divs) of (rows, balance) \<Rightarrow>
           (let age = VStr (StaleNote (er_AgeSeconds wallets)) in
            (mapPut ''data_age'' age (mapPut ''wallet_age'' age
              (mapPut ''wallet_total'' (VStr (isk (te_net E) (VFloat balance))) (mapPut ''wallets'' (VMaps rows) out))), t1)))))"

definition noCorpRoles :: string where
  "noCorpRoles = ''This character has no corp roles that ESI honours. Someone with Director / Accountant / Factory_Manager / Station_Manager granted everywhere has to authorize instead.''"

definition corpOverviewNextStep :: "Corporation \<Rightarrow> object \<Rightarrow> object" where
  "corpOverviewNextStep corp out =
    (let missing = filter (\<lambda>sc. \<not> HasGranted (corpScopes corp) sc) CorpReadScopes in
     if missing \<noteq> [] then mapPut ''next_step'' (VStr (corpCharacterName corp @ [CHR 0x27] @ ''s token is missing ''
         @ itoa (int (length missing)) @ '' corporation scopes. Add those permissions on the EVE developer application and re-authenticate the MCP server.'')) out
     else if length (rowsOf (lookupAny out ''available_tools'')) \<le> 1 then mapPut ''next_step'' (VStr noCorpRoles) out
     else out)"

definition eveCorpOverview :: "toolEnv \<Rightarrow> any tool" where
  "eveCorpOverview E =
    thenT (ResolveCorporation E) (Wrap (eveOp ''eveCorpOverview'')) (\<lambda>corp.
    thenT (corpOverviewIdentity E corp) id (\<lambda>out t.
     (let keep = [''roles'', ''available_tools''] in
      if IsNPC corp
      then doneT (VMap (keepEmpty (mapPut ''available_tools'' (VStrs []) (mapPut ''note''
         (VStr ''NPC corporations have no hangars, wallets or jobs on ESI. The other eve_corp_* tools will refuse this character.'') out)) keep)) t
      else (case corpDivisions E corp t of (divs, t1) \<Rightarrow>
        (case corpOverviewAttachWallets E corp divs (corpOverviewAttachDivisions divs out) t1 of (out1, t2) \<Rightarrow>
          doneT (VMap (keepEmpty (corpOverviewNextStep corp
            (mapPut ''available_tools'' (VStrs (availableCorpTools corp)) out1)) keep)) t2)))))"

subsection \<open>The roster\<close>

record corpMembersIn =
  cm_Limit :: int
  cm_ResponseFormat :: string

definition corpMemberIDs :: "toolEnv \<Rightarrow> any \<Rightarrow> int list" where
  "corpMemberIDs E data = filter (\<lambda>i. i \<noteq> 0) (map (jInt (nt_parseFloat (te_net E))) (rowsOf data))"

definition corpRoleStrings :: "any \<Rightarrow> string list" where
  "corpRoleStrings rs = jStrings (rowsOf rs)"

definition corpMemberRoleMap :: "toolEnv \<Rightarrow> Corporation \<Rightarrow> bool \<Rightarrow> toolState \<Rightarrow> (int \<times> string list) list \<times> toolState" where
  "corpMemberRoleMap E corp conciseMode t =
    (if conciseMode \<or> \<not> HasRole corp [''Director''] then ([], t)
     else (case getT E (corpRoute (co_CorporationID corp) [Seg ''roles'']) (Some (corpCharacter corp)) [] t of
         (Inl _, t1) \<Rightarrow> ([], t1)
       | (Inr res, t1) \<Rightarrow> (foldl (\<lambda>m row. mapPut (intOf E row ''character_id'') (corpRoleStrings (lookupAny row ''roles'')) m)
            [] (jMaps (er_Data res)), t1)))"

definition corpMemberRows :: "int list \<Rightarrow> (int \<times> string) list \<Rightarrow> (int \<times> string list) list \<Rightarrow> object list" where
  "corpMemberRows memberIDs names roleMap = map (\<lambda>mid.
     [(''name'', VStr (nameOr names mid)), (''character_id'', VInt mid),
      (''roles'', case map_of roleMap mid of Some rs \<Rightarrow> if rs \<noteq> [] then VStrs rs else VNil | None \<Rightarrow> VNil)]) memberIDs"

definition limitLong :: int where "limitLong = 25"

definition eveCorpMembers :: "toolEnv \<Rightarrow> corpMembersIn \<Rightarrow> any tool" where
  "eveCorpMembers E inp =
    (case rejectUnknownFormat E (cm_ResponseFormat inp) of Some e \<Rightarrow> failT e
     | None \<Rightarrow> (let failed = Wrap (eveOp ''eveCorpMembers''); conc = concise (cm_ResponseFormat inp) in
       thenT (openCorp E ''members'' [] ''corporation membership'') id (\<lambda>corp.
       thenT (getAllT E (corpRoute (co_CorporationID corp) [Seg ''members'']) (Some (corpCharacter corp)) pagesESI) failed (\<lambda>result.
        (let memberIDs = corpMemberIDs E (er_Data result) in
         if memberIDs = [] then doneT (VMap (merge_maps (who corp)
            [(''members'', VSlice []), (''note'', VStr ''ESI returned an empty roster.'')]))
         else thenT (namesT E memberIDs None) failed (\<lambda>names t.
           (case corpMemberRoleMap E corp conc t of (roleMap, t1) \<Rightarrow>
             (let lower = (\<lambda>row. gl_toLower (te_lib E) (jStr (lookupAny row ''name'')));
                  rows = sortSlice (\<lambda>a b. lower a < lower b) (corpMemberRows memberIDs names roleMap);
                  paged = applyLimit rows (limitOr (cm_Limit inp) limitLong) []
              in doneT (VMap (merge_maps (who corp) (merge_maps
                [(''member_count'', VInt (int (length rows))), (''data_age'', VStr (StaleNote (er_AgeSeconds result))),
                 (''members'', VMaps (project (lp_Rows paged) [''name''] conc))] (lp_fields paged)))) t1))))))))"

subsection \<open>The structures\<close>

record corpStructuresIn =
  cst_Page :: int
  cst_Limit :: int
  cst_ResponseFormat :: string

definition corpStructureIDs :: "toolEnv \<Rightarrow> object list \<Rightarrow> int list" where
  "corpStructureIDs E structures = setToList E (filter (\<lambda>i. i \<noteq> 0)
     (concat (map (\<lambda>s. map (intOf E s) [''type_id'', ''system_id'', ''structure_id'']) structures)))"

definition structureFuelExpires :: "time option \<Rightarrow> time \<Rightarrow> string \<times> bool" where
  "structureFuelExpires fuel now = (case fuel of
     Some f \<Rightarrow> if \<not> f > now then (''UNFUELLED'', True) else (humanDelta (f - now), False)
   | None \<Rightarrow> (''unknown'', False))"

definition sprintV :: "fmtlib \<Rightarrow> any \<Rightarrow> string" where
  \<comment> \<open>\<open>fmt.Sprintf("%v", x)\<close>\<close>
  "sprintV F v = (case v of VStr s \<Rightarrow> s | VNil \<Rightarrow> ''<nil>'' | _ \<Rightarrow> fm_v F v)"

definition structureServices :: "fmtlib \<Rightarrow> object \<Rightarrow> any" where
  "structureServices F s =
    (let services = map (\<lambda>svc. sprintV F (lookupAny svc ''name'') @ '' ('' @ sprintV F (lookupAny svc ''state'') @ '')'')
           (jMaps (lookupAny s ''services''))
     in if services = [] then VNil else VStrs services)"

definition corpStructureRow :: "toolEnv \<Rightarrow> datelib \<Rightarrow> (int \<times> string) list \<Rightarrow> time \<Rightarrow> object \<Rightarrow> object \<times> bool" where
  "corpStructureRow E D names now s =
    (case structureFuelExpires (parseTime D (jStr (lookupAny s ''fuel_expires''))) now of (expires, dead) \<Rightarrow>
      ([(''structure'', VStr (nameIn names (intOf E s ''structure_id''))), (''type'', VStr (nameIn names (intOf E s ''type_id''))),
        (''system'', VStr (nameIn names (intOf E s ''system_id''))), (''state'', lookupAny s ''state''),
        (''fuel_expires_in'', VStr expires), (''fuel_expires'', lookupAny s ''fuel_expires''),
        (''reinforce_hour'', lookupAny s ''reinforce_hour''), (''services'', structureServices (nt_fmt (te_net E)) s),
        (''structure_id'', lookupAny s ''structure_id'')], dead))"

definition eveCorpStructures :: "toolEnv \<Rightarrow> datelib \<Rightarrow> corpStructuresIn \<Rightarrow> any tool" where
  "eveCorpStructures E D inp =
    (case rejectUnknownFormat E (cst_ResponseFormat inp) of Some e \<Rightarrow> failT e
     | None \<Rightarrow> (let failed = Wrap (eveOp ''eveCorpStructures''); limit = limitOr (cst_Limit inp) limitDefault in
       thenT (openCorp E ''structures'' ''structures'' ''corporation structures'') id (\<lambda>corp.
       thenT (getT E (corpRoute (co_CorporationID corp) [Seg ''structures'']) (Some (corpCharacter corp))
           (esiPageQuery (cst_Page inp) [])) failed (\<lambda>result.
        (let structures = jMaps (er_Data result) in
         if structures = [] then doneT (VMap (merge_maps (who corp) (merge_maps
            [(''structures'', VSlice []), (''note'', VStr ''This corporation owns no Upwell structures.'')]
            (np_fields (pageByNumber [] (cst_Page inp) (PageCount result) limit)))))
         else thenT (namesT E (corpStructureIDs E structures) (Some (corpCharacter corp))) failed (\<lambda>names t.
           (let listed = map (corpStructureRow E D names (w_now (ts_w t))) structures;
                fuel = (\<lambda>row. jStr (lookupAny row ''fuel_expires''));
                rows = sortSlice (\<lambda>a b. fuel a < fuel b) (map fst listed);
                paged = pageByNumber rows (cst_Page inp) (PageCount result) limit
            in doneT (VMap (merge_maps (who corp) (merge_maps
              [(''structure_count'', VInt (int (length rows))), (''unfuelled'', VInt (int (length (filter snd listed)))),
               (''data_age'', VStr (StaleNote (er_AgeSeconds result))),
               (''structures'', VMaps (project (np_Rows paged) [''structure'', ''type'', ''system'', ''state'', ''fuel_expires_in'']
                  (concise (cst_ResponseFormat inp))))] (np_fields paged)))) t)))))))"

subsection \<open>The mining ledger\<close>

record corpMiningIn =
  cmi_Limit :: int
  cmi_Offset :: int
  cmi_ResponseFormat :: string

record miningLedgerAgg =
  ma_totals :: "(int \<times> int) list"
  ma_byMiner :: "(int \<times> int) list"
  ma_byObserver :: "(int \<times> int) list"
  ma_oldest :: rat
  ma_failed :: int
  ma_truncated :: bool

definition addTo :: "int \<Rightarrow> int \<Rightarrow> (int \<times> int) list \<Rightarrow> (int \<times> int) list" where
  \<comment> \<open>\<open>m[k] += q\<close>\<close>
  "addTo k q m = mapPut k ((case map_of m k of Some n \<Rightarrow> n | None \<Rightarrow> 0) + q) m"

definition miningObserverCap :: int where "miningObserverCap = 25"
definition pagesShort :: int where "pagesShort = 10"
definition limitTopItems :: nat where "limitTopItems = 5"

definition miningRoute :: "Corporation \<Rightarrow> pathElem list \<Rightarrow> Route" where
  "miningRoute corp rest = Path ([Seg ''corporation'', ID (co_CorporationID corp), Seg ''mining''] @ rest)"

definition extractionDelta :: "time option \<Rightarrow> time \<Rightarrow> string \<Rightarrow> string" where
  "extractionDelta at0 now past = (case at0 of None \<Rightarrow> ''unknown''
     | Some t \<Rightarrow> if \<not> t > now then past else humanDelta (t - now))"

definition corpExtractionRow :: "toolEnv \<Rightarrow> datelib \<Rightarrow> (int \<times> string) list \<Rightarrow> time \<Rightarrow> object \<Rightarrow> object" where
  "corpExtractionRow E D names now e =
    (let arrival = parseTime D (jStr (lookupAny e ''chunk_arrival_time''));
         decay = parseTime D (jStr (lookupAny e ''natural_decay_time'')) in
     [(''structure'', VStr (nameIn names (intOf E e ''structure_id''))), (''moon'', VStr (nameIn names (intOf E e ''moon_id''))),
      (''chunk_arrives_in'', VStr (extractionDelta arrival now ''arrived'')), (''decays_in'', VStr (extractionDelta decay now ''decayed'')),
      (''chunk_arrival_time'', lookupAny e ''chunk_arrival_time''), (''natural_decay_time'', lookupAny e ''natural_decay_time'')])"

definition corpExtractions :: "toolEnv \<Rightarrow> datelib \<Rightarrow> Corporation \<Rightarrow> object list tool" where
  "corpExtractions E D corp =
    (let failed = Wrap (eveOp ''corpExtractions'') in
     thenT (getT E (miningRoute corp [Seg ''extractions'']) (Some (corpCharacter corp)) []) failed (\<lambda>result.
      (let rows = jMaps (er_Data result) in
       if rows = [] then doneT []
       else let ids = filter (\<lambda>i. i \<noteq> 0) (concat (map (\<lambda>e. map (intOf E e) [''structure_id'', ''moon_id'']) rows)) in
         thenT (namesT E (setToList E ids) (Some (corpCharacter corp))) failed (\<lambda>names t.
           (let arrives = (\<lambda>row. jStr (lookupAny row ''chunk_arrival_time'')) in
            doneT (sortSlice (\<lambda>a b. arrives a < arrives b) (map (corpExtractionRow E D names (w_now (ts_w t))) rows)) t)))))"

definition corpMiningAttachExtractions :: "toolEnv \<Rightarrow> datelib \<Rightarrow> Corporation \<Rightarrow> bool \<Rightarrow> object \<Rightarrow> toolState \<Rightarrow> object \<times> toolState" where
  "corpMiningAttachExtractions E D corp canExtract out t =
    (if \<not> canExtract
     then (mapPut ''extractions_note'' (VStr ''Extraction timers need Station_Manager (or Director) granted everywhere.'') out, t)
     else (case corpExtractions E D corp t of
         (Inl _, t1) \<Rightarrow> (mapPut ''extractions_note'' (VStr noteSectionFailed) out, t1)
       | (Inr ex, t1) \<Rightarrow> (mapPut ''extractions'' (VMaps ex) out, t1)))"

definition absorbMiningObserver :: "toolEnv \<Rightarrow> object \<Rightarrow> goerr + esiResult \<Rightarrow> miningLedgerAgg \<Rightarrow> miningLedgerAgg" where
  "absorbMiningObserver E obs answer agg =
    (case answer of Inl _ \<Rightarrow> agg\<lparr>ma_failed := ma_failed agg + 1\<rparr>
     | Inr r \<Rightarrow>
       let oid = intOf E obs ''observer_id'' in
       foldl (\<lambda>m entry. let qty = intOf E entry ''quantity''; cid = intOf E entry ''character_id'' in
           m\<lparr>ma_totals := addTo (intOf E entry ''type_id'') qty (ma_totals m),
             ma_byMiner := (if cid \<noteq> 0 then addTo cid qty (ma_byMiner m) else ma_byMiner m),
             ma_byObserver := (if oid \<noteq> 0 then addTo oid qty (ma_byObserver m) else ma_byObserver m)\<rparr>)
         (agg\<lparr>ma_oldest := max (ma_oldest agg) (er_AgeSeconds r), ma_truncated := ma_truncated agg \<or> er_Truncated r\<rparr>)
         (jMaps (er_Data r)))"

definition noAnswer :: esiResult where
  \<comment> \<open>\<open>esi.Result{}\<close>\<close>
  "noAnswer = \<lparr>er_Data = VNil, er_FromCache = False, er_AgeSeconds = 0, er_ExpiresAt = 0, er_Pages = None, er_Truncated = False\<rparr>"

definition miningObserverPage :: "toolEnv \<Rightarrow> Corporation \<Rightarrow> object \<Rightarrow> esiResult tool" where
  "miningObserverPage E corp obs =
    (if intOf E obs ''observer_id'' = 0 then doneT noAnswer
     else getAllT E (miningRoute corp [Seg ''observers'', ID (intOf E obs ''observer_id'')]) (Some (corpCharacter corp)) pagesShort)"

fun miningObservers :: "toolEnv \<Rightarrow> Corporation \<Rightarrow> object list \<Rightarrow> miningLedgerAgg \<Rightarrow> toolState \<Rightarrow> miningLedgerAgg \<times> toolState" where
  \<comment> \<open>the fetches, in the order in which their answers are absorbed\<close>
  "miningObservers E corp [] agg t = (agg, t)"
| "miningObservers E corp (obs # rest) agg t = (case miningObserverPage E corp obs t of
     (answer, t1) \<Rightarrow> miningObservers E corp rest (absorbMiningObserver E obs answer agg) t1)"

definition fetchCorpMiningObservers ::
    "toolEnv \<Rightarrow> Corporation \<Rightarrow> object list \<Rightarrow> esiResult \<Rightarrow> toolState \<Rightarrow> miningLedgerAgg \<times> toolState" where
  "fetchCorpMiningObservers E corp observers observersRes =
    (let capped = take (nat miningObserverCap) observers;
         order = gl_ids (te_lib E) (map int [0..<length capped]) in
     miningObservers E corp (map (\<lambda>i. capped ! nat i) order)
       \<lparr>ma_totals = [], ma_byMiner = [], ma_byObserver = [], ma_oldest = er_AgeSeconds observersRes, ma_failed = 0,
        ma_truncated = er_Truncated observersRes \<or> int (length observers) > miningObserverCap\<rparr>)"

definition miningLedgerAge :: "esiResult \<Rightarrow> rat \<Rightarrow> string" where
  "miningLedgerAge observersRes oldest =
    (if oldest < 60 then itoa (truncInt oldest) @ ''s old'' else StaleNote (er_AgeSeconds observersRes))"

definition miningAggIDs :: "miningLedgerAgg \<Rightarrow> int list" where
  "miningAggIDs agg = map fst (ma_totals agg) @ map fst (ma_byMiner agg) @ map fst (ma_byObserver agg)"

definition entriesOf :: "toolEnv \<Rightarrow> (int \<times> int) list \<Rightarrow> (int \<times> int) list" where
  \<comment> \<open>a map from ids to quantities in the order Go ranges over it\<close>
  "entriesOf E m = map (\<lambda>i. (i, case map_of m i of Some n \<Rightarrow> n | None \<Rightarrow> 0)) (gl_ids (te_lib E) (map fst m))"

definition topN :: "toolEnv \<Rightarrow> (int \<times> int) list \<Rightarrow> (int \<times> string) list \<Rightarrow> string \<Rightarrow> object list" where
  "topN E m names label =
     map (\<lambda>(i, q). [(label, VStr (nameOr names i)), (''units'', VInt q)])
       (take limitTopItems (sortSlice (\<lambda>a b. snd a > snd b) (entriesOf E m)))"

definition miningOreRows :: "toolEnv \<Rightarrow> (int \<times> int) list \<Rightarrow> (int \<times> string) list \<Rightarrow> (int \<times> (rat \<times> rat)) list \<Rightarrow> object list \<times> rat" where
  "miningOreRows E totals names prices =
    (let value = (\<lambda>(tid, qty). unitPrice prices tid * of_int qty) in
     (map (\<lambda>(tid, qty). [(''ore'', VStr (nameOr names tid)), (''units'', VInt qty),
         (''estimated_value'', VStr (isk (te_net E) (VFloat (value (tid, qty)))))])
       (sortSlice (\<lambda>a b. snd a > snd b) (entriesOf E totals)),
      sum_list (map value (entriesOf E totals))))"

definition corpMiningLedger :: "toolEnv \<Rightarrow> Corporation \<Rightarrow> int \<Rightarrow> int \<Rightarrow> object tool" where
  "corpMiningLedger E corp offset limit =
    (let failed = Wrap (eveOp ''corpMiningLedger'') in
     thenT (getAllT E (miningRoute corp [Seg ''observers'']) (Some (corpCharacter corp)) pagesESI) failed (\<lambda>observersRes.
      (let observers = jMaps (er_Data observersRes) in
       if observers = []
       then doneT [(''ores'', VSlice []), (''note'', VStr ''No mining observers with recorded events (idle refineries are hidden).''),
         (''data_age'', VStr (StaleNote (er_AgeSeconds observersRes)))]
       else (\<lambda>t. case fetchCorpMiningObservers E corp observers observersRes t of (agg, t1) \<Rightarrow>
         thenT (namesT E (setToList E (miningAggIDs agg)) (Some (corpCharacter corp))) failed (\<lambda>names.
         thenT (pricesT E) failed (\<lambda>prices.
          (case miningOreRows E (ma_totals agg) names prices of (rows, grand) \<Rightarrow>
            (let paged = pageByOffset rows offset limit [];
                 out = merge_maps [(''total_estimated_value'', VStr (isk (te_net E) (VFloat grand))),
                   (''observer_count'', VInt (int (length observers))), (''top_miners'', VMaps (topN E (ma_byMiner agg) names ''miner'')),
                   (''top_observers'', VMaps (topN E (ma_byObserver agg) names ''observer'')),
                   (''valuation_basis'', VStr ''CCP global average price per type, not a hub quote''),
                   (''data_age'', VStr (miningLedgerAge observersRes (ma_oldest agg))), (''ores'', VMaps (fp_Rows paged))] (fp_fields paged);
                 out1 = (if ma_failed agg > 0 then mapPut ''unavailable_observers'' (VInt (ma_failed agg)) out else out)
             in doneT (if ma_truncated agg then mapPut ''totals_caveat''
                  (VStr ''Ledger walk was capped (25 observers, 10 pages each); totals may be short.'') out1 else out1)))) ) t1))))"

definition corpMiningAttachLedger :: "toolEnv \<Rightarrow> Corporation \<Rightarrow> corpMiningIn \<Rightarrow> bool \<Rightarrow> object \<Rightarrow> toolState \<Rightarrow> object \<times> toolState" where
  "corpMiningAttachLedger E corp inp canLedger out t =
    (if \<not> canLedger
     then (mapPut ''ledger_note'' (VStr ''The observer ledger needs Accountant (or Director) granted everywhere.'') out, t)
     else (case corpMiningLedger E corp (cmi_Offset inp) (limitOr (cmi_Limit inp) limitDefault) t of
         (Inl _, t1) \<Rightarrow> (mapPut ''ledger_note'' (VStr noteSectionFailed) out, t1)
       | (Inr ledger, t1) \<Rightarrow> (merge_maps out ledger, t1)))"

definition corpMiningGate :: "Corporation \<Rightarrow> goerr option" where
  "corpMiningGate corp =
    (case RequirePlayerCorp corp of Some e \<Rightarrow> Some (Wrap (eveOp ''eveCorpMining'') e)
     | None \<Rightarrow> (case RequireGranted (corpCharacterName corp) (corpScopes corp) (corpScope ''mining'') ''the corporation mining ledger'' of
         Inl e \<Rightarrow> Some (Wrap (eveOp ''eveCorpMining'') e)
       | Inr _ \<Rightarrow> if HasRole corp (corpRole ''mining_ledger'') \<or> HasRole corp (corpRole ''mining_extractions'') then None
           else map_option (Wrap (eveOp ''corpMiningRequireRole'')) (RequireCorpRole corp [''Accountant'', ''Station_Manager'']
             ''corporation mining (ledger needs Accountant, extractions need Station_Manager)'')))"

definition eveCorpMining :: "toolEnv \<Rightarrow> datelib \<Rightarrow> corpMiningIn \<Rightarrow> any tool" where
  "eveCorpMining E D inp =
    (case rejectUnknownFormat E (cmi_ResponseFormat inp) of Some e \<Rightarrow> failT e
     | None \<Rightarrow> thenT (ResolveCorporation E) (Wrap (eveOp ''eveCorpMining'')) (\<lambda>corp t.
         (case corpMiningGate corp of Some e \<Rightarrow> failT e t
          | None \<Rightarrow> (let out = merge_maps (who corp) [(''period'', VStr ''last ~30 days'')] in
              case corpMiningAttachExtractions E D corp (HasRole corp (corpRole ''mining_extractions'')) out t of (out1, t1) \<Rightarrow>
              (case corpMiningAttachLedger E corp inp (HasRole corp (corpRole ''mining_ledger'')) out1 t1 of (out2, t2) \<Rightarrow>
                doneT (VMap out2) t2)))))"

end
