(* ===== verification/CorpProps.thy ===== *)
theory CorpProps
  imports Corp EveWriteProps
begin

text \<open>
  The corporation tools behind their gate: the overview lists exactly the tools that open, a
  tool that opens has the scope and one of the roles of its key, and none of them sends anything
  but reads.
\<close>

subsection \<open>The gate\<close>

definition gateOf :: "string \<Rightarrow> string \<times> string \<times> string" where
  \<comment> \<open>the arguments each handler gives to \<open>openCorp\<close>\<close>
  "gateOf tool =
    (if tool = ''eve_corp_assets_list'' \<or> tool = ''eve_corp_assets_find'' then (''assets'', ''assets'', ''corporation assets'')
     else if tool = ''eve_corp_blueprints'' then (''blueprints'', ''blueprints'', ''corporation blueprints'')
     else if tool = ''eve_corp_wallet'' then (''wallets'', ''wallets'', ''corporation wallets'')
     else if tool = ''eve_corp_industry_jobs'' then (''jobs'', ''jobs'', ''corporation industry jobs'')
     else if tool = ''eve_corp_orders'' then (''orders'', ''orders'', ''corporation market orders'')
     else if tool = ''eve_corp_contracts'' then (''contracts'', [], ''corporation contracts'')
     else if tool = ''eve_corp_killmails'' then (''killmails'', ''killmails'', ''corporation killmails'')
     else if tool = ''eve_corp_structures'' then (''structures'', ''structures'', ''corporation structures'')
     else (''members'', [], ''corporation membership''))"

definition openTool :: "toolEnv \<Rightarrow> string \<Rightarrow> Corporation tool" where
  \<comment> \<open>what each handler does first: the character's corporation, then the gate\<close>
  "openTool E tool =
    (if tool = ''eve_corp_mining''
     then thenT (ResolveCorporation E) (Wrap (eveOp ''eveCorpMining'')) (\<lambda>corp.
       case corpMiningGate corp of Some e \<Rightarrow> failT e | None \<Rightarrow> doneT corp)
     else (case gateOf tool of (s, r, what) \<Rightarrow> openCorp E s r what))"

definition gatedTools :: "string list" where
  \<comment> \<open>the corporation tools but the overview\<close>
  "gatedTools = [''eve_corp_assets_list'', ''eve_corp_assets_find'', ''eve_corp_blueprints'',
     ''eve_corp_wallet'', ''eve_corp_industry_jobs'', ''eve_corp_mining'', ''eve_corp_orders'', ''eve_corp_contracts'',
     ''eve_corp_killmails'', ''eve_corp_structures'', ''eve_corp_members'']"

lemmas gate_defs = RequireGranted_def HasGranted_def RequirePlayerCorp_def RequireCorpRole_def Let_def

lemma corpGate_None:
  "corpGate corp s r what = None \<longleftrightarrow> \<not> IsNPC corp \<and> List.member (corpScopes corp) (corpScope s)
     \<and> (r = [] \<or> corpRole r = [] \<or> HasRole corp (corpRole r))"
  by (simp add: corpGate_def gate_defs)

lemma mining_roles:
  "HasRole corp (corpRole ''mining_ledger'') \<or> HasRole corp (corpRole ''mining_extractions'')
     \<longleftrightarrow> HasRole corp [''Accountant'', ''Station_Manager'']"
  by (auto simp: HasRole_def corpRole_def)

lemma corpMiningGate_None:
  "corpMiningGate corp = None \<longleftrightarrow> \<not> IsNPC corp \<and> List.member (corpScopes corp) (corpScope ''mining'')
     \<and> (HasRole corp (corpRole ''mining_ledger'') \<or> HasRole corp (corpRole ''mining_extractions''))"
  by (simp add: corpMiningGate_def gate_defs mining_roles)

lemma in_available:
  "tool \<in> set (availableCorpTools corp) \<longleftrightarrow> tool = ''eve_corp_overview''
     \<or> (\<exists>(name, scope, role) \<in> set corpToolCatalog. name = tool \<and> List.member (corpScopes corp) (corpScope scope)
         \<and> (role = [] \<or> HasRole corp (corpRole role)))
     \<or> tool = ''eve_corp_mining'' \<and> List.member (corpScopes corp) (corpScope ''mining'')
         \<and> (HasRole corp (corpRole ''mining_ledger'') \<or> HasRole corp (corpRole ''mining_extractions''))"
  by (force simp: availableCorpTools_def)

lemma gated_roles_nonempty:
  "corpRole ''assets'' \<noteq> []" "corpRole ''blueprints'' \<noteq> []" "corpRole ''wallets'' \<noteq> []" "corpRole ''jobs'' \<noteq> []"
  "corpRole ''orders'' \<noteq> []" "corpRole ''killmails'' \<noteq> []" "corpRole ''structures'' \<noteq> []"
  by (simp_all add: corpRole_def)

lemma openCorp_opens:
  assumes "ResolveCorporation E t = (Inr corp, t1)"
  shows "fst (openCorp E s r what t) = Inr corp \<longleftrightarrow> corpGate corp s r what = None"
  using assms by (simp add: openCorp_def thenT_def failT_def doneT_def split: option.split)

lemma openTool_opens:
  assumes "ResolveCorporation E t = (Inr corp, t1)"
  shows "fst (openTool E tool t) = Inr corp \<longleftrightarrow>
    (if tool = ''eve_corp_mining'' then corpMiningGate corp
     else corpGate corp (fst (gateOf tool)) (fst (snd (gateOf tool))) (snd (snd (gateOf tool)))) = None"
proof (cases "tool = ''eve_corp_mining''")
  case True
  then show ?thesis using assms by (simp add: openTool_def thenT_def failT_def doneT_def split: option.split)
next
  case False
  then show ?thesis using openCorp_opens [OF assms] by (simp add: openTool_def case_prod_unfold)
qed

lemma listed_open:
  assumes "ResolveCorporation E t = (Inr corp, t1)" "\<not> IsNPC corp" "tool \<in> set gatedTools"
  shows "tool \<in> set (availableCorpTools corp) \<longleftrightarrow> fst (openTool E tool t) = Inr corp"
  using assms(3) unfolding gatedTools_def list.set insert_iff empty_iff
  by (elim disjE) (simp_all add: openTool_opens [OF assms(1)] in_available corpToolCatalog_def gateOf_def corpGate_None
      corpMiningGate_None assms(2) gated_roles_nonempty)

lemma npc_shut:
  assumes "ResolveCorporation E t = (Inr corp, t1)" "IsNPC corp"
  shows "fst (openTool E tool t) \<noteq> Inr corp"
  unfolding openTool_opens [OF assms(1)] using assms(2)
  by (metis corpGate_None corpMiningGate_None)

subsection \<open>What the overview reports\<close>

lemma lookupAny_mapPut [simp]: "lookupAny (mapPut k v m) k' = (if k' = k then v else lookupAny m k')"
  by (simp add: lookupAny_def)

lemma map_of_filter_keep: "map_of m k = Some v \<Longrightarrow> P (k, v) \<Longrightarrow> map_of (filter P m) k = Some v"
  by (induction m) (auto split: if_splits)

lemma lookupAny_keepEmpty:
  assumes "List.member keep k \<or> \<not> emptyVal (lookupAny m k)"
  shows "lookupAny (keepEmpty m keep) k = lookupAny m k"
proof (cases "map_of m k")
  case None
  then have "map_of (keepEmpty m keep) k = None" by (force simp: keepEmpty_def map_of_eq_None_iff)
  then show ?thesis using None by (simp add: lookupAny_def)
next
  case (Some v)
  then have "map_of (keepEmpty m keep) k = Some v"
    using assms map_of_filter_keep [OF Some, of "\<lambda>(k, v). emptyVal v \<longrightarrow> List.member keep k"]
    by (auto simp: keepEmpty_def lookupAny_def)
  then show ?thesis using Some by (simp add: lookupAny_def)
qed

lemma next_step_keeps [simp]:
  "k \<noteq> ''next_step'' \<Longrightarrow> lookupAny (corpOverviewNextStep corp out) k = lookupAny out k"
  by (simp add: corpOverviewNextStep_def Let_def)

lemma next_step_says_no_roles:
  assumes "set CorpReadScopes \<subseteq> set (corpScopes corp)" "lookupAny out ''available_tools'' = VStrs tools"
  shows "lookupAny (corpOverviewNextStep corp out) ''next_step'' = VStr noCorpRoles"
proof -
  have "filter (\<lambda>sc. \<not> HasGranted (corpScopes corp) sc) CorpReadScopes = []"
    using assms(1) by (auto simp: filter_empty_conv HasGranted_def)
  then show ?thesis using assms(2) by (simp add: corpOverviewNextStep_def rowsOf_def jSlice_def Let_def)
qed

lemma overview_result:
  assumes "ResolveCorporation E t = (Inr corp, t1)" "corpOverviewIdentity E corp t1 = (Inr out, t2)"
  obtains out1 t3 where "eveCorpOverview E t = (Inr (VMap (keepEmpty
      (if IsNPC corp then mapPut ''available_tools'' (VStrs []) out1
       else corpOverviewNextStep corp (mapPut ''available_tools'' (VStrs (availableCorpTools corp)) out1))
      [''roles'', ''available_tools''])), t3)"
proof (cases "IsNPC corp")
  case True
  then show ?thesis using that assms by (simp add: eveCorpOverview_def thenT_def doneT_def)
next
  case False
  obtain divs t3 where d: "corpDivisions E corp t2 = (divs, t3)" by (cases "corpDivisions E corp t2")
  obtain out1 t4 where w: "corpOverviewAttachWallets E corp divs (corpOverviewAttachDivisions divs out) t3 = (out1, t4)"
    by (cases "corpOverviewAttachWallets E corp divs (corpOverviewAttachDivisions divs out) t3")
  show ?thesis using that [of out1 t4] False assms d w by (simp add: eveCorpOverview_def thenT_def doneT_def)
qed

lemma overview_needs_identity:
  assumes "ResolveCorporation E t = (Inr corp, t1)" "eveCorpOverview E t = (Inr v, t2)"
  shows "\<exists>out t3. corpOverviewIdentity E corp t1 = (Inr out, t3)"
proof (cases "corpOverviewIdentity E corp t1")
  case (Pair r t3)
  then show ?thesis using assms by (cases r) (simp_all add: eveCorpOverview_def thenT_def)
qed

text \<open>
  C40. The tools the corporation overview lists are exactly those that open: of the eleven gated
  tools, one is listed under available_tools if and only if its handler, called in the same
  state, gets past the corporation gate (a player corporation, the scope of the tool, one of its
  roles). What the overview says to do next is another matter: when every corporation scope is
  granted, it tells every member of a player corporation that ESI honours none of the
  character's roles, whatever it listed.
\<close>
theorem corp_overview_lists_the_open_tools:
  assumes "ResolveCorporation E t = (Inr corp, t1)" "eveCorpOverview E t = (Inr (VMap m), t2)"
  shows "\<exists>tools. lookupAny m ''available_tools'' = VStrs tools
     \<and> (\<forall>tool \<in> set gatedTools. tool \<in> set tools \<longleftrightarrow> fst (openTool E tool t) = Inr corp)
     \<and> (\<not> IsNPC corp \<longrightarrow> set CorpReadScopes \<subseteq> set (corpScopes corp) \<longrightarrow> lookupAny m ''next_step'' = VStr noCorpRoles)"
proof -
  obtain out t3 where i: "corpOverviewIdentity E corp t1 = (Inr out, t3)"
    using overview_needs_identity [OF assms(1)] assms(2) by blast
  obtain out1 where m: "m = keepEmpty (if IsNPC corp then mapPut ''available_tools'' (VStrs []) out1
       else corpOverviewNextStep corp (mapPut ''available_tools'' (VStrs (availableCorpTools corp)) out1))
      [''roles'', ''available_tools'']"
    by (rule overview_result [OF assms(1) i]) (simp add: assms(2))
  show ?thesis
  proof (cases "IsNPC corp")
    case True
    then show ?thesis using npc_shut [OF assms(1) True] by (simp add: m lookupAny_keepEmpty)
  next
    case False
    let ?out = "mapPut ''available_tools'' (VStrs (availableCorpTools corp)) out1"
    have "lookupAny m ''next_step'' = VStr noCorpRoles" if "set CorpReadScopes \<subseteq> set (corpScopes corp)"
      using next_step_says_no_roles [OF that, of ?out] False
      by (simp add: m lookupAny_keepEmpty emptyVal_def noCorpRoles_def)
    then show ?thesis using listed_open [OF assms(1) False] False by (simp add: m lookupAny_keepEmpty)
  qed
qed

text \<open>
  One run on sample data: the corporation's sheets are in the cache, every scope is granted.
\<close>

definition corpSheet :: object where
  "corpSheet = [(''corporation_id'', VInt 98000001), (''name'', VStr ''Miners''), (''ticker'', VStr ''MNR'')]"

definition corpEnv :: toolEnv where
  "corpEnv = \<lparr>te_net = plainNet (\<lambda>_. Some (VMap corpSheet)) ''x'', te_lib = plainLib, te_errText = (\<lambda>_. [])\<rparr>"

definition sheetAnswer :: cachedResponse where
  "sheetAnswer = \<lparr>cr_Body = ''x'', cr_ETag = [], cr_ExpiresAt = 100, cr_StoredAt = 0, cr_Pages = None\<rparr>"

definition keyOf :: "Route \<Rightarrow> string" where
  "keyOf route = (case cacheKey (te_net corpEnv) (rt_raw route) None [] of Inr k \<Rightarrow> k | Inl _ \<Rightarrow> [])"

definition corpCache :: responseCache where
  "corpCache = \<lparr>rc_ll = [(keyOf (charRoute 7 []), sheetAnswer), (keyOf (corpRoute 98000001 []), sheetAnswer)], rc_bytes = 2\<rparr>"

definition corpState :: toolState where
  "corpState = \<lparr>ts_w = fullW, ts_sess = sampleSess, ts_rdr = NewResolver (ForUser second corpCache)\<rparr>"

lemma corp_key: "cacheKey (te_net corpEnv) (rt_raw route) None [] = Inr (keyOf route)"
  by (simp add: keyOf_def cacheKey_def canonicalKey_def jsonObject_def corpEnv_def plainNet_def answerNet_def)

lemma corp_read:
  assumes "entry (keyOf route) (rc_ll (ec_cache (esiOf t))) = Some sheetAnswer" "w_now (ts_w t) < 100"
  shows "\<exists>r t1. getT corpEnv route None [] t = (Inr r, t1) \<and> er_Data r = VMap corpSheet
     \<and> rc_ll (ec_cache (esiOf t1)) = MoveToFront (keyOf route) (rc_ll (ec_cache (esiOf t)))
     \<and> ts_w t1 = ts_w t"
proof -
  let ?c = "(esiOf t)\<lparr>ec_now := w_now (ts_w t)\<rparr>"
  have "cachedGet (te_net corpEnv) (rt_raw route) None [] None ?c
      = (Inr (cachedResult (te_net corpEnv) (w_now (ts_w t)) sheetAnswer), ?c\<lparr>ec_cache := snd (rcGet (keyOf route) (ec_cache ?c))\<rparr>)"
    using cachedGet_hit [OF corp_key, where c = ?c and v = sheetAnswer] assms by (simp add: rcGet_def Fresh_def sheetAnswer_def)
  then show ?thesis using assms(1)
    by (simp add: getT_def onRdr_def ask_def onEsi_def esiGet_def cachedResult_def crData_def corpEnv_def plainNet_def
        sheetAnswer_def rcGet_def)
qed

lemma full_character:
  "\<exists>tok w'. Character sampleSess fullW = (Inr tok, w') \<and> tk_CharacterID tok = 7
     \<and> tk_Scopes tok = RequestedScopes \<and> w_now w' = 9"
  by (simp add: Character_def sampleSess_def fullW_def world0_def LiveByID_def runStmt_ok liveStmt_def
      sampleDb_def empty_db_def liveAt_def unrevoked_def scanSession_def Characters_Get_def characterRow_def
      Live_def revokeIfScopesFallShort_def wrapA_def wrapR_def)

lemma sheet_fields:
  "intOf corpEnv corpSheet ''corporation_id'' = 98000001" "lookupAny corpSheet ''alliance_id'' = VNil"
  "lookupAny corpSheet ''ceo_id'' = VNil"
  by (simp_all add: corpSheet_def jInt_def jFloat_def truncInt_def)

lemma corp_resolves:
  "\<exists>corp t1. ResolveCorporation corpEnv corpState = (Inr corp, t1) \<and> co_CorporationID corp = 98000001
     \<and> corpScopes corp = RequestedScopes \<and> co_Public corp = corpSheet"
proof -
  obtain tok w where c: "Character sampleSess fullW = (Inr tok, w)" and tok: "tk_CharacterID tok = 7"
    "tk_Scopes tok = RequestedScopes" and w: "w_now w = 9"
    using full_character by blast
  let ?t = "corpState\<lparr>ts_w := w\<rparr>"
  have ch: "characterT corpState = (Inr tok, ?t)"
    using c by (simp add: characterT_def onWorld_def corpState_def)
  have e: "entry (keyOf (charRoute 7 [])) (rc_ll (ec_cache (esiOf ?t))) = Some sheetAnswer"
    by (simp add: corpState_def NewResolver_def ForUser_def corpCache_def)
  obtain r1 t1 where g1: "getT corpEnv (charRoute 7 []) None [] ?t = (Inr r1, t1)" "er_Data r1 = VMap corpSheet"
    "rc_ll (ec_cache (esiOf t1)) = MoveToFront (keyOf (charRoute 7 [])) (rc_ll (ec_cache (esiOf ?t)))" "ts_w t1 = w"
    using corp_read [OF e] w by auto
  have e1: "entry (keyOf (corpRoute 98000001 [])) (rc_ll (ec_cache (esiOf t1))) = Some sheetAnswer"
    by (simp add: g1 MoveToFront_def) (simp add: corpState_def NewResolver_def ForUser_def corpCache_def)
  obtain r2 t2 where g2: "getT corpEnv (corpRoute 98000001 []) None [] t1 = (Inr r2, t2)" "er_Data r2 = VMap corpSheet"
    using corp_read [OF e1] g1(4) w by auto
  obtain payload t3 where p: "rolesPayload corpEnv tok t2 = (payload, t3)" by (cases "rolesPayload corpEnv tok t2")
  have m: "jMap (VMap corpSheet) = corpSheet" by (simp add: jMap_def)
  show ?thesis
    using ch tok g1(1,2) g2 p sheet_fields(1)
    by (simp add: ResolveCorporation_def thenT_def doneT_def m corporationOf_def domainToken_def Let_def)
qed

lemma corp_identity:
  assumes "co_Public corp = corpSheet"
  shows "\<exists>out t1. corpOverviewIdentity corpEnv corp t = (Inr out, t1)"
proof -
  have "idsFrom (te_net corpEnv) [lookupAny (co_Public corp) ''alliance_id'', lookupAny (co_Public corp) ''ceo_id''] = []"
    by (simp add: assms sheet_fields idsFrom_def jInt_def jFloat_def truncInt_def)
  then show ?thesis
    by (simp add: corpOverviewIdentity_def thenT_def namesT_def onRdr_def Names_def uniquePositive_def doneT_def Let_def
        split: prod.split sum.split)
qed

theorem corp_overview_lists_the_open_tools_witness:
  "\<exists>m t2. eveCorpOverview corpEnv corpState = (Inr (VMap m), t2)
     \<and> (\<exists>tools. lookupAny m ''available_tools'' = VStrs tools \<and> ''eve_corp_members'' \<in> set tools)
     \<and> lookupAny m ''next_step'' = VStr noCorpRoles"
proof -
  obtain corp t1 where r: "ResolveCorporation corpEnv corpState = (Inr corp, t1)" and id: "co_CorporationID corp = 98000001"
    and sc: "corpScopes corp = RequestedScopes" and pub: "co_Public corp = corpSheet"
    using corp_resolves by blast
  obtain out t3 where i: "corpOverviewIdentity corpEnv corp t1 = (Inr out, t3)" using corp_identity [OF pub] by blast
  obtain m t2 where o: "eveCorpOverview corpEnv corpState = (Inr (VMap m), t2)"
    using overview_result [OF r i, of "\<exists>m t2. eveCorpOverview corpEnv corpState = (Inr (VMap m), t2)"] by blast
  have p: "\<not> IsNPC corp" by (simp add: IsNPC_def id PlayerCorpIDFloor_def)
  have s: "set CorpReadScopes \<subseteq> set (corpScopes corp)" by (auto simp: sc set_RequestedScopes CorpScopeSet_def)
  have "corpScope ''members'' \<in> set CorpReadScopes" by (simp add: corpScope_def CorpReadScopes_def)
  then have "fst (openTool corpEnv ''eve_corp_members'' corpState) = Inr corp"
    using s p by (auto simp: openTool_opens [OF r] gateOf_def corpGate_None)
  moreover have "''eve_corp_members'' \<in> set gatedTools" by (simp add: gatedTools_def)
  ultimately show ?thesis
    using corp_overview_lists_the_open_tools [OF r o] o p s by blast
qed

end
