(* ===== verification/Spec2Isabelle.thy ===== *)
theory Spec2Isabelle
  imports System MailCap ErrorMap Policy EsiPages EveCommonProps EveWriteProps SignIn Limiter CorpProps
begin

text \<open>
  A model of the EVE Online MCP server (Go, under src/internal), a service that lets an MCP
  client act for EVE characters: it signs users in at CCP's SSO, keeps their sessions and
  refresh tokens in Postgres, serves read tools over CCP's ESI through a cache, and lets a
  changing tool run only after a preview and a confirm token.

  \<^bold>\<open>Parts and how they interact.\<close> A client registers and starts a login (usecase/oauth), the
  browser comes back with a code from CCP, the grant is parked under an authorization code, the
  client exchanges the code for tokens (usecase/oauth, usecase/session) and every MCP request is
  checked against the live session of its token. A tool asks the session for an access token
  (usecase/session/grant.go), reads ESI through the client of its user (adapter/esi/http), turns
  ids into names and names into ids with the resolver (adapter/esi/http/resolver.go), and a
  changing tool (usecase/eve/writes_*.go) asks the write guard (domain/write). The repositories (domain/*/pgx) hold all
  shared state; the sweeper (usecase/sweep) removes what has expired.

  \<^bold>\<open>Theories, bottom up.\<close>
  \<^item> \<open>Prelude\<close>: times as nanoseconds, dynamic values (\<open>any\<close>), strings as bytes, SQL's row
    operations on lists. \<open>GoErrors\<close>, \<open>ErrorMap\<close>: error trees with \<open>errors.Is\<close> and
    \<open>errors.As\<close>, and what the caller gets to see of them (usecase/session/errors.go,
    usecase/eve/errors.go, service/http/errors.go).
  \<^item> \<open>Policy\<close>, \<open>Utf8\<close>, \<open>Summary\<close>, \<open>Json\<close>, \<open>Sha256\<close>: scopes and capabilities
    (domain/write/policy.go), Go's runes, audit summaries (domain/write/summary.go),
    \<open>encoding/json\<close> of dynamic values, SHA-256.
  \<^item> \<open>Store\<close>, \<open>Schema\<close>: the database as tables, one \<open>action\<close> per statement, faults as a list
    of outcomes of the statements to come, transactions that restore the tables (postgres/tx.go),
    and the invariant \<open>wf_db\<close> of the schema's constraints.
  \<^item> \<open>SessionRepo\<close>, \<open>OneShot\<close>, \<open>ConfirmRepo\<close>, \<open>PeopleRepo\<close>, \<open>MutationRepo\<close>: the
    repositories of domain/, each operation with its statements and error branches; the locales
    \<open>session_invariant\<close> and \<open>repositories\<close> state what an invariant must satisfy for them and
    are interpreted on \<open>wf_db\<close>.
  \<^item> \<open>Guard\<close>, \<open>GuardProps\<close>, \<open>MailCap\<close>: the write guard (domain/write/guard.go): previews,
    confirm tokens, the mail cap with its advisory lock and every interleaving of senders.
  \<^item> \<open>SsoApi\<close>, \<open>SessionUse\<close>, \<open>SessionProps\<close>: redeeming, logging out, access tokens and
    their rotation, the character gate (usecase/session).
  \<^item> \<open>Tokens\<close>, \<open>OAuth\<close>, \<open>OAuthProps\<close>, \<open>LoginProps\<close>: the authorization server
    (usecase/oauth).
  \<^item> \<open>SsoClient\<close>, \<open>SsoProps\<close>, \<open>SignIn\<close>: the client of CCP's sign-in service
    (adapter/sso/http), and the authorization server on it; the locale \<open>sign_in_service\<close> states
    what a login relies on and is interpreted on the client.
  \<^item> \<open>Limiter\<close>: the limit on public requests (service/http/limit.go).
  \<^item> \<open>Sweep\<close>: the sweeper's rules (usecase/sweep).
  \<^item> \<open>System\<close>: histories of requests, tool calls, logouts, sweeps and failing statements over
    all of the above.
  \<^item> \<open>EsiLimits\<close>, \<open>EsiCache\<close>, \<open>EsiJson\<close>, \<open>EsiHttp\<close>, \<open>EsiProps\<close>, \<open>EsiPages\<close>: the
    ESI client (adapter/esi/http): token bucket, error budget, the two LRU caches (locales
    \<open>recency_cache\<close> and \<open>counted_cache\<close>), requests with their retries, conditional GETs,
    paged reads, and histories of several users over one cache.
  \<^item> \<open>Resolver\<close>, \<open>ResolverProps\<close>: names, ids and prices (adapter/esi/http/resolver.go, path.go,
    names.go) on the caches all users share.
  \<^item> \<open>EveCommon\<close>, \<open>EveCommonProps\<close>: paging, projection, formatting, argument checks and root
    locations that the tools share (usecase/eve/common.go, enum.go, errors.go).
  \<^item> \<open>EveWrites\<close>, \<open>EveWriteProps\<close>: the eleven changing tools (usecase/eve/writes_*.go,
    record.go), each a whole handler from the character to the audit log; the locale
    \<open>write_gate\<close> states what a tool relies on in guard and log.
  \<^item> \<open>Corp\<close>, \<open>CorpProps\<close>: the corporation of a session (usecase/session/session.go), the gate
    in front of the corporation tools, and the overview, roster, structures and mining tools
    (usecase/eve/corp*.go).

  \<^bold>\<open>State.\<close> \<open>world\<close> (\<open>Store\<close>) is the database, the clock, the randomness, the statement
  faults, the in-memory grants (\<open>w_grants\<close>), the advisory locks and what was sent to CCP's
  revocation endpoint. A \<open>Server\<close> keeps its sessions by character, a \<open>Guard\<close> its mail hold.
  An ESI client is the record \<open>esi\<close>: clock, error remainder, bucket, budget, cache and the
  requests handed to the transport. A resolver is the record \<open>rdr\<close>: the ESI client, the name
  cache, the blobs and the prices. A tool runs on a \<open>toolState\<close>: the world, the session with its
  guard, and the resolver.

  \<^bold>\<open>What the lemmas show.\<close> The invariant lemmas say that every operation, whatever fails, keeps
  the tables well formed, up to whole histories. The safety properties follow one credential
  each: a confirm token, an authorization code, a session, a refresh token, the proof key of a
  login. The functional ones say what an operation does on each branch. The ESI properties bound
  what reaches CCP, trace every cached answer to a request of the same character, and relate the
  caches and the cursor walk to a map and to a list without repetitions. The resolver's say which
  match is chosen for a name, whatever order Go iterates in, and that every id gets a name. The
  tool properties join guard, resolver and client: what a tool sends is a read, or exactly the
  change its confirm token was issued for, and the corporation overview lists exactly the tools
  that open.

  \<^bold>\<open>Bounds and termination.\<close> Every definition is total. \<open>request\<close> recurses at most three times
  because \<open>attempt\<close> grows to 2; eviction removes an entry each turn; a cursor walk has as many
  steps as pages allowed; batches of names shrink the list; the walk to an item's outermost
  container (\<open>rootWalk\<close>) puts a new item of the finite list on its chain each turn, also when the
  containers form a cycle. No fuel is used.

  \<^bold>\<open>Parameters.\<close> Code outside src/ is an argument: the JWT and URL libraries, the sign-in
  service, the network below the ESI client (\<open>nt_send\<close>: the outcome of a send given everything
  sent before it), JSON decoding, float and date parsing, float formatting, randomness. Integers
  are unbounded except where words are written (the advisory lock key); \<open>float64\<close> arithmetic is
  rational; one locked operation reads the clock once. Repositories run one statement at a
  time, and concurrency is interleaving of such steps (\<open>MailCap\<close>, \<open>System\<close>) or of the
  bucket's and the caches' locked operations.

  \<^bold>\<open>Not modelled.\<close> The read tools of usecase/eve other than the four of \<open>Corp\<close> (account,
  character, assets, wallet, market, industry, universe, social, the other corporation tools):
  they lay out rows from the modelled reads. Their registration with the MCP library and their
  documentation texts, generated code (api.gen.go) and mocks, connection handling, migrations and
  start-up (cmd, postgres.Open, listeners), HTML pages, logging and metrics, the test helpers and
  source checks (tests, pgtest, esitest).
\<close>

end
